(* ===== verification/IM_Prelude.thy ===== *)
theory IM_Prelude
  imports Complex_Main "HOL-Library.Word" "HOL-Library.State_Monad" "HOL-Library.AList" "HOL-Library.Char_ord" "HOL-Library.List_Lexorder"
begin

unbundle bit_operations_syntax

text \<open>
  The shared ground of the development: Go's byte strings and 64-bit integers, decimal
  printing (\<open>fmt.Sprintf "%d"\<close>), Go maps as association lists, the state monad in which the
  stateful handlers are written, and the compositional reasoning about it (which relation
  between the state before and after does a computation keep).

  Conventions used in every theory: a Go \<open>string\<close> or \<open>[]byte\<close> is a list of 8-bit characters;
  a Go map is an association list with distinct keys, whose order stands for Go's unspecified
  iteration order; log output is not modelled.
\<close>

section \<open>Fact collections\<close>

named_theorems run_simps \<open>how a computation of the state monad runs\<close>
named_theorems i64_simps \<open>64-bit wrap-around that does not happen\<close>
named_theorems gomap_simps \<open>lookups in updated Go maps\<close>

section \<open>Go strings, integers and printing\<close>

type_synonym bytes = string

definition i64 :: "int \<Rightarrow> int" where
  "i64 x = signed_take_bit 63 x"

text \<open>The conversion \<open>int32(x)\<close>.\<close>

definition i32 :: "int \<Rightarrow> int" where
  "i32 x = signed_take_bit 31 x"

definition in_i64 :: "int \<Rightarrow> bool" where
  "in_i64 x \<longleftrightarrow> - (2 ^ 63) \<le> x \<and> x < 2 ^ 63"

lemma i64_id [i64_simps]: "in_i64 x \<Longrightarrow> i64 x = x"
  by (simp add: i64_def in_i64_def signed_take_bit_int_eq_self)

lemma in_i64_i64: "in_i64 (i64 x)"
  using signed_take_bit_int_greater_eq_minus_exp [of 63 x] signed_take_bit_int_less_exp [of 63 x]
  by (simp add: i64_def in_i64_def)

definition digit :: "nat \<Rightarrow> char" where
  "digit d = char_of (48 + d)"

fun show_nat :: "nat \<Rightarrow> string" where
  "show_nat n = (if n < 10 then [digit n] else show_nat (n div 10) @ [digit (n mod 10)])"

declare show_nat.simps [simp del]

definition show_int :: "int \<Rightarrow> string" where
  "show_int x = (if x < 0 then CHR ''-'' # show_nat (nat (- x)) else show_nat (nat x))"

definition undigit :: "char \<Rightarrow> nat" where
  "undigit c = of_char c - 48"

definition read_nat :: "string \<Rightarrow> nat" where
  "read_nat s = foldl (\<lambda>acc c. acc * 10 + undigit c) 0 s"

lemma undigit_digit: "d < 10 \<Longrightarrow> undigit (digit d) = d"
  by (simp add: undigit_def digit_def)

lemma read_nat_snoc: "read_nat (s @ [c]) = read_nat s * 10 + undigit c"
  by (simp add: read_nat_def)

lemma read_show_nat: "read_nat (show_nat n) = n"
proof (induction n rule: show_nat.induct)
  case (1 n)
  show ?case
  proof (cases "n < 10")
    case True
    then show ?thesis by (subst show_nat.simps) (simp add: read_nat_def undigit_digit)
  next
    case False
    with 1 show ?thesis by (subst show_nat.simps) (simp add: read_nat_snoc undigit_digit)
  qed
qed

lemma digit_code: "d < 10 \<Longrightarrow> (of_char (digit d) :: nat) = 48 + d"
  by (simp add: digit_def)

lemma set_show_nat: "c \<in> set (show_nat n) \<Longrightarrow> (of_char c :: nat) \<in> {48..57}"
proof (induction n rule: show_nat.induct)
  case (1 n)
  show ?case
  proof (cases "n < 10")
    case True
    with "1.prems" show ?thesis by (subst (asm) show_nat.simps) (simp add: digit_code)
  next
    case False
    with "1.prems" have "c \<in> set (show_nat (n div 10)) \<or> c = digit (n mod 10)"
      by (subst (asm) show_nat.simps) auto
    with 1 False show ?thesis by (auto simp: digit_code)
  qed
qed

lemma show_nat_not_Nil: "show_nat n \<noteq> []"
  by (subst show_nat.simps) simp

lemma show_nat_inject: "show_nat m = show_nat n \<longleftrightarrow> m = n"
  by (metis read_show_nat)

lemma minus_not_in_show_nat: "CHR ''-'' \<notin> set (show_nat n)"
  using set_show_nat by force

lemma show_int_inject: "show_int x = show_int y \<longleftrightarrow> x = y"
proof
  assume eq: "show_int x = show_int y"
  have hd_nat: "hd (show_nat n) \<noteq> CHR ''-''" for n
    using minus_not_in_show_nat [of n] show_nat_not_Nil [of n] hd_in_set by metis
  have neg: "(x < 0) = (y < 0)"
    using eq hd_nat by (auto simp: show_int_def split: if_splits) (metis list.sel(1))+
  show "x = y"
    using eq neg by (auto simp: show_int_def show_nat_inject split: if_splits)
qed simp

lemma colon_not_in_show_int: "CHR '':'' \<notin> set (show_int x)"
proof -
  have "CHR '':'' \<notin> set (show_nat n)" for n
    using set_show_nat [of "CHR '':''" n] by force
  then show ?thesis by (simp add: show_int_def)
qed

text \<open>A key of the form \<open>s:d\<close> determines both parts when \<open>d\<close> has no colon.\<close>

lemma append_sep_inject:
  assumes "c \<notin> set d" and "c \<notin> set d'" and "s @ c # d = s' @ c # d'"
  shows "s = s' \<and> d = d'"
proof -
  have eq: "rev d @ c # rev s = rev d' @ c # rev s'"
    using arg_cong [where f = rev, OF assms(3)] by simp
  have front: "takeWhile (\<lambda>x. x \<noteq> c) (rev e @ c # t) = rev e" if "c \<notin> set e" for e t
    using that by (subst takeWhile_append2) auto
  have "rev d = rev d'"
    using front [OF assms(1), of "rev s"] front [OF assms(2), of "rev s'"] eq by simp
  with eq show ?thesis by simp
qed

section \<open>Go maps\<close>

type_synonym ('k, 'v) gomap = "('k \<times> 'v) list"

abbreviation gomap_ok :: "('k, 'v) gomap \<Rightarrow> bool" where
  "gomap_ok m \<equiv> distinct (map fst m)"

definition has_key :: "('k, 'v) gomap \<Rightarrow> 'k \<Rightarrow> bool" where
  "has_key m k \<longleftrightarrow> map_of m k \<noteq> None"

declare map_of_eq_Some_iff [simp del] Some_eq_map_of_iff [simp del]

lemma has_key_iff: "has_key m k \<longleftrightarrow> k \<in> fst ` set m"
  by (simp add: has_key_def map_of_eq_None_iff)

lemma map_of_update [gomap_simps]: "map_of (AList.update k v m) = (map_of m)(k \<mapsto> v)"
  by (rule update_conv')

lemma map_of_delete [gomap_simps]: "map_of (AList.delete k m) = (map_of m)(k := None)"
  by (rule delete_conv')

lemma has_key_update [gomap_simps]: "has_key (AList.update k v m) k' \<longleftrightarrow> k' = k \<or> has_key m k'"
  by (auto simp: has_key_def map_of_update)

lemma has_key_delete [gomap_simps]: "has_key (AList.delete k m) k' \<longleftrightarrow> k' \<noteq> k \<and> has_key m k'"
  by (auto simp: has_key_def map_of_delete)

lemma gomap_ok_update [simp, intro]: "gomap_ok m \<Longrightarrow> gomap_ok (AList.update k v m)"
  by (rule distinct_update)

lemma gomap_ok_delete [simp, intro]: "gomap_ok m \<Longrightarrow> gomap_ok (AList.delete k m)"
  by (rule distinct_delete)

lemma length_update [gomap_simps]:
  "length (AList.update k v m) = (if has_key m k then length m else Suc (length m))"
  by (induction m) (auto simp: has_key_def)

lemma length_delete [gomap_simps]:
  "gomap_ok m \<Longrightarrow> length (AList.delete k m) = (if has_key m k then length m - 1 else length m)"
proof (induction m)
  case Nil
  then show ?case by (simp add: has_key_def)
next
  case (Cons p m)
  obtain j w where p: "p = (j, w)" by (cases p)
  show ?case
  proof (cases "j = k")
    case True
    with Cons.prems p have "k \<notin> fst ` set m" by simp
    then have "AList.delete k m = m" by (rule delete_id)
    with p True show ?thesis by (simp add: has_key_def)
  next
    case False
    with Cons p have "has_key m k \<Longrightarrow> length m > 0"
      by (auto simp: has_key_def)
    with Cons p False show ?thesis by (auto simp: has_key_def)
  qed
qed

lemma update_not_Nil [simp]: "AList.update k v m \<noteq> []"
  by (cases m) (auto split: if_splits)

lemma snd_set_update: "snd ` set (AList.update k v m) \<subseteq> insert v (snd ` set m)"
  by (induction m) auto

lemma fst_set_update: "fst ` set (AList.update k v m) = insert k (fst ` set m)"
  by (simp add: dom_update)

lemma fst_set_delete: "fst ` set (AList.delete k m) = fst ` set m - {k}"
  by (auto simp: AList.delete_eq)

lemma map_of_filter_gomap:
  "gomap_ok m \<Longrightarrow>
    map_of (filter P m) k = (case map_of m k of None \<Rightarrow> None | Some v \<Rightarrow> if P (k, v) then Some v else None)"
proof (induction m)
  case (Cons p m)
  then show ?case
    by (cases p) (auto split: option.splits simp: map_of_eq_None_iff image_iff dest: map_of_SomeD)
qed simp

section \<open>Computations with state\<close>

definition gets :: "('s \<Rightarrow> 'a) \<Rightarrow> ('s, 'a) state" where
  "gets f = State (\<lambda>s. (f s, s))"

definition modify :: "('s \<Rightarrow> 's) \<Rightarrow> ('s, unit) state" where
  "modify f = State (\<lambda>s. ((), f s))"

definition skip :: "('s, unit) state" where
  "skip = State_Monad.return ()"

definition on :: "bool \<Rightarrow> ('s, unit) state \<Rightarrow> ('s, unit) state" where
  "on b m = (if b then m else skip)"

text \<open>Go's \<open>for _, x := range xs\<close>.\<close>

fun for_each :: "'a list \<Rightarrow> ('a \<Rightarrow> ('s, unit) state) \<Rightarrow> ('s, unit) state" where
  "for_each [] f = skip"
| "for_each (x # xs) f = do { f x; for_each xs f }"

lemma run_bind [run_simps]:
  "run_state (State_Monad.bind m f) s = (case run_state m s of (a, s') \<Rightarrow> run_state (f a) s')"
  by (simp add: State_Monad.bind_def)

lemma run_return [run_simps]: "run_state (State_Monad.return a) s = (a, s)"
  by (simp add: State_Monad.return_def)

lemma run_gets [run_simps]: "run_state (gets f) s = (f s, s)"
  by (simp add: gets_def)

lemma run_modify [run_simps]: "run_state (modify f) s = ((), f s)"
  by (simp add: modify_def)

lemma run_skip [run_simps]: "run_state skip s = ((), s)"
  by (simp add: skip_def run_return)

lemma run_on [run_simps]: "run_state (on b m) s = (if b then run_state m s else ((), s))"
  by (simp add: on_def run_skip)

lemma run_for_each [run_simps]:
  "run_state (for_each xs f) s = ((), foldl (\<lambda>s x. snd (run_state (f x) s)) s xs)"
  by (induction xs arbitrary: s) (simp_all add: run_simps split: prod.splits)

abbreviation post :: "('s, 'a) state \<Rightarrow> 's \<Rightarrow> 's" where
  "post m s \<equiv> snd (run_state m s)"

abbreviation res :: "('s, 'a) state \<Rightarrow> 's \<Rightarrow> 'a" where
  "res m s \<equiv> fst (run_state m s)"

lemma post_bind: "post (State_Monad.bind m f) s = post (f (res m s)) (post m s)"
  by (simp add: run_bind split: prod.splits)

lemma res_bind: "res (State_Monad.bind m f) s = res (f (res m s)) (post m s)"
  by (simp add: run_bind split: prod.splits)

section \<open>Relations a computation keeps\<close>

text \<open>
  A frame property (\<open>this handler never touches that part of the state\<close>, \<open>this counter only
  grows\<close>, \<open>this invariant is kept\<close>) is a reflexive and transitive relation between the state
  before and after. A computation keeps it if all its steps do; the locale proves the
  composition rules once, and each such relation of the model is an interpretation.
\<close>

definition keeps :: "('s \<Rightarrow> 's \<Rightarrow> bool) \<Rightarrow> ('s, 'a) state \<Rightarrow> bool" where
  "keeps R m \<longleftrightarrow> (\<forall>s. R s (post m s))"

lemma keepsI: "(\<And>s. R s (post m s)) \<Longrightarrow> keeps R m"
  by (simp add: keeps_def)

lemma keepsD: "keeps R m \<Longrightarrow> R s (post m s)"
  by (simp add: keeps_def)

locale step_relation =
  fixes R :: "'s \<Rightarrow> 's \<Rightarrow> bool"
  assumes R_refl: "R s s"
    and R_trans: "R s t \<Longrightarrow> R t u \<Longrightarrow> R s u"
begin

lemma keeps_return: "keeps R (State_Monad.return a)"
  by (simp add: keeps_def run_return R_refl)

lemma keeps_gets: "keeps R (gets f)"
  by (simp add: keeps_def run_gets R_refl)

lemma keeps_skip: "keeps R skip"
  by (simp add: keeps_def run_skip R_refl)

lemma keeps_bind:
  assumes "keeps R m" and "\<And>a. keeps R (f a)"
  shows "keeps R (State_Monad.bind m f)"
proof (rule keepsI)
  fix s
  have "R s (post m s)" using assms(1) by (rule keepsD)
  moreover have "R (post m s) (post (f (res m s)) (post m s))"
    using assms(2) by (rule keepsD)
  ultimately show "R s (post (State_Monad.bind m f) s)"
    unfolding post_bind by (rule R_trans)
qed

lemma keeps_if: "(b \<Longrightarrow> keeps R m) \<Longrightarrow> (\<not> b \<Longrightarrow> keeps R n) \<Longrightarrow> keeps R (if b then m else n)"
  by simp

lemma keeps_on: "(b \<Longrightarrow> keeps R m) \<Longrightarrow> keeps R (on b m)"
  by (simp add: on_def keeps_skip)

lemma keeps_option:
  "(x = None \<Longrightarrow> keeps R m) \<Longrightarrow> (\<And>a. x = Some a \<Longrightarrow> keeps R (f a)) \<Longrightarrow>
    keeps R (case x of None \<Rightarrow> m | Some a \<Rightarrow> f a)"
  by (cases x) simp_all

lemma keeps_sum:
  "(\<And>a. x = Inl a \<Longrightarrow> keeps R (f a)) \<Longrightarrow> (\<And>b. x = Inr b \<Longrightarrow> keeps R (g b)) \<Longrightarrow>
    keeps R (case x of Inl a \<Rightarrow> f a | Inr b \<Rightarrow> g b)"
  by (cases x) simp_all

lemma keeps_prod:
  "(\<And>a b. x = (a, b) \<Longrightarrow> keeps R (f a b)) \<Longrightarrow> keeps R (case x of (a, b) \<Rightarrow> f a b)"
  by (cases x) simp

lemma keeps_let: "(\<And>a. a = x \<Longrightarrow> keeps R (f a)) \<Longrightarrow> keeps R (let a = x in f a)"
  by simp

lemma keeps_for_each: "(\<And>x. x \<in> set xs \<Longrightarrow> keeps R (f x)) \<Longrightarrow> keeps R (for_each xs f)"
  by (induction xs) (simp_all add: keeps_skip keeps_bind)

lemmas keeps_rules =
  keeps_return keeps_gets keeps_skip keeps_bind keeps_if keeps_on
  keeps_option keeps_sum keeps_prod keeps_let keeps_for_each

end

end
