(* ===== verification/Go_Time.thy ===== *)
theory Go_Time
  imports IM_Prelude
begin

text \<open>
  Go's \<open>time\<close> package as far as the gateway uses it. A \<open>time.Time\<close> obtained from
  \<open>time.Now()\<close> carries a wall-clock and a monotonic reading, both in nanoseconds;
  \<open>UnixMilli\<close> reads the wall clock, \<open>Sub\<close> and \<open>Before\<close> the monotonic one.

  A \<^emph>\<open>clock\<close> gives the result of the \<open>k\<close>-th call of \<open>time.Now()\<close> in an execution. The wall
  clock may jump backwards any number of times, but it passes every instant eventually, and
  the monotonic reading never decreases; busy-waiting loops on the clock therefore end.
\<close>

record gotime =
  wall :: int
  mono :: int

typedef clock =
  "{f :: nat \<Rightarrow> gotime. (\<forall>x k. \<exists>j\<ge>k. x < wall (f j)) \<and> (\<forall>i j. i \<le> j \<longrightarrow> mono (f i) \<le> mono (f j))}"
proof -
  let ?f = "\<lambda>k. \<lparr>wall = int k, mono = int k\<rparr>"
  have "\<exists>j\<ge>k. x < wall (?f j)" for x k
    by (rule exI [of _ "max k (Suc (nat x))"]) auto
  moreover have "mono (?f i) \<le> mono (?f j)" if "i \<le> j" for i j
    using that by simp
  ultimately show ?thesis
    by (intro exI [of _ ?f] CollectI conjI allI impI) 
qed

setup_lifting type_definition_clock

lift_definition read_clock :: "clock \<Rightarrow> nat \<Rightarrow> gotime" is "\<lambda>f k. f k" .

lemma clock_progress: "\<exists>j\<ge>k. x < wall (read_clock c j)"
  by transfer blast

lemma clock_mono: "i \<le> j \<Longrightarrow> mono (read_clock c i) \<le> mono (read_clock c j)"
  by transfer blast

definition unixMilli :: "gotime \<Rightarrow> int" where
  "unixMilli t = wall t div 1000000"

text \<open>\<open>t.Sub(u)\<close> for two readings of \<open>time.Now()\<close>, in nanoseconds.\<close>

definition time_sub :: "gotime \<Rightarrow> gotime \<Rightarrow> int" where
  "time_sub t u = mono t - mono u"

definition now_ms :: "clock \<Rightarrow> nat \<Rightarrow> int" where
  "now_ms c k = unixMilli (read_clock c k)"

lemma now_ms_progress: "\<exists>j. x < now_ms c (k + j)"
proof -
  obtain j where "k \<le> j" and "x * 1000000 + 1000000 < wall (read_clock c j)"
    using clock_progress by blast
  then have "x < now_ms c (k + (j - k))"
    by (simp add: now_ms_def unixMilli_def)
  then show ?thesis by blast
qed

text \<open>
  A concrete clock for examples: it starts at \<open>t\<close> milliseconds and advances by one millisecond
  every \<open>n\<close> readings.
\<close>

lift_definition pace_clock :: "int \<Rightarrow> nat \<Rightarrow> clock" is
  "\<lambda>t n k. \<lparr>wall = (t + int (k div max 1 n)) * 1000000, mono = int (k div max 1 n) * 1000000\<rparr>"
proof (intro conjI allI impI)
  fix t x :: int and n k :: nat
  let ?m = "max 1 n" and ?q = "Suc (k + nat x + nat (- t))"
  have "x < (t + int ((?q * ?m) div ?m)) * 1000000"
    by simp
  moreover have "k \<le> ?q * ?m"
    using mult_le_mono [of k ?q 1 ?m] by simp
  ultimately show "\<exists>j\<ge>k. x < wall \<lparr>wall = (t + int (j div ?m)) * 1000000, mono = int (j div ?m) * 1000000\<rparr>"
    by (intro exI [of _ "?q * ?m"]) simp
next
  fix t :: int and n i j :: nat
  assume "i \<le> j"
  then show "mono \<lparr>wall = (t + int (i div max 1 n)) * 1000000, mono = int (i div max 1 n) * 1000000\<rparr>
    \<le> mono \<lparr>wall = (t + int (j div max 1 n)) * 1000000, mono = int (j div max 1 n) * 1000000\<rparr>"
    by (simp add: div_le_mono)
qed

lemma read_pace_clock:
  "read_clock (pace_clock t n) k =
    \<lparr>wall = (t + int (k div max 1 n)) * 1000000, mono = int (k div max 1 n) * 1000000\<rparr>"
  by transfer simp

lemma now_ms_pace_clock: "now_ms (pace_clock t n) k = t + int (k div max 1 n)"
  by (simp add: now_ms_def unixMilli_def read_pace_clock)

end
