(* ===== verification/Config.thy ===== *)
theory Config
  imports Go_Time
begin

text \<open>
  The configuration, \<open>configs/config.go\<close>: the structures with their fields and the defaults, and what
  the logic service makes of them. Durations are nanoseconds.
\<close>

section \<open>Structures\<close>

record stability_config =
  st_MaxConnections :: int
  st_HTTPReadTimeout :: int
  st_HTTPWriteTimeout :: int
  st_HTTPIdleTimeout :: int
  st_ShutdownTimeout :: int
  st_PprofEnabled :: bool
  st_PprofAddr :: string
  st_MetricsEnabled :: bool

record gnet_config =
  gn_NumEventLoops :: int
  gn_WorkerPoolSize :: int

record mysql_config =
  my_Enabled :: bool
  my_DSN :: string

record kafka_config =
  kc_Enabled :: bool
  kc_Brokers :: "string list"
  kc_Topic :: string

record logic_config =
  lo_Addr :: string
  lo_ListenAddr :: string
  lo_MySQL :: mysql_config
  lo_Kafka :: kafka_config
  lo_WorkerID :: int

record object_storage_config =
  oc_Enabled :: bool
  oc_Endpoint :: string
  oc_AccessKey :: string
  oc_SecretKey :: string
  oc_Bucket :: string
  oc_UseSSL :: bool
  oc_MaxUpload :: int

record discovery_config =
  dc_Mode :: string
  dc_RedisKey :: string
  dc_TTL :: int
  dc_HealthInterval :: int

record grpc_config =
  gc_Addr :: string
  gc_NodeID :: string
  gc_PeerAddrs :: "(string, string) gomap"
  gc_ForwardDialTimeout :: int
  gc_ForwardRPCTimeout :: int
  gc_Discovery :: discovery_config

record conn_config =
  cn_PongWait :: int
  cn_PingPeriod :: int
  cn_MaxMsgSize :: int
  cn_SendBufSize :: int
  cn_OfflineMaxSize :: int

record rate_limit_config =
  rt_Enabled :: bool
  rt_Rate :: int
  rt_Burst :: int
  rt_CleanupInterval :: int

record jwt_config =
  jc_Secret :: string
  jc_Expiration :: int

record redis_config =
  rd_Addr :: string
  rd_Password :: string
  rd_DB :: int

record gateway_config =
  gw_HTTPAddr :: string
  gw_TCPAddr :: string
  gw_Transport :: string
  gw_Heartbeat :: int
  gw_HeartbeatFail :: int
  gw_CheckOrigin :: "string list"
  gw_Conn :: conn_config
  gw_RateLimit :: rate_limit_config
  gw_Redis :: redis_config
  gw_GNet :: gnet_config
  gw_MySQL :: mysql_config
  gw_DevMode :: bool
  gw_Kafka :: kafka_config
  gw_Logic :: logic_config
  gw_Grpc :: grpc_config
  gw_ObjectStorage :: object_storage_config
  gw_RecallWindowMs :: int
  gw_HistoryDefaultLimit :: int
  gw_SearchDefaultLimit :: int
  gw_DedupTTL :: int
  gw_PersistConcurrency :: int

record config =
  cf_Gateway :: gateway_config
  cf_Logic :: logic_config
  cf_JWT :: jwt_config
  cf_SnowWorkerID :: int
  cf_Stability :: stability_config
  cf_AdminUIDs :: "string list"

section \<open>Defaults\<close>

abbreviation seconds_of :: "int \<Rightarrow> int" where
  "seconds_of n \<equiv> n * 1000000000"

definition no_mysql :: mysql_config where
  "no_mysql = \<lparr>my_Enabled = False, my_DSN = []\<rparr>"

definition no_kafka :: kafka_config where
  "no_kafka = \<lparr>kc_Enabled = False, kc_Brokers = [], kc_Topic = []\<rparr>"

text \<open>The field \<open>Logic\<close> of the whole configuration is left at its zero value.\<close>

definition Default :: config where
  "Default =
    \<lparr>cf_Gateway =
       \<lparr>gw_HTTPAddr = '':8080'', gw_TCPAddr = '':8081'', gw_Transport = ''websocket'',
        gw_Heartbeat = seconds_of 30, gw_HeartbeatFail = 3, gw_CheckOrigin = [],
        gw_Conn = \<lparr>cn_PongWait = seconds_of 60, cn_PingPeriod = seconds_of 54, cn_MaxMsgSize = 65536,
          cn_SendBufSize = 256, cn_OfflineMaxSize = 1000\<rparr>,
        gw_RateLimit = \<lparr>rt_Enabled = True, rt_Rate = 10, rt_Burst = 20, rt_CleanupInterval = seconds_of 300\<rparr>,
        gw_Redis = \<lparr>rd_Addr = [], rd_Password = [], rd_DB = 0\<rparr>,
        gw_GNet = \<lparr>gn_NumEventLoops = 0, gn_WorkerPoolSize = 0\<rparr>,
        gw_MySQL = \<lparr>my_Enabled = False, my_DSN = ''im:im-dev@tcp(127.0.0.1:3307)/im?parseTime=true&charset=utf8mb4''\<rparr>,
        gw_DevMode = True,
        gw_Kafka = \<lparr>kc_Enabled = False, kc_Brokers = [''localhost:9092''], kc_Topic = ''im.message.persist''\<rparr>,
        gw_Logic = \<lparr>lo_Addr = [], lo_ListenAddr = [], lo_MySQL = no_mysql, lo_Kafka = no_kafka, lo_WorkerID = 2\<rparr>,
        gw_Grpc = \<lparr>gc_Addr = [], gc_NodeID = [], gc_PeerAddrs = [], gc_ForwardDialTimeout = seconds_of 3,
          gc_ForwardRPCTimeout = seconds_of 2,
          gc_Discovery = \<lparr>dc_Mode = [], dc_RedisKey = ''im:gateway:node:'', dc_TTL = seconds_of 15, dc_HealthInterval = seconds_of 5\<rparr>\<rparr>,
        gw_ObjectStorage = \<lparr>oc_Enabled = False, oc_Endpoint = ''localhost:9000'', oc_AccessKey = ''minioadmin'',
          oc_SecretKey = ''minioadmin'', oc_Bucket = ''im-files'', oc_UseSSL = False, oc_MaxUpload = 10 * 1024 * 1024\<rparr>,
        gw_RecallWindowMs = 120000, gw_HistoryDefaultLimit = 30, gw_SearchDefaultLimit = 20,
        gw_DedupTTL = seconds_of 300, gw_PersistConcurrency = 64\<rparr>,
     cf_Logic = \<lparr>lo_Addr = [], lo_ListenAddr = [], lo_MySQL = no_mysql, lo_Kafka = no_kafka, lo_WorkerID = 0\<rparr>,
     cf_JWT = \<lparr>jc_Secret = ''change-me-in-production'', jc_Expiration = seconds_of (7 * 24 * 3600)\<rparr>,
     cf_SnowWorkerID = 1,
     cf_Stability = \<lparr>st_MaxConnections = 0, st_HTTPReadTimeout = seconds_of 10, st_HTTPWriteTimeout = seconds_of 10,
       st_HTTPIdleTimeout = seconds_of 120, st_ShutdownTimeout = seconds_of 30, st_PprofEnabled = False,
       st_PprofAddr = ''localhost:6060'', st_MetricsEnabled = True\<rparr>,
     cf_AdminUIDs = []\<rparr>"

section \<open>The logic service\<close>

text \<open>
  The settings \<open>cmd/logic/main.go\<close> derives from the configuration: the fallbacks to the settings of
  the gateway, the address, and whether a consumer is started, for which topic. \<open>Inl\<close> is a fatal error.
\<close>

record logic_settings =
  ls_DSN :: string
  ls_Addr :: string
  ls_WorkerID :: int
  ls_Consumer :: "(string list \<times> string) option"

definition logicSettings :: "config \<Rightarrow> string + logic_settings" where
  "logicSettings cfg =
    (let mySQLCfg = (if my_DSN (lo_MySQL (cf_Logic cfg)) = [] then gw_MySQL (cf_Gateway cfg) else lo_MySQL (cf_Logic cfg));
         a = lo_ListenAddr (cf_Logic cfg);
         a = (if a = [] then lo_ListenAddr (gw_Logic (cf_Gateway cfg)) else a);
         a = (if a = [] then '':50051'' else a);
         kafkaCfg = (if kc_Brokers (lo_Kafka (cf_Logic cfg)) = [] then gw_Kafka (cf_Gateway cfg) else lo_Kafka (cf_Logic cfg));
         topic = (if kc_Topic kafkaCfg = [] then ''im.message.persist'' else kc_Topic kafkaCfg)
     in if my_DSN mySQLCfg = [] then Inl ''MySQL must be enabled''
        else Inr \<lparr>ls_DSN = my_DSN mySQLCfg, ls_Addr = a, ls_WorkerID = lo_WorkerID (cf_Logic cfg),
          ls_Consumer = (if kc_Enabled kafkaCfg \<and> kc_Brokers kafkaCfg \<noteq> [] then Some (kc_Brokers kafkaCfg, topic) else None)\<rparr>)"

end
