(* ===== verification/Hash_Ring.thy ===== *)
theory Hash_Ring
  imports IM_Prelude
begin

text \<open>
  The consistent-hash ring of \<open>internal/gateway/hashring.go\<close>, with the parts of Go's standard
  library it uses: \<open>crc32.ChecksumIEEE\<close> (on 32-bit words) and \<open>sort.Search\<close> (the binary
  search loop). The contract of a router table is the locale \<open>key_owner\<close>; the ring is shown
  to meet it, and to move no key it does not have to when nodes come and go.
\<close>

section \<open>CRC-32\<close>

fun crc_bits :: "nat \<Rightarrow> 32 word \<Rightarrow> 32 word" where
  "crc_bits 0 c = c"
| "crc_bits (Suc n) c =
    crc_bits n (if bit c 0 then drop_bit 1 c XOR 0xEDB88320 else drop_bit 1 c)"

definition crc_byte :: "32 word \<Rightarrow> char \<Rightarrow> 32 word" where
  "crc_byte c b = crc_bits 8 (c XOR of_nat (of_char b))"

definition ChecksumIEEE :: "bytes \<Rightarrow> 32 word" where
  "ChecksumIEEE bs = NOT (foldl crc_byte (NOT 0) bs)"

section \<open>Binary search\<close>

text \<open>\<open>sort.Search\<close>: the loop over the half-open interval \<open>[i, j)\<close>.\<close>

function search :: "(nat \<Rightarrow> bool) \<Rightarrow> nat \<Rightarrow> nat \<Rightarrow> nat" where
  "search f i j =
    (if i < j then
       (let h = (i + j) div 2 in if \<not> f h then search f (h + 1) j else search f i h)
     else i)"
  by pat_completeness auto
termination
  by (relation "measure (\<lambda>(f, i, j). j - i)") auto

declare search.simps [simp del]

lemma search_spec:
  assumes "\<forall>a b. a \<le> b \<longrightarrow> b < n \<longrightarrow> f a \<longrightarrow> f b" and "i \<le> j" and "j \<le> n"
    and "\<forall>a<i. \<not> f a" and "\<forall>a. j \<le> a \<longrightarrow> a < n \<longrightarrow> f a"
  shows "search f i j \<le> n \<and> (\<forall>a < search f i j. \<not> f a) \<and> (search f i j < n \<longrightarrow> f (search f i j))"
  using assms
proof (induction f i j rule: search.induct)
  case (1 f i j)
  show ?case
  proof (cases "i < j")
    case True
    define h where "h = (i + j) div 2"
    have h: "i \<le> h" "h < j" using True by (auto simp: h_def)
    show ?thesis
    proof (cases "f h")
      case True': True
      then have "\<forall>a. h \<le> a \<longrightarrow> a < n \<longrightarrow> f a" using "1.prems"(1) by blast
      then have "search f i h \<le> n \<and> (\<forall>a < search f i h. \<not> f a) \<and> (search f i h < n \<longrightarrow> f (search f i h))"
        using "1.prems" True True' h by (intro "1.IH"(2) [OF True h_def]) simp_all
      with True True' show ?thesis by (simp add: search.simps [of f i j] h_def)
    next
      case False
      have low: "\<not> f a" if "a < h + 1" for a
      proof
        assume "f a"
        moreover have "a \<le> h" "h < n" using that h "1.prems"(3) by auto
        ultimately show False using False "1.prems"(1) by blast
      qed
      have "search f (h + 1) j \<le> n \<and> (\<forall>a < search f (h + 1) j. \<not> f a) \<and>
          (search f (h + 1) j < n \<longrightarrow> f (search f (h + 1) j))"
        using "1.prems" False h low by (intro "1.IH"(1) [OF True h_def]) simp_all
      with True False show ?thesis by (simp add: search.simps [of f i j] h_def)
    qed
  next
    case False
    then have "search f i j = i" by (simp add: search.simps [of f i j])
    with False "1.prems" show ?thesis by simp
  qed
qed

section \<open>The ring\<close>

record hashring =
  ring :: "32 word list"
  nodes :: "(32 word, string) gomap"
  replicas :: int
  physCount :: int

definition NewHashRing :: "int \<Rightarrow> hashring" where
  "NewHashRing r = \<lparr>ring = [], nodes = [], replicas = (if r \<le> 0 then 150 else r), physCount = 0\<rparr>"

definition vnode_key :: "string \<Rightarrow> int \<Rightarrow> string" where
  "vnode_key nodeID i = nodeID @ '':'' @ show_int i"

definition removeLocked :: "string \<Rightarrow> hashring \<Rightarrow> hashring" where
  "removeLocked nodeID h =
    (let toRemove = map fst (filter (\<lambda>(_, i). i = nodeID) (nodes h)) in
     if toRemove = [] then h
     else
       let ns = fold AList.delete toRemove (nodes h)
       in h\<lparr>physCount := physCount h - 1, nodes := ns, ring := filter (has_key ns) (ring h)\<rparr>)"

definition Remove :: "string \<Rightarrow> hashring \<Rightarrow> hashring" where
  "Remove nodeID h = removeLocked nodeID h"

text \<open>The body of the loop over the replicas.\<close>

definition add_vnode :: "string \<Rightarrow> int \<Rightarrow> hashring \<Rightarrow> hashring" where
  "add_vnode nodeID i h =
    (let hash = ChecksumIEEE (vnode_key nodeID i)
     in h\<lparr>ring := ring h @ [hash], nodes := AList.update hash nodeID (nodes h)\<rparr>)"

definition Add :: "string \<Rightarrow> hashring \<Rightarrow> hashring" where
  "Add nodeID h =
    (let h = removeLocked nodeID h;
         h = h\<lparr>physCount := physCount h + 1\<rparr>;
         h = fold (add_vnode nodeID) (map int [0..<nat (replicas h)]) h
     in h\<lparr>ring := sort (ring h)\<rparr>)"

definition Get :: "string \<Rightarrow> hashring \<Rightarrow> string" where
  "Get key h =
    (if ring h = [] then []
     else
       let hash = ChecksumIEEE key;
           idx = search (\<lambda>i. ring h ! i \<ge> hash) 0 (length (ring h));
           idx = (if idx \<ge> length (ring h) then 0 else idx)
       in case map_of (nodes h) (ring h ! idx) of None \<Rightarrow> [] | Some n \<Rightarrow> n)"

definition Len :: "hashring \<Rightarrow> int" where
  "Len h = physCount h"

section \<open>Invariant\<close>

text \<open>The hash values of a node's replicas.\<close>

definition vnodes :: "int \<Rightarrow> string \<Rightarrow> 32 word set" where
  "vnodes r nodeID = (\<lambda>i. ChecksumIEEE (vnode_key nodeID (int i))) ` {0..<nat r}"

definition ring_ok :: "hashring \<Rightarrow> bool" where
  "ring_ok h \<longleftrightarrow> sorted (ring h) \<and> gomap_ok (nodes h) \<and> set (ring h) = fst ` set (nodes h) \<and>
    0 < replicas h \<and> (\<forall>x n. map_of (nodes h) x = Some n \<longrightarrow> x \<in> vnodes (replicas h) n)"

lemma ring_ok_New: "ring_ok (NewHashRing r)"
  by (simp add: ring_ok_def NewHashRing_def)

lemma gomap_ok_fold_delete: "gomap_ok m \<Longrightarrow> gomap_ok (fold AList.delete ks m)"
  by (induction ks arbitrary: m) auto

lemma map_of_fold_delete:
  "map_of (fold AList.delete ks m) x = (if x \<in> set ks then None else map_of m x)"
  by (induction ks arbitrary: m) (auto simp: gomap_simps)

text \<open>What removal leaves, whether or not the node was there.\<close>

lemma map_of_removeLocked:
  assumes "gomap_ok (nodes h)"
  shows "map_of (nodes (removeLocked n h)) x = (if map_of (nodes h) x = Some n then None else map_of (nodes h) x)"
proof -
  let ?rm = "map fst (filter (\<lambda>(_, i). i = n) (nodes h))"
  have rm: "x \<in> set ?rm \<longleftrightarrow> map_of (nodes h) x = Some n"
    using assms by (force simp: image_iff map_of_eq_Some_iff)
  show ?thesis
  proof (cases "?rm = []")
    case True
    then have "removeLocked n h = h" by (simp add: removeLocked_def Let_def)
    moreover have "map_of (nodes h) x \<noteq> Some n" using rm True by simp
    ultimately show ?thesis by simp
  next
    case False
    then have "nodes (removeLocked n h) = fold AList.delete ?rm (nodes h)"
      by (simp add: removeLocked_def Let_def)
    then show ?thesis using rm by (simp add: map_of_fold_delete)
  qed
qed

lemma removeLocked_frame:
  "replicas (removeLocked n h) = replicas h"
  "gomap_ok (nodes h) \<Longrightarrow> gomap_ok (nodes (removeLocked n h))"
  "sorted (ring h) \<Longrightarrow> sorted (ring (removeLocked n h))"
  by (auto simp: removeLocked_def Let_def gomap_ok_fold_delete sorted_wrt_filter)

lemma set_ring_removeLocked:
  assumes "gomap_ok (nodes h)" and "set (ring h) = fst ` set (nodes h)"
  shows "set (ring (removeLocked n h)) = {x \<in> set (ring h). map_of (nodes h) x \<noteq> Some n}"
proof (cases "filter (\<lambda>(_, i). i = n) (nodes h) = []")
  case True
  then have "removeLocked n h = h" by (simp add: removeLocked_def Let_def)
  moreover have "map_of (nodes h) x \<noteq> Some n" for x
    using True by (auto dest!: map_of_SomeD simp: filter_empty_conv)
  ultimately show ?thesis by simp
next
  case False
  then have "ring (removeLocked n h) = filter (has_key (nodes (removeLocked n h))) (ring h)"
    by (simp add: removeLocked_def Let_def)
  then show ?thesis
    using map_of_removeLocked [OF assms(1)] assms(2)
    by (auto simp: has_key_def dest: weak_map_of_SomeI split: if_splits)
qed

lemma set_ring_keys:
  assumes "gomap_ok (nodes h)" and "set (ring h) = fst ` set (nodes h)"
  shows "set (ring (removeLocked n h)) = fst ` set (nodes (removeLocked n h))"
proof -
  have "x \<in> set (ring (removeLocked n h)) \<longleftrightarrow> map_of (nodes (removeLocked n h)) x \<noteq> None" for x
    unfolding set_ring_removeLocked [OF assms] map_of_removeLocked [OF assms(1)] assms(2)
    by (cases "map_of (nodes h) x") (force simp: map_of_eq_None_iff dest: map_of_SomeD)+
  then show ?thesis unfolding map_of_eq_None_iff by blast
qed

lemma ring_ok_removeLocked: "ring_ok h \<Longrightarrow> ring_ok (removeLocked n h)"
  unfolding ring_ok_def
  by (auto simp: removeLocked_frame set_ring_keys map_of_removeLocked split: if_splits)

lemma fold_add_vnode:
  "gomap_ok (nodes h) \<Longrightarrow> set (ring h) = fst ` set (nodes h) \<Longrightarrow>
   (let h' = fold (add_vnode n) is h; new = (\<lambda>i. ChecksumIEEE (vnode_key n i)) ` set is in
    gomap_ok (nodes h') \<and> replicas h' = replicas h \<and> set (ring h') = set (ring h) \<union> new \<and>
    set (ring h') = fst ` set (nodes h') \<and>
    (\<forall>x. map_of (nodes h') x = (if x \<in> new then Some n else map_of (nodes h) x)))"
proof (induction "is" arbitrary: h)
  case Nil
  then show ?case by (simp add: Let_def)
next
  case (Cons i "is")
  let ?h1 = "add_vnode n i h"
  have "gomap_ok (nodes ?h1)" "set (ring ?h1) = fst ` set (nodes ?h1)"
    using Cons.prems by (auto simp: add_vnode_def Let_def fst_set_update)
  from Cons.IH [OF this] show ?case
    by (auto simp: Let_def add_vnode_def gomap_simps)
qed

text \<open>The effect of \<open>Add\<close> on a well-formed ring: nothing but the node's own points changes.\<close>

lemma Add_effect:
  assumes "ring_ok h"
  shows "sorted (ring (Add n h))" "gomap_ok (nodes (Add n h))" "replicas (Add n h) = replicas h"
    "set (ring (Add n h)) = set (ring h) \<union> vnodes (replicas h) n"
    "set (ring (Add n h)) = fst ` set (nodes (Add n h))"
    "map_of (nodes (Add n h)) x = (if x \<in> vnodes (replicas h) n then Some n else map_of (nodes h) x)"
proof -
  let ?r = "removeLocked n h" and ?is = "map int [0..<nat (replicas h)]"
  let ?h = "?r\<lparr>physCount := physCount ?r + 1\<rparr>"
  have ok: "ring_ok ?r" using assms by (rule ring_ok_removeLocked)
  then have pre: "gomap_ok (nodes ?h)" "set (ring ?h) = fst ` set (nodes ?h)"
    by (simp_all add: ring_ok_def)
  have new: "(\<lambda>i. ChecksumIEEE (vnode_key n i)) ` set ?is = vnodes (replicas h) n"
    by (auto simp: vnodes_def)
  have add: "Add n h = (fold (add_vnode n) ?is ?h)\<lparr>ring := sort (ring (fold (add_vnode n) ?is ?h))\<rparr>"
    by (simp add: Add_def Let_def removeLocked_frame)
  note f = fold_add_vnode [OF pre, of n ?is, unfolded Let_def new]
  note g = f [THEN conjunct1] and f2 = f [THEN conjunct2]
  note r = f2 [THEN conjunct1] and f3 = f2 [THEN conjunct2]
  note st = f3 [THEN conjunct1] and f4 = f3 [THEN conjunct2]
  note ks = f4 [THEN conjunct1] and mo = f4 [THEN conjunct2, rule_format]
  have own: "map_of (nodes h) y = Some n \<Longrightarrow> y \<in> vnodes (replicas h) n" for y
    using assms by (simp add: ring_ok_def)
  have rm: "set (ring ?r) = {y \<in> set (ring h). map_of (nodes h) y \<noteq> Some n}"
    using assms set_ring_removeLocked by (auto simp: ring_ok_def)
  have mp: "map_of (nodes ?r) y = (if map_of (nodes h) y = Some n then None else map_of (nodes h) y)" for y
    using assms map_of_removeLocked by (auto simp: ring_ok_def)
  show "sorted (ring (Add n h))" by (simp add: add)
  show "gomap_ok (nodes (Add n h))" using g by (simp add: add)
  show "replicas (Add n h) = replicas h" using r by (simp add: add removeLocked_frame)
  show "set (ring (Add n h)) = fst ` set (nodes (Add n h))" using ks by (simp add: add)
  have "set (ring (Add n h)) = set (ring ?r) \<union> vnodes (replicas h) n" using st by (simp add: add)
  also have "\<dots> = set (ring h) \<union> vnodes (replicas h) n" unfolding rm using own by blast
  finally show "set (ring (Add n h)) = set (ring h) \<union> vnodes (replicas h) n" .
  show "map_of (nodes (Add n h)) x = (if x \<in> vnodes (replicas h) n then Some n else map_of (nodes h) x)"
    using mo [of x] mp [of x] own [of x] by (simp add: add)
qed

lemma ring_ok_Add: "ring_ok h \<Longrightarrow> ring_ok (Add n h)"
  using Add_effect [of h n] unfolding ring_ok_def by auto

section \<open>What a lookup returns\<close>

text \<open>
  The abstract view: a set of points on a circle; the point responsible for a hash value is
  the first one at or after it, and the smallest one if there is none.
\<close>

definition successor :: "32 word set \<Rightarrow> 32 word \<Rightarrow> 32 word" where
  "successor S x = (if \<exists>y \<in> S. x \<le> y then Min {y \<in> S. x \<le> y} else Min S)"

lemma successor_in: "finite S \<Longrightarrow> S \<noteq> {} \<Longrightarrow> successor S x \<in> S"
  using Min_in [of "{y \<in> S. x \<le> y}"] by (auto simp: successor_def)

text \<open>Points can be added or dropped without moving the successor, as long as it stays first.\<close>

lemma successor_subset:
  assumes "finite T" and "S \<subseteq> T" and "successor T x \<in> S"
  shows "successor S x = successor T x"
proof (cases "\<exists>y \<in> T. x \<le> y")
  case True
  let ?m = "Min {y \<in> T. x \<le> y}"
  have m: "successor T x = ?m" using True by (simp add: successor_def)
  have "?m \<in> {y \<in> T. x \<le> y}" using assms(1) True by (intro Min_in) auto
  then have inS: "?m \<in> {y \<in> S. x \<le> y}" using assms(3) m by simp
  have "Min {y \<in> S. x \<le> y} = ?m"
    using assms(1,2) inS by (intro antisym Min_antimono Min_le) (auto intro: finite_subset)
  with inS m show ?thesis by (auto simp: successor_def)
next
  case False
  then have "successor T x = Min T" "\<not> (\<exists>y \<in> S. x \<le> y)" using assms(2) by (auto simp: successor_def)
  moreover have "Min S = Min T"
    using assms calculation by (intro antisym Min_antimono Min_le) (auto intro: finite_subset)
  ultimately show ?thesis by (simp add: successor_def)
qed

lemma Get_successor:
  assumes "ring_ok h" and "ring h \<noteq> []"
  shows "map_of (nodes h) (successor (set (ring h)) (ChecksumIEEE key)) = Some (Get key h)"
proof -
  let ?r = "ring h" and ?x = "ChecksumIEEE key"
  define f where "f = (\<lambda>i. ?r ! i \<ge> ?x)"
  define k where "k = search f 0 (length ?r)"
  have srt: "sorted ?r" using assms(1) by (simp add: ring_ok_def)
  have "\<forall>a b. a \<le> b \<longrightarrow> b < length ?r \<longrightarrow> f a \<longrightarrow> f b"
    using srt by (auto simp: f_def dest: sorted_nth_mono order_trans)
  then have k: "k \<le> length ?r" "\<And>a. a < k \<Longrightarrow> \<not> f a" "k < length ?r \<Longrightarrow> f k"
    using search_spec [of "length ?r" f 0 "length ?r"] by (auto simp: k_def)
  have succ: "successor (set ?r) ?x = ?r ! (if k \<ge> length ?r then 0 else k)"
  proof (cases "k < length ?r")
    case True
    have "?x \<le> ?r ! k" using k(3) True by (simp add: f_def)
    moreover have "?r ! k \<le> y" if "y \<in> set ?r" "?x \<le> y" for y
    proof -
      obtain i where i: "i < length ?r" "y = ?r ! i" using \<open>y \<in> set ?r\<close> by (auto simp: in_set_conv_nth)
      then have "k \<le> i" using k(2) that(2) by (force simp: f_def not_less [symmetric])
      then show ?thesis using srt i by (simp add: sorted_nth_mono)
    qed
    ultimately have "Min {y \<in> set ?r. ?x \<le> y} = ?r ! k"
      using True by (intro Min_eqI) auto
    then show ?thesis
      using True \<open>?x \<le> ?r ! k\<close> nth_mem [OF True] by (auto simp: successor_def)
  next
    case False
    then have "\<not> (\<exists>y \<in> set ?r. ?x \<le> y)"
      using k by (auto simp: in_set_conv_nth f_def)
    moreover have "Min (set ?r) = ?r ! 0"
      using srt assms(2) by (intro Min_eqI) (auto simp: in_set_conv_nth intro: sorted_nth_mono)
    ultimately show ?thesis using False by (simp add: successor_def)
  qed
  have "successor (set ?r) ?x \<in> fst ` set (nodes h)"
    using successor_in [of "set ?r" ?x] assms by (simp add: ring_ok_def)
  then obtain n where n: "map_of (nodes h) (successor (set ?r) ?x) = Some n"
    by (metis not_None_eq map_of_eq_None_iff)
  then have "Get key h = n"
    using assms(2) unfolding succ
    by (simp add: Get_def Let_def f_def [symmetric] k_def [symmetric] split: if_splits)
  with n show ?thesis by simp
qed

section \<open>The contract of a router table\<close>

text \<open>
  What the rest of the gateway relies on: a table of nodes that assigns every key an owner,
  keeps an owner that is still there, and gives a key up only to a node that just came.
\<close>

locale key_owner =
  fixes owner :: "'k \<Rightarrow> 't \<Rightarrow> 'n" and add :: "'n \<Rightarrow> 't \<Rightarrow> 't" and del :: "'n \<Rightarrow> 't \<Rightarrow> 't"
    and ok :: "'t \<Rightarrow> bool" and empty :: "'t \<Rightarrow> bool"
  assumes ok_add: "ok t \<Longrightarrow> ok (add n t)" and ok_del: "ok t \<Longrightarrow> ok (del n t)"
    and add_nonempty: "ok t \<Longrightarrow> \<not> empty (add n t)"
    and owner_add: "ok t \<Longrightarrow> owner k (add n t) \<noteq> n \<Longrightarrow> \<not> empty t \<and> owner k (add n t) = owner k t"
    and owner_keep: "ok t \<Longrightarrow> \<not> empty t \<Longrightarrow> owner k t \<noteq> n \<Longrightarrow>
      \<not> empty (del n t) \<and> owner k (del n t) = owner k t"
    and owner_del: "ok t \<Longrightarrow> \<not> empty (del n t) \<Longrightarrow> owner k (del n t) \<noteq> n"
begin

lemma ok_adds: "ok t \<Longrightarrow> ok (fold add ns t)"
  by (induction ns arbitrary: t) (auto intro: ok_add)

text \<open>However many nodes join, a key goes to one of them or stays where it was.\<close>

lemma owner_adds:
  "ok t \<Longrightarrow> ns \<noteq> [] \<Longrightarrow> owner k (fold add ns t) \<in> set ns \<or>
    \<not> empty t \<and> owner k (fold add ns t) = owner k t"
proof (induction ns rule: rev_induct)
  case (snoc n ns)
  let ?t = "fold add ns t"
  show ?case
  proof (cases "owner k (add n ?t) = n")
    case False
    with owner_add [OF ok_adds [OF snoc.prems(1)]] have "owner k (add n ?t) = owner k ?t" "\<not> empty ?t"
      by blast+
    with snoc show ?thesis by (cases "ns = []") auto
  qed simp
qed simp

text \<open>A node that joins and leaves again leaves no trace.\<close>

lemma owner_add_del:
  assumes "ok t" and "\<not> empty t" and "owner k t \<noteq> n" and "owner k (add n t) \<noteq> n"
  shows "owner k (del n (add n t)) = owner k t"
  using owner_keep [OF ok_add [OF assms(1)] add_nonempty [OF assms(1)] assms(4)] owner_add [OF assms(1,4)]
  by simp

end

lemma vnodes_nonempty: "ring_ok h \<Longrightarrow> vnodes (replicas h) n \<noteq> {}"
  by (auto simp: ring_ok_def vnodes_def)

lemma Get_Add_other:
  assumes "ring_ok h" and "Get key (Add n h) \<noteq> n"
  shows "ring h \<noteq> [] \<and> Get key (Add n h) = Get key h"
proof -
  let ?x = "ChecksumIEEE key" and ?T = "set (ring (Add n h))" and ?V = "vnodes (replicas h) n"
  note eff = Add_effect [OF assms(1)]
  have ne: "ring (Add n h) \<noteq> []"
    using eff(4) [of n] vnodes_nonempty [OF assms(1), of n] by auto
  note get = Get_successor [OF ring_ok_Add [OF assms(1)] ne, of key]
  have notV: "successor ?T ?x \<notin> ?V"
    using get assms(2) eff(6) [of n "successor ?T ?x"] by auto
  have "successor ?T ?x \<in> ?T" using ne by (intro successor_in) auto
  then have inS: "successor ?T ?x \<in> set (ring h)" using notV eff(4) [of n] by simp
  have "successor (set (ring h)) ?x = successor ?T ?x"
    using inS eff(4) [of n] by (intro successor_subset) auto
  moreover have r: "ring h \<noteq> []" using inS by auto
  ultimately show ?thesis
    using get Get_successor [OF assms(1) r, of key] notV eff(6) [of n "successor ?T ?x"] by simp
qed

lemma Get_removeLocked_other:
  assumes "ring_ok h" and "ring h \<noteq> []" and "Get key h \<noteq> n"
  shows "ring (removeLocked n h) \<noteq> [] \<and> Get key (removeLocked n h) = Get key h"
proof -
  let ?x = "ChecksumIEEE key" and ?S = "set (ring h)" and ?R = "set (ring (removeLocked n h))"
  have g: "gomap_ok (nodes h)" "?S = fst ` set (nodes h)" using assms(1) by (auto simp: ring_ok_def)
  note get = Get_successor [OF assms(1,2), of key]
  have inR: "successor ?S ?x \<in> ?R"
    using get assms successor_in [of ?S ?x] by (simp add: set_ring_removeLocked [OF g])
  have "successor ?R ?x = successor ?S ?x"
    using inR by (intro successor_subset) (auto simp: set_ring_removeLocked [OF g])
  moreover have r: "ring (removeLocked n h) \<noteq> []" using inR by auto
  ultimately show ?thesis
    using get assms(3) Get_successor [OF ring_ok_removeLocked [OF assms(1)] r, of key]
    by (simp add: map_of_removeLocked [OF g(1)] split: if_splits)
qed

lemma Get_removeLocked_self:
  assumes "ring_ok h" and "ring (removeLocked n h) \<noteq> []"
  shows "Get key (removeLocked n h) \<noteq> n"
proof -
  have "gomap_ok (nodes h)" using assms(1) by (simp add: ring_ok_def)
  then show ?thesis
    using Get_successor [OF ring_ok_removeLocked [OF assms(1)] assms(2), of key]
    by (auto simp: map_of_removeLocked split: if_splits)
qed

lemma Add_nonempty: "ring_ok h \<Longrightarrow> ring (Add n h) \<noteq> []"
  using Add_effect(4) [of h n] vnodes_nonempty [of h n] by auto

interpretation ring: key_owner Get Add Remove ring_ok "\<lambda>h. ring h = []"
proof unfold_locales
  show "ring_ok h \<Longrightarrow> ring_ok (Add n h)" for h n by (rule ring_ok_Add)
  show "ring_ok h \<Longrightarrow> ring_ok (Remove n h)" for h n unfolding Remove_def by (rule ring_ok_removeLocked)
  show "ring_ok h \<Longrightarrow> ring (Add n h) \<noteq> []" for h n by (rule Add_nonempty)
  show "ring_ok h \<Longrightarrow> Get k (Add n h) \<noteq> n \<Longrightarrow> ring h \<noteq> [] \<and> Get k (Add n h) = Get k h" for h n k
    by (rule Get_Add_other)
  show "ring_ok h \<Longrightarrow> ring h \<noteq> [] \<Longrightarrow> Get k h \<noteq> n \<Longrightarrow>
      ring (Remove n h) \<noteq> [] \<and> Get k (Remove n h) = Get k h" for h n k
    unfolding Remove_def by (rule Get_removeLocked_other)
  show "ring_ok h \<Longrightarrow> ring (Remove n h) \<noteq> [] \<Longrightarrow> Get k (Remove n h) \<noteq> n" for h n k
    unfolding Remove_def by (rule Get_removeLocked_self)
qed

section \<open>Properties\<close>

datatype ring_op = AddNode string | RemoveNode string

fun ring_step :: "ring_op \<Rightarrow> hashring \<Rightarrow> hashring" where
  "ring_step (AddNode n) h = Add n h"
| "ring_step (RemoveNode n) h = Remove n h"

lemma ring_ok_run: "ring_ok h \<Longrightarrow> ring_ok (fold ring_step ops h)"
proof (induction ops arbitrary: h)
  case (Cons p ops)
  then have "ring_ok (ring_step p h)" by (cases p) (simp_all add: ring.ok_add ring.ok_del)
  with Cons.IH show ?case by simp
qed simp

text \<open>
  C39. However nodes come and go, the ring stays sorted and in step with its node table, and a
  lookup returns the node whose virtual point is the first at or after the CRC of the key,
  wrapping around to the smallest point (the empty string when the ring is empty).
\<close>

theorem ring_lookup:
  assumes "h = fold ring_step ops (NewHashRing r)"
  shows "ring_ok h \<and> (ring h = [] \<longrightarrow> Get key h = []) \<and>
    (ring h \<noteq> [] \<longrightarrow>
      map_of (nodes h) (successor (set (ring h)) (ChecksumIEEE key)) = Some (Get key h))"
  using ring_ok_run [OF ring_ok_New, of ops r] Get_successor [of h key] assms by (simp add: Get_def)

lemma demo_ring:
  "ring (Add ''n2'' (Add ''n1'' (NewHashRing 2))) = [0xa925b091, 0xab630ec8, 0xdc643e5e, 0xde228007]"
  "Get ''u1'' (Add ''n2'' (Add ''n1'' (NewHashRing 2))) = ''n2''"
  "Get ''u2'' (Add ''n2'' (Add ''n1'' (NewHashRing 2))) = ''n1''"
  by code_simp+

theorem ring_lookup_witness:
  "map_of (nodes (Add ''n2'' (Add ''n1'' (NewHashRing 2))))
     (successor {0xa925b091, 0xab630ec8, 0xdc643e5e, 0xde228007} (ChecksumIEEE ''u2'')) = Some ''n1''"
  using ring_lookup [of "Add ''n2'' (Add ''n1'' (NewHashRing 2))" "[AddNode ''n1'', AddNode ''n2'']" 2 "''u2''"]
  by (simp add: demo_ring)

text \<open>
  Removing a node moves only the keys it owned: every other key keeps its owner, and no
  key is assigned to the removed node any more.
\<close>

theorem ring_remove_minimal:
  assumes "ring_ok h" and "ring h \<noteq> []"
  shows "(Get key h \<noteq> n \<longrightarrow> Get key (Remove n h) = Get key h) \<and>
    (ring (Remove n h) \<noteq> [] \<longrightarrow> Get key (Remove n h) \<noteq> n)"
  using ring.owner_keep [OF assms, of key n] ring.owner_del [OF assms(1), of n key] by auto

lemma ring_ok_demo: "ring_ok (Add ''n2'' (Add ''n1'' (NewHashRing 2)))"
  by (intro ring_ok_Add ring_ok_New)

theorem ring_remove_minimal_witness:
  "Get ''u1'' (Remove ''n1'' (Add ''n2'' (Add ''n1'' (NewHashRing 2)))) = ''n2''"
  using ring_remove_minimal [OF ring_ok_demo, of "''u1''" "''n1''"] by (simp add: demo_ring)

text \<open>
  When any number of nodes join, a key stays with its owner or goes to one of the new
  nodes; it never moves between two nodes that were there before.
\<close>

theorem ring_add_minimal:
  assumes "ring_ok h" and "ns \<noteq> []"
  shows "Get key (fold Add ns h) \<in> set ns \<or> ring h \<noteq> [] \<and> Get key (fold Add ns h) = Get key h"
  using assms by (rule ring.owner_adds)

theorem ring_add_minimal_witness:
  "Get ''u1'' (fold Add [''n1'', ''n2''] (NewHashRing 2)) \<in> {''n1'', ''n2''}"
  using ring_add_minimal [OF ring_ok_New [of 2], of "[''n1'', ''n2'']" "''u1''"]
  by (auto simp: NewHashRing_def)

end
