(* ===== verification/Proto.thy ===== *)
theory Proto
  imports IM_Prelude
begin

text \<open>
  The wire protocol of \<open>api/proto\<close>: the message record of \<open>message.proto\<close>, the command, chat
  and message type constants and the validation of \<open>message.go\<close>. The protobuf codec itself
  is third-party code; where it matters it is a parameter of the definitions that use it.
\<close>

record message =
  m_seq :: int
  m_msgId :: int
  m_cmd :: int
  m_from :: string
  m_to :: string
  m_chatType :: int
  m_msgType :: int
  m_content :: string
  m_timestamp :: int
  m_needAck :: bool

text \<open>The zero value \<open>proto.Message{}\<close>; composite literals of the code are updates of it.\<close>

definition msg0 :: message where
  "msg0 = \<lparr>m_seq = 0, m_msgId = 0, m_cmd = 0, m_from = [], m_to = [], m_chatType = 0,
    m_msgType = 0, m_content = [], m_timestamp = 0, m_needAck = False\<rparr>"

definition CmdNone :: int where "CmdNone = 0"
definition CmdChat :: int where "CmdChat = 1"
definition CmdAck :: int where "CmdAck = 2"
definition CmdLogin :: int where "CmdLogin = 3"
definition CmdLoginResp :: int where "CmdLoginResp = 4"
definition CmdOffline :: int where "CmdOffline = 5"
definition CmdHeartbeat :: int where "CmdHeartbeat = 6"
definition CmdKick :: int where "CmdKick = 7"
definition CmdHistory :: int where "CmdHistory = 8"
definition CmdReadReceipt :: int where "CmdReadReceipt = 9"
definition CmdUnreadCount :: int where "CmdUnreadCount = 10"
definition CmdSearch :: int where "CmdSearch = 11"
definition CmdGroupCreate :: int where "CmdGroupCreate = 12"
definition CmdGroupJoin :: int where "CmdGroupJoin = 13"
definition CmdGroupLeave :: int where "CmdGroupLeave = 14"
definition CmdGroupInfo :: int where "CmdGroupInfo = 15"
definition CmdGroupList :: int where "CmdGroupList = 16"
definition CmdFile :: int where "CmdFile = 17"
definition CmdGroupInviteMember :: int where "CmdGroupInviteMember = 18"
definition CmdRecall :: int where "CmdRecall = 19"
definition CmdFriendRequest :: int where "CmdFriendRequest = 20"
definition CmdFriendResponse :: int where "CmdFriendResponse = 21"
definition CmdTyping :: int where "CmdTyping = 22"
definition CmdForward :: int where "CmdForward = 23"
definition CmdEdit :: int where "CmdEdit = 24"

definition ChatTypeSingle :: int where "ChatTypeSingle = 1"
definition ChatTypeGroup :: int where "ChatTypeGroup = 2"

definition MsgTypeText :: int where "MsgTypeText = 1"
definition MsgTypeImage :: int where "MsgTypeImage = 2"
definition MsgTypeVoice :: int where "MsgTypeVoice = 3"
definition MsgTypeVideo :: int where "MsgTypeVideo = 4"
definition MsgTypeFile :: int where "MsgTypeFile = 5"

lemmas cmd_defs =
  CmdNone_def CmdChat_def CmdAck_def CmdLogin_def CmdLoginResp_def CmdOffline_def
  CmdHeartbeat_def CmdKick_def CmdHistory_def CmdReadReceipt_def CmdUnreadCount_def
  CmdSearch_def CmdGroupCreate_def CmdGroupJoin_def CmdGroupLeave_def CmdGroupInfo_def
  CmdGroupList_def CmdFile_def CmdGroupInviteMember_def CmdRecall_def CmdFriendRequest_def
  CmdFriendResponse_def CmdTyping_def CmdForward_def CmdEdit_def

lemmas type_defs = ChatTypeSingle_def ChatTypeGroup_def MsgTypeText_def MsgTypeImage_def
  MsgTypeVoice_def MsgTypeVideo_def MsgTypeFile_def

text \<open>
  Error values. \<open>ErrInvalidCmd\<close> and \<open>ErrMissingTarget\<close> are the sentinel variables of the
  package; \<open>ErrorsNew\<close> is a fresh value made by \<open>errors.New\<close>, equal to no sentinel.
\<close>

datatype proto_error = ErrInvalidCmd | ErrMissingTarget | ErrorsNew string

fun proto_error_text :: "proto_error \<Rightarrow> string" where
  "proto_error_text ErrInvalidCmd = ''invalid command''"
| "proto_error_text ErrMissingTarget = ''chat message missing target''"
| "proto_error_text (ErrorsNew s) = s"

definition needs_target :: "int \<Rightarrow> bool" where
  "needs_target c \<longleftrightarrow> c = CmdChat \<or> c = CmdHistory \<or> c = CmdReadReceipt \<or> c = CmdFile \<or>
    c = CmdRecall \<or> c = CmdFriendRequest \<or> c = CmdFriendResponse \<or> c = CmdForward \<or> c = CmdEdit"

text \<open>\<open>Validate\<close> returns nil (\<open>None\<close>) or an error.\<close>

definition Validate :: "message \<Rightarrow> proto_error option" where
  "Validate m =
    (if m_cmd m \<le> CmdNone \<or> m_cmd m > CmdEdit then Some (ErrorsNew ''invalid command'')
     else if needs_target (m_cmd m) \<and> m_to m = [] then Some ErrMissingTarget
     else None)"

lemma Validate_None_iff:
  "Validate m = None \<longleftrightarrow>
    1 \<le> m_cmd m \<and> m_cmd m \<le> 24 \<and> (needs_target (m_cmd m) \<longrightarrow> m_to m \<noteq> [])"
  by (auto simp: Validate_def cmd_defs)

lemma needs_target_set: "needs_target c \<longleftrightarrow> c \<in> {1, 8, 9, 17, 19, 20, 21, 23, 24}"
  by (simp add: needs_target_def cmd_defs)

end
