(* ===== verification/Client.thy ===== *)
theory Client
  imports Proto Go_Time
begin

text \<open>
  One connection, \<open>internal/gateway/client.go\<close>. The buffered channel \<open>send\<close> is the list of the
  frames in it and its capacity (\<open>sendBufSize\<close>, positive in every configuration), \<open>ping\<close> a
  channel of capacity one, \<open>closed\<close> whether the channel of that name is closed. The transport
  is an interface; what the connection does to it is recorded: the frames it wrote and how
  often it closed it.

  Go's \<open>select\<close> chooses freely among the ready cases: \<open>Send\<close> on a closed connection that has
  room takes the choice as an argument, and \<open>WriteLoop\<close>, with everything that may happen
  around it, is a step relation. The protobuf encoder is the parameter \<open>mar\<close>.
\<close>

datatype send_error = MarshalError | ErrSendBufferFull | ErrClientClosed

datatype frame = DataFrame bytes | PingFrame

record client =
  c_UID :: string
  c_Username :: string
  c_send :: "bytes list"
  c_sendCap :: nat
  c_ping :: bool
  c_closed :: bool
  c_lastHeartbeat :: gotime
  c_wire :: "frame list"
  c_transportCloses :: nat

definition NewClient :: "string \<Rightarrow> string \<Rightarrow> nat \<Rightarrow> gotime \<Rightarrow> client" where
  "NewClient uid username sendBufSize nw =
    \<lparr>c_UID = uid, c_Username = username, c_send = [], c_sendCap = sendBufSize, c_ping = False,
     c_closed = False, c_lastHeartbeat = nw, c_wire = [], c_transportCloses = 0\<rparr>"

definition Heartbeat :: "client \<Rightarrow> gotime" where
  "Heartbeat c = c_lastHeartbeat c"

definition SetHeartbeat :: "gotime \<Rightarrow> client \<Rightarrow> client" where
  "SetHeartbeat t c = c\<lparr>c_lastHeartbeat := t\<rparr>"

definition has_room :: "client \<Rightarrow> bool" where
  "has_room c \<longleftrightarrow> length (c_send c) < c_sendCap c"

text \<open>\<open>pick\<close> is the choice of the \<open>select\<close> when both of its channels are ready.\<close>

definition Send :: "(message \<Rightarrow> bytes option) \<Rightarrow> bool \<Rightarrow> message \<Rightarrow> client \<Rightarrow> send_error option \<times> client" where
  "Send mar pick msg c =
    (case mar msg of
       None \<Rightarrow> (Some MarshalError, c)
     | Some data \<Rightarrow>
         if c_closed c \<and> (pick \<or> \<not> has_room c) then (Some ErrClientClosed, c)
         else if has_room c then (None, c\<lparr>c_send := c_send c @ [data]\<rparr>)
         else (Some ErrSendBufferFull, c))"

text \<open>\<open>closeOnce.Do\<close>: the body runs at the first call only, the one that closes \<open>closed\<close>.\<close>

definition Close :: "client \<Rightarrow> client" where
  "Close c = (if c_closed c then c
              else c\<lparr>c_closed := True, c_transportCloses := c_transportCloses c + 1\<rparr>)"

definition SendPing :: "client \<Rightarrow> client" where
  "SendPing c = (if c_ping c then c else c\<lparr>c_ping := True\<rparr>)"

section \<open>The write loop and its surroundings\<close>

text \<open>
  A connection with its write loop: whether the loop still runs, whether it ended because a
  write to the transport failed, and, as history, what \<open>Send\<close> accepted so far.
\<close>

record conn =
  conn_c :: client
  running :: bool
  failed :: "bytes option"
  accepted :: "bytes list"

definition start_conn :: "client \<Rightarrow> conn" where
  "start_conn c = \<lparr>conn_c = c, running = True, failed = None, accepted = c_send c\<rparr>"

definition push_wire :: "frame \<Rightarrow> client \<Rightarrow> client" where
  "push_wire f c = c\<lparr>c_wire := c_wire c @ [f]\<rparr>"

inductive conn_step :: "(message \<Rightarrow> bytes option) \<Rightarrow> conn \<Rightarrow> conn \<Rightarrow> bool" for mar where
  do_send: "Send mar pick msg (conn_c k) = (e, c) \<Longrightarrow>
    conn_step mar k (k\<lparr>conn_c := c, accepted := accepted k @ (if e = None then [the (mar msg)] else [])\<rparr>)"
| do_close: "conn_step mar k (k\<lparr>conn_c := Close (conn_c k)\<rparr>)"
| do_ping: "conn_step mar k (k\<lparr>conn_c := SendPing (conn_c k)\<rparr>)"
| do_beat: "conn_step mar k (k\<lparr>conn_c := SetHeartbeat t (conn_c k)\<rparr>)"
| loop_closed: "running k \<Longrightarrow> c_closed (conn_c k) \<Longrightarrow> conn_step mar k (k\<lparr>running := False\<rparr>)"
| loop_write: "running k \<Longrightarrow> c_send (conn_c k) = data # rest \<Longrightarrow>
    conn_step mar k (k\<lparr>conn_c := push_wire (DataFrame data) ((conn_c k)\<lparr>c_send := rest\<rparr>)\<rparr>)"
| loop_write_error: "running k \<Longrightarrow> c_send (conn_c k) = data # rest \<Longrightarrow>
    conn_step mar k (k\<lparr>conn_c := (conn_c k)\<lparr>c_send := rest\<rparr>, running := False, failed := Some data\<rparr>)"
| loop_ping: "running k \<Longrightarrow> c_ping (conn_c k) \<Longrightarrow>
    conn_step mar k (k\<lparr>conn_c := push_wire PingFrame ((conn_c k)\<lparr>c_ping := False\<rparr>)\<rparr>)"
| loop_ping_error: "running k \<Longrightarrow> c_ping (conn_c k) \<Longrightarrow>
    conn_step mar k (k\<lparr>conn_c := (conn_c k)\<lparr>c_ping := False\<rparr>, running := False\<rparr>)"

inductive conn_reach :: "(message \<Rightarrow> bytes option) \<Rightarrow> conn \<Rightarrow> conn \<Rightarrow> bool" for mar where
  reach_refl: "conn_reach mar k k"
| reach_step: "conn_reach mar k k1 \<Longrightarrow> conn_step mar k1 k2 \<Longrightarrow> conn_reach mar k k2"

fun data_frames :: "frame list \<Rightarrow> bytes list" where
  "data_frames [] = []"
| "data_frames (DataFrame d # fs) = d # data_frames fs"
| "data_frames (PingFrame # fs) = data_frames fs"

lemma data_frames_append [simp]: "data_frames (xs @ ys) = data_frames xs @ data_frames ys"
  by (induction xs rule: data_frames.induct) simp_all

section \<open>Facts about the operations\<close>

lemma Send_frame:
  assumes "Send mar pick msg c = (e, c')"
  shows "c_UID c' = c_UID c" and "c_closed c' = c_closed c" and "c_sendCap c' = c_sendCap c"
    and "c_wire c' = c_wire c" and "c_transportCloses c' = c_transportCloses c"
    and "c_send c' = c_send c @ (if e = None then [the (mar msg)] else [])"
  using assms by (auto simp: Send_def split: option.splits if_splits)

lemma Send_None_iff:
  "fst (Send mar pick msg c) = None \<longleftrightarrow> mar msg \<noteq> None \<and> has_room c \<and> (c_closed c \<longrightarrow> \<not> pick)"
  by (auto simp: Send_def split: option.splits)

lemma Send_open:
  assumes "mar msg = Some data" and "\<not> c_closed c"
  shows "Send mar pick msg c =
    (if has_room c then (None, c\<lparr>c_send := c_send c @ [data]\<rparr>) else (Some ErrSendBufferFull, c))"
  using assms by (simp add: Send_def)

lemma Close_facts:
  "c_closed (Close c)" "Close (Close c) = Close c" "c_send (Close c) = c_send c"
  "c_UID (Close c) = c_UID c" "c_wire (Close c) = c_wire c" "c_sendCap (Close c) = c_sendCap c"
  by (simp_all add: Close_def)

definition conn_inv :: "conn \<Rightarrow> bool" where
  "conn_inv k \<longleftrightarrow>
    accepted k = data_frames (c_wire (conn_c k)) @ (case failed k of None \<Rightarrow> [] | Some d \<Rightarrow> [d]) @ c_send (conn_c k) \<and>
    length (c_send (conn_c k)) \<le> c_sendCap (conn_c k) \<and>
    (running k \<longrightarrow> failed k = None) \<and>
    c_transportCloses (conn_c k) = (if c_closed (conn_c k) then 1 else 0)"

lemma conn_inv_step:
  assumes "conn_step mar k k'" and "conn_inv k"
  shows "conn_inv k'"
  using assms
proof (induction rule: conn_step.induct)
  case (do_send pick msg k e c)
  note fr = Send_frame [OF do_send(1)]
  have "length (c_send c) \<le> c_sendCap c"
    using do_send by (auto simp: conn_inv_def Send_def has_room_def split: option.splits if_splits)
  then show ?case using do_send(2) fr by (simp add: conn_inv_def)
qed (auto simp: conn_inv_def Close_def SendPing_def SetHeartbeat_def push_wire_def split: option.splits)

lemma conn_inv_reach: "conn_reach mar k k' \<Longrightarrow> conn_inv k \<Longrightarrow> conn_inv k'"
  by (induction rule: conn_reach.induct) (auto intro: conn_inv_step)

lemma conn_inv_start: "conn_inv (start_conn (NewClient uid name n t))"
  by (simp add: conn_inv_def start_conn_def NewClient_def)

section \<open>Properties\<close>

text \<open>
  C30. Whatever \<open>Send\<close>, \<open>Close\<close> and \<open>SendPing\<close> calls interleave with the write loop, the
  frames that reach the transport are exactly what \<open>Send\<close> accepted, in that order, with
  nothing skipped or repeated: what is accepted but not written is still queued, up to one
  frame whose write failed. The queue never exceeds its capacity and the transport is closed
  at most once.
\<close>

theorem write_order:
  assumes "conn_reach mar (start_conn (NewClient uid name n t)) k"
  shows "(\<exists>lost. length lost \<le> 1 \<and> (running k \<longrightarrow> lost = []) \<and>
      accepted k = data_frames (c_wire (conn_c k)) @ lost @ c_send (conn_c k)) \<and>
    length (c_send (conn_c k)) \<le> c_sendCap (conn_c k) \<and> c_transportCloses (conn_c k) \<le> 1"
proof -
  have inv: "conn_inv k" using conn_inv_reach [OF assms conn_inv_start] .
  let ?lost = "case failed k of None \<Rightarrow> [] | Some d \<Rightarrow> [d]"
  have "length ?lost \<le> 1 \<and> (running k \<longrightarrow> ?lost = []) \<and>
      accepted k = data_frames (c_wire (conn_c k)) @ ?lost @ c_send (conn_c k)"
    using inv by (auto simp: conn_inv_def split: option.splits)
  then show ?thesis using inv by (auto simp: conn_inv_def)
qed

definition demo_mar :: "message \<Rightarrow> bytes option" where
  "demo_mar m = Some (m_content m)"

theorem write_order_witness:
  "\<exists>k :: conn. c_wire (conn_c k) = [DataFrame ''hi''] \<and> accepted k = [''hi''] \<and>
    length (c_send (conn_c k)) \<le> c_sendCap (conn_c k) \<and> c_transportCloses (conn_c k) \<le> 1"
proof -
  let ?k0 = "start_conn (NewClient ''a'' ''A'' 2 \<lparr>wall = 0, mono = 0\<rparr>)"
  let ?c1 = "(conn_c ?k0)\<lparr>c_send := [''hi'']\<rparr>"
  let ?k1 = "?k0\<lparr>conn_c := ?c1, accepted := [''hi'']\<rparr>"
  let ?k2 = "?k1\<lparr>conn_c := push_wire (DataFrame ''hi'') (?c1\<lparr>c_send := []\<rparr>)\<rparr>"
  have "Send demo_mar False (msg0\<lparr>m_content := ''hi''\<rparr>) (conn_c ?k0) = (None, ?c1)"
    by (simp add: Send_def demo_mar_def start_conn_def NewClient_def has_room_def)
  from do_send [OF this] have 1: "conn_step demo_mar ?k0 ?k1"
    by (simp add: start_conn_def NewClient_def demo_mar_def)
  have 2: "conn_step demo_mar ?k1 ?k2"
    using loop_write [of ?k1 "''hi''" "[]" demo_mar] by (simp add: start_conn_def)
  have "conn_reach demo_mar ?k0 ?k2" by (intro reach_step [OF reach_step [OF reach_refl 1] 2])
  note w = conjunct2 [OF write_order [OF this]]
  have "c_wire (conn_c ?k2) = [DataFrame ''hi'']" "accepted ?k2 = [''hi'']"
    by (simp_all add: push_wire_def start_conn_def NewClient_def)
  with w show ?thesis by blast
qed

text \<open>
  Once the write loop has ended, no later call makes anything reach the transport, while
  \<open>Send\<close> still reports success whenever there is room and the connection is open (the loop ends
  on a write error without closing it) or the \<open>select\<close> picks the send case. Success of \<open>Send\<close>
  means accepted, not delivered.
\<close>

theorem stopped_loop_silent:
  assumes "conn_reach mar k k'" and "\<not> running k"
  shows "\<not> running k' \<and> c_wire (conn_c k') = c_wire (conn_c k) \<and>
    (mar msg \<noteq> None \<and> has_room (conn_c k') \<longrightarrow> fst (Send mar False msg (conn_c k')) = None)"
proof -
  have "\<not> running k' \<and> c_wire (conn_c k') = c_wire (conn_c k)"
    using assms
  proof (induction rule: conn_reach.induct)
    case (reach_step k k1 k2)
    then have k1: "\<not> running k1" "c_wire (conn_c k1) = c_wire (conn_c k)" by auto
    from reach_step.hyps(2) k1 show ?case
      by (induction rule: conn_step.induct)
        (auto simp: Close_def SendPing_def SetHeartbeat_def dest: Send_frame(4))
  qed simp
  then show ?thesis by (simp add: Send_None_iff)
qed

theorem stopped_loop_silent_witness:
  "fst (Send demo_mar False msg0 (Close (NewClient ''a'' ''A'' 2 \<lparr>wall = 0, mono = 0\<rparr>))) = None"
  using stopped_loop_silent [OF reach_refl, of "(start_conn (Close (NewClient ''a'' ''A'' 2 \<lparr>wall = 0, mono = 0\<rparr>)))\<lparr>running := False\<rparr>" demo_mar msg0]
  by (simp add: start_conn_def demo_mar_def has_room_def NewClient_def Close_def)

end
