(* ===== verification/Hub.thy ===== *)
theory Hub
  imports Client
begin

text \<open>
  The in-memory hub, \<open>internal/gateway/hub.go\<close>: which connection serves a user, and the
  bounded offline queue of each user. Connections are objects with identity (a user may have
  an old and a new one at the same time), so they live in a heap and the hub's map holds their
  addresses. The contract of an offline store is the locale \<open>offline_store\<close>.
\<close>

type_synonym addr = nat
type_synonym heap = "addr \<Rightarrow> client"

record hub =
  h_clients :: "(string, addr) gomap"
  h_offline :: "(string, message list) gomap"
  h_offlineMaxSize :: nat
  h_maxConnections :: int

definition NewHub :: "nat \<Rightarrow> hub" where
  "NewHub offlineMaxSize =
    \<lparr>h_clients = [], h_offline = [], h_offlineMaxSize = offlineMaxSize, h_maxConnections = 0\<rparr>"

definition SetMaxConnections :: "int \<Rightarrow> hub \<Rightarrow> hub" where
  "SetMaxConnections n h = h\<lparr>h_maxConnections := n\<rparr>"

definition errServerFull :: string where
  "errServerFull = ''server at capacity, please try later''"

definition kick_msg :: "string \<Rightarrow> message" where
  "kick_msg reason = msg0\<lparr>m_cmd := CmdKick, m_content := reason\<rparr>"

text \<open>\<open>x.Send(kick); x.Close()\<close>, the result of \<open>Send\<close> ignored.\<close>

definition kick :: "(message \<Rightarrow> bytes option) \<Rightarrow> bool \<Rightarrow> string \<Rightarrow> client \<Rightarrow> client" where
  "kick mar pick reason c = Close (snd (Send mar pick (kick_msg reason) c))"

definition at_capacity :: "hub \<Rightarrow> string \<Rightarrow> bool" where
  "at_capacity h uid \<longleftrightarrow> \<not> has_key (h_clients h) uid \<and> h_maxConnections h > 0 \<and>
    int (length (h_clients h)) \<ge> h_maxConnections h"

definition Register :: "(message \<Rightarrow> bytes option) \<Rightarrow> bool \<Rightarrow> addr \<Rightarrow> hub \<times> heap \<Rightarrow> hub \<times> heap" where
  "Register mar pick a = (\<lambda>(h, objs).
    let uid = c_UID (objs a); old = map_of (h_clients h) uid in
    if at_capacity h uid then (h, objs(a := kick mar pick errServerFull (objs a)))
    else
      let h' = h\<lparr>h_clients := AList.update uid a (h_clients h)\<rparr> in
      case old of
        None \<Rightarrow> (h', objs)
      | Some o' \<Rightarrow> (h', objs(o' := kick mar pick ''logged in from another device'' (objs o'))))"

definition Unregister :: "addr \<Rightarrow> heap \<Rightarrow> hub \<Rightarrow> hub" where
  "Unregister a objs h =
    (if map_of (h_clients h) (c_UID (objs a)) = Some a
     then h\<lparr>h_clients := AList.delete (c_UID (objs a)) (h_clients h)\<rparr> else h)"

definition HubGet :: "string \<Rightarrow> hub \<Rightarrow> addr option" where
  "HubGet uid h = map_of (h_clients h) uid"

definition IsOnline :: "string \<Rightarrow> hub \<Rightarrow> bool" where
  "IsOnline uid h = has_key (h_clients h) uid"

text \<open>A missing key of a Go map reads as the zero value, here the nil slice.\<close>

definition offline_queue :: "hub \<Rightarrow> string \<Rightarrow> message list" where
  "offline_queue h uid = (case map_of (h_offline h) uid of None \<Rightarrow> [] | Some q \<Rightarrow> q)"

definition StoreOffline :: "string \<Rightarrow> message \<Rightarrow> hub \<Rightarrow> hub" where
  "StoreOffline uid msg h =
    (let q = offline_queue h uid @ [msg];
         q = (if length q > h_offlineMaxSize h then drop (length q - h_offlineMaxSize h) q else q)
     in h\<lparr>h_offline := AList.update uid q (h_offline h)\<rparr>)"

definition DrainOffline :: "string \<Rightarrow> hub \<Rightarrow> message list \<times> hub" where
  "DrainOffline uid h = (offline_queue h uid, h\<lparr>h_offline := AList.delete uid (h_offline h)\<rparr>)"

definition OnlineUsers :: "hub \<Rightarrow> string list" where
  "OnlineUsers h = map fst (h_clients h)"

definition Count :: "hub \<Rightarrow> nat" where
  "Count h = length (h_clients h)"

section \<open>Invariant\<close>

text \<open>
  The connection registered for a user is a connection of that user, users are registered
  once, and every offline queue respects the limit.
\<close>

definition own_uids :: "heap \<Rightarrow> (string, addr) gomap \<Rightarrow> bool" where
  "own_uids objs m \<longleftrightarrow> (\<forall>u a. map_of m u = Some a \<longrightarrow> c_UID (objs a) = u)"

definition hub_ok :: "hub \<Rightarrow> heap \<Rightarrow> bool" where
  "hub_ok h objs \<longleftrightarrow> gomap_ok (h_clients h) \<and> gomap_ok (h_offline h) \<and> own_uids objs (h_clients h) \<and>
    (\<forall>u. length (offline_queue h u) \<le> h_offlineMaxSize h)"

lemma own_uids_update: "own_uids objs m \<Longrightarrow> own_uids objs (AList.update (c_UID (objs a)) a m)"
  by (auto simp: own_uids_def map_of_update)

lemma own_uids_delete: "own_uids objs m \<Longrightarrow> own_uids objs (AList.delete u m)"
  by (auto simp: own_uids_def map_of_delete)

definition within_capacity :: "hub \<Rightarrow> bool" where
  "within_capacity h \<longleftrightarrow> (0 < h_maxConnections h \<longrightarrow> int (length (h_clients h)) \<le> h_maxConnections h)"

lemma kick_UID [simp]: "c_UID (kick mar pick r c) = c_UID c"
  using Send_frame(1) [of mar pick "kick_msg r" c] by (simp add: kick_def Close_facts prod_eq_iff)

lemma kick_closed [simp]: "c_closed (kick mar pick r c)"
  by (simp add: kick_def Close_facts)

lemma c_UID_upd_kick: "c_UID ((objs(x := kick mar pick r (objs x))) a) = c_UID (objs a)"
  by simp

lemma offline_queue_clients [simp]: "offline_queue (h\<lparr>h_clients := m\<rparr>) = offline_queue h"
  by (simp add: offline_queue_def fun_eq_iff)

lemma offline_queue_store:
  "offline_queue (StoreOffline u m h) v =
    (if v = u then (let q = offline_queue h u @ [m] in drop (length q - h_offlineMaxSize h) q)
     else offline_queue h v)"
  by (simp add: offline_queue_def StoreOffline_def Let_def gomap_simps)

lemma offline_queue_drain:
  "offline_queue (snd (DrainOffline u h)) v = (if v = u then [] else offline_queue h v)"
  by (simp add: offline_queue_def DrainOffline_def gomap_simps)

lemma NewHub_simps [simp]: "offline_queue (NewHub n) u = []" "h_offlineMaxSize (NewHub n) = n" "h_clients (NewHub n) = []"
  by (simp_all add: NewHub_def offline_queue_def)

lemma hub_ok_New: "hub_ok (NewHub n) objs"
  by (simp add: hub_ok_def NewHub_def offline_queue_def own_uids_def)

text \<open>The three outcomes of a registration.\<close>

lemma Register_full:
  "at_capacity h (c_UID (objs a)) \<Longrightarrow>
    Register mar pick a (h, objs) = (h, objs(a := kick mar pick errServerFull (objs a)))"
  by (simp add: Register_def)

lemma Register_new:
  "\<not> at_capacity h (c_UID (objs a)) \<Longrightarrow> map_of (h_clients h) (c_UID (objs a)) = None \<Longrightarrow>
    Register mar pick a (h, objs) = (h\<lparr>h_clients := AList.update (c_UID (objs a)) a (h_clients h)\<rparr>, objs)"
  by (simp add: Register_def)

lemma Register_replace:
  "map_of (h_clients h) (c_UID (objs a)) = Some b \<Longrightarrow>
    Register mar pick a (h, objs) = (h\<lparr>h_clients := AList.update (c_UID (objs a)) a (h_clients h)\<rparr>,
      objs(b := kick mar pick ''logged in from another device'' (objs b)))"
  by (simp add: Register_def at_capacity_def has_key_def)

lemma Register_UID: "c_UID (snd (Register mar pick a (h, objs)) x) = c_UID (objs x)"
  by (simp add: Register_def Let_def split: option.split)

lemma Register_hub:
  "fst (Register mar pick a (h, objs)) = (if at_capacity h (c_UID (objs a)) then h
    else h\<lparr>h_clients := AList.update (c_UID (objs a)) a (h_clients h)\<rparr>)"
  by (simp add: Register_def Let_def split: option.split)

lemma hub_ok_heap: "(\<And>x. c_UID (objs' x) = c_UID (objs x)) \<Longrightarrow> hub_ok h objs' = hub_ok h objs"
  by (simp add: hub_ok_def own_uids_def)

lemma hub_ok_Register:
  assumes "hub_ok h objs"
  shows "hub_ok (fst (Register mar pick a (h, objs))) (snd (Register mar pick a (h, objs)))"
proof -
  have "hub_ok (fst (Register mar pick a (h, objs))) objs"
    using assms unfolding Register_hub by (auto simp: hub_ok_def own_uids_update)
  then show ?thesis by (simp add: hub_ok_heap [OF Register_UID])
qed

lemma within_capacity_Register:
  assumes "within_capacity h"
  shows "within_capacity (fst (Register mar pick a (h, objs)))"
  using assms by (auto simp: Register_hub within_capacity_def at_capacity_def length_update)

lemma hub_ok_Unregister: "hub_ok h objs \<Longrightarrow> hub_ok (Unregister a objs h) objs"
  by (simp add: hub_ok_def Unregister_def own_uids_delete)

lemma within_capacity_Unregister:
  "hub_ok h objs \<Longrightarrow> within_capacity h \<Longrightarrow> within_capacity (Unregister a objs h)"
  by (auto simp: within_capacity_def hub_ok_def Unregister_def length_delete)

lemma hub_ok_StoreOffline: "hub_ok h objs \<Longrightarrow> hub_ok (StoreOffline u m h) objs"
  unfolding hub_ok_def
  by (auto simp: offline_queue_store Let_def) (auto simp: StoreOffline_def Let_def)

lemma hub_ok_DrainOffline: "hub_ok h objs \<Longrightarrow> hub_ok (snd (DrainOffline u h)) objs"
  unfolding hub_ok_def
  by (auto simp: offline_queue_drain) (auto simp: DrainOffline_def)

section \<open>The contract of an offline store\<close>

text \<open>
  \<open>queue s u\<close> is what the store holds for \<open>u\<close>. A store keeps at most \<open>cap\<close> messages of a
  user, the newest ones, in order; \<open>fits\<close> says which messages it can represent and \<open>ok\<close> is its
  invariant.
\<close>

definition keep_last :: "nat \<Rightarrow> 'a list \<Rightarrow> 'a list" where
  "keep_last n xs = drop (length xs - n) xs"

lemma keep_last_snoc: "keep_last n (keep_last n xs @ [x]) = keep_last n (xs @ [x])"
proof -
  have "drop (length (drop (length xs - n) xs @ [x]) - n) (drop (length xs - n) xs @ [x]) =
      drop (length (xs @ [x]) - n) (xs @ [x])"
    by (cases "length xs < n") (auto simp: Suc_diff_le drop_Cons')
  then show ?thesis by (simp add: keep_last_def)
qed

lemma keep_last_short: "length xs \<le> n \<Longrightarrow> keep_last n xs = xs"
  by (simp add: keep_last_def)

locale offline_store =
  fixes store :: "string \<Rightarrow> message \<Rightarrow> 's \<Rightarrow> 's" and drain :: "string \<Rightarrow> 's \<Rightarrow> message list \<times> 's"
    and queue :: "'s \<Rightarrow> string \<Rightarrow> message list" and cap :: "'s \<Rightarrow> nat"
    and fits :: "message \<Rightarrow> bool" and ok :: "'s \<Rightarrow> bool"
  assumes ok_store: "ok s \<Longrightarrow> fits m \<Longrightarrow> ok (store u m s)"
    and ok_drain: "ok s \<Longrightarrow> ok (snd (drain u s))"
    and cap_store: "cap (store u m s) = cap s"
    and cap_drain: "cap (snd (drain u s)) = cap s"
    and queue_store: "ok s \<Longrightarrow> fits m \<Longrightarrow>
      queue (store u m s) v = (if v = u then keep_last (cap s) (queue s u @ [m]) else queue s v)"
    and drain_result: "ok s \<Longrightarrow> fst (drain u s) = queue s u"
    and queue_drain: "ok s \<Longrightarrow> queue (snd (drain u s)) v = (if v = u then [] else queue s v)"
    and queue_cap: "ok s \<Longrightarrow> length (queue s u) \<le> cap s"
begin

definition store_all :: "(string \<times> message) list \<Rightarrow> 's \<Rightarrow> 's" where
  "store_all = fold (\<lambda>(u, m). store u m)"

lemma store_all_facts:
  "ok s \<Longrightarrow> \<forall>(u, m) \<in> set ps. fits m \<Longrightarrow>
    ok (store_all ps s) \<and> cap (store_all ps s) = cap s \<and>
    queue (store_all ps s) v = keep_last (cap s) (queue s v @ map snd (filter (\<lambda>(u, _). u = v) ps))"
proof (induction ps rule: rev_induct)
  case Nil
  then show ?case by (simp add: store_all_def keep_last_short queue_cap)
next
  case (snoc p ps)
  obtain u m where p: "p = (u, m)" by (cases p)
  let ?s = "store_all ps s"
  have ih: "ok ?s" "cap ?s = cap s"
    "queue ?s v = keep_last (cap s) (queue s v @ map snd (filter (\<lambda>(u, _). u = v) ps))"
    using snoc by auto
  have fit: "fits m" using snoc.prems(2) p by auto
  have "queue (store u m ?s) v = (if v = u then keep_last (cap s) (queue ?s u @ [m]) else queue ?s v)"
    using queue_store [OF ih(1) fit] ih(2) by simp
  then show ?case
    using ih fit keep_last_snoc [of "cap s" "queue s v @ map snd (filter (\<lambda>(u, _). u = v) ps)" m]
    by (auto simp: store_all_def p ok_store cap_store)
qed

text \<open>
  What a user finds after any messages were stored for anybody: the newest ones for that user
  up to the limit, in the order they were stored, once.
\<close>

lemma drain_after_stores:
  assumes "ok s" and "\<forall>(u, m) \<in> set ps. fits m"
  shows "fst (drain v (store_all ps s)) =
      keep_last (cap s) (queue s v @ map snd (filter (\<lambda>(u, _). u = v) ps))"
    and "fst (drain v (snd (drain v (store_all ps s)))) = []"
proof -
  note f = store_all_facts [OF assms, of v]
  show "fst (drain v (store_all ps s)) =
      keep_last (cap s) (queue s v @ map snd (filter (\<lambda>(u, _). u = v) ps))"
    using f drain_result by auto
  show "fst (drain v (snd (drain v (store_all ps s)))) = []"
    using f drain_result queue_drain ok_drain by auto
qed

end

definition queues_ok :: "hub \<Rightarrow> bool" where
  "queues_ok h \<longleftrightarrow> (\<forall>u. length (offline_queue h u) \<le> h_offlineMaxSize h)"

lemma StoreOffline_max: "h_offlineMaxSize (StoreOffline u m h) = h_offlineMaxSize h"
  by (simp add: StoreOffline_def Let_def)

lemma DrainOffline_facts:
  "h_offlineMaxSize (snd (DrainOffline u h)) = h_offlineMaxSize h"
  "fst (DrainOffline u h) = offline_queue h u"
  by (simp_all add: DrainOffline_def)

interpretation hub_store: offline_store StoreOffline DrainOffline offline_queue h_offlineMaxSize
  "\<lambda>_. True" queues_ok
  by unfold_locales
    (auto simp: queues_ok_def offline_queue_store offline_queue_drain keep_last_def Let_def
      StoreOffline_max DrainOffline_facts)

section \<open>Properties\<close>

text \<open>What may happen to a hub, in any order: the calls of its methods and \<open>Close\<close> of a connection.\<close>

datatype hub_op =
    DoRegister bool addr | DoUnregister addr | DoStore string message | DoDrain string | DoClose addr

fun hub_step :: "(message \<Rightarrow> bytes option) \<Rightarrow> hub_op \<Rightarrow> hub \<times> heap \<Rightarrow> hub \<times> heap" where
  "hub_step mar (DoRegister pick a) s = Register mar pick a s"
| "hub_step mar (DoUnregister a) (h, objs) = (Unregister a objs h, objs)"
| "hub_step mar (DoStore u m) (h, objs) = (StoreOffline u m h, objs)"
| "hub_step mar (DoDrain u) (h, objs) = (snd (DrainOffline u h), objs)"
| "hub_step mar (DoClose a) (h, objs) = (h, objs(a := Close (objs a)))"

lemma store_drain_capacity:
  "within_capacity (StoreOffline u m h) = within_capacity h"
  "within_capacity (snd (DrainOffline u h)) = within_capacity h"
  by (simp_all add: within_capacity_def StoreOffline_def DrainOffline_def Let_def)

lemma hub_step_ok:
  assumes "hub_ok h objs \<and> within_capacity h" and "hub_step mar p (h, objs) = (h', objs')"
  shows "hub_ok h' objs' \<and> within_capacity h'"
proof (cases p)
  case (DoRegister pick a)
  then show ?thesis
    using hub_ok_Register [of h objs mar pick a] within_capacity_Register [of h mar pick a objs] assms by simp
qed (use assms in \<open>auto simp: hub_ok_Unregister within_capacity_Unregister hub_ok_StoreOffline
      hub_ok_DrainOffline store_drain_capacity hub_ok_heap [of "fun_upd objs _ _" objs] Close_facts\<close>)

lemma hub_run_ok:
  "hub_ok h objs \<and> within_capacity h \<Longrightarrow> fold (hub_step mar) ps (h, objs) = (h', objs') \<Longrightarrow>
    hub_ok h' objs' \<and> within_capacity h'"
proof (induction ps arbitrary: h objs)
  case (Cons p ps)
  obtain h1 objs1 where 1: "hub_step mar p (h, objs) = (h1, objs1)" by (metis surj_pair)
  show ?case using Cons.IH [OF hub_step_ok [OF Cons.prems(1) 1]] Cons.prems(2) 1 by simp
qed simp

text \<open>
  In every state a hub reaches, a user has at most one registered connection and it is a
  connection of that user, no more users than the connection limit are registered, and no
  offline queue is longer than the limit.
\<close>

theorem hub_invariant:
  assumes "fold (hub_step mar) ps (SetMaxConnections n (NewHub q), objs) = (h, objs')"
  shows "hub_ok h objs' \<and> within_capacity h"
proof (rule hub_run_ok [OF _ assms])
  show "hub_ok (SetMaxConnections n (NewHub q)) objs \<and> within_capacity (SetMaxConnections n (NewHub q))"
    using hub_ok_New [of q objs]
    by (simp add: hub_ok_def within_capacity_def SetMaxConnections_def NewHub_def offline_queue_def)
qed

definition demo_heap :: heap where
  "demo_heap a = NewClient (if a = 3 then ''bob'' else ''alice'') ''x'' 4 \<lparr>wall = 0, mono = 0\<rparr>"

theorem hub_invariant_witness:
  "hub_ok \<lparr>h_clients = [(''alice'', 2)], h_offline = [], h_offlineMaxSize = 5, h_maxConnections = 1\<rparr>
      (demo_heap(1 := kick demo_mar False ''logged in from another device'' (demo_heap 1),
                 3 := kick demo_mar False errServerFull (demo_heap 3))) \<and>
    within_capacity \<lparr>h_clients = [(''alice'', 2)], h_offline = [], h_offlineMaxSize = 5, h_maxConnections = 1\<rparr>"
  by (rule hub_invariant [of demo_mar "[DoRegister False 1, DoRegister False 2, DoRegister False 3]" 1 5 demo_heap])
    (simp add: Register_def SetMaxConnections_def NewHub_def demo_heap_def NewClient_def at_capacity_def has_key_def Let_def)

text \<open>
  C29. One session per user: after an accepted registration the user is served by the new
  connection; the one it replaces is closed, after the kick notice was put in its buffer if it
  was open and had room, and its own late clean-up does not remove the new connection. A refused
  connection is closed and the hub is unchanged.
\<close>

theorem single_session:
  assumes "hub_ok h objs" and "Register mar pick a (h, objs) = (h', objs')"
  shows "(at_capacity h (c_UID (objs a)) \<longrightarrow> h' = h \<and> c_closed (objs' a)) \<and>
    (\<not> at_capacity h (c_UID (objs a)) \<longrightarrow> HubGet (c_UID (objs a)) h' = Some a \<and>
      (\<forall>b. HubGet (c_UID (objs a)) h = Some b \<longrightarrow>
        c_closed (objs' b) \<and> (b \<noteq> a \<longrightarrow> Unregister b objs' h' = h') \<and>
        (\<forall>d. mar (kick_msg ''logged in from another device'') = Some d \<and> \<not> c_closed (objs b) \<and> has_room (objs b)
          \<longrightarrow> c_send (objs' b) = c_send (objs b) @ [d])))"
proof (cases "at_capacity h (c_UID (objs a))")
  case True
  with assms(2) show ?thesis by (auto simp: Register_full)
next
  case False
  let ?u = "c_UID (objs a)"
  have h': "h' = h\<lparr>h_clients := AList.update ?u a (h_clients h)\<rparr>"
    using assms(2) Register_hub [of mar pick a h objs] False by simp
  have new: "HubGet ?u h' = Some a" by (simp add: h' HubGet_def map_of_update)
  have "c_closed (objs' b) \<and> (b \<noteq> a \<longrightarrow> Unregister b objs' h' = h') \<and>
        (\<forall>d. mar (kick_msg ''logged in from another device'') = Some d \<and> \<not> c_closed (objs b) \<and> has_room (objs b)
          \<longrightarrow> c_send (objs' b) = c_send (objs b) @ [d])" if b: "HubGet ?u h = Some b" for b
  proof -
    have o: "objs' = objs(b := kick mar pick ''logged in from another device'' (objs b))"
      using assms(2) b by (simp add: HubGet_def Register_replace)
    have "c_UID (objs b) = ?u" using assms(1) b by (auto simp: hub_ok_def own_uids_def HubGet_def)
    then have "Unregister b objs' h' = h'" if "b \<noteq> a"
      using that by (simp add: Unregister_def o h' map_of_update)
    then show ?thesis by (simp add: o kick_def Close_facts Send_open)
  qed
  with False new show ?thesis by simp
qed

theorem single_session_witness:
  "HubGet ''alice'' (fst (Register demo_mar False 2 (Register demo_mar False 1 (NewHub 5, demo_heap)))) = Some 2 \<and>
    c_send (snd (Register demo_mar False 2 (Register demo_mar False 1 (NewHub 5, demo_heap))) 1) =
      [''logged in from another device'']"
proof -
  let ?h = "\<lparr>h_clients = [(''alice'', 1)], h_offline = [], h_offlineMaxSize = 5, h_maxConnections = 0\<rparr>"
  have 1: "Register demo_mar False 1 (NewHub 5, demo_heap) = (?h, demo_heap)"
    by (simp add: Register_def NewHub_def demo_heap_def NewClient_def at_capacity_def)
  have ok: "hub_ok ?h demo_heap"
    using hub_ok_Register [OF hub_ok_New [of 5 demo_heap], of demo_mar False 1] 1 by simp
  have cap: "\<not> at_capacity ?h (c_UID (demo_heap 2))" by (simp add: at_capacity_def)
  have g: "HubGet (c_UID (demo_heap 2)) ?h = Some 1" "c_UID (demo_heap 2) = ''alice''"
    by (simp_all add: HubGet_def demo_heap_def NewClient_def)
  have r: "demo_mar (kick_msg ''logged in from another device'') = Some ''logged in from another device''"
    "\<not> c_closed (demo_heap 1)" "has_room (demo_heap 1)" "c_send (demo_heap 1) = []"
    by (simp_all add: demo_mar_def kick_msg_def demo_heap_def NewClient_def has_room_def)
  show ?thesis
    using single_session [OF ok prod.collapse [symmetric, of "Register demo_mar False 2 (?h, demo_heap)"]] cap g r unfolding 1 by simp
qed

text \<open>
  The hub's offline queues: when a user comes back after any messages were stored for
  anybody, the drain returns exactly the newest messages for that user up to the limit, in the
  order they were stored, and a second drain returns nothing.
\<close>

theorem offline_hub_drain:
  "fst (DrainOffline v (fold (\<lambda>(u, m). StoreOffline u m) ps (NewHub q))) =
      keep_last q (map snd (filter (\<lambda>(u, _). u = v) ps)) \<and>
    fst (DrainOffline v (snd (DrainOffline v (fold (\<lambda>(u, m). StoreOffline u m) ps (NewHub q))))) = []"
proof -
  have "queues_ok (NewHub q)" by (simp add: queues_ok_def NewHub_def offline_queue_def)
  from hub_store.drain_after_stores [OF this, of ps v] show ?thesis
    by (simp add: hub_store.store_all_def NewHub_def offline_queue_def)
qed

end
