(* ===== verification/Redis_Store.thy ===== *)
theory Redis_Store
  imports Hub
begin

text \<open>
  The Redis-backed offline store, \<open>internal/gateway/redis_store.go\<close>. The two Lua scripts of the
  file are translated with the list commands they call (\<open>RPUSH\<close>, \<open>LLEN\<close>, \<open>LTRIM\<close>, \<open>LRANGE\<close>,
  \<open>DEL\<close>, with Redis' rules for negative indices); a missing key is an empty list. Whether a
  call reaches Redis and whether its answer comes back is the argument \<open>out\<close>. The protobuf codec
  is the pair of parameters \<open>mar\<close> and \<open>unm\<close>; the in-memory fallback is the hub.
\<close>

datatype outcome = Replied | NotExecuted | ReplyLost

record redis_store =
  rs_lists :: "(string, bytes list) gomap"
  rs_maxSize :: int
  rs_keyPrefix :: string
  rs_fallback :: bool

definition NewRedisStore :: "int \<Rightarrow> redis_store" where
  "NewRedisStore maxSize = \<lparr>rs_lists = [], rs_maxSize = maxSize, rs_keyPrefix = ''im:offline:'', rs_fallback = False\<rparr>"

definition WithFallback :: "redis_store \<Rightarrow> redis_store" where
  "WithFallback rs = rs\<lparr>rs_fallback := True\<rparr>"

definition offlineKey :: "redis_store \<Rightarrow> string \<Rightarrow> string" where
  "offlineKey rs uid = rs_keyPrefix rs @ uid"

definition redis_list :: "redis_store \<Rightarrow> string \<Rightarrow> bytes list" where
  "redis_list rs k = (case map_of (rs_lists rs) k of None \<Rightarrow> [] | Some xs \<Rightarrow> xs)"

definition ltrim :: "int \<Rightarrow> int \<Rightarrow> 'a list \<Rightarrow> 'a list" where
  "ltrim start stop xs =
    (let len = int (length xs);
         i = max 0 (if start < 0 then len + start else start);
         j = min (len - 1) (if stop < 0 then len + stop else stop)
     in if i > j \<or> i \<ge> len then [] else drop (nat i) (take (nat (j + 1)) xs))"

definition storeScript :: "string \<Rightarrow> bytes \<Rightarrow> int \<Rightarrow> redis_store \<Rightarrow> redis_store" where
  "storeScript key data maxSize rs =
    (let xs = redis_list rs key @ [data];
         xs = (if int (length xs) > maxSize then ltrim (- maxSize) (-1) xs else xs)
     in rs\<lparr>rs_lists := AList.update key xs (rs_lists rs)\<rparr>)"

definition drainScript :: "string \<Rightarrow> redis_store \<Rightarrow> bytes list \<times> redis_store" where
  "drainScript key rs =
    (let msgs = redis_list rs key in
     (msgs, if length msgs > 0 then rs\<lparr>rs_lists := AList.delete key (rs_lists rs)\<rparr> else rs))"

definition RedisStoreOffline ::
  "(message \<Rightarrow> bytes option) \<Rightarrow> outcome \<Rightarrow> string \<Rightarrow> message \<Rightarrow> redis_store \<times> hub \<Rightarrow> redis_store \<times> hub" where
  "RedisStoreOffline mar out uid msg = (\<lambda>(rs, fb).
    let to_fallback = (if rs_fallback rs then StoreOffline uid msg fb else fb) in
    case mar msg of
      None \<Rightarrow> (rs, to_fallback)
    | Some data \<Rightarrow>
        let rs' = (if out = NotExecuted then rs else storeScript (offlineKey rs uid) data (rs_maxSize rs) rs)
        in (rs', if out = Replied then fb else to_fallback))"

definition RedisDrainOffline ::
  "(bytes \<Rightarrow> message option) \<Rightarrow> outcome \<Rightarrow> string \<Rightarrow> redis_store \<times> hub \<Rightarrow> message list \<times> redis_store \<times> hub" where
  "RedisDrainOffline unm out uid = (\<lambda>(rs, fb).
    let (items, rs1) = drainScript (offlineKey rs uid) rs;
        rs' = (if out = NotExecuted then rs else rs1) in
    if out = Replied then (List.map_filter unm items, rs', fb)
    else if rs_fallback rs then (let (ms, fb') = DrainOffline uid fb in (ms, rs', fb'))
    else ([], rs', fb))"

section \<open>The store refines the offline-store contract while Redis answers\<close>

definition codec_ok :: "(message \<Rightarrow> bytes option) \<Rightarrow> (bytes \<Rightarrow> message option) \<Rightarrow> message \<Rightarrow> bool" where
  "codec_ok mar unm m \<longleftrightarrow> (\<exists>d. mar m = Some d \<and> unm d = Some m)"

definition redis_queue :: "(bytes \<Rightarrow> message option) \<Rightarrow> redis_store \<times> hub \<Rightarrow> string \<Rightarrow> message list" where
  "redis_queue unm = (\<lambda>(rs, fb) uid. List.map_filter unm (redis_list rs (offlineKey rs uid)))"

text \<open>All stored items decode and no list is over the (positive) limit.\<close>

definition redis_ok :: "(bytes \<Rightarrow> message option) \<Rightarrow> redis_store \<times> hub \<Rightarrow> bool" where
  "redis_ok unm = (\<lambda>(rs, fb). 0 < rs_maxSize rs \<and>
    (\<forall>k. int (length (redis_list rs k)) \<le> rs_maxSize rs \<and> (\<forall>d \<in> set (redis_list rs k). unm d \<noteq> None)))"

lemma ltrim_last: "0 < n \<Longrightarrow> n < int (length xs) \<Longrightarrow> ltrim (- n) (-1) xs = keep_last (nat n) xs"
  by (simp add: ltrim_def keep_last_def Let_def nat_diff_distrib)

lemma redis_list_storeScript:
  assumes "0 < n"
  shows "redis_list (storeScript k d n rs) k' =
    (if k' = k then keep_last (nat n) (redis_list rs k @ [d]) else redis_list rs k')"
  using assms ltrim_last [OF assms, of "redis_list rs k @ [d]"]
  by (auto simp: storeScript_def Let_def redis_list_def map_of_update keep_last_short)

lemma storeScript_frame:
  "rs_maxSize (storeScript k d n rs) = rs_maxSize rs" "rs_keyPrefix (storeScript k d n rs) = rs_keyPrefix rs"
  "rs_fallback (storeScript k d n rs) = rs_fallback rs"
  by (simp_all add: storeScript_def Let_def)

lemma redis_list_drainScript:
  "redis_list (snd (drainScript k rs)) k' = (if k' = k then [] else redis_list rs k')"
  by (auto simp: drainScript_def Let_def redis_list_def map_of_delete split: option.splits)

lemma drainScript_frame:
  "rs_maxSize (snd (drainScript k rs)) = rs_maxSize rs" "rs_keyPrefix (snd (drainScript k rs)) = rs_keyPrefix rs"
  "rs_fallback (snd (drainScript k rs)) = rs_fallback rs" "fst (drainScript k rs) = redis_list rs k"
  by (simp_all add: drainScript_def Let_def)

lemma offlineKey_inj: "offlineKey rs u = offlineKey rs v \<longleftrightarrow> u = v"
  by (simp add: offlineKey_def)

lemma offlineKey_script:
  "offlineKey (storeScript k d n rs) u = offlineKey rs u" "offlineKey (snd (drainScript k rs)) u = offlineKey rs u"
  by (simp_all add: offlineKey_def storeScript_frame drainScript_frame)

lemma map_filter_total:
  "\<forall>d \<in> set xs. f d \<noteq> None \<Longrightarrow> List.map_filter f xs = map (the \<circ> f) xs"
  by (induction xs) (auto simp: List.map_filter_simps split: option.splits)

lemma set_keep_last: "set (keep_last n xs) \<subseteq> set xs"
  by (simp add: keep_last_def set_drop_subset)

lemma keep_last_ball: "\<forall>x \<in> set xs. P x \<Longrightarrow> \<forall>x \<in> set (keep_last n xs). P x"
  by (auto simp: keep_last_def dest: in_set_dropD)

lemma map_keep_last: "map f (keep_last n xs) = keep_last n (map f xs)"
  by (simp add: keep_last_def drop_map)

lemma redis_up_store:
  "codec_ok mar unm m \<Longrightarrow> RedisStoreOffline mar Replied u m (rs, fb) =
    (storeScript (offlineKey rs u) (the (mar m)) (rs_maxSize rs) rs, fb)"
  by (auto simp: RedisStoreOffline_def Let_def codec_ok_def)

lemma redis_up_drain:
  "RedisDrainOffline unm Replied u (rs, fb) =
    (redis_queue unm (rs, fb) u, snd (drainScript (offlineKey rs u) rs), fb)"
  by (simp add: RedisDrainOffline_def redis_queue_def split_beta Let_def drainScript_frame)

lemma redis_ok_store:
  assumes "redis_ok unm s" and "codec_ok mar unm m"
  shows "redis_ok unm (RedisStoreOffline mar Replied u m s)"
proof -
  obtain rs fb where s: "s = (rs, fb)" by (cases s)
  have pos: "0 < rs_maxSize rs" and len: "\<And>k. int (length (redis_list rs k)) \<le> rs_maxSize rs"
    and dec: "\<And>k d. d \<in> set (redis_list rs k) \<Longrightarrow> unm d \<noteq> None"
    using assms(1) by (auto simp: s redis_ok_def)
  have new: "unm (the (mar m)) \<noteq> None" using assms(2) by (auto simp: codec_ok_def)
  let ?l = "redis_list (storeScript (offlineKey rs u) (the (mar m)) (rs_maxSize rs) rs)"
  have "int (length (?l k)) \<le> rs_maxSize rs" for k
    using pos len [of k] by (auto simp: redis_list_storeScript keep_last_def)
  moreover have "unm d \<noteq> None" if "d \<in> set (?l k)" for d k
  proof (cases "k = offlineKey rs u")
    case True
    with that have "d \<in> set (redis_list rs k @ [the (mar m)])"
      using pos set_keep_last by (fastforce simp: redis_list_storeScript)
    then show ?thesis using new dec by auto
  qed (use that dec pos in \<open>simp add: redis_list_storeScript\<close>)
  ultimately show ?thesis
    using pos unfolding s redis_up_store [OF assms(2)] by (simp add: redis_ok_def storeScript_frame)
qed

lemma redis_queue_store:
  assumes "redis_ok unm s" and "codec_ok mar unm m"
  shows "redis_queue unm (RedisStoreOffline mar Replied u m s) v =
    (if v = u then keep_last (nat (rs_maxSize (fst s))) (redis_queue unm s u @ [m]) else redis_queue unm s v)"
proof -
  obtain rs fb where s: "s = (rs, fb)" by (cases s)
  let ?xs = "redis_list rs (offlineKey rs u)" and ?n = "nat (rs_maxSize rs)"
  have dec: "\<forall>d \<in> set (?xs @ [the (mar m)]). unm d \<noteq> None" "the (unm (the (mar m))) = m"
    using assms by (auto simp: s redis_ok_def codec_ok_def)
  have "\<forall>d \<in> set (keep_last ?n (?xs @ [the (mar m)])). unm d \<noteq> None"
    using dec(1) by (rule keep_last_ball)
  then have "List.map_filter unm (keep_last ?n (?xs @ [the (mar m)])) =
      map (the \<circ> unm) (keep_last ?n (?xs @ [the (mar m)]))"
    by (rule map_filter_total)
  moreover have "List.map_filter unm ?xs = map (the \<circ> unm) ?xs"
    using dec(1) by (intro map_filter_total) auto
  moreover have "map (the \<circ> unm) (keep_last ?n (?xs @ [the (mar m)])) =
      keep_last ?n (map (the \<circ> unm) ?xs @ [m])"
    unfolding map_keep_last by (simp only: map_append list.map comp_apply dec(2))
  ultimately have "List.map_filter unm (keep_last ?n (?xs @ [the (mar m)])) =
      keep_last ?n (List.map_filter unm ?xs @ [m])"
    by simp
  moreover have "0 < rs_maxSize rs" using assms(1) by (simp add: s redis_ok_def)
  ultimately show ?thesis
    unfolding s redis_up_store [OF assms(2)]
    by (simp add: redis_queue_def offlineKey_script redis_list_storeScript offlineKey_inj)
qed

interpretation redis_store: offline_store "RedisStoreOffline mar Replied" "RedisDrainOffline unm Replied"
  "redis_queue unm" "\<lambda>s. nat (rs_maxSize (fst s))" "codec_ok mar unm" "redis_ok unm" for mar unm
proof unfold_locales
  show "redis_ok unm s \<Longrightarrow> codec_ok mar unm m \<Longrightarrow> redis_ok unm (RedisStoreOffline mar Replied u m s)" for s m u
    by (rule redis_ok_store)
  show "redis_ok unm s \<Longrightarrow> redis_ok unm (snd (RedisDrainOffline unm Replied u s))" for s u
    by (cases s) (auto simp: redis_up_drain redis_ok_def drainScript_frame redis_list_drainScript)
  show "nat (rs_maxSize (fst (RedisStoreOffline mar Replied u m s))) = nat (rs_maxSize (fst s))" for u m s
    by (cases s) (simp add: RedisStoreOffline_def Let_def storeScript_frame split: option.split)
  show "nat (rs_maxSize (fst (snd (RedisDrainOffline unm Replied u s)))) = nat (rs_maxSize (fst s))" for u s
    by (cases s) (simp add: redis_up_drain drainScript_frame)
  show "redis_ok unm s \<Longrightarrow> codec_ok mar unm m \<Longrightarrow> redis_queue unm (RedisStoreOffline mar Replied u m s) v =
    (if v = u then keep_last (nat (rs_maxSize (fst s))) (redis_queue unm s u @ [m]) else redis_queue unm s v)" for s m u v
    by (rule redis_queue_store)
  show "fst (RedisDrainOffline unm Replied u s) = redis_queue unm s u" for u s
    by (cases s) (simp add: redis_up_drain)
  show "redis_queue unm (snd (RedisDrainOffline unm Replied u s)) v = (if v = u then [] else redis_queue unm s v)" for u s v
    by (cases s)
      (simp add: redis_up_drain redis_queue_def offlineKey_script redis_list_drainScript offlineKey_inj
        List.map_filter_simps)
  show "redis_ok unm s \<Longrightarrow> length (redis_queue unm s u) \<le> nat (rs_maxSize (fst s))" for s u
    by (cases s) (auto simp: redis_ok_def redis_queue_def map_filter_total nat_le_iff le_nat_iff)
qed

section \<open>Properties\<close>


definition demo_unm :: "bytes \<Rightarrow> message option" where
  "demo_unm d = Some (msg0\<lparr>m_content := d\<rparr>)"


text \<open>
  Messages stored during an outage of Redis go to the in-memory fallback, but once Redis
  answers again a drain reads Redis only: the message stays in the fallback and is not
  delivered until a drain happens to fail.
\<close>

theorem fallback_stranded:
  assumes "RedisStoreOffline mar NotExecuted u m (WithFallback rs, fb) = s1"
    and "RedisDrainOffline unm Replied u s1 = (ms, rs2, fb2)"
  shows "ms = redis_queue unm (WithFallback rs, fb) u \<and>
    offline_queue fb2 u = keep_last (h_offlineMaxSize fb) (offline_queue fb u @ [m])"
proof -
  have s1: "s1 = (WithFallback rs, StoreOffline u m fb)"
    using assms(1) by (auto simp: RedisStoreOffline_def WithFallback_def Let_def split: option.splits)
  have "ms = redis_queue unm (WithFallback rs, fb) u" "fb2 = StoreOffline u m fb"
    using assms(2) unfolding s1 redis_up_drain by (auto simp: redis_queue_def)
  then show ?thesis by (simp add: offline_queue_store keep_last_def Let_def)
qed

theorem fallback_stranded_witness:
  "offline_queue (snd (snd (RedisDrainOffline demo_unm Replied ''bob''
      (RedisStoreOffline demo_mar NotExecuted ''bob'' msg0 (WithFallback (NewRedisStore 5), NewHub 5))))) ''bob'' = [msg0]"
proof -
  obtain ms rs2 fb2 where d: "RedisDrainOffline demo_unm Replied ''bob''
      (RedisStoreOffline demo_mar NotExecuted ''bob'' msg0 (WithFallback (NewRedisStore 5), NewHub 5)) = (ms, rs2, fb2)"
    by (metis surj_pair)
  show ?thesis
    using fallback_stranded [OF refl d] by (simp add: d keep_last_def)
qed

end
