(* ===== verification/Dedup.thy ===== *)
theory Dedup
  imports Go_Time
begin

text \<open>
  The duplicate filter, \<open>internal/gateway/dedup.go\<close>: a map from \<open>sender:seq\<close> to the message ID
  assigned first, evicted by age, with a write-behind copy in Redis that is read after a cold
  start. What Redis answers to a \<open>GET\<close> is the parameter \<open>get\<close> (\<open>None\<close> for nil, error or
  timeout); what the workers send to it is returned as a \<open>SET\<close> request. Instants are readings
  of \<open>time.Now()\<close> given as arguments.
\<close>

record dedupEntry =
  e_msgID :: int
  e_created :: gotime

record redisTask =
  t_key :: string
  t_msgID :: int
  t_expire :: int

record dedup_cache =
  d_seen :: "(string, dedupEntry) gomap"
  d_ttl :: int
  d_redis :: bool
  d_redisKeyPF :: string
  d_redisTasks :: "redisTask list"
  d_marks :: int
  d_done :: bool

definition redisTaskQueueCap :: nat where "redisTaskQueueCap = 1024"

definition NewDedupCache :: "int \<Rightarrow> dedup_cache" where
  "NewDedupCache ttl = \<lparr>d_seen = [], d_ttl = ttl, d_redis = False, d_redisKeyPF = ''im:dedup:'',
    d_redisTasks = [], d_marks = 0, d_done = False\<rparr>"

definition SetRedis :: "dedup_cache \<Rightarrow> dedup_cache" where
  "SetRedis d = d\<lparr>d_redis := True\<rparr>"

definition dedup_key :: "string \<Rightarrow> int \<Rightarrow> string" where
  "dedup_key sender seq = sender @ '':'' @ show_int seq"

definition IsDuplicate ::
  "(string \<Rightarrow> int option) \<Rightarrow> gotime \<Rightarrow> string \<Rightarrow> int \<Rightarrow> dedup_cache \<Rightarrow> (bool \<times> int) \<times> dedup_cache" where
  "IsDuplicate get nw sender seq d =
    (let key = dedup_key sender seq in
     case map_of (d_seen d) key of
       Some e \<Rightarrow> ((True, e_msgID e), d)
     | None \<Rightarrow>
         if d_redis d \<and> d_marks d = 0 then
           (case get (d_redisKeyPF d @ key) of
              Some val \<Rightarrow> ((True, val),
                d\<lparr>d_seen := AList.update key \<lparr>e_msgID = val, e_created = nw\<rparr> (d_seen d)\<rparr>)
            | None \<Rightarrow> ((False, 0), d))
         else ((False, 0), d))"

definition Mark :: "gotime \<Rightarrow> string \<Rightarrow> int \<Rightarrow> int \<Rightarrow> dedup_cache \<Rightarrow> dedup_cache" where
  "Mark nw sender seq msgID d =
    (let key = dedup_key sender seq;
         d = d\<lparr>d_seen := AList.update key \<lparr>e_msgID = msgID, e_created = nw\<rparr> (d_seen d),
               d_marks := i64 (d_marks d + 1)\<rparr> in
     if d_redis d then
       (let t = \<lparr>t_key = key, t_msgID = msgID, t_expire = i64 (d_ttl d * 2)\<rparr> in
        if length (d_redisTasks d) < redisTaskQueueCap then d\<lparr>d_redisTasks := d_redisTasks d @ [t]\<rparr> else d)
     else d)"

definition Marks :: "dedup_cache \<Rightarrow> int" where
  "Marks d = d_marks d"

text \<open>One turn of a worker: the \<open>SET key value\<close> request it sends, with its expiry.\<close>

definition redisWorker :: "dedup_cache \<Rightarrow> (string \<times> int \<times> int) option \<times> dedup_cache" where
  "redisWorker d =
    (case d_redisTasks d of
       [] \<Rightarrow> (None, d)
     | t # ts \<Rightarrow> (Some (d_redisKeyPF d @ t_key t, t_msgID t, t_expire t), d\<lparr>d_redisTasks := ts\<rparr>))"

text \<open>The body of \<open>cleanupLoop\<close> at a tick; \<open>Before\<close> compares the monotonic readings.\<close>

definition dedup_cleanup :: "gotime \<Rightarrow> dedup_cache \<Rightarrow> dedup_cache" where
  "dedup_cleanup nw d =
    d\<lparr>d_seen := filter (\<lambda>(_, e). \<not> mono (e_created e) < mono nw - d_ttl d) (d_seen d)\<rparr>"

definition DedupStop :: "dedup_cache \<Rightarrow> dedup_cache" where
  "DedupStop d = d\<lparr>d_done := True\<rparr>"

section \<open>Facts\<close>

text \<open>The key determines sender and sequence number, whatever characters the sender has.\<close>

lemma dedup_key_inject: "dedup_key a s = dedup_key b t \<longleftrightarrow> a = b \<and> s = t"
  using append_sep_inject [of "CHR '':''" "show_int s" "show_int t" a b] colon_not_in_show_int
  by (auto simp: dedup_key_def show_int_inject)

definition remembered :: "dedup_cache \<Rightarrow> string \<Rightarrow> int \<Rightarrow> int option" where
  "remembered d sender seq = map_option e_msgID (map_of (d_seen d) (dedup_key sender seq))"

definition dedup_ok :: "dedup_cache \<Rightarrow> bool" where
  "dedup_ok d \<longleftrightarrow> gomap_ok (d_seen d) \<and> length (d_redisTasks d) \<le> redisTaskQueueCap"

lemma seen_Mark:
  "d_seen (Mark nw u s i d) = AList.update (dedup_key u s) \<lparr>e_msgID = i, e_created = nw\<rparr> (d_seen d)"
  by (simp add: Mark_def Let_def)

lemma dedup_frame:
  "d_ttl (Mark nw u s i d) = d_ttl d" "d_ttl (dedup_cleanup nw d) = d_ttl d"
  "d_ttl (snd (IsDuplicate get nw u s d)) = d_ttl d"
  by (simp_all add: Mark_def Let_def dedup_cleanup_def IsDuplicate_def split: option.split)

lemma IsDuplicate_hit:
  "map_of (d_seen d) (dedup_key u s) = Some e \<Longrightarrow> IsDuplicate get nw u s d = ((True, e_msgID e), d)"
  by (simp add: IsDuplicate_def Let_def)

lemma dedup_ok_ops:
  assumes "dedup_ok d"
  shows "dedup_ok (Mark nw u s i d)" "dedup_ok (dedup_cleanup nw d)"
    "dedup_ok (snd (IsDuplicate get nw u s d))" "dedup_ok (snd (redisWorker d))"
proof -
  show "dedup_ok (Mark nw u s i d)"
    using assms by (auto simp: dedup_ok_def Mark_def Let_def)
  show "dedup_ok (dedup_cleanup nw d)"
    using assms by (auto simp: dedup_ok_def dedup_cleanup_def distinct_map_filter)
  show "dedup_ok (snd (IsDuplicate get nw u s d))"
    using assms by (auto simp: dedup_ok_def IsDuplicate_def Let_def split: option.split)
  show "dedup_ok (snd (redisWorker d))"
    using assms by (auto simp: dedup_ok_def redisWorker_def split: list.split)
qed

section \<open>Any use of the cache\<close>

datatype dedup_op =
    OpMark gotime string int int
  | OpCheck gotime string int
  | OpCleanup gotime
  | OpWorker

fun op_time :: "dedup_op \<Rightarrow> gotime option" where
  "op_time (OpMark t _ _ _) = Some t"
| "op_time (OpCheck t _ _) = Some t"
| "op_time (OpCleanup t) = Some t"
| "op_time OpWorker = None"

fun dedup_step :: "(string \<Rightarrow> int option) \<Rightarrow> dedup_op \<Rightarrow> dedup_cache \<Rightarrow> dedup_cache" where
  "dedup_step get (OpMark t u s i) d = Mark t u s i d"
| "dedup_step get (OpCheck t u s) d = snd (IsDuplicate get t u s d)"
| "dedup_step get (OpCleanup t) d = dedup_cleanup t d"
| "dedup_step get OpWorker d = snd (redisWorker d)"

lemma seen_check:
  "map_of (d_seen (snd (IsDuplicate get t u s d))) k = Some e \<or> k = dedup_key u s"
  if "map_of (d_seen d) k = Some e"
  using that by (auto simp: IsDuplicate_def Let_def map_of_update split: option.splits)

lemma dedup_step_keeps:
  assumes "dedup_ok d" and "map_of (d_seen d) (dedup_key u s) = Some e"
    and "\<And>t. op_time p = Some t \<Longrightarrow> mono t \<le> mono (e_created e) + d_ttl d"
    and "\<And>t i. p \<noteq> OpMark t u s i"
  shows "map_of (d_seen (dedup_step get p d)) (dedup_key u s) = Some e \<and> dedup_ok (dedup_step get p d) \<and>
    d_ttl (dedup_step get p d) = d_ttl d"
proof (cases p)
  case (OpMark t v r i)
  with assms(4) have "(v, r) \<noteq> (u, s)" by auto
  with OpMark assms show ?thesis by (auto simp: seen_Mark map_of_update dedup_key_inject dedup_ok_ops dedup_frame)
next
  case (OpCheck t v r)
  have "map_of (d_seen (snd (IsDuplicate get t v r d))) (dedup_key u s) = Some e"
  proof (cases "(v, r) = (u, s)")
    case True
    with assms(2) show ?thesis by (simp add: IsDuplicate_hit)
  next
    case False
    with seen_check [OF assms(2), of get t v r] show ?thesis by (auto simp: dedup_key_inject)
  qed
  with OpCheck assms(1) show ?thesis by (simp add: dedup_ok_ops dedup_frame)
next
  case (OpCleanup t)
  with assms(3) have "\<not> mono (e_created e) < mono t - d_ttl d" by auto
  then show ?thesis
    using OpCleanup assms(1,2) map_of_filter_gomap [of "d_seen d"]
    by (simp add: dedup_ok_ops dedup_frame) (simp add: dedup_cleanup_def dedup_ok_def)
next
  case OpWorker
  with assms(1,2) show ?thesis
    by (auto simp: dedup_ok_ops redisWorker_def split: list.split)
      (use assms(1) in \<open>auto simp: dedup_ok_def\<close>)
qed

lemma dedup_run_keeps:
  "dedup_ok d \<Longrightarrow> map_of (d_seen d) (dedup_key u s) = Some e \<Longrightarrow>
    \<forall>p \<in> set ps. (\<forall>t. op_time p = Some t \<longrightarrow> mono t \<le> mono (e_created e) + d_ttl d) \<and> (\<forall>t i. p \<noteq> OpMark t u s i) \<Longrightarrow>
    map_of (d_seen (fold (dedup_step get) ps d)) (dedup_key u s) = Some e"
proof (induction ps arbitrary: d)
  case (Cons p ps)
  have "map_of (d_seen (dedup_step get p d)) (dedup_key u s) = Some e \<and> dedup_ok (dedup_step get p d) \<and>
    d_ttl (dedup_step get p d) = d_ttl d"
    using Cons.prems by (intro dedup_step_keeps) auto
  with Cons show ?case by simp
qed simp

section \<open>Properties\<close>

text \<open>
  C28. A message that was marked is recognised as a duplicate, with the ID it got, for the whole
  TTL: whatever marks of other messages, checks, worker turns and clean-ups happen meanwhile,
  for senders and sequence numbers of any shape (the key never confuses two of them).
\<close>

theorem dedup_window:
  assumes "dedup_ok d"
    and "\<forall>p \<in> set ps. (\<forall>t. op_time p = Some t \<longrightarrow> mono t \<le> mono t0 + d_ttl d) \<and> (\<forall>t i. p \<noteq> OpMark t u s i)"
  shows "fst (IsDuplicate get nw u s (fold (dedup_step get) ps (Mark t0 u s i d))) = (True, i)"
proof -
  let ?e = "\<lparr>e_msgID = i, e_created = t0\<rparr>"
  have "map_of (d_seen (fold (dedup_step get) ps (Mark t0 u s i d))) (dedup_key u s) = Some ?e"
    using assms by (intro dedup_run_keeps) (simp_all add: dedup_ok_ops seen_Mark map_of_update dedup_frame)
  then show ?thesis by (simp add: IsDuplicate_hit)
qed

theorem dedup_window_witness:
  "fst (IsDuplicate (\<lambda>_. None) \<lparr>wall = 9, mono = 9\<rparr> ''alice'' 7
      (fold (dedup_step (\<lambda>_. None)) [OpCleanup \<lparr>wall = 8, mono = 8\<rparr>, OpMark \<lparr>wall = 8, mono = 8\<rparr> ''alice'' 8 101]
        (Mark \<lparr>wall = 1, mono = 1\<rparr> ''alice'' 7 100 (NewDedupCache 10)))) = (True, 100)"
  by (rule dedup_window) (auto simp: dedup_ok_def NewDedupCache_def)

text \<open>
  Redis is consulted only before the first mark of the process: from then on a message that
  this process has not seen is new, even when Redis still holds the record of an earlier run.
\<close>

theorem redis_only_before_first_mark:
  assumes "d_marks d \<noteq> 0" and "\<not> has_key (d_seen d) (dedup_key u s)"
  shows "IsDuplicate get nw u s d = ((False, 0), d)"
  using assms by (simp add: IsDuplicate_def has_key_def Let_def)

theorem redis_only_before_first_mark_witness:
  "fst (IsDuplicate (\<lambda>_. Some 55) \<lparr>wall = 1, mono = 1\<rparr> ''bob'' 3 (SetRedis (NewDedupCache 10))) = (True, 55) \<and>
   fst (IsDuplicate (\<lambda>_. Some 55) \<lparr>wall = 1, mono = 1\<rparr> ''bob'' 3 (Mark \<lparr>wall = 1, mono = 1\<rparr> ''alice'' 1 100 (SetRedis (NewDedupCache 10)))) = (False, 0)"
proof -
  let ?d = "Mark \<lparr>wall = 1, mono = 1\<rparr> ''alice'' 1 100 (SetRedis (NewDedupCache 10))"
  have "d_marks ?d \<noteq> 0"
    by (simp add: Mark_def Let_def SetRedis_def NewDedupCache_def i64_id in_i64_def)
  moreover have "\<not> has_key (d_seen ?d) (dedup_key ''bob'' 3)"
    by (simp add: seen_Mark has_key_def SetRedis_def NewDedupCache_def dedup_key_inject)
  ultimately have "IsDuplicate (\<lambda>_. Some 55) \<lparr>wall = 1, mono = 1\<rparr> ''bob'' 3 ?d = ((False, 0), ?d)"
    by (rule redis_only_before_first_mark)
  then show ?thesis by (simp add: IsDuplicate_def SetRedis_def NewDedupCache_def)
qed

end
