(* ===== verification/Rate_Limiter.thy ===== *)
theory Rate_Limiter
  imports Go_Time
begin

text \<open>
  The token buckets of \<open>internal/gateway/rate_limiter.go\<close>. A \<open>float64\<close> is a rational number
  and every floating-point operation ends in the rounding function \<open>rnd\<close>; the bounds of the
  buckets are shown for any monotone rounding that is exact on the whole numbers the limiter
  uses, the rate bound for exact arithmetic.
\<close>

record rateBucket =
  tokens :: rat
  lastTime :: gotime

record rate_limiter =
  buckets :: "(string, rateBucket) gomap"
  rl_rate :: rat
  rl_burst :: int
  rl_interval :: int
  rl_done :: bool
  rl_allowed :: int
  rl_rejected :: int

definition NewRateLimiter :: "(rat \<Rightarrow> rat) \<Rightarrow> int \<Rightarrow> int \<Rightarrow> int \<Rightarrow> rate_limiter" where
  "NewRateLimiter rnd rate burst cleanupInterval =
    \<lparr>buckets = [], rl_rate = rnd (of_int rate), rl_burst = burst,
     rl_interval = (if cleanupInterval \<le> 0 then 5 * 60 * 1000000000 else cleanupInterval),
     rl_done = False, rl_allowed = 0, rl_rejected = 0\<rparr>"

text \<open>The body of \<open>cleanupLoop\<close> at a tick.\<close>

definition rl_cleanup :: "gotime \<Rightarrow> rate_limiter \<Rightarrow> rate_limiter" where
  "rl_cleanup nw rl = rl\<lparr>buckets := filter (\<lambda>(_, b). \<not> time_sub nw (lastTime b) > rl_interval rl) (buckets rl)\<rparr>"

definition RLStop :: "rate_limiter \<Rightarrow> rate_limiter" where
  "RLStop rl = rl\<lparr>rl_done := True\<rparr>"

text \<open>\<open>Duration.Seconds\<close>: whole seconds and the rest, for a non-negative duration.\<close>

definition seconds :: "(rat \<Rightarrow> rat) \<Rightarrow> int \<Rightarrow> rat" where
  "seconds rnd d = rnd (rnd (of_int (d div 1000000000)) + rnd (rnd (of_int (d mod 1000000000)) / 1000000000))"

definition refill :: "(rat \<Rightarrow> rat) \<Rightarrow> gotime \<Rightarrow> rate_limiter \<Rightarrow> rateBucket \<Rightarrow> rat" where
  "refill rnd nw rl b =
    (let t = rnd (tokens b + rnd (seconds rnd (time_sub nw (lastTime b)) * rl_rate rl))
     in if t > rnd (of_int (rl_burst rl)) then rnd (of_int (rl_burst rl)) else t)"

definition Allow :: "(rat \<Rightarrow> rat) \<Rightarrow> gotime \<Rightarrow> string \<Rightarrow> rate_limiter \<Rightarrow> bool \<times> rate_limiter" where
  "Allow rnd nw uid rl =
    (case map_of (buckets rl) uid of
       None \<Rightarrow>
         (True, rl\<lparr>buckets := AList.update uid \<lparr>tokens = rnd (rnd (of_int (rl_burst rl)) - 1), lastTime = nw\<rparr> (buckets rl),
                   rl_allowed := i64 (rl_allowed rl + 1)\<rparr>)
     | Some b \<Rightarrow>
         let t = refill rnd nw rl b in
         if t \<ge> 1 then
           (True, rl\<lparr>buckets := AList.update uid \<lparr>tokens = rnd (t - 1), lastTime = nw\<rparr> (buckets rl),
                     rl_allowed := i64 (rl_allowed rl + 1)\<rparr>)
         else
           (False, rl\<lparr>buckets := AList.update uid \<lparr>tokens = t, lastTime = nw\<rparr> (buckets rl),
                      rl_rejected := i64 (rl_rejected rl + 1)\<rparr>))"

definition Allowed :: "rate_limiter \<Rightarrow> int" where "Allowed rl = rl_allowed rl"
definition Rejected :: "rate_limiter \<Rightarrow> int" where "Rejected rl = rl_rejected rl"

section \<open>Bounds of the buckets\<close>

text \<open>What is used of IEEE 754 rounding: it is monotone and exact on 0 and on the burst.\<close>

definition rounding :: "(rat \<Rightarrow> rat) \<Rightarrow> int \<Rightarrow> bool" where
  "rounding rnd burst \<longleftrightarrow> (\<forall>x y. x \<le> y \<longrightarrow> rnd x \<le> rnd y) \<and> rnd 0 = 0 \<and>
    rnd (of_int burst) = of_int burst"

definition buckets_ok :: "rate_limiter \<Rightarrow> bool" where
  "buckets_ok rl \<longleftrightarrow> gomap_ok (buckets rl) \<and> 0 \<le> rl_rate rl \<and> 1 \<le> rl_burst rl \<and>
    (\<forall>u b. map_of (buckets rl) u = Some b \<longrightarrow> 0 \<le> tokens b \<and> tokens b \<le> of_int (rl_burst rl))"

lemma rnd_nonneg: "rounding rnd n \<Longrightarrow> 0 \<le> x \<Longrightarrow> 0 \<le> rnd x"
  unfolding rounding_def by metis

lemma rnd_le_burst: "rounding rnd n \<Longrightarrow> x \<le> of_int n \<Longrightarrow> rnd x \<le> of_int n"
  unfolding rounding_def by metis

lemma seconds_nonneg: "rounding rnd n \<Longrightarrow> 0 \<le> d \<Longrightarrow> 0 \<le> seconds rnd d"
  by (simp add: seconds_def rnd_nonneg add_nonneg_nonneg)

lemma refill_bounds:
  assumes "rounding rnd (rl_burst rl)" and "0 \<le> tokens b" and "mono (lastTime b) \<le> mono nw"
    and "0 \<le> rl_rate rl" and "0 \<le> rl_burst rl"
  shows "0 \<le> refill rnd nw rl b \<and> refill rnd nw rl b \<le> of_int (rl_burst rl)"
proof -
  have "0 \<le> seconds rnd (time_sub nw (lastTime b)) * rl_rate rl"
    using assms by (simp add: seconds_nonneg time_sub_def)
  then have "0 \<le> rnd (tokens b + rnd (seconds rnd (time_sub nw (lastTime b)) * rl_rate rl))"
    using assms by (simp add: rnd_nonneg add_nonneg_nonneg)
  with assms show ?thesis by (auto simp: refill_def Let_def rounding_def)
qed

lemma buckets_ok_Allow:
  assumes "rounding rnd (rl_burst rl)" and "buckets_ok rl"
    and "\<And>b. map_of (buckets rl) uid = Some b \<Longrightarrow> mono (lastTime b) \<le> mono nw"
  shows "buckets_ok (snd (Allow rnd nw uid rl))"
proof (cases "map_of (buckets rl) uid")
  case None
  have "0 \<le> rnd (rnd (of_int (rl_burst rl)) - 1)" "rnd (rnd (of_int (rl_burst rl)) - 1) \<le> of_int (rl_burst rl)"
    using assms(1,2) by (auto simp: buckets_ok_def rounding_def intro: rnd_nonneg [OF assms(1)] rnd_le_burst [OF assms(1)])
  with None assms(2) show ?thesis by (auto simp: Allow_def buckets_ok_def map_of_update)
next
  case (Some b)
  let ?t = "refill rnd nw rl b"
  have t: "0 \<le> ?t" "?t \<le> of_int (rl_burst rl)"
    using refill_bounds [OF assms(1), of b nw] assms(2,3) Some by (auto simp: buckets_ok_def)
  then have "0 \<le> rnd (?t - 1)" if "1 \<le> ?t" using that by (intro rnd_nonneg [OF assms(1)]) simp
  moreover have "rnd (?t - 1) \<le> of_int (rl_burst rl)" using t by (intro rnd_le_burst [OF assms(1)]) simp
  ultimately show ?thesis
    using Some t assms(2) by (auto simp: Allow_def Let_def buckets_ok_def map_of_update)
qed

section \<open>The rate bound\<close>

text \<open>The decisions for one user among any requests, with exact arithmetic.\<close>

fun allow_run :: "(gotime \<times> string) list \<Rightarrow> rate_limiter \<Rightarrow> bool list \<times> rate_limiter" where
  "allow_run [] rl = ([], rl)"
| "allow_run ((nw, uid) # rs) rl =
    (let (a, rl1) = Allow (\<lambda>x. x) nw uid rl; (as, rl2) = allow_run rs rl1 in (a # as, rl2))"

definition granted :: "string \<Rightarrow> (gotime \<times> string) list \<Rightarrow> bool list \<Rightarrow> int" where
  "granted u rs as = int (length (filter (\<lambda>((_, v), a). a \<and> v = u) (zip rs as)))"

lemma seconds_exact: "seconds (\<lambda>x. x) d = of_int d / 1000000000"
proof -
  have "(of_int d :: rat) = of_int (d div 1000000000) * 1000000000 + of_int (d mod 1000000000)"
    by (metis div_mult_mod_eq of_int_add of_int_mult of_int_numeral)
  then show ?thesis unfolding seconds_def by (simp add: add_divide_distrib)
qed

definition per_ns :: "rate_limiter \<Rightarrow> int \<Rightarrow> rat" where
  "per_ns rl d = of_int d / 1000000000 * rl_rate rl"

lemma per_ns_add: "per_ns rl (a + b) = per_ns rl a + per_ns rl b"
  by (simp add: per_ns_def field_simps)

lemma refill_exact:
  "refill (\<lambda>x. x) nw rl b = min (of_int (rl_burst rl)) (tokens b + per_ns rl (mono nw - mono (lastTime b)))"
  by (simp add: refill_def Let_def seconds_exact time_sub_def per_ns_def min_def)

lemma Allow_frame: "rl_rate (snd (Allow rnd nw u rl)) = rl_rate rl" "rl_burst (snd (Allow rnd nw u rl)) = rl_burst rl"
  by (simp_all add: Allow_def Let_def split: option.split)

lemma Allow_other: "v \<noteq> u \<Longrightarrow> map_of (buckets (snd (Allow rnd nw u rl))) v = map_of (buckets rl) v"
  by (simp add: Allow_def Let_def map_of_update split: option.split)

lemma Allow_known:
  assumes "map_of (buckets rl) u = Some b"
  shows "fst (Allow rnd nw u rl) \<longleftrightarrow> 1 \<le> refill rnd nw rl b"
    and "map_of (buckets (snd (Allow rnd nw u rl))) u = Some \<lparr>tokens =
      (if 1 \<le> refill rnd nw rl b then rnd (refill rnd nw rl b - 1) else refill rnd nw rl b), lastTime = nw\<rparr>"
  using assms by (simp_all add: Allow_def Let_def map_of_update)

text \<open>One request of the user: what is granted comes out of the bucket or of the time passed.\<close>

lemma Allow_spend:
  assumes "map_of (buckets rl) u = Some b" and "0 \<le> tokens b" and "0 \<le> rl_burst rl"
    and "0 \<le> rl_rate rl" and "mono (lastTime b) \<le> mono nw"
  obtains b' where "map_of (buckets (snd (Allow (\<lambda>x. x) nw u rl))) u = Some b'"
    and "mono (lastTime b') = mono nw" and "0 \<le> tokens b'"
    and "of_int (of_bool (fst (Allow (\<lambda>x. x) nw u rl))) + tokens b' \<le>
      tokens b + per_ns rl (mono nw - mono (lastTime b))"
proof
  let ?t = "refill (\<lambda>x. x) nw rl b"
  let ?b = "\<lparr>tokens = (if 1 \<le> ?t then ?t - 1 else ?t), lastTime = nw\<rparr>"
  show "map_of (buckets (snd (Allow (\<lambda>x. x) nw u rl))) u = Some ?b" by (simp add: Allow_known [OF assms(1)])
  show "mono (lastTime ?b) = mono nw" by simp
  have "0 \<le> per_ns rl (mono nw - mono (lastTime b))" using assms by (simp add: per_ns_def)
  then have "0 \<le> ?t" using assms by (simp add: refill_exact)
  then show "0 \<le> tokens ?b" by simp
  show "of_int (of_bool (fst (Allow (\<lambda>x. x) nw u rl))) + tokens ?b \<le>
      tokens b + per_ns rl (mono nw - mono (lastTime b))"
    unfolding Allow_known(1) [OF assms(1)] by (simp add: refill_exact)
qed

lemma allow_run_Cons:
  "allow_run ((nw, v) # rs) rl =
    (fst (Allow (\<lambda>x. x) nw v rl) # fst (allow_run rs (snd (Allow (\<lambda>x. x) nw v rl))),
     snd (allow_run rs (snd (Allow (\<lambda>x. x) nw v rl))))"
  by (simp add: split_beta Let_def)

declare allow_run.simps(2) [simp del]

lemma granted_Cons: "granted u ((nw, v) # rs) (a # as) = of_bool (a \<and> v = u) + granted u rs as"
  by (simp add: granted_def)

lemma per_ns_mono: "0 \<le> rl_rate rl \<Longrightarrow> a \<le> b \<Longrightarrow> per_ns rl a \<le> per_ns rl b"
  by (simp add: per_ns_def mult_right_mono divide_right_mono)

lemma granted_from_bucket:
  assumes "map_of (buckets rl) u = Some b" and "0 \<le> rl_rate rl"
    and "\<forall>(nw, v) \<in> set rs. mono nw \<le> T" and "mono (lastTime b) \<le> T" and "0 \<le> tokens b"
    and "sorted (map (\<lambda>r. mono (fst r)) rs)" and "\<forall>(nw, v) \<in> set rs. mono (lastTime b) \<le> mono nw" and "1 \<le> rl_burst rl"
  shows "of_int (granted u rs (fst (allow_run rs rl))) \<le> tokens b + per_ns rl (T - mono (lastTime b))"
  using assms
proof (induction rs arbitrary: rl b)
  case Nil
  then show ?case by (simp add: granted_def per_ns_def)
next
  case (Cons r rs)
  obtain nw v where r: "r = (nw, v)" by (cases r)
  let ?rl = "snd (Allow (\<lambda>x. x) nw v rl)"
  have rate: "rl_rate ?rl = rl_rate rl" "rl_burst ?rl = rl_burst rl" by (simp_all add: Allow_frame)
  have per: "per_ns ?rl = per_ns rl" by (simp add: fun_eq_iff per_ns_def rate)
  show ?case
  proof (cases "v = u")
    case True
    obtain b' where b': "map_of (buckets ?rl) u = Some b'" "mono (lastTime b') = mono nw" and pos: "0 \<le> tokens b'"
      and spend: "of_int (of_bool (fst (Allow (\<lambda>x. x) nw u rl))) + tokens b' \<le> tokens b + per_ns rl (mono nw - mono (lastTime b))"
      using Allow_spend [OF Cons.prems(1,5) _ Cons.prems(2), of nw] Cons.prems(7,8) r True by force
    have "of_int (granted u rs (fst (allow_run rs ?rl))) \<le> tokens b' + per_ns rl (T - mono nw)"
      using Cons.IH [OF b'(1)] Cons.prems r b'(2) rate per pos by (auto simp: split_beta)
    moreover have "per_ns rl (T - mono (lastTime b)) = per_ns rl (T - mono nw) + per_ns rl (mono nw - mono (lastTime b))"
      by (simp add: per_ns_add [symmetric])
    ultimately show ?thesis
      using spend True by (simp add: r allow_run_Cons granted_Cons)
  next
    case False
    have "of_int (granted u rs (fst (allow_run rs ?rl))) \<le> tokens b + per_ns rl (T - mono (lastTime b))"
      using Cons.IH [of ?rl b] Cons.prems False rate per by (auto simp: Allow_other)
    with False show ?thesis by (simp add: r allow_run_Cons granted_Cons)
  qed
qed

section \<open>Properties\<close>



text \<open>
  Under any monotone rounding that is exact on 0 and on the burst, every bucket holds
  between 0 and burst tokens after every call, a user's first request is granted, and a request
  is granted exactly when a whole token is there after the refill.
\<close>

theorem bucket_bounds:
  assumes "rounding rnd (rl_burst rl)" and "buckets_ok rl"
    and "\<forall>b. map_of (buckets rl) uid = Some b \<longrightarrow> mono (lastTime b) \<le> mono nw"
  shows "buckets_ok (snd (Allow rnd nw uid rl)) \<and>
    (fst (Allow rnd nw uid rl) \<longleftrightarrow>
      (case map_of (buckets rl) uid of None \<Rightarrow> True | Some b \<Rightarrow> 1 \<le> refill rnd nw rl b))"
  using buckets_ok_Allow [OF assms(1,2)] assms(3) by (auto simp: Allow_def Let_def split: option.split)

theorem bucket_bounds_witness:
  "buckets_ok (snd (Allow (\<lambda>x. of_int \<lfloor>x\<rfloor>) \<lparr>wall = 0, mono = 0\<rparr> ''a'' (NewRateLimiter (\<lambda>x. of_int \<lfloor>x\<rfloor>) 3 2 0)))"
proof -
  have "rounding (\<lambda>x. of_int \<lfloor>x\<rfloor>) n" for n by (auto simp: rounding_def floor_mono)
  then show ?thesis
    using bucket_bounds [of "\<lambda>x. of_int \<lfloor>x\<rfloor>" "NewRateLimiter (\<lambda>x. of_int \<lfloor>x\<rfloor>) 3 2 0" "''a''" "\<lparr>wall = 0, mono = 0\<rparr>"]
    by (simp add: buckets_ok_def NewRateLimiter_def)
qed

end
