(* ===== verification/Snowflake.thy ===== *)
theory Snowflake
  imports Go_Time
begin

text \<open>
  The ID generator of \<open>internal/pkg/snowflake\<close>. \<open>Next\<close> takes the clock and the number of
  clock readings made so far, and returns the ID, the new number of readings and the
  generator after the call; its two waiting loops are functions with termination proofs.
  Results: IDs are non-negative 63-bit values that strictly increase over the calls of one
  generator (so they are unique), generators with different worker numbers never collide, and
  the timestamp of an ID can be read back.
\<close>

definition Epoch :: int where "Epoch = 1704067200000"
definition workerBits :: nat where "workerBits = 10"
definition sequenceBits :: nat where "sequenceBits = 12"
definition workerMax :: int where "workerMax = (-1) XOR (push_bit workerBits (-1))"
definition sequenceMax :: int where "sequenceMax = (-1) XOR (push_bit sequenceBits (-1))"
definition workerShift :: nat where "workerShift = sequenceBits"
definition timestampShift :: nat where "timestampShift = sequenceBits + workerBits"
definition maxClockBackoff :: int where "maxClockBackoff = 10 * 1000000"

record generator =
  workerID :: int
  sequence :: int
  lastStamp :: int

datatype snow_error = ErrWorkerIDInvalid int

definition New :: "int \<Rightarrow> snow_error + generator" where
  "New w = (if w < 0 \<or> w > workerMax then Inl (ErrWorkerIDInvalid w)
            else Inr \<lparr>workerID = w, sequence = 0, lastStamp = 0\<rparr>)"

text \<open>The two busy-waiting loops; \<open>nw\<close> is the last reading and \<open>k\<close> the next one's number.\<close>

function wait_ge :: "clock \<Rightarrow> int \<Rightarrow> int \<Rightarrow> nat \<Rightarrow> int \<times> nat" where
  "wait_ge c lst nw k = (if nw < lst then wait_ge c lst (now_ms c k) (Suc k) else (nw, k))"
  by pat_completeness auto

function wait_gt :: "clock \<Rightarrow> int \<Rightarrow> int \<Rightarrow> nat \<Rightarrow> int \<times> nat" where
  "wait_gt c lst nw k = (if nw \<le> lst then wait_gt c lst (now_ms c k) (Suc k) else (nw, k))"
  by pat_completeness auto

definition readings_left :: "clock \<Rightarrow> int \<Rightarrow> nat \<Rightarrow> nat" where
  "readings_left c x k = (LEAST j. x < now_ms c (k + j))"

lemma readings_left_0: "x < now_ms c k \<Longrightarrow> readings_left c x k = 0"
  unfolding readings_left_def by (rule Least_eq_0) simp

lemma readings_left_Suc:
  assumes "\<not> x < now_ms c k"
  shows "readings_left c x k = Suc (readings_left c x (Suc k))"
proof -
  obtain j where "x < now_ms c (k + j)" using now_ms_progress by blast
  then have "(LEAST j. x < now_ms c (k + j)) = Suc (LEAST j. x < now_ms c (k + Suc j))"
    using assms by (intro Least_Suc) auto
  then show ?thesis by (simp add: readings_left_def)
qed

termination wait_ge
proof (relation "measure (\<lambda>(c, lst, nw, k). if nw < lst then Suc (readings_left c (lst - 1) k) else 0)")
  show "((c, lst, now_ms c k, Suc k), c, lst, nw, k)
    \<in> measure (\<lambda>(c, lst, nw, k). if nw < lst then Suc (readings_left c (lst - 1) k) else 0)"
    if "nw < lst" for c lst nw k
    using that readings_left_Suc [of "lst - 1" c k] by auto
qed simp

termination wait_gt
proof (relation "measure (\<lambda>(c, lst, nw, k). if nw \<le> lst then Suc (readings_left c lst k) else 0)")
  show "((c, lst, now_ms c k, Suc k), c, lst, nw, k)
    \<in> measure (\<lambda>(c, lst, nw, k). if nw \<le> lst then Suc (readings_left c lst k) else 0)"
    if "nw \<le> lst" for c lst nw k
    using that readings_left_Suc [of lst c k] by auto
qed simp

declare wait_ge.simps [simp del] wait_gt.simps [simp del]

definition pack_id :: "int \<Rightarrow> int \<Rightarrow> int \<Rightarrow> int" where
  "pack_id nw w sq =
    (i64 (push_bit timestampShift (i64 (nw - Epoch))) OR i64 (push_bit workerShift w)) OR sq"

definition Next :: "clock \<Rightarrow> nat \<Rightarrow> generator \<Rightarrow> int \<times> nat \<times> generator" where
  "Next c k g =
    (let nw = now_ms c k; k = Suc k in
     if nw < lastStamp g \<and> i64 (i64 (lastStamp g - nw) * 1000000) > maxClockBackoff then (0, k, g)
     else
       let (nw, k) = (if nw < lastStamp g then wait_ge c (lastStamp g) nw k else (nw, k));
           (sq, nw, k) =
             (if nw = lastStamp g then
                (let sq = i64 (sequence g + 1) AND sequenceMax in
                 if sq = 0 then (let (nw, k) = wait_gt c (lastStamp g) nw k in (sq, nw, k))
                 else (sq, nw, k))
              else (0, nw, k))
       in (pack_id nw (workerID g) sq, k, g\<lparr>sequence := sq, lastStamp := nw\<rparr>))"

text \<open>\<open>ExtractTimestamp\<close>, as the millisecond the returned \<open>time.Time\<close> denotes.\<close>

definition ExtractTimestamp :: "int \<Rightarrow> int" where
  "ExtractTimestamp i = i64 (drop_bit timestampShift i + Epoch)"

lemmas snow_consts = workerBits_def sequenceBits_def workerMax_def sequenceMax_def
  workerShift_def timestampShift_def maxClockBackoff_def

lemma workerMax_eq: "workerMax = 1023"
  by (simp add: workerMax_def workerBits_def mask_eq_exp_minus_1)

lemma sequenceMax_eq: "sequenceMax = 4095"
  by (simp add: sequenceMax_def sequenceBits_def mask_eq_exp_minus_1)

section \<open>Well-formed generators and the layout of an ID\<close>

text \<open>
  The 41 bits left for the timestamp are enough until the year 2093; \<open>stamp_ok\<close> says that an
  instant lies in that range.
\<close>

definition stamp_ok :: "int \<Rightarrow> bool" where
  "stamp_ok t \<longleftrightarrow> Epoch \<le> t \<and> t < Epoch + 2 ^ 41"

definition gen_ok :: "generator \<Rightarrow> bool" where
  "gen_ok g \<longleftrightarrow> 0 \<le> workerID g \<and> workerID g \<le> workerMax \<and>
    0 \<le> sequence g \<and> sequence g \<le> sequenceMax \<and> 0 \<le> lastStamp g"

lemma or_split_low:
  assumes "0 \<le> (s::int)" and "s < 2 ^ n"
  shows "push_bit n h OR s = h * 2 ^ n + s"
proof -
  have "take_bit n s = s" using assms by (simp add: take_bit_int_eq_self)
  then have "push_bit n h OR s = concat_bit n s h"
    by (simp add: concat_bit_def or.commute)
  also have "\<dots> = h * 2 ^ n + s"
    using \<open>take_bit n s = s\<close> by (simp add: concat_bit_eq push_bit_eq_mult)
  finally show ?thesis .
qed

lemma pack_id_eq:
  assumes "stamp_ok nw" and "0 \<le> w" "w \<le> workerMax" and "0 \<le> s" "s \<le> sequenceMax"
  shows "pack_id nw w s = (nw - Epoch) * 2 ^ 22 + w * 2 ^ 12 + s"
proof -
  let ?t = "nw - Epoch"
  have t: "0 \<le> ?t" "?t < 2 ^ 41" using assms(1) by (auto simp: stamp_ok_def)
  have w: "0 \<le> w" "w < 2 ^ 10" using assms by (auto simp: workerMax_eq)
  have s: "0 \<le> s" "s < 2 ^ 12" using assms by (auto simp: sequenceMax_eq)
  have "push_bit 22 ?t OR push_bit 12 w = push_bit 12 (push_bit 10 ?t OR w)"
    by (simp add: push_bit_or)
  also have "\<dots> = push_bit 12 (?t * 2 ^ 10 + w)"
    using or_split_low [OF w] by simp
  finally have hi: "push_bit 22 ?t OR push_bit 12 w = push_bit 12 (?t * 2 ^ 10 + w)" .
  have "i64 (push_bit 22 ?t) = push_bit 22 ?t" "i64 ?t = ?t" "i64 (push_bit 12 w) = push_bit 12 w"
    using t w by (auto simp: i64_id in_i64_def push_bit_eq_mult)
  then have "pack_id nw w s = push_bit 12 (?t * 2 ^ 10 + w) OR s"
    by (simp add: pack_id_def snow_consts hi)
  also have "\<dots> = (?t * 2 ^ 10 + w) * 2 ^ 12 + s"
    using or_split_low [OF s] by simp
  finally show ?thesis by simp
qed

lemma pack_id_bounds:
  assumes "stamp_ok nw" and "0 \<le> w" "w \<le> workerMax" and "0 \<le> s" "s \<le> sequenceMax"
  shows "0 \<le> pack_id nw w s \<and> pack_id nw w s < 2 ^ 63"
  using assms unfolding pack_id_eq [OF assms]
  by (auto simp: stamp_ok_def workerMax_eq sequenceMax_eq)

lemma pack_id_less:
  assumes "stamp_ok nw" "stamp_ok nw'" and "0 \<le> w" "w \<le> workerMax"
    and "0 \<le> s" "s \<le> sequenceMax" "0 \<le> s'" "s' \<le> sequenceMax"
    and "nw < nw' \<or> nw = nw' \<and> s < s'"
  shows "pack_id nw w s < pack_id nw' w s'"
  using assms by (auto simp: pack_id_eq workerMax_eq sequenceMax_eq)

lemma digits_unique:
  assumes "0 \<le> s" "s < m" "0 \<le> s'" "s' < m" and "a * m + s = b * m + (s'::int)"
  shows "a = b \<and> s = s'"
proof -
  have "(a * m + s) div m = a" "(b * m + s') div m = b" using assms(1-4) by auto
  with assms(5) show ?thesis by auto
qed

lemma pack_id_worker_inj:
  assumes "stamp_ok nw" "stamp_ok nw'" and "0 \<le> w" "w \<le> workerMax" "0 \<le> w'" "w' \<le> workerMax"
    and "0 \<le> s" "s \<le> sequenceMax" "0 \<le> s'" "s' \<le> sequenceMax"
    and "pack_id nw w s = pack_id nw' w' s'"
  shows "nw = nw' \<and> w = w' \<and> s = s'"
proof -
  have s: "0 \<le> s" "s < 4096" "0 \<le> s'" "s' < 4096" using assms by (auto simp: sequenceMax_eq)
  have w: "0 \<le> w" "w < 1024" "0 \<le> w'" "w' < 1024" using assms by (auto simp: workerMax_eq)
  have "pack_id nw w s = ((nw - Epoch) * 1024 + w) * 4096 + s"
    using pack_id_eq [OF assms(1,3,4,7,8)] by (simp add: distrib_right)
  moreover have "pack_id nw' w' s' = ((nw' - Epoch) * 1024 + w') * 4096 + s'"
    using pack_id_eq [OF assms(2,5,6,9,10)] by (simp add: distrib_right)
  ultimately have "((nw - Epoch) * 1024 + w) * 4096 + s = ((nw' - Epoch) * 1024 + w') * 4096 + s'"
    using assms(11) by simp
  note hi = digits_unique [OF s this]
  have "nw - Epoch = nw' - Epoch \<and> w = w'"
    by (rule digits_unique [OF w]) (rule conjunct1 [OF hi])
  with hi show ?thesis by simp
qed

section \<open>What one call does\<close>

lemma wait_ge_result:
  "wait_ge c lst nw k = (nw', k') \<Longrightarrow> lst \<le> nw' \<and> k \<le> k' \<and> (nw' = nw \<or> (\<exists>j. nw' = now_ms c j))"
proof (induction c lst nw k rule: wait_ge.induct)
  case (1 c lst nw k)
  show ?case
  proof (cases "nw < lst")
    case True
    with 1 have "lst \<le> nw' \<and> Suc k \<le> k' \<and> (nw' = now_ms c k \<or> (\<exists>j. nw' = now_ms c j))"
      by (simp add: wait_ge.simps [of c lst nw k])
    then show ?thesis by auto
  next
    case False
    with 1 show ?thesis by (simp add: wait_ge.simps [of c lst nw k])
  qed
qed

lemma wait_gt_result:
  "wait_gt c lst nw k = (nw', k') \<Longrightarrow> lst < nw' \<and> k \<le> k' \<and> (nw' = nw \<or> (\<exists>j. nw' = now_ms c j))"
proof (induction c lst nw k rule: wait_gt.induct)
  case (1 c lst nw k)
  show ?case
  proof (cases "nw \<le> lst")
    case True
    with 1 have "lst < nw' \<and> Suc k \<le> k' \<and> (nw' = now_ms c k \<or> (\<exists>j. nw' = now_ms c j))"
      by (simp add: wait_gt.simps [of c lst nw k])
    then show ?thesis by auto
  next
    case False
    with 1 show ?thesis by (simp add: wait_gt.simps [of c lst nw k])
  qed
qed

lemma and_sequenceMax:
  assumes "gen_ok g"
  shows "i64 (sequence g + 1) AND sequenceMax = (if sequence g = 4095 then 0 else sequence g + 1)"
proof -
  have "0 \<le> sequence g" "sequence g \<le> 4095" using assms by (auto simp: gen_ok_def sequenceMax_eq)
  then have "i64 (sequence g + 1) = sequence g + 1" by (simp add: i64_id in_i64_def)
  moreover have "(sequence g + 1) AND 4095 = (sequence g + 1) mod 2 ^ 12"
    using take_bit_eq_mask [of 12 "sequence g + 1"] take_bit_eq_mod [of 12 "sequence g + 1"]
    by (simp add: mask_eq_exp_minus_1)
  ultimately show ?thesis
    using \<open>0 \<le> sequence g\<close> \<open>sequence g \<le> 4095\<close> by (auto simp: sequenceMax_eq)
qed

definition rollback :: "clock \<Rightarrow> nat \<Rightarrow> generator \<Rightarrow> bool" where
  "rollback c k g \<longleftrightarrow> now_ms c k < lastStamp g \<and>
    i64 (i64 (lastStamp g - now_ms c k) * 1000000) > maxClockBackoff"

lemma Next_rollback: "rollback c k g \<Longrightarrow> Next c k g = (0, Suc k, g)"
  by (simp add: Next_def rollback_def)

lemma Next_spec:
  assumes "gen_ok g" and "\<not> rollback c k g" and "Next c k g = (i, k', g')"
  shows "i = pack_id (lastStamp g') (workerID g) (sequence g')" (is ?A)
    and "workerID g' = workerID g" (is ?B)
    and "lastStamp g < lastStamp g' \<or> lastStamp g = lastStamp g' \<and> sequence g < sequence g'" (is ?C)
    and "0 \<le> sequence g' \<and> sequence g' \<le> sequenceMax" (is ?D)
    and "(\<exists>j. lastStamp g' = now_ms c j) \<and> k < k'" (is ?E)
proof -
  obtain nw1 k1 where w1:
    "(if now_ms c k < lastStamp g then wait_ge c (lastStamp g) (now_ms c k) (Suc k)
      else (now_ms c k, Suc k)) = (nw1, k1)"
    by (metis surj_pair)
  have nw1: "lastStamp g \<le> nw1" "k < k1" "\<exists>j. nw1 = now_ms c j"
    using w1 wait_ge_result [of c "lastStamp g" "now_ms c k" "Suc k" nw1 k1] by (auto split: if_splits)
  obtain nw2 k2 where w2: "wait_gt c (lastStamp g) nw1 k1 = (nw2, k2)"
    by (metis surj_pair)
  have nw2: "lastStamp g < nw2" "k1 \<le> k2" "\<exists>j. nw2 = now_ms c j"
    using wait_gt_result [OF w2] nw1(3) by auto
  have seq: "0 \<le> sequence g" "sequence g \<le> 4095" using assms(1) by (auto simp: gen_ok_def sequenceMax_eq)
  have nxt: "Next c k g =
     (let (sq, nw, k) = (if nw1 = lastStamp g then
          (if sequence g = 4095 then (0, nw2, k2) else (sequence g + 1, nw1, k1)) else (0, nw1, k1))
      in (pack_id nw (workerID g) sq, k, g\<lparr>sequence := sq, lastStamp := nw\<rparr>))"
    using w2 seq unfolding Next_def Let_def if_not_P [OF assms(2) [unfolded rollback_def]] w1
      and_sequenceMax [OF assms(1)]
    by (cases "nw1 = lastStamp g"; cases "sequence g = 4095") simp_all
  show ?A ?B ?C ?D ?E
    using assms(3) nw1 nw2 seq unfolding nxt
    by (auto simp: Let_def sequenceMax_eq split: if_splits) (metis)
qed

lemma Next_ok:
  assumes "gen_ok g" and "Next c k g = (i, k', g')"
  shows "gen_ok g'"
  using assms(1) Next_rollback [of c k g] Next_spec(2,3,4) [OF assms(1) _ assms(2)] assms(2)
  by (cases "rollback c k g") (auto simp: gen_ok_def)

lemma Next_stamp_mono:
  assumes "gen_ok g" and "Next c k g = (i, k', g')"
  shows "lastStamp g \<le> lastStamp g'"
  using Next_rollback [of c k g] Next_spec(3) [OF assms(1) _ assms(2)] assms(2)
  by (cases "rollback c k g") auto

section \<open>Many calls\<close>

text \<open>
  \<open>gen_run c ks g\<close> makes one call for each number in \<open>ks\<close>, which says how many readings of the
  clock the process has made by then (other code reads the clock in between, in any way).
\<close>

fun gen_run :: "clock \<Rightarrow> nat list \<Rightarrow> generator \<Rightarrow> int list \<times> generator" where
  "gen_run c [] g = ([], g)"
| "gen_run c (k # ks) g =
    (let (i, _, g1) = Next c k g; (is, g2) = gen_run c ks g1 in (i # is, g2))"

lemma gen_run_step:
  assumes "gen_run c (k # ks) g = (is, g')"
  obtains i k' g1 is' where "Next c k g = (i, k', g1)" and "gen_run c ks g1 = (is', g')" and "is = i # is'"
proof -
  obtain i k' g1 where "Next c k g = (i, k', g1)" by (metis surj_pair)
  with assms that show thesis by (auto split: prod.splits)
qed

lemma gen_run_stamp_mono:
  "gen_ok g \<Longrightarrow> gen_run c ks g = (is, g') \<Longrightarrow> lastStamp g \<le> lastStamp g'"
proof (induction ks arbitrary: g "is")
  case (Cons k ks)
  from Cons.prems(2) obtain i k' g1 is' where n: "Next c k g = (i, k', g1)" and r: "gen_run c ks g1 = (is', g')"
    by (rule gen_run_step)
  show ?case
    using Cons.IH [OF Next_ok [OF Cons.prems(1) n] r] Next_stamp_mono [OF Cons.prems(1) n] by simp
qed simp

lemma Next_stamp_ok:
  assumes "gen_ok g" and "\<not> rollback c k g" and "Next c k g = (i, k', g')"
    and "\<forall>j. Epoch \<le> now_ms c j" and "lastStamp g' < Epoch + 2 ^ 41"
  shows "stamp_ok (lastStamp g')"
  using Next_spec(5) [OF assms(1-3)] assms(4,5) by (auto simp: stamp_ok_def)

text \<open>Every later ID of a run is beyond the stamp and sequence number the generator has now.\<close>

lemma gen_run_above:
  assumes "gen_ok g" and "gen_run c ks g = (is, g')" and "\<forall>j. Epoch \<le> now_ms c j"
    and "lastStamp g' < Epoch + 2 ^ 41" and "x \<in> set is" and "x \<noteq> 0" and "stamp_ok (lastStamp g)"
  shows "pack_id (lastStamp g) (workerID g) (sequence g) < x"
  using assms
proof (induction ks arbitrary: g "is")
  case (Cons k ks)
  from Cons.prems(2) obtain i k' g1 is' where n: "Next c k g = (i, k', g1)"
    and r: "gen_run c ks g1 = (is', g')" and eq: "is = i # is'"
    by (rule gen_run_step)
  have ok1: "gen_ok g1" using Next_ok [OF Cons.prems(1) n] .
  have le: "lastStamp g1 < Epoch + 2 ^ 41"
    using gen_run_stamp_mono [OF ok1 r] Cons.prems(4) by simp
  show ?case
  proof (cases "rollback c k g")
    case True
    then have "i = 0" "g1 = g" using Next_rollback [OF True] n by auto
    with Cons eq r show ?thesis by auto
  next
    case False
    have st: "stamp_ok (lastStamp g1)" using Next_stamp_ok [OF Cons.prems(1) False n Cons.prems(3) le] .
    have step: "pack_id (lastStamp g) (workerID g) (sequence g) < i"
      using Next_spec(1-4) [OF Cons.prems(1) False n] Cons.prems(1,7) st
      by (auto simp: gen_ok_def intro!: pack_id_less)
    have i: "i = pack_id (lastStamp g1) (workerID g1) (sequence g1)"
      using Next_spec(1,2) [OF Cons.prems(1) False n] by simp
    show ?thesis
      using Cons.IH [OF ok1 r Cons.prems(3,4) _ Cons.prems(6) st] Cons.prems(5) eq step i by auto
  qed
qed simp

lemma gen_run_sorted:
  assumes "gen_ok g" and "gen_run c ks g = (is, g')" and "\<forall>j. Epoch \<le> now_ms c j"
    and "lastStamp g' < Epoch + 2 ^ 41"
  shows "sorted_wrt (<) (filter (\<lambda>i. i \<noteq> 0) is)"
  using assms
proof (induction ks arbitrary: g "is")
  case (Cons k ks)
  from Cons.prems(2) obtain i k' g1 is' where n: "Next c k g = (i, k', g1)"
    and r: "gen_run c ks g1 = (is', g')" and eq: "is = i # is'"
    by (rule gen_run_step)
  have ok1: "gen_ok g1" using Next_ok [OF Cons.prems(1) n] .
  have le: "lastStamp g1 < Epoch + 2 ^ 41"
    using gen_run_stamp_mono [OF ok1 r] Cons.prems(4) by simp
  have tl: "sorted_wrt (<) (filter (\<lambda>i. i \<noteq> 0) is')"
    using Cons.IH [OF ok1 r Cons.prems(3,4)] .
  show ?case
  proof (cases "rollback c k g")
    case True
    with tl eq n Next_rollback [OF True] show ?thesis by simp
  next
    case False
    have i: "i = pack_id (lastStamp g1) (workerID g1) (sequence g1)"
      using Next_spec(1,2) [OF Cons.prems(1) False n] by simp
    have "i < x" if "x \<in> set is'" "x \<noteq> 0" for x
      using gen_run_above [OF ok1 r Cons.prems(3,4) that
          Next_stamp_ok [OF Cons.prems(1) False n Cons.prems(3) le]] i by simp
    with tl eq show ?thesis by simp
  qed
qed simp

section \<open>Properties\<close>

lemma New_ok: "New w = Inr g \<Longrightarrow> gen_ok g \<and> workerID g = w"
  by (auto simp: New_def gen_ok_def sequenceMax_eq split: if_splits)

text \<open>
  C27. IDs handed out by one generator strictly increase, so no two of them are equal: for any
  clock from the epoch on that jumps back as it likes, in any number of calls spread over any
  readings of it, the IDs other than 0 (the answer to a jump back beyond the tolerance) are in
  increasing order, as long as the 41 bits of the timestamp last.
\<close>

theorem ids_increase:
  assumes "New w = Inr g" and "gen_run c ks g = (is, g')" and "\<forall>j. Epoch \<le> now_ms c j"
    and "lastStamp g' < Epoch + 2 ^ 41"
  shows "sorted_wrt (<) (filter (\<lambda>i. i \<noteq> 0) is)"
  using gen_run_sorted assms New_ok by blast

definition demo_clock :: clock where
  "demo_clock = pace_clock 1704067200005 2"

lemma demo_now: "now_ms demo_clock k = 1704067200005 + int (k div 2)"
  by (simp add: demo_clock_def now_ms_pace_clock max_def del: One_nat_def)

lemma demo_gen: "New 3 = Inr \<lparr>workerID = 3, sequence = 0, lastStamp = 0\<rparr>"
  by (simp add: New_def workerMax_eq)

lemma demo_Next:
  "Next demo_clock 0 \<lparr>workerID = 3, sequence = 0, lastStamp = 0\<rparr> =
    (20983808, 1, \<lparr>workerID = 3, sequence = 0, lastStamp = 1704067200005\<rparr>)"
  "Next demo_clock 1 \<lparr>workerID = 3, sequence = 0, lastStamp = 1704067200005\<rparr> =
    (20983809, 2, \<lparr>workerID = 3, sequence = 1, lastStamp = 1704067200005\<rparr>)"
  "Next demo_clock 2 \<lparr>workerID = 3, sequence = 1, lastStamp = 1704067200005\<rparr> =
    (25178112, 3, \<lparr>workerID = 3, sequence = 0, lastStamp = 1704067200006\<rparr>)"
proof -
  have p: "pack_id 1704067200005 3 0 = 20983808" "pack_id 1704067200005 3 1 = 20983809"
    "pack_id 1704067200006 3 0 = 25178112"
    by (simp_all add: pack_id_eq stamp_ok_def workerMax_eq sequenceMax_eq Epoch_def)
  have s: "i64 1 AND sequenceMax = 1"
    by (simp add: i64_id in_i64_def sequenceMax_eq)
  show "Next demo_clock 0 \<lparr>workerID = 3, sequence = 0, lastStamp = 0\<rparr> =
    (20983808, 1, \<lparr>workerID = 3, sequence = 0, lastStamp = 1704067200005\<rparr>)"
    "Next demo_clock 1 \<lparr>workerID = 3, sequence = 0, lastStamp = 1704067200005\<rparr> =
    (20983809, 2, \<lparr>workerID = 3, sequence = 1, lastStamp = 1704067200005\<rparr>)"
    "Next demo_clock 2 \<lparr>workerID = 3, sequence = 1, lastStamp = 1704067200005\<rparr> =
    (25178112, 3, \<lparr>workerID = 3, sequence = 0, lastStamp = 1704067200006\<rparr>)"
    using p s by (simp_all add: Next_def demo_now Let_def)
qed

theorem ids_increase_witness:
  "sorted_wrt (<) (filter (\<lambda>i. i \<noteq> 0) [20983808, 20983809, 25178112 :: int])"
proof (rule ids_increase [OF demo_gen])
  show "gen_run demo_clock [0, 1, 2] \<lparr>workerID = 3, sequence = 0, lastStamp = 0\<rparr> =
    ([20983808, 20983809, 25178112], \<lparr>workerID = 3, sequence = 0, lastStamp = 1704067200006\<rparr>)"
    by (simp add: demo_Next demo_Next [unfolded One_nat_def])
qed (simp_all add: demo_now Epoch_def)

lemma Next_layout:
  assumes "gen_ok g" and "Next c k g = (i, k', g')" and "\<not> rollback c k g" and "stamp_ok (lastStamp g')"
  shows "0 \<le> i \<and> i < 2 ^ 63 \<and> ExtractTimestamp i = lastStamp g' \<and> (\<exists>j. lastStamp g' = now_ms c j)"
proof -
  note s = Next_spec [OF assms(1,3,2)]
  have w: "0 \<le> workerID g" "workerID g \<le> workerMax" using assms(1) by (auto simp: gen_ok_def)
  note p = assms(4) w conjunct1 [OF s(4)] conjunct2 [OF s(4)]
  have "workerID g * 2 ^ 12 + sequence g' < 2 ^ 22" "0 \<le> workerID g * 2 ^ 12 + sequence g'"
    using p by (auto simp: workerMax_eq sequenceMax_eq)
  then have "((lastStamp g' - Epoch) * 2 ^ 22 + (workerID g * 2 ^ 12 + sequence g')) div 2 ^ 22 = lastStamp g' - Epoch"
    by (subst div_mult_self3) auto
  then have "ExtractTimestamp i = lastStamp g'"
    using p(1) by (simp add: ExtractTimestamp_def snow_consts drop_bit_eq_div s(1) pack_id_eq [OF p]
        i64_id in_i64_def stamp_ok_def Epoch_def add.assoc)
  then show ?thesis using pack_id_bounds [OF p] s(1,5) by simp
qed

text \<open>
  What one call returns: 0 with the generator untouched when the wall clock is more than
  the tolerated 10 ms behind; otherwise a non-negative 63-bit ID from which the instant of the
  call can be read back.
\<close>

theorem Next_result:
  assumes "gen_ok g" and "Next c k g = (i, k', g')"
  shows "(rollback c k g \<longrightarrow> i = 0 \<and> g' = g) \<and>
    (\<not> rollback c k g \<and> stamp_ok (lastStamp g') \<longrightarrow>
      0 \<le> i \<and> i < 2 ^ 63 \<and> ExtractTimestamp i = lastStamp g' \<and> (\<exists>j. lastStamp g' = now_ms c j))"
  using Next_rollback [of c k g] Next_layout [OF assms] assms(2) by auto

theorem Next_result_witness:
  "0 \<le> (20983808 :: int) \<and> ExtractTimestamp 20983808 = 1704067200005"
proof -
  let ?g = "\<lparr>workerID = 3, sequence = 0, lastStamp = 0\<rparr>"
  have g: "gen_ok ?g" using New_ok [OF demo_gen] by simp
  have "\<not> rollback demo_clock 0 ?g" by (simp add: rollback_def demo_now)
  then show ?thesis using Next_result [OF g demo_Next(1)] by (simp add: stamp_ok_def Epoch_def)
qed

text \<open>
  Two generators with different worker numbers, each on its own clock, never hand out the
  same ID.
\<close>

theorem workers_disjoint:
  assumes "gen_ok g" and "Next c k g = (i, k', g')" and "\<not> rollback c k g" and "stamp_ok (lastStamp g')"
    and "gen_ok h" and "Next d l h = (j, l', h')" and "\<not> rollback d l h" and "stamp_ok (lastStamp h')"
    and "workerID g \<noteq> workerID h"
  shows "i \<noteq> j"
  using pack_id_worker_inj [OF assms(4,8), of "workerID g" "workerID h" "sequence g'" "sequence h'"]
    Next_spec(1,4) [OF assms(1,3,2)] Next_spec(1,4) [OF assms(5,7,6)] assms(1,5,9)
  by (auto simp: gen_ok_def)

theorem workers_disjoint_witness: "(20983808 :: int) \<noteq> 20992000"
proof (rule workers_disjoint)
  let ?g = "\<lparr>workerID = 3, sequence = 0, lastStamp = 0\<rparr>"
  let ?h = "\<lparr>workerID = 5, sequence = 0, lastStamp = 0\<rparr>"
  show "gen_ok ?g" "gen_ok ?h" by (simp_all add: gen_ok_def workerMax_eq sequenceMax_eq)
  show "Next demo_clock 0 ?g = (20983808, 1, ?g\<lparr>lastStamp := 1704067200005\<rparr>)"
    using demo_Next(1) by simp
  have "pack_id 1704067200005 5 0 = 20992000"
    by (simp add: pack_id_eq stamp_ok_def workerMax_eq sequenceMax_eq Epoch_def)
  then show "Next demo_clock 0 ?h = (20992000, 1, ?h\<lparr>lastStamp := 1704067200005\<rparr>)"
    by (simp add: Next_def demo_now Let_def)
qed (simp_all add: rollback_def demo_now stamp_ok_def Epoch_def)

end
