(* ===== verification/MySQL_Base.thy ===== *)
theory MySQL_Base
  imports Proto
begin

text \<open>
  The tables of \<open>MySQLStore.migrate\<close> (\<open>internal/repo/mysql.go\<close>) and the meaning of the SQL
  statements the repository layer issues. A table is a list of rows; the order of the list is
  the order in which rows with equal sort keys come out of a query.

  What the database decides is a parameter: \<open>collate\<close> is the collation (two strings are equal
  for MySQL when their collation keys are, which for the default collation of \<open>utf8mb4\<close>
  ignores case), \<open>ftmatch\<close> the full-text search, and the fault plan \<open>flt\<close> of a call says which
  of its statements fail, with which error text, and whether the failed statement took effect
  nevertheless (the reply may get lost after execution).
\<close>

record sql_env =
  collate :: "string \<Rightarrow> string"
  ftmatch :: "string \<Rightarrow> string \<Rightarrow> bool"

type_synonym faults = "nat \<Rightarrow> (string \<times> bool) option"

definition no_faults :: faults where
  "no_faults = (\<lambda>_. None)"

lemma no_faults_None [simp]: "no_faults i = None"
  by (simp add: no_faults_def)

abbreviation sql_eq :: "sql_env \<Rightarrow> string \<Rightarrow> string \<Rightarrow> bool" where
  "sql_eq E a b \<equiv> collate E a = collate E b"

section \<open>Tables\<close>

record user =
  u_UID :: string
  u_Username :: string
  u_PasswordHash :: string
  u_Role :: string
  u_IsDisabled :: bool
  u_CreatedAt :: int

record msg_row =
  r_msg :: message
  r_recalled :: bool

record group_row =
  gr_ID :: string
  gr_Name :: string
  gr_OwnerUID :: string
  gr_CreatedAt :: int

record member_row =
  mb_group_id :: string
  mb_uid :: string
  mb_joined_at :: int

record unread_row =
  ur_uid :: string
  ur_peer :: string
  ur_count :: int

record friend_row =
  fr_uid :: string
  fr_friend_uid :: string
  fr_status :: int
  fr_created_at :: int
  fr_updated_at :: int

record db =
  t_users :: "user list"
  t_messages :: "msg_row list"
  t_groups :: "group_row list"
  t_members :: "member_row list"
  t_unread :: "unread_row list"
  t_friends :: "friend_row list"

definition migrate :: db where
  "migrate = \<lparr>t_users = [], t_messages = [], t_groups = [], t_members = [], t_unread = [], t_friends = []\<rparr>"

section \<open>Statements\<close>

text \<open>
  A statement that changes a table gives an error text or the number of affected rows, and the
  table. MySQL reports as affected by \<open>UPDATE\<close> the rows whose values really change.
\<close>

definition dup_entry :: string where
  "dup_entry = ''Error 1062 (23000): Duplicate entry''"

definition sql_insert :: "('r \<Rightarrow> bool) \<Rightarrow> 'r \<Rightarrow> 'r list \<Rightarrow> (string + int) \<times> 'r list" where
  "sql_insert clash row tbl = (if list_ex clash tbl then (Inl dup_entry, tbl) else (Inr 1, tbl @ [row]))"

definition sql_insert_ignore :: "('r \<Rightarrow> bool) \<Rightarrow> 'r \<Rightarrow> 'r list \<Rightarrow> (string + int) \<times> 'r list" where
  "sql_insert_ignore clash row tbl = (if list_ex clash tbl then (Inr 0, tbl) else (Inr 1, tbl @ [row]))"

definition sql_update :: "('r \<Rightarrow> bool) \<Rightarrow> ('r \<Rightarrow> 'r) \<Rightarrow> 'r list \<Rightarrow> (string + int) \<times> 'r list" where
  "sql_update P f tbl =
    (Inr (int (length (filter (\<lambda>r. P r \<and> f r \<noteq> r) tbl))), map (\<lambda>r. if P r then f r else r) tbl)"

definition sql_delete :: "('r \<Rightarrow> bool) \<Rightarrow> 'r list \<Rightarrow> (string + int) \<times> 'r list" where
  "sql_delete P tbl = (Inr (int (length (filter P tbl))), filter (\<lambda>r. \<not> P r) tbl)"

definition sql_count :: "('r \<Rightarrow> bool) \<Rightarrow> 'r list \<Rightarrow> int" where
  "sql_count P tbl = int (length (filter P tbl))"

text \<open>\<open>ORDER BY k DESC\<close>, \<open>ORDER BY k ASC\<close> and \<open>LIMIT n\<close>.\<close>

definition order_desc :: "('r \<Rightarrow> int) \<Rightarrow> 'r list \<Rightarrow> 'r list" where
  "order_desc k tbl = sort_key (\<lambda>r. - k r) tbl"

definition order_asc :: "('r \<Rightarrow> int) \<Rightarrow> 'r list \<Rightarrow> 'r list" where
  "order_asc k tbl = sort_key k tbl"

definition limit_rows :: "int \<Rightarrow> 'r list \<Rightarrow> 'r list" where
  "limit_rows n tbl = take (nat n) tbl"

text \<open>The \<open>i\<close>-th statement of a call, under its fault plan.\<close>

definition exec_stmt :: "faults \<Rightarrow> nat \<Rightarrow> ('t \<Rightarrow> (string + int) \<times> 't) \<Rightarrow> 't \<Rightarrow> (string + int) \<times> 't" where
  "exec_stmt flt i st t = (case flt i of None \<Rightarrow> st t | Some (e, applied) \<Rightarrow> (Inl e, if applied then snd (st t) else t))"

definition query :: "faults \<Rightarrow> nat \<Rightarrow> 'a \<Rightarrow> string + 'a" where
  "query flt i v = (case flt i of None \<Rightarrow> Inr v | Some (e, _) \<Rightarrow> Inl e)"

lemma exec_ok [simp]: "flt i = None \<Longrightarrow> exec_stmt flt i st t = st t"
  by (simp add: exec_stmt_def)

lemma exec_keeps: "P t \<Longrightarrow> P (snd (st t)) \<Longrightarrow> P (snd (exec_stmt flt i st t))"
  by (simp add: exec_stmt_def split: option.split)

lemma query_ok [simp]: "flt i = None \<Longrightarrow> query flt i v = Inr v"
  by (simp add: query_def)

text \<open>\<open>fmt.Errorf("what: %w", err)\<close>\<close>

definition wrap_err :: "string \<Rightarrow> string \<Rightarrow> string" where
  "wrap_err what e = what @ '': '' @ e"

text \<open>\<open>strings.Contains\<close>\<close>

fun is_prefix :: "string \<Rightarrow> string \<Rightarrow> bool" where
  "is_prefix [] s = True"
| "is_prefix (x # p) [] = False"
| "is_prefix (x # p) (y # s) = (x = y \<and> is_prefix p s)"

fun str_contains :: "string \<Rightarrow> string \<Rightarrow> bool" where
  "str_contains [] p = (p = [])"
| "str_contains (x # s) p = (is_prefix p (x # s) \<or> str_contains s p)"

definition isMySQLDuplicate :: "string \<Rightarrow> bool" where
  "isMySQLDuplicate e \<longleftrightarrow> str_contains e ''Error 1062'' \<or> str_contains e ''Duplicate entry''"

lemma dup_entry_is_duplicate [simp]: "isMySQLDuplicate dup_entry"
  by (simp add: isMySQLDuplicate_def dup_entry_def)

text \<open>A result whose statement affected no row is the error \<open>e\<close>.\<close>

definition affected_or :: "string \<Rightarrow> string \<Rightarrow> string + int \<Rightarrow> string option" where
  "affected_or what e r = (case r of Inl x \<Rightarrow> Some (wrap_err what x) | Inr n \<Rightarrow> if n = 0 then Some e else None)"

section \<open>Facts\<close>

lemma sql_update_none: "(\<And>r. r \<in> set tbl \<Longrightarrow> P r \<Longrightarrow> f r = r) \<Longrightarrow> sql_update P f tbl = (Inr 0, tbl)"
  by (simp add: sql_update_def map_idI filter_empty_conv)

lemma affected_update_iff:
  "(\<exists>e. affected_or w z (fst (sql_update P f tbl)) = Some e) \<longleftrightarrow> (\<forall>r \<in> set tbl. P r \<longrightarrow> f r = r)"
  by (auto simp: affected_or_def sql_update_def filter_empty_conv)

lemma affected_delete_iff:
  "(\<exists>e. affected_or w z (fst (sql_delete P tbl)) = Some e) \<longleftrightarrow> (\<forall>r \<in> set tbl. \<not> P r)"
  by (auto simp: affected_or_def sql_delete_def filter_empty_conv)

lemma set_order_desc [simp]: "set (order_desc k t) = set t"
  by (simp add: order_desc_def)

lemma set_limit_rows: "set (limit_rows n t) \<subseteq> set t"
  by (simp add: limit_rows_def set_take_subset)

lemma length_limit_rows: "0 \<le> n \<Longrightarrow> int (length (limit_rows n t)) \<le> n"
  by (simp add: limit_rows_def)

lemma order_desc_sorted: "sorted_wrt (\<ge>) (map k (order_desc k t))"
proof -
  have "sorted (map (\<lambda>r. - k r) (order_desc k t))" by (simp add: order_desc_def)
  then show ?thesis by (simp add: sorted_wrt_map)
qed

lemma order_desc_filter: "order_desc k (filter P t) = filter P (order_desc k t)"
  by (simp add: order_desc_def filter_sort)

text \<open>The row a unique key selects.\<close>

lemma find_append: "find P (xs @ ys) = (case find P xs of None \<Rightarrow> find P ys | Some x \<Rightarrow> Some x)"
  by (induction xs) auto

lemma find_filter_implied: "(\<And>x. P x \<Longrightarrow> Q x) \<Longrightarrow> find P (filter Q xs) = find P xs"
  by (induction xs) auto

lemma find_map_row: "(\<And>x. P (f x) = P x) \<Longrightarrow> find P (map f xs) = map_option f (find P xs)"
  by (induction xs) auto

lemma find_none: "find P xs = None \<longleftrightarrow> (\<forall>x \<in> set xs. \<not> P x)"
  by (induction xs) auto

lemma find_some: "find P xs = Some x \<Longrightarrow> P x \<and> x \<in> set xs"
  by (induction xs) (auto split: if_splits)

text \<open>Keyset paging: what sorts after the \<open>n\<close>-th row is what follows it.\<close>

lemma filter_below_nth:
  "sorted_wrt (\<lambda>a b. k a > (k b :: int)) xs \<Longrightarrow> 0 < n \<Longrightarrow> n \<le> length xs \<Longrightarrow>
    filter (\<lambda>r. k r < k (xs ! (n - 1))) xs = drop n xs"
proof (induction xs arbitrary: n)
  case (Cons x xs)
  show ?case
  proof (cases "n = 1")
    case True
    with Cons.prems show ?thesis by (auto simp: filter_id_conv)
  next
    case False
    then obtain m where n: "n = Suc m" "0 < m" using Cons.prems(2) by (cases n) auto
    with Cons.prems have "m - 1 < length xs" by simp
    then have "xs ! (m - 1) \<in> set xs" by (rule nth_mem)
    then have "\<not> k x < k (xs ! (m - 1))" using Cons.prems(1) by (metis not_less_iff_gr_or_eq sorted_wrt.simps(2))
    then show ?thesis using Cons n by (auto simp: nth_Cons')
  qed
qed simp

lemma sorted_wrt_take: "sorted_wrt P xs \<Longrightarrow> sorted_wrt P (take n xs)"
  by (metis append_take_drop_id sorted_wrt_append)

end
