(* ===== verification/Group_Store.thy ===== *)
theory Group_Store
  imports IM_Prelude
begin

text \<open>
  Groups. The interface \<open>GroupStore\<close> of \<open>internal/gateway/group_store.go\<close> is specified on an
  abstract table from group IDs to members and owner; the locale \<open>group_store\<close> says that an
  implementation refines it. The in-memory implementation is modelled here, the MySQL one in
  \<open>MySQL_Group\<close>.
\<close>

datatype group_error =
    ErrGroupNotFound | ErrNotOwner | ErrAlreadyMember | ErrNotMember | ErrGroupIDExists | GroupErr string

fun group_error_text :: "group_error \<Rightarrow> string" where
  "group_error_text ErrGroupNotFound = ''group not found''"
| "group_error_text ErrNotOwner = ''only the group owner can perform this action''"
| "group_error_text ErrAlreadyMember = ''user is already a member of this group''"
| "group_error_text ErrNotMember = ''user is not a member of this group''"
| "group_error_text ErrGroupIDExists = ''group ID already exists''"
| "group_error_text (GroupErr s) = s"

section \<open>Abstract specification\<close>

text \<open>
  A store identifies users and groups by keys: the names themselves in Go, their collation keys
  in MySQL. The owner is kept as written and compared as written.
\<close>

type_synonym 'k group_table = "'k \<rightharpoonup> 'k set \<times> string"

definition spec_create :: "'k \<Rightarrow> 'k \<Rightarrow> string \<Rightarrow> 'k set \<Rightarrow> 'k group_table \<Rightarrow> 'k group_table" where
  "spec_create g k own ms t = t(g \<mapsto> (insert k ms, own))"

definition spec_add :: "'k \<Rightarrow> 'k \<Rightarrow> 'k group_table \<Rightarrow> group_error option \<times> 'k group_table" where
  "spec_add g u t =
    (case t g of
       None \<Rightarrow> (Some ErrGroupNotFound, t)
     | Some (ms, own) \<Rightarrow>
         if u \<in> ms then (Some ErrAlreadyMember, t) else (None, t(g \<mapsto> (insert u ms, own))))"

definition spec_remove :: "'k \<Rightarrow> 'k \<Rightarrow> 'k group_table \<Rightarrow> group_error option \<times> 'k group_table" where
  "spec_remove g u t =
    (case t g of
       None \<Rightarrow> (Some ErrGroupNotFound, t)
     | Some (ms, own) \<Rightarrow>
         if u \<notin> ms then (Some ErrNotMember, t)
         else if ms = {u} then (None, t(g := None))
         else (None, t(g \<mapsto> (ms - {u}, own))))"

definition spec_transfer ::
  "'k \<Rightarrow> string \<Rightarrow> 'k \<Rightarrow> string \<Rightarrow> 'k group_table \<Rightarrow> group_error option \<times> 'k group_table" where
  "spec_transfer g a k b t =
    (case t g of
       None \<Rightarrow> (Some ErrGroupNotFound, t)
     | Some (ms, own) \<Rightarrow>
         if own \<noteq> a then (Some ErrNotOwner, t)
         else if k \<notin> ms then (Some ErrNotMember, t)
         else (None, t(g \<mapsto> (ms, b))))"

locale group_store =
  fixes key :: "string \<Rightarrow> 'k" and view :: "'s \<Rightarrow> 'k group_table" and ok :: "'s \<Rightarrow> bool"
    and add :: "string \<Rightarrow> string \<Rightarrow> 's \<Rightarrow> group_error option \<times> 's"
    and remove :: "string \<Rightarrow> string \<Rightarrow> 's \<Rightarrow> group_error option \<times> 's"
    and transfer :: "string \<Rightarrow> string \<Rightarrow> string \<Rightarrow> 's \<Rightarrow> group_error option \<times> 's"
    and is_member :: "string \<Rightarrow> string \<Rightarrow> 's \<Rightarrow> bool"
  assumes ok_add: "ok s \<Longrightarrow> ok (snd (add g u s))" and ok_remove: "ok s \<Longrightarrow> ok (snd (remove g u s))"
    and ok_transfer: "ok s \<Longrightarrow> ok (snd (transfer g a b s))"
    and add_refines: "ok s \<Longrightarrow>
      (fst (add g u s), view (snd (add g u s))) = spec_add (key g) (key u) (view s)"
    and remove_refines: "ok s \<Longrightarrow>
      (fst (remove g u s), view (snd (remove g u s))) = spec_remove (key g) (key u) (view s)"
    and transfer_refines: "ok s \<Longrightarrow>
      (fst (transfer g a b s), view (snd (transfer g a b s))) = spec_transfer (key g) a (key b) b (view s)"
    and is_member_view: "ok s \<Longrightarrow>
      is_member g u s \<longleftrightarrow> (\<exists>ms own. view s (key g) = Some (ms, own) \<and> key u \<in> ms)"
    and no_empty_group: "ok s \<Longrightarrow> view s k = Some (ms, own) \<Longrightarrow> ms \<noteq> {} \<and> finite ms"
begin

lemma member_after_add:
  assumes "ok s" and "fst (add g u s) = None"
  shows "is_member g u (snd (add g u s))"
  using add_refines [OF assms(1), of g u] assms(2) is_member_view [OF ok_add [OF assms(1)]]
  by (auto simp: spec_add_def split: option.splits if_splits)

lemma not_member_after_remove:
  assumes "ok s" and "fst (remove g u s) = None"
  shows "\<not> is_member g u (snd (remove g u s))"
  using remove_refines [OF assms(1), of g u] assms(2) is_member_view [OF ok_remove [OF assms(1)]]
  by (auto simp: spec_remove_def split: option.splits if_splits)

text \<open>Joining and leaving again gives the table back.\<close>

lemma add_remove:
  assumes "ok s" and "fst (add g u s) = None"
  shows "fst (remove g u (snd (add g u s))) = None \<and> view (snd (remove g u (snd (add g u s)))) = view s"
proof -
  note a = add_refines [OF assms(1), of g u] and r = remove_refines [OF ok_add [OF assms(1), of g u], of g u]
  obtain ms own where v: "view s (key g) = Some (ms, own)" "key u \<notin> ms"
    using a assms(2) by (auto simp: spec_add_def split: option.splits if_splits)
  then have va: "view (snd (add g u s)) = (view s)(key g \<mapsto> (insert (key u) ms, own))"
    using a by (simp add: spec_add_def)
  have "insert (key u) ms \<noteq> {key u}" using no_empty_group [OF assms(1) v(1)] v(2) by auto
  with v r show ?thesis by (auto simp: va spec_remove_def fun_eq_iff)
qed

end

section \<open>The in-memory store\<close>

record group =
  g_ID :: string
  g_Name :: string
  g_OwnerUID :: string
  g_Members :: "(string, bool) gomap"
  g_CreatedAt :: int

type_synonym groups_mem = "(string, group) gomap"

definition newGroupID :: "int \<Rightarrow> string" where
  "newGroupID n = ''g_'' @ show_int n"

text \<open>The member map built by \<open>Create\<close>: the owner and every other non-empty name.\<close>

definition member_map :: "string \<Rightarrow> string list \<Rightarrow> (string, bool) gomap" where
  "member_map ownerUID members =
    fold (\<lambda>uid m. if uid \<noteq> [] \<and> uid \<noteq> ownerUID then AList.update uid True m else m) members [(ownerUID, True)]"

definition is_mem :: "group \<Rightarrow> string \<Rightarrow> bool" where
  "is_mem g uid \<longleftrightarrow> map_of (g_Members g) uid = Some True"

definition GroupCreate ::
  "string \<Rightarrow> int \<Rightarrow> string \<Rightarrow> string \<Rightarrow> string list \<Rightarrow> groups_mem \<Rightarrow> (group_error + group) \<times> groups_mem" where
  "GroupCreate i nw name ownerUID members gs =
    (let g = \<lparr>g_ID = i, g_Name = name, g_OwnerUID = ownerUID, g_Members = member_map ownerUID members, g_CreatedAt = nw\<rparr> in
     if has_key gs i then (Inl ErrGroupIDExists, gs) else (Inr g, AList.update i g gs))"

definition AddMember :: "string \<Rightarrow> string \<Rightarrow> groups_mem \<Rightarrow> group_error option \<times> groups_mem" where
  "AddMember groupID uid gs =
    (case map_of gs groupID of
       None \<Rightarrow> (Some ErrGroupNotFound, gs)
     | Some g \<Rightarrow>
         if is_mem g uid then (Some ErrAlreadyMember, gs)
         else (None, AList.update groupID (g\<lparr>g_Members := AList.update uid True (g_Members g)\<rparr>) gs))"

definition RemoveMember :: "string \<Rightarrow> string \<Rightarrow> groups_mem \<Rightarrow> group_error option \<times> groups_mem" where
  "RemoveMember groupID uid gs =
    (case map_of gs groupID of
       None \<Rightarrow> (Some ErrGroupNotFound, gs)
     | Some g \<Rightarrow>
         if \<not> is_mem g uid then (Some ErrNotMember, gs)
         else
           let g = g\<lparr>g_Members := AList.delete uid (g_Members g)\<rparr> in
           if length (g_Members g) = 0 then (None, AList.delete groupID gs)
           else (None, AList.update groupID g gs))"

definition GetMembers :: "string \<Rightarrow> groups_mem \<Rightarrow> group_error + string list" where
  "GetMembers groupID gs =
    (case map_of gs groupID of None \<Rightarrow> Inl ErrGroupNotFound | Some g \<Rightarrow> Inr (map fst (g_Members g)))"

definition IsMember :: "string \<Rightarrow> string \<Rightarrow> groups_mem \<Rightarrow> bool" where
  "IsMember groupID uid gs = (case map_of gs groupID of None \<Rightarrow> False | Some g \<Rightarrow> is_mem g uid)"

definition GetUserGroups :: "string \<Rightarrow> groups_mem \<Rightarrow> group list" where
  "GetUserGroups uid gs = filter (\<lambda>g. is_mem g uid) (map snd gs)"

definition GroupGet :: "string \<Rightarrow> groups_mem \<Rightarrow> group_error + group" where
  "GroupGet groupID gs = (case map_of gs groupID of None \<Rightarrow> Inl ErrGroupNotFound | Some g \<Rightarrow> Inr g)"

definition UpdateName :: "string \<Rightarrow> string \<Rightarrow> groups_mem \<Rightarrow> group_error option \<times> groups_mem" where
  "UpdateName groupID newName gs =
    (case map_of gs groupID of
       None \<Rightarrow> (Some ErrGroupNotFound, gs)
     | Some g \<Rightarrow> (None, AList.update groupID (g\<lparr>g_Name := newName\<rparr>) gs))"

definition TransferOwnership :: "string \<Rightarrow> string \<Rightarrow> string \<Rightarrow> groups_mem \<Rightarrow> group_error option \<times> groups_mem" where
  "TransferOwnership groupID fromUID toUID gs =
    (case map_of gs groupID of
       None \<Rightarrow> (Some ErrGroupNotFound, gs)
     | Some g \<Rightarrow>
         if g_OwnerUID g \<noteq> fromUID then (Some ErrNotOwner, gs)
         else if \<not> is_mem g toUID then (Some ErrNotMember, gs)
         else (None, AList.update groupID (g\<lparr>g_OwnerUID := toUID\<rparr>) gs))"

section \<open>Refinement\<close>

definition group_ok :: "group \<Rightarrow> bool" where
  "group_ok g \<longleftrightarrow> gomap_ok (g_Members g) \<and> g_Members g \<noteq> [] \<and> snd ` set (g_Members g) \<subseteq> {True}"

definition groups_ok :: "groups_mem \<Rightarrow> bool" where
  "groups_ok gs \<longleftrightarrow> gomap_ok gs \<and> (\<forall>i g. map_of gs i = Some g \<longrightarrow> group_ok g \<and> g_ID g = i)"

definition group_view :: "groups_mem \<Rightarrow> string group_table" where
  "group_view gs i = map_option (\<lambda>g. (fst ` set (g_Members g), g_OwnerUID g)) (map_of gs i)"

lemma is_mem_iff: "group_ok g \<Longrightarrow> is_mem g u \<longleftrightarrow> u \<in> fst ` set (g_Members g)"
  by (force simp: is_mem_def group_ok_def map_of_eq_Some_iff)

lemma groups_ok_update: "groups_ok gs \<Longrightarrow> group_ok g \<Longrightarrow> g_ID g = i \<Longrightarrow> groups_ok (AList.update i g gs)"
  by (auto simp: groups_ok_def map_of_update)

lemma groups_ok_delete: "groups_ok gs \<Longrightarrow> groups_ok (AList.delete i gs)"
  by (auto simp: groups_ok_def map_of_delete)

lemma group_view_update:
  "group_view (AList.update i g gs) = (group_view gs)(i \<mapsto> (fst ` set (g_Members g), g_OwnerUID g))"
  by (simp add: group_view_def map_of_update fun_eq_iff)

lemma group_view_delete: "group_view (AList.delete i gs) = (group_view gs)(i := None)"
  by (simp add: group_view_def map_of_delete fun_eq_iff)

lemma groups_okD: "groups_ok gs \<Longrightarrow> map_of gs i = Some g \<Longrightarrow> group_ok g \<and> g_ID g = i"
  by (simp add: groups_ok_def)

lemma group_ok_add: "group_ok g \<Longrightarrow> group_ok (g\<lparr>g_Members := AList.update u True (g_Members g)\<rparr>)"
  using snd_set_update [of u True "g_Members g"] by (auto simp: group_ok_def simp del: image_subset_iff)

lemma AddMember_refines:
  assumes "groups_ok gs"
  shows "groups_ok (snd (AddMember g u gs))"
    and "(fst (AddMember g u gs), group_view (snd (AddMember g u gs))) = spec_add g u (group_view gs)"
proof (atomize(full), cases "map_of gs g")
  case (Some x)
  note x = groups_okD [OF assms Some]
  have v: "group_view gs g = Some (fst ` set (g_Members x), g_OwnerUID x)" by (simp add: group_view_def Some)
  show "groups_ok (snd (AddMember g u gs)) \<and>
    (fst (AddMember g u gs), group_view (snd (AddMember g u gs))) = spec_add g u (group_view gs)"
    using x v assms Some
    by (simp add: AddMember_def spec_add_def is_mem_iff groups_ok_update group_ok_add group_view_update fst_set_update)
qed (use assms in \<open>simp add: AddMember_def spec_add_def group_view_def\<close>)

lemma delete_nil_iff:
  assumes "gomap_ok m" and "k \<in> fst ` set m"
  shows "AList.delete k m = [] \<longleftrightarrow> fst ` set m = {k}"
proof -
  have "AList.delete k m = [] \<longleftrightarrow> fst ` set (AList.delete k m) = {}" by simp
  then show ?thesis using assms(2) by (auto simp: fst_set_delete)
qed

lemma RemoveMember_refines:
  assumes "groups_ok gs"
  shows "groups_ok (snd (RemoveMember g u gs))"
    and "(fst (RemoveMember g u gs), group_view (snd (RemoveMember g u gs))) = spec_remove g u (group_view gs)"
proof (atomize(full), cases "map_of gs g")
  case (Some x)
  note x = groups_okD [OF assms Some]
  let ?ms = "fst ` set (g_Members x)" and ?x = "x\<lparr>g_Members := AList.delete u (g_Members x)\<rparr>"
  have v: "group_view gs g = Some (?ms, g_OwnerUID x)" by (simp add: group_view_def Some)
  have ok: "group_ok ?x" if "AList.delete u (g_Members x) \<noteq> []"
    using x that by (auto simp: group_ok_def AList.delete_eq distinct_map_filter)
  have empty: "u \<in> ?ms \<Longrightarrow> AList.delete u (g_Members x) = [] \<longleftrightarrow> ?ms = {u}"
    using x by (intro delete_nil_iff) (auto simp: group_ok_def)
  show "groups_ok (snd (RemoveMember g u gs)) \<and>
    (fst (RemoveMember g u gs), group_view (snd (RemoveMember g u gs))) = spec_remove g u (group_view gs)"
    using x v assms Some ok empty
    by (auto simp: RemoveMember_def spec_remove_def is_mem_iff groups_ok_update groups_ok_delete
        group_view_update group_view_delete fst_set_delete Let_def)
qed (use assms in \<open>simp add: RemoveMember_def spec_remove_def group_view_def\<close>)

lemma TransferOwnership_refines:
  assumes "groups_ok gs"
  shows "groups_ok (snd (TransferOwnership g a b gs))"
    and "(fst (TransferOwnership g a b gs), group_view (snd (TransferOwnership g a b gs))) = spec_transfer g a b b (group_view gs)"
proof (atomize(full), cases "map_of gs g")
  case (Some x)
  note x = groups_okD [OF assms Some]
  have v: "group_view gs g = Some (fst ` set (g_Members x), g_OwnerUID x)" by (simp add: group_view_def Some)
  have "group_ok (x\<lparr>g_OwnerUID := b\<rparr>)" using x by (simp add: group_ok_def)
  with x v assms Some show "groups_ok (snd (TransferOwnership g a b gs)) \<and>
    (fst (TransferOwnership g a b gs), group_view (snd (TransferOwnership g a b gs))) = spec_transfer g a b b (group_view gs)"
    by (simp add: TransferOwnership_def spec_transfer_def is_mem_iff groups_ok_update group_view_update)
qed (use assms in \<open>simp add: TransferOwnership_def spec_transfer_def group_view_def\<close>)

interpretation mem_groups: group_store "\<lambda>x. x" group_view groups_ok AddMember RemoveMember TransferOwnership IsMember
proof unfold_locales
  show "IsMember g u gs \<longleftrightarrow> (\<exists>ms own. group_view gs g = Some (ms, own) \<and> u \<in> ms)" if "groups_ok gs" for gs g u
    using is_mem_iff groups_okD [OF that] by (cases "map_of gs g") (simp_all add: IsMember_def group_view_def)
  show "groups_ok gs \<Longrightarrow> group_view gs k = Some (ms, own) \<Longrightarrow> ms \<noteq> {} \<and> finite ms" for gs k ms own
    by (auto simp: group_view_def group_ok_def dest: groups_okD)
qed (simp_all add: AddMember_refines RemoveMember_refines TransferOwnership_refines)

section \<open>Creation\<close>

lemma member_map_facts:
  "gomap_ok (member_map own ms) \<and> fst ` set (member_map own ms) = insert own (set ms - {[]}) \<and>
    snd ` set (member_map own ms) \<subseteq> {True}"
proof -
  let ?f = "\<lambda>uid m. if uid \<noteq> [] \<and> uid \<noteq> own then AList.update uid True m else m"
  have "gomap_ok m \<and> own \<in> fst ` set m \<and> snd ` set m \<subseteq> {True} \<Longrightarrow>
      gomap_ok (fold ?f ms m) \<and> fst ` set (fold ?f ms m) = fst ` set m \<union> (set ms - {[]}) \<and>
      snd ` set (fold ?f ms m) \<subseteq> {True}" for m
  proof (induction ms arbitrary: m)
    case (Cons u ms)
    show ?case
    proof (cases "u \<noteq> [] \<and> u \<noteq> own")
      case True
      have "snd ` set (AList.update u True m) \<subseteq> {True}" using snd_set_update [of u True m] Cons.prems by blast
      with Cons True show ?thesis by (auto simp: fst_set_update simp del: image_subset_iff)
    next
      case False
      with Cons.IH [OF Cons.prems] Cons.prems show ?thesis by auto
    qed
  qed simp
  from this [of "[(own, True)]"] show ?thesis by (simp add: member_map_def)
qed

lemma GroupCreate_refines:
  assumes "groups_ok gs" and "\<not> has_key gs i"
  shows "groups_ok (snd (GroupCreate i nw name own ms gs)) \<and>
    group_view (snd (GroupCreate i nw name own ms gs)) = spec_create i own own (set ms - {[]}) (group_view gs)"
proof -
  have "member_map own ms \<noteq> []" using member_map_facts [of own ms] by auto
  with assms show ?thesis
    using member_map_facts [of own ms]
    by (simp add: GroupCreate_def groups_ok_update group_view_update spec_create_def group_ok_def Let_def)
qed

section \<open>Properties\<close>

text \<open>
  C32. The in-memory group store implements the group table: each operation returns the result
  and makes the change the specification says, on every branch, and keeps the store well formed
  (in particular no group without members stays).
\<close>

theorem groups_refine:
  assumes "groups_ok gs"
  shows "(fst (AddMember g u gs), group_view (snd (AddMember g u gs))) = spec_add g u (group_view gs) \<and>
    (fst (RemoveMember g u gs), group_view (snd (RemoveMember g u gs))) = spec_remove g u (group_view gs) \<and>
    (fst (TransferOwnership g a b gs), group_view (snd (TransferOwnership g a b gs))) = spec_transfer g a b b (group_view gs) \<and>
    (\<not> has_key gs i \<longrightarrow>
      group_view (snd (GroupCreate i nw name own ms gs)) = spec_create i own own (set ms - {[]}) (group_view gs)) \<and>
    (has_key gs i \<longrightarrow> GroupCreate i nw name own ms gs = (Inl ErrGroupIDExists, gs)) \<and>
    groups_ok (snd (AddMember g u gs)) \<and> groups_ok (snd (RemoveMember g u gs)) \<and>
    groups_ok (snd (TransferOwnership g a b gs)) \<and> groups_ok (snd (GroupCreate i nw name own ms gs))"
  using AddMember_refines [OF assms] RemoveMember_refines [OF assms] TransferOwnership_refines [OF assms]
    GroupCreate_refines [OF assms, of i nw name own ms] assms
  by (cases "has_key gs i") (simp_all add: GroupCreate_def)

definition demo_groups :: groups_mem where
  "demo_groups = snd (GroupCreate ''g_1'' 0 ''team'' ''alice'' [''bob''] [])"

lemma demo_groups_eq: "demo_groups = [(''g_1'', \<lparr>g_ID = ''g_1'', g_Name = ''team'', g_OwnerUID = ''alice'',
    g_Members = [(''alice'', True), (''bob'', True)], g_CreatedAt = 0\<rparr>)]"
  by (simp add: demo_groups_def GroupCreate_def member_map_def has_key_def Let_def)

lemma demo_groups_ok: "groups_ok demo_groups"
  using GroupCreate_refines [of "[]" "''g_1''" 0 "''team''" "''alice''" "[''bob'']"]
  by (simp add: demo_groups_def groups_ok_def has_key_def)

theorem groups_refine_witness:
  "fst (AddMember ''g_1'' ''bob'' demo_groups) = Some ErrAlreadyMember \<and>
   fst (RemoveMember ''g_2'' ''bob'' demo_groups) = Some ErrGroupNotFound"
  using groups_refine [OF demo_groups_ok, of "''g_1''" "''bob''"] groups_refine [OF demo_groups_ok, of "''g_2''" "''bob''"]
  by (simp add: spec_add_def spec_remove_def group_view_def demo_groups_eq)

text \<open>
  Joining a group and leaving it again restores the group table, and while it lasts the user
  is a member.
\<close>

theorem join_leave:
  assumes "groups_ok gs" and "fst (AddMember g u gs) = None"
  shows "IsMember g u (snd (AddMember g u gs)) \<and>
    fst (RemoveMember g u (snd (AddMember g u gs))) = None \<and>
    group_view (snd (RemoveMember g u (snd (AddMember g u gs)))) = group_view gs"
  using mem_groups.member_after_add [OF assms] mem_groups.add_remove [OF assms] by simp

theorem join_leave_witness:
  "IsMember ''g_1'' ''carol'' (snd (AddMember ''g_1'' ''carol'' demo_groups))"
proof -
  have "fst (AddMember ''g_1'' ''carol'' demo_groups) = None"
    by (simp add: AddMember_def demo_groups_eq is_mem_def)
  from join_leave [OF demo_groups_ok this] show ?thesis by simp
qed

text \<open>
  When the owner leaves a group that has other members, the group goes on with an owner who
  is no member, and nobody can take ownership over: a transfer by any member is refused.
\<close>

theorem owner_leaves:
  assumes "groups_ok gs" and "group_view gs g = Some (ms, own)" and "own \<in> ms" and "ms \<noteq> {own}"
    and "m \<in> ms - {own}"
  shows "fst (RemoveMember g own gs) = None \<and>
    group_view (snd (RemoveMember g own gs)) g = Some (ms - {own}, own) \<and>
    fst (TransferOwnership g m b (snd (RemoveMember g own gs))) = Some ErrNotOwner"
proof -
  note r = RemoveMember_refines [OF assms(1), of g own]
  have v: "fst (RemoveMember g own gs) = None" "group_view (snd (RemoveMember g own gs)) g = Some (ms - {own}, own)"
    using r(2) assms(2-4) by (auto simp: spec_remove_def)
  with TransferOwnership_refines(2) [OF r(1), of g m b] assms(5) show ?thesis
    by (auto simp: spec_transfer_def)
qed

theorem owner_leaves_witness:
  "group_view (snd (RemoveMember ''g_1'' ''alice'' demo_groups)) ''g_1'' = Some ({''bob''}, ''alice'')"
proof -
  have "group_view demo_groups ''g_1'' = Some ({''alice'', ''bob''}, ''alice'')"
    by (simp add: group_view_def demo_groups_eq)
  from owner_leaves [OF demo_groups_ok this, of "''bob''"] show ?thesis by (simp add: insert_Diff_if)
qed

end
