(* ===== verification/MySQL_Group.thy ===== *)
theory MySQL_Group
  imports MySQL_Base Group_Store
begin

text \<open>
  Groups in MySQL: \<open>internal/repo/mysql_group.go\<close> and its adapter
  \<open>internal/gateway/mysql_group_store.go\<close>. A transaction that returns early is rolled back. The
  fault plan numbers the statements of a call in the order of the code; the error of a commit
  may come after the commit took effect.
\<close>

datatype repo_error = RepoGroupNotFound | RepoNotOwner | RepoAlreadyMember | RepoNotMember | RepoErr string

fun repo_error_text :: "repo_error \<Rightarrow> string" where
  "repo_error_text RepoGroupNotFound = ''group not found''"
| "repo_error_text RepoNotOwner = ''only the group owner can perform this action''"
| "repo_error_text RepoAlreadyMember = ''user is already a member of this group''"
| "repo_error_text RepoNotMember = ''user is not a member of this group''"
| "repo_error_text (RepoErr s) = s"

text \<open>\<open>tx.Commit\<close> as statement \<open>i\<close>: the state after it and its error.\<close>

definition commit :: "faults \<Rightarrow> nat \<Rightarrow> db \<Rightarrow> db \<Rightarrow> string option \<times> db" where
  "commit flt i old new = (case flt i of None \<Rightarrow> (None, new) | Some (e, applied) \<Rightarrow> (Some e, if applied then new else old))"

definition insert_member :: "sql_env \<Rightarrow> string \<Rightarrow> string \<Rightarrow> int \<Rightarrow> member_row list \<Rightarrow> (string + int) \<times> member_row list" where
  "insert_member E groupID uid nw =
    sql_insert (\<lambda>x. sql_eq E (mb_group_id x) groupID \<and> sql_eq E (mb_uid x) uid)
      \<lparr>mb_group_id = groupID, mb_uid = uid, mb_joined_at = nw\<rparr>"

text \<open>The loop over the initial members; statement numbers count the executed inserts.\<close>

fun insert_members ::
  "sql_env \<Rightarrow> faults \<Rightarrow> nat \<Rightarrow> string \<Rightarrow> string \<Rightarrow> int \<Rightarrow> string list \<Rightarrow> member_row list \<Rightarrow> (string + nat) \<times> member_row list" where
  "insert_members E flt i groupID ownerUID nw [] t = (Inr i, t)"
| "insert_members E flt i groupID ownerUID nw (uid # uids) t =
    (if uid = [] \<or> uid = ownerUID then insert_members E flt i groupID ownerUID nw uids t
     else
       (case exec_stmt flt i (insert_member E groupID uid nw) t of
          (Inl e, t') \<Rightarrow> (Inl (wrap_err (''insert member '' @ uid) e), t')
        | (Inr _, t') \<Rightarrow> insert_members E flt (Suc i) groupID ownerUID nw uids t'))"

definition CreateGroup ::
  "sql_env \<Rightarrow> faults \<Rightarrow> string \<Rightarrow> int \<Rightarrow> string \<Rightarrow> string \<Rightarrow> string list \<Rightarrow> db \<Rightarrow> (repo_error + group_row) \<times> db" where
  "CreateGroup E flt i nw name ownerUID members d =
    (case query flt 0 () of
       Inl e \<Rightarrow> (Inl (RepoErr (wrap_err ''begin tx'' e)), d)
     | Inr _ \<Rightarrow>
         let g = \<lparr>gr_ID = i, gr_Name = name, gr_OwnerUID = ownerUID, gr_CreatedAt = nw\<rparr> in
         (case exec_stmt flt 1 (sql_insert (\<lambda>x. sql_eq E (gr_ID x) i) g) (t_groups d) of
            (Inl e, _) \<Rightarrow> (Inl (RepoErr (wrap_err ''insert group'' e)), d)
          | (Inr _, gs) \<Rightarrow>
              (case exec_stmt flt 2 (insert_member E i ownerUID nw) (t_members d) of
                 (Inl e, _) \<Rightarrow> (Inl (RepoErr (wrap_err ''insert owner member'' e)), d)
               | (Inr _, ms) \<Rightarrow>
                   (case insert_members E flt 3 i ownerUID nw members ms of
                      (Inl e, _) \<Rightarrow> (Inl (RepoErr e), d)
                    | (Inr k, ms') \<Rightarrow>
                        (case commit flt k d (d\<lparr>t_groups := gs, t_members := ms'\<rparr>) of
                           (Some e, d') \<Rightarrow> (Inl (RepoErr (wrap_err ''commit'' e)), d')
                         | (None, d') \<Rightarrow> (Inr g, d'))))))"

definition group_count :: "sql_env \<Rightarrow> string \<Rightarrow> db \<Rightarrow> int" where
  "group_count E groupID d = sql_count (\<lambda>x. sql_eq E (gr_ID x) groupID) (t_groups d)"

definition RepoAddMember :: "sql_env \<Rightarrow> faults \<Rightarrow> int \<Rightarrow> string \<Rightarrow> string \<Rightarrow> db \<Rightarrow> repo_error option \<times> db" where
  "RepoAddMember E flt nw groupID uid d =
    (case query flt 0 (group_count E groupID d) of
       Inl e \<Rightarrow> (Some (RepoErr (wrap_err ''check group'' e)), d)
     | Inr n \<Rightarrow>
         if n = 0 then (Some RepoGroupNotFound, d)
         else
           let (r, t) = exec_stmt flt 1 (insert_member E groupID uid nw) (t_members d)
           in (case r of
                 Inl e \<Rightarrow> if isMySQLDuplicate e then Some RepoAlreadyMember else Some (RepoErr (wrap_err ''insert member'' e))
               | Inr _ \<Rightarrow> None, d\<lparr>t_members := t\<rparr>))"

definition in_group :: "sql_env \<Rightarrow> string \<Rightarrow> member_row \<Rightarrow> bool" where
  "in_group E groupID x \<longleftrightarrow> sql_eq E (mb_group_id x) groupID"

definition RepoRemoveMember :: "sql_env \<Rightarrow> faults \<Rightarrow> string \<Rightarrow> string \<Rightarrow> db \<Rightarrow> (repo_error + bool) \<times> db" where
  "RepoRemoveMember E flt groupID uid d =
    (case query flt 0 () of
       Inl e \<Rightarrow> (Inl (RepoErr (wrap_err ''begin tx'' e)), d)
     | Inr _ \<Rightarrow>
         (case query flt 1 (sql_count (in_group E groupID) (t_members d)) of
            Inl e \<Rightarrow> (Inl (RepoErr (wrap_err ''count members'' e)), d)
          | Inr memberCount \<Rightarrow>
              (case query flt 2 (group_count E groupID d) of
                 Inl e \<Rightarrow> (Inl (RepoErr (wrap_err ''check group'' e)), d)
               | Inr groupExists \<Rightarrow>
                   if groupExists = 0 then (Inl RepoGroupNotFound, d)
                   else
                     (case exec_stmt flt 3 (sql_delete (\<lambda>x. in_group E groupID x \<and> sql_eq E (mb_uid x) uid)) (t_members d) of
                        (Inl e, _) \<Rightarrow> (Inl (RepoErr (wrap_err ''delete member'' e)), d)
                      | (Inr affected, ms) \<Rightarrow>
                          if affected = 0 then (Inl RepoNotMember, d)
                          else
                            (case (if memberCount \<le> 1
                                   then exec_stmt flt 4 (sql_delete (\<lambda>x. sql_eq E (gr_ID x) groupID)) (t_groups d)
                                   else (Inr 0, t_groups d)) of
                               (Inl e, _) \<Rightarrow> (Inl (RepoErr (wrap_err ''delete empty group'' e)), d)
                             | (Inr _, gs) \<Rightarrow>
                                 (case commit flt 5 d (d\<lparr>t_members := ms, t_groups := gs\<rparr>) of
                                    (Some e, d') \<Rightarrow> (Inl (RepoErr (wrap_err ''commit'' e)), d')
                                  | (None, d') \<Rightarrow> (Inr (memberCount \<le> 1), d')))))))"

definition member_uids :: "sql_env \<Rightarrow> string \<Rightarrow> db \<Rightarrow> string list" where
  "member_uids E groupID d = map mb_uid (order_asc mb_joined_at (filter (in_group E groupID) (t_members d)))"

definition RepoGetMembers :: "sql_env \<Rightarrow> faults \<Rightarrow> string \<Rightarrow> db \<Rightarrow> repo_error + string list" where
  "RepoGetMembers E flt groupID d =
    (case query flt 0 () of
       Inl e \<Rightarrow> Inl (RepoErr (wrap_err ''query members'' e))
     | Inr _ \<Rightarrow>
         (case query flt 1 (member_uids E groupID d) of
            Inl e \<Rightarrow> Inl (RepoErr (wrap_err ''iterate members'' e))
          | Inr members \<Rightarrow>
              if members = [] then
                (case query flt 2 (group_count E groupID d) of
                   Inl e \<Rightarrow> Inl (RepoErr (wrap_err ''check group'' e))
                 | Inr n \<Rightarrow> if n = 0 then Inl RepoGroupNotFound else Inr [])
              else Inr members))"

definition RepoGetGroup :: "sql_env \<Rightarrow> faults \<Rightarrow> string \<Rightarrow> db \<Rightarrow> repo_error + group_row" where
  "RepoGetGroup E flt groupID d =
    (case query flt 0 (find (\<lambda>x. sql_eq E (gr_ID x) groupID) (t_groups d)) of
       Inl e \<Rightarrow> Inl (RepoErr (wrap_err ''select group'' e))
     | Inr None \<Rightarrow> Inl RepoGroupNotFound
     | Inr (Some g) \<Rightarrow> Inr g)"

definition RepoListGroups :: "sql_env \<Rightarrow> faults \<Rightarrow> string \<Rightarrow> db \<Rightarrow> repo_error + group_row list" where
  "RepoListGroups E flt uid d =
    (case query flt 0 () of
       Inl e \<Rightarrow> Inl (RepoErr (wrap_err ''query user groups'' e))
     | Inr _ \<Rightarrow>
         (case query flt 1 (order_desc gr_CreatedAt
             (concat (map (\<lambda>g. map (\<lambda>_. g) (filter (\<lambda>m. sql_eq E (gr_ID g) (mb_group_id m) \<and> sql_eq E (mb_uid m) uid) (t_members d)))
               (t_groups d)))) of
            Inl e \<Rightarrow> Inl (RepoErr (wrap_err ''iterate groups'' e))
          | Inr gs \<Rightarrow> Inr gs))"

definition RepoIsMember :: "sql_env \<Rightarrow> faults \<Rightarrow> string \<Rightarrow> string \<Rightarrow> db \<Rightarrow> bool" where
  "RepoIsMember E flt groupID uid d =
    (case query flt 0 (sql_count (\<lambda>x. in_group E groupID x \<and> sql_eq E (mb_uid x) uid) (t_members d)) of
       Inl _ \<Rightarrow> False | Inr n \<Rightarrow> n > 0)"

definition RepoUpdateName :: "sql_env \<Rightarrow> faults \<Rightarrow> string \<Rightarrow> string \<Rightarrow> db \<Rightarrow> repo_error option \<times> db" where
  "RepoUpdateName E flt groupID newName d =
    (let (r, t) = exec_stmt flt 0 (sql_update (\<lambda>x. sql_eq E (gr_ID x) groupID) (\<lambda>x. x\<lparr>gr_Name := newName\<rparr>)) (t_groups d)
     in (case r of
           Inl e \<Rightarrow> Some (RepoErr (wrap_err ''update group name'' e))
         | Inr n \<Rightarrow> if n = 0 then Some RepoGroupNotFound else None, d\<lparr>t_groups := t\<rparr>))"

definition RepoTransferOwnership ::
  "sql_env \<Rightarrow> faults \<Rightarrow> string \<Rightarrow> string \<Rightarrow> string \<Rightarrow> db \<Rightarrow> repo_error option \<times> db" where
  "RepoTransferOwnership E flt groupID fromUID toUID d =
    (case query flt 0 () of
       Inl e \<Rightarrow> (Some (RepoErr (wrap_err ''begin tx'' e)), d)
     | Inr _ \<Rightarrow>
         (case query flt 1 (find (\<lambda>x. sql_eq E (gr_ID x) groupID) (t_groups d)) of
            Inl e \<Rightarrow> (Some (RepoErr (wrap_err ''select group'' e)), d)
          | Inr None \<Rightarrow> (Some RepoGroupNotFound, d)
          | Inr (Some g) \<Rightarrow>
              if gr_OwnerUID g \<noteq> fromUID then (Some RepoNotOwner, d)
              else
                (case query flt 2 (sql_count (\<lambda>x. in_group E groupID x \<and> sql_eq E (mb_uid x) toUID) (t_members d)) of
                   Inl e \<Rightarrow> (Some (RepoErr (wrap_err ''check member'' e)), d)
                 | Inr n \<Rightarrow>
                     if n = 0 then (Some RepoNotMember, d)
                     else
                       (case exec_stmt flt 3 (sql_update (\<lambda>x. sql_eq E (gr_ID x) groupID) (\<lambda>x. x\<lparr>gr_OwnerUID := toUID\<rparr>)) (t_groups d) of
                          (Inl e, _) \<Rightarrow> (Some (RepoErr (wrap_err ''update owner'' e)), d)
                        | (Inr _, t) \<Rightarrow>
                            (case commit flt 4 d (d\<lparr>t_groups := t\<rparr>) of
                               (e, d') \<Rightarrow> (map_option RepoErr e, d'))))))"

text \<open>The second query has its own statement numbers, from 10 on.\<close>

definition RepoGetMembersForGroup :: "sql_env \<Rightarrow> faults \<Rightarrow> string \<Rightarrow> db \<Rightarrow> repo_error + group_row \<times> string list" where
  "RepoGetMembersForGroup E flt groupID d =
    (case RepoGetGroup E flt groupID d of
       Inl e \<Rightarrow> Inl e
     | Inr g \<Rightarrow>
         (case RepoGetMembers E (\<lambda>i. flt (i + 10)) groupID d of
            Inl e \<Rightarrow> Inl e
          | Inr ms \<Rightarrow> Inr (g, ms)))"

section \<open>The adapter of the gateway\<close>

fun translateRepoError :: "repo_error \<Rightarrow> group_error" where
  "translateRepoError RepoGroupNotFound = ErrGroupNotFound"
| "translateRepoError RepoNotOwner = ErrNotOwner"
| "translateRepoError RepoAlreadyMember = ErrAlreadyMember"
| "translateRepoError RepoNotMember = ErrNotMember"
| "translateRepoError (RepoErr s) = GroupErr s"

definition to_member_map :: "string list \<Rightarrow> (string, bool) gomap" where
  "to_member_map ms = fold (\<lambda>uid m. AList.update uid True m) ms []"

definition SqlGroupCreate ::
  "sql_env \<Rightarrow> faults \<Rightarrow> string \<Rightarrow> int \<Rightarrow> string \<Rightarrow> string \<Rightarrow> string list \<Rightarrow> db \<Rightarrow> (group_error + group) \<times> db" where
  "SqlGroupCreate E flt i nw name ownerUID members d =
    (case CreateGroup E flt i nw name ownerUID members d of
       (Inl e, d') \<Rightarrow> (Inl (translateRepoError e), d')
     | (Inr row, d') \<Rightarrow>
         (Inr \<lparr>g_ID = gr_ID row, g_Name = gr_Name row, g_OwnerUID = gr_OwnerUID row,
               g_Members = member_map ownerUID members, g_CreatedAt = gr_CreatedAt row\<rparr>, d'))"

definition SqlAddMember :: "sql_env \<Rightarrow> faults \<Rightarrow> int \<Rightarrow> string \<Rightarrow> string \<Rightarrow> db \<Rightarrow> group_error option \<times> db" where
  "SqlAddMember E flt nw groupID uid d =
    (let (e, d') = RepoAddMember E flt nw groupID uid d in (map_option translateRepoError e, d'))"

definition SqlRemoveMember :: "sql_env \<Rightarrow> faults \<Rightarrow> string \<Rightarrow> string \<Rightarrow> db \<Rightarrow> group_error option \<times> db" where
  "SqlRemoveMember E flt groupID uid d =
    (case RepoRemoveMember E flt groupID uid d of
       (Inl e, d') \<Rightarrow> (Some (translateRepoError e), d') | (Inr _, d') \<Rightarrow> (None, d'))"

definition SqlGetMembers :: "sql_env \<Rightarrow> faults \<Rightarrow> string \<Rightarrow> db \<Rightarrow> group_error + string list" where
  "SqlGetMembers E flt groupID d = map_sum translateRepoError (\<lambda>ms. ms) (RepoGetMembers E flt groupID d)"

definition SqlIsMember :: "sql_env \<Rightarrow> faults \<Rightarrow> string \<Rightarrow> string \<Rightarrow> db \<Rightarrow> bool" where
  "SqlIsMember E flt groupID uid d = RepoIsMember E flt groupID uid d"

definition row_group :: "group_row \<Rightarrow> string list \<Rightarrow> group" where
  "row_group row members = \<lparr>g_ID = gr_ID row, g_Name = gr_Name row, g_OwnerUID = gr_OwnerUID row,
    g_Members = to_member_map members, g_CreatedAt = gr_CreatedAt row\<rparr>"

text \<open>The loop that fetches the members of each group; the queries of round \<open>k\<close> start at \<open>10 k\<close>.\<close>

fun fill_groups :: "sql_env \<Rightarrow> faults \<Rightarrow> nat \<Rightarrow> db \<Rightarrow> group_row list \<Rightarrow> group_error + group list" where
  "fill_groups E flt k d [] = Inr []"
| "fill_groups E flt k d (row # rows) =
    (case RepoGetMembers E (\<lambda>i. flt (i + 10 * k)) (gr_ID row) d of
       Inl e \<Rightarrow> Inl (translateRepoError e)
     | Inr ms \<Rightarrow>
         (case fill_groups E flt (Suc k) d rows of
            Inl e \<Rightarrow> Inl e
          | Inr gs \<Rightarrow> Inr (row_group row ms # gs)))"

definition SqlGetUserGroups :: "sql_env \<Rightarrow> faults \<Rightarrow> string \<Rightarrow> db \<Rightarrow> group_error + group list" where
  "SqlGetUserGroups E flt uid d =
    (case RepoListGroups E flt uid d of
       Inl e \<Rightarrow> Inl (translateRepoError e)
     | Inr rows \<Rightarrow> fill_groups E flt 1 d rows)"

definition SqlGroupGet :: "sql_env \<Rightarrow> faults \<Rightarrow> string \<Rightarrow> db \<Rightarrow> group_error + group" where
  "SqlGroupGet E flt groupID d =
    (case RepoGetMembersForGroup E flt groupID d of
       Inl e \<Rightarrow> Inl (translateRepoError e)
     | Inr (row, ms) \<Rightarrow> Inr (row_group row ms))"

definition SqlUpdateName :: "sql_env \<Rightarrow> faults \<Rightarrow> string \<Rightarrow> string \<Rightarrow> db \<Rightarrow> group_error option \<times> db" where
  "SqlUpdateName E flt groupID newName d =
    (let (e, d') = RepoUpdateName E flt groupID newName d in (map_option translateRepoError e, d'))"

definition SqlTransferOwnership :: "sql_env \<Rightarrow> faults \<Rightarrow> string \<Rightarrow> string \<Rightarrow> string \<Rightarrow> db \<Rightarrow> group_error option \<times> db" where
  "SqlTransferOwnership E flt groupID fromUID toUID d =
    (let (e, d') = RepoTransferOwnership E flt groupID fromUID toUID d in (map_option translateRepoError e, d'))"

section \<open>Refinement\<close>

definition members_of :: "sql_env \<Rightarrow> string \<Rightarrow> member_row list \<Rightarrow> string set" where
  "members_of E k t = (\<lambda>x. collate E (mb_uid x)) ` {x \<in> set t. collate E (mb_group_id x) = k}"

definition sql_view :: "sql_env \<Rightarrow> db \<Rightarrow> string group_table" where
  "sql_view E d k =
    map_option (\<lambda>g. (members_of E k (t_members d), gr_OwnerUID g)) (find (\<lambda>g. collate E (gr_ID g) = k) (t_groups d))"

text \<open>The primary keys hold, every member row has its group and every group a member row.\<close>

definition sql_groups_ok :: "sql_env \<Rightarrow> db \<Rightarrow> bool" where
  "sql_groups_ok E d \<longleftrightarrow> distinct (map (\<lambda>g. collate E (gr_ID g)) (t_groups d)) \<and>
    distinct (map (\<lambda>x. (collate E (mb_group_id x), collate E (mb_uid x))) (t_members d)) \<and>
    (\<lambda>x. collate E (mb_group_id x)) ` set (t_members d) = (\<lambda>g. collate E (gr_ID g)) ` set (t_groups d)"

lemma count_zero: "sql_count P t = 0 \<longleftrightarrow> (\<forall>x \<in> set t. \<not> P x)"
  by (auto simp: sql_count_def filter_empty_conv)

lemma group_count_view: "group_count E g d = 0 \<longleftrightarrow> sql_view E d (collate E g) = None"
  by (simp add: group_count_def count_zero sql_view_def find_none)

lemma members_of_iff: "k \<in> members_of E j t \<longleftrightarrow> (\<exists>x \<in> set t. collate E (mb_group_id x) = j \<and> collate E (mb_uid x) = k)"
  by (auto simp: members_of_def)

lemma members_of_snoc:
  "members_of E j (t @ [\<lparr>mb_group_id = g, mb_uid = u, mb_joined_at = nw\<rparr>]) =
    (if j = collate E g then insert (collate E u) (members_of E j t) else members_of E j t)"
  by (rule set_eqI) (auto simp: members_of_iff)

lemma sql_view_eq_Some:
  "sql_view E d k = Some (ms, own) \<longleftrightarrow> ms = members_of E k (t_members d) \<and>
    (\<exists>g. find (\<lambda>g. collate E (gr_ID g) = k) (t_groups d) = Some g \<and> own = gr_OwnerUID g)"
  by (auto simp: sql_view_def)

lemma view_exists_group: "sql_view E d k \<noteq> None \<longleftrightarrow> k \<in> (\<lambda>g. collate E (gr_ID g)) ` set (t_groups d)"
  by (auto simp: sql_view_def find_none)

lemma sql_view_exists:
  assumes "sql_groups_ok E d"
  shows "sql_view E d k \<noteq> None \<longleftrightarrow> members_of E k (t_members d) \<noteq> {}"
proof -
  have "sql_view E d k \<noteq> None \<longleftrightarrow> k \<in> (\<lambda>g. collate E (gr_ID g)) ` set (t_groups d)"
    by (rule view_exists_group)
  also have "\<dots> \<longleftrightarrow> k \<in> (\<lambda>x. collate E (mb_group_id x)) ` set (t_members d)"
    using assms by (simp add: sql_groups_ok_def)
  finally show ?thesis by (auto simp: members_of_def)
qed

lemma SqlAddMember_refines:
  assumes "sql_groups_ok E d"
  shows "(fst (SqlAddMember E no_faults nw g u d), sql_view E (snd (SqlAddMember E no_faults nw g u d))) =
      spec_add (collate E g) (collate E u) (sql_view E d)" (is ?ref)
    and "sql_groups_ok E (snd (SqlAddMember E no_faults nw g u d))" (is ?ok)
proof -
  let ?k = "collate E g" and ?m = "members_of E (collate E g) (t_members d)"
  let ?row = "\<lparr>mb_group_id = g, mb_uid = u, mb_joined_at = nw\<rparr>"
  have nf: "no_faults i = None" for i by (simp add: no_faults_def)
  have dup: "list_ex (\<lambda>x. sql_eq E (mb_group_id x) g \<and> sql_eq E (mb_uid x) u) (t_members d) \<longleftrightarrow> collate E u \<in> ?m"
    by (auto simp: list_ex_iff members_of_iff)
  have add: "SqlAddMember E no_faults nw g u d =
      (if sql_view E d ?k = None then (Some ErrGroupNotFound, d)
       else if collate E u \<in> ?m then (Some ErrAlreadyMember, d)
       else (None, d\<lparr>t_members := t_members d @ [?row]\<rparr>))"
    by (simp add: SqlAddMember_def RepoAddMember_def nf group_count_view insert_member_def sql_insert_def dup)
  have "sql_view E (d\<lparr>t_members := t_members d @ [?row]\<rparr>) = (sql_view E d)(?k \<mapsto> (insert (collate E u) ?m, own))"
    if "sql_view E d ?k = Some (?m, own)" for own
    using that by (auto simp: fun_eq_iff sql_view_def members_of_snoc)
  then show ?ref
    unfolding add by (cases "sql_view E d ?k") (auto simp: spec_add_def sql_view_eq_Some)
  have "sql_groups_ok E (d\<lparr>t_members := t_members d @ [?row]\<rparr>)" if "sql_view E d ?k \<noteq> None" "collate E u \<notin> ?m"
  proof -
    have "?k \<in> (\<lambda>g. collate E (gr_ID g)) ` set (t_groups d)"
      using that(1) by (simp only: view_exists_group)
    then show ?thesis using assms that(2) by (auto simp: sql_groups_ok_def members_of_iff)
  qed
  then show ?ok unfolding add using assms by simp
qed

lemma member_count:
  assumes "sql_groups_ok E d"
  shows "sql_count (in_group E g) (t_members d) = int (card (members_of E (collate E g) (t_members d)))"
proof -
  let ?xs = "filter (in_group E g) (t_members d)"
  have "distinct (map (\<lambda>x. (collate E (mb_group_id x), collate E (mb_uid x))) ?xs)"
    using assms by (simp add: sql_groups_ok_def distinct_map_filter)
  moreover have "map (\<lambda>x. (collate E (mb_group_id x), collate E (mb_uid x))) ?xs =
      map (Pair (collate E g)) (map (\<lambda>x. collate E (mb_uid x)) ?xs)"
    by (simp add: in_group_def)
  ultimately have "distinct (map (\<lambda>x. collate E (mb_uid x)) ?xs)" by (auto simp: distinct_map inj_on_def)
  then have "card (set (map (\<lambda>x. collate E (mb_uid x)) ?xs)) = length ?xs"
    using distinct_card by fastforce
  moreover have "set (map (\<lambda>x. collate E (mb_uid x)) ?xs) = members_of E (collate E g) (t_members d)"
    by (auto simp: members_of_def in_group_def)
  ultimately show ?thesis by (simp add: sql_count_def)
qed

lemma members_of_delete:
  "members_of E j (filter (\<lambda>x. in_group E g x \<longrightarrow> \<not> sql_eq E (mb_uid x) u) t) =
    (if j = collate E g then members_of E j t - {collate E u} else members_of E j t)"
  by (auto simp: members_of_def in_group_def)

lemma card_le_1_iff:
  assumes "finite ms" and "u \<in> ms"
  shows "card ms \<le> 1 \<longleftrightarrow> ms = {u}"
proof
  assume "card ms \<le> 1"
  then have "\<forall>x \<in> ms. \<forall>y \<in> ms. x = y" using card_le_Suc0_iff_eq [OF assms(1)] by simp
  with assms(2) show "ms = {u}" by blast
qed simp

lemma finite_members_of: "finite (members_of E k t)"
  by (simp add: members_of_def)

lemma sql_groups_okI:
  "distinct (map (\<lambda>g. collate E (gr_ID g)) gs) \<Longrightarrow>
    distinct (map (\<lambda>x. (collate E (mb_group_id x), collate E (mb_uid x))) ms) \<Longrightarrow>
    (\<lambda>x. collate E (mb_group_id x)) ` set ms = (\<lambda>g. collate E (gr_ID g)) ` set gs \<Longrightarrow>
    sql_groups_ok E (d\<lparr>t_members := ms, t_groups := gs\<rparr>)"
  by (simp add: sql_groups_ok_def)

lemma SqlRemoveMember_refines:
  assumes "sql_groups_ok E d"
  shows "(fst (SqlRemoveMember E no_faults g u d), sql_view E (snd (SqlRemoveMember E no_faults g u d))) =
      spec_remove (collate E g) (collate E u) (sql_view E d)" (is ?ref)
    and "sql_groups_ok E (snd (SqlRemoveMember E no_faults g u d))" (is ?ok)
proof -
  let ?k = "collate E g" and ?m = "members_of E (collate E g) (t_members d)"
  let ?ms = "filter (\<lambda>x. in_group E g x \<longrightarrow> \<not> sql_eq E (mb_uid x) u) (t_members d)"
  let ?gs = "filter (\<lambda>x. \<not> sql_eq E (gr_ID x) g) (t_groups d)"
  have nf: "no_faults i = None" for i by (simp add: no_faults_def)
  have aff: "filter (\<lambda>x. in_group E g x \<and> sql_eq E (mb_uid x) u) (t_members d) = [] \<longleftrightarrow> collate E u \<notin> ?m"
    by (auto simp: filter_empty_conv members_of_iff in_group_def)
  have one: "collate E u \<in> ?m \<Longrightarrow> sql_count (in_group E g) (t_members d) \<le> 1 \<longleftrightarrow> ?m = {collate E u}"
    using card_le_1_iff [OF finite_members_of] member_count [OF assms, of g] by auto
  have rm: "SqlRemoveMember E no_faults g u d =
      (if sql_view E d ?k = None then (Some ErrGroupNotFound, d)
       else if collate E u \<notin> ?m then (Some ErrNotMember, d)
       else (None, d\<lparr>t_members := ?ms, t_groups := if ?m = {collate E u} then ?gs else t_groups d\<rparr>))"
    by (simp add: SqlRemoveMember_def RepoRemoveMember_def nf group_count_view sql_delete_def aff commit_def one)
  have members: "members_of E j ?ms = (if j = ?k then ?m - {collate E u} else members_of E j (t_members d))" for j
    by (cases "j = ?k") (simp_all only: members_of_delete if_True if_False refl)
  have vw: "sql_view E (d\<lparr>t_members := ?ms, t_groups := if ?m = {collate E u} then ?gs else t_groups d\<rparr>) =
      (if ?m = {collate E u} then (sql_view E d)(?k := None) else (sql_view E d)(?k \<mapsto> (?m - {collate E u}, own)))"
    if "sql_view E d ?k = Some (?m, own)" for own
  proof (rule ext)
    fix j
    have "find (\<lambda>x. collate E (gr_ID x) = j) ?gs = (if j = ?k then None else find (\<lambda>x. collate E (gr_ID x) = j) (t_groups d))"
      by (auto simp: find_none intro!: find_filter_implied)
    with that show "sql_view E (d\<lparr>t_members := ?ms, t_groups := if ?m = {collate E u} then ?gs else t_groups d\<rparr>) j =
      (if ?m = {collate E u} then (sql_view E d)(?k := None) else (sql_view E d)(?k \<mapsto> (?m - {collate E u}, own))) j"
      by (auto simp: sql_view_def members)
  qed
  show ?ref
  proof (cases "sql_view E d ?k")
    case (Some p)
    then obtain own where own: "sql_view E d ?k = Some (?m, own)" by (cases p) (auto simp: sql_view_eq_Some)
    show ?thesis
      using vw [OF own] by (cases "collate E u \<in> ?m"; cases "?m = {collate E u}") (simp_all add: rm own spec_remove_def)
  qed (simp add: rm spec_remove_def)
  have keys: "(\<lambda>x. collate E (mb_group_id x)) ` set t = {j. members_of E j t \<noteq> {}}" for t
    by (auto simp: members_of_def)
  have groups: "(\<lambda>x. collate E (gr_ID x)) ` set (t_groups d) = {j. members_of E j (t_members d) \<noteq> {}}"
    using assms by (simp add: sql_groups_ok_def keys)
  have del: "(\<lambda>x. collate E (gr_ID x)) ` set ?gs = (\<lambda>x. collate E (gr_ID x)) ` set (t_groups d) - {?k}" by auto
  have "{j. members_of E j ?ms \<noteq> {}} = (\<lambda>x. collate E (gr_ID x)) ` set (if ?m = {collate E u} then ?gs else t_groups d)"
    if "collate E u \<in> ?m"
  proof (cases "?m = {collate E u}")
    case True
    then show ?thesis unfolding members if_P [OF True] del groups by auto
  next
    case False
    then show ?thesis using \<open>collate E u \<in> ?m\<close> unfolding members if_not_P [OF False] groups by auto
  qed
  then have "sql_groups_ok E (d\<lparr>t_members := ?ms, t_groups := if ?m = {collate E u} then ?gs else t_groups d\<rparr>)"
    if "collate E u \<in> ?m"
    using that unfolding keys [of ?ms, symmetric]
    by (intro sql_groups_okI) (use assms in \<open>auto simp: sql_groups_ok_def distinct_map_filter\<close>)
  then show ?ok unfolding rm using assms by simp
qed

lemma sql_groups_ok_same_ids:
  assumes "map (\<lambda>x. collate E (gr_ID x)) gs = map (\<lambda>x. collate E (gr_ID x)) (t_groups d)" and "sql_groups_ok E d"
  shows "sql_groups_ok E (d\<lparr>t_groups := gs\<rparr>)"
proof -
  have "(\<lambda>x. collate E (gr_ID x)) ` set gs = (\<lambda>x. collate E (gr_ID x)) ` set (t_groups d)"
    using arg_cong [OF assms(1), of set] by (simp only: list.set_map)
  with assms show ?thesis by (simp add: sql_groups_ok_def)
qed

lemma SqlTransferOwnership_refines:
  assumes "sql_groups_ok E d"
  shows "(fst (SqlTransferOwnership E no_faults g a b d), sql_view E (snd (SqlTransferOwnership E no_faults g a b d))) =
      spec_transfer (collate E g) a (collate E b) b (sql_view E d)" (is ?ref)
    and "sql_groups_ok E (snd (SqlTransferOwnership E no_faults g a b d))" (is ?ok)
proof -
  let ?k = "collate E g" and ?m = "members_of E (collate E g) (t_members d)"
  let ?f = "find (\<lambda>x. sql_eq E (gr_ID x) g) (t_groups d)"
  let ?upd = "\<lambda>x. if sql_eq E (gr_ID x) g then x\<lparr>gr_OwnerUID := b\<rparr> else x"
  have nf: "no_faults i = None" for i by (simp add: no_faults_def)
  have cnt: "sql_count (\<lambda>x. in_group E g x \<and> sql_eq E (mb_uid x) b) (t_members d) = 0 \<longleftrightarrow> collate E b \<notin> ?m"
    by (auto simp: count_zero members_of_iff in_group_def)
  have tr: "SqlTransferOwnership E no_faults g a b d =
      (case ?f of
         None \<Rightarrow> (Some ErrGroupNotFound, d)
       | Some x \<Rightarrow>
           if gr_OwnerUID x \<noteq> a then (Some ErrNotOwner, d)
           else if collate E b \<notin> ?m then (Some ErrNotMember, d)
           else (None, d\<lparr>t_groups := map ?upd (t_groups d)\<rparr>))"
    by (simp add: SqlTransferOwnership_def RepoTransferOwnership_def nf cnt sql_update_def commit_def split: option.split)
  have "sql_view E (d\<lparr>t_groups := map ?upd (t_groups d)\<rparr>) = (sql_view E d)(?k \<mapsto> (?m, b))" if f: "?f = Some x" for x
  proof (rule ext)
    fix j
    have "find (\<lambda>x. collate E (gr_ID x) = j) (map ?upd (t_groups d)) =
        map_option ?upd (find (\<lambda>x. collate E (gr_ID x) = j) (t_groups d))"
      by (intro find_map_row) auto
    with f show "sql_view E (d\<lparr>t_groups := map ?upd (t_groups d)\<rparr>) j = ((sql_view E d)(?k \<mapsto> (?m, b))) j"
      by (auto simp: sql_view_def option.map_comp comp_def dest: find_some intro!: option.map_cong)
  qed
  then show ?ref
    unfolding tr by (cases ?f) (auto simp: spec_transfer_def sql_view_def)
  have "sql_groups_ok E (d\<lparr>t_groups := map ?upd (t_groups d)\<rparr>)"
  proof -
    have "map (\<lambda>x. collate E (gr_ID x)) (map ?upd (t_groups d)) = map (\<lambda>x. collate E (gr_ID x)) (t_groups d)"
      by simp
    from sql_groups_ok_same_ids [OF this assms] show ?thesis .
  qed
  then show ?ok unfolding tr using assms by (simp split: option.split)
qed

interpretation sql_groups: group_store "collate E" "sql_view E" "sql_groups_ok E" "SqlAddMember E no_faults nw"
  "SqlRemoveMember E no_faults" "SqlTransferOwnership E no_faults" "SqlIsMember E no_faults" for E nw
proof unfold_locales
  show "SqlIsMember E no_faults g u d \<longleftrightarrow> (\<exists>ms own. sql_view E d (collate E g) = Some (ms, own) \<and> collate E u \<in> ms)"
    if "sql_groups_ok E d" for d g u
  proof -
    have "SqlIsMember E no_faults g u d \<longleftrightarrow> collate E u \<in> members_of E (collate E g) (t_members d)"
      by (auto simp: SqlIsMember_def RepoIsMember_def no_faults_def members_of_iff in_group_def sql_count_def filter_empty_conv)
    also have "\<dots> \<longleftrightarrow> sql_view E d (collate E g) \<noteq> None \<and> collate E u \<in> members_of E (collate E g) (t_members d)"
      using sql_view_exists [OF that] by auto
    finally show ?thesis by (auto simp: sql_view_def)
  qed
  show "ms \<noteq> {} \<and> finite ms" if "sql_groups_ok E d" "sql_view E d k = Some (ms, own)" for d k ms own
    using sql_view_exists [OF that(1), of k] that(2) finite_members_of by (auto simp: sql_view_eq_Some)
qed (simp_all add: SqlAddMember_refines SqlRemoveMember_refines SqlTransferOwnership_refines)

section \<open>Properties\<close>

text \<open>
  C33. The MySQL group store implements the same group table as the in-memory one, up to the
  collation: when its statements go through, adding, removing and transferring return the result
  and make the change of the specification, and keep the primary keys and the correspondence of
  the two tables.
\<close>

theorem sql_groups_refine:
  assumes "sql_groups_ok E d"
  shows "(fst (SqlAddMember E no_faults nw g u d), sql_view E (snd (SqlAddMember E no_faults nw g u d))) =
      spec_add (collate E g) (collate E u) (sql_view E d) \<and>
    (fst (SqlRemoveMember E no_faults g u d), sql_view E (snd (SqlRemoveMember E no_faults g u d))) =
      spec_remove (collate E g) (collate E u) (sql_view E d) \<and>
    (fst (SqlTransferOwnership E no_faults g a b d), sql_view E (snd (SqlTransferOwnership E no_faults g a b d))) =
      spec_transfer (collate E g) a (collate E b) b (sql_view E d) \<and>
    sql_groups_ok E (snd (SqlAddMember E no_faults nw g u d)) \<and>
    sql_groups_ok E (snd (SqlRemoveMember E no_faults g u d)) \<and>
    sql_groups_ok E (snd (SqlTransferOwnership E no_faults g a b d))"
  using SqlAddMember_refines [OF assms] SqlRemoveMember_refines [OF assms] SqlTransferOwnership_refines [OF assms]
  by simp

definition nocase :: "string \<Rightarrow> string" where
  "nocase s = map (\<lambda>c. let n = of_char c :: nat in if 65 \<le> n \<and> n \<le> 90 then char_of (n + 32) else c) s"

definition ci_env :: sql_env where
  "ci_env = \<lparr>collate = nocase, ftmatch = (\<lambda>q c. str_contains c q)\<rparr>"

definition demo_gdb :: db where
  "demo_gdb = migrate\<lparr>t_groups := [\<lparr>gr_ID = ''g_1'', gr_Name = ''team'', gr_OwnerUID = ''alice'', gr_CreatedAt = 1\<rparr>],
    t_members := [\<lparr>mb_group_id = ''g_1'', mb_uid = ''alice'', mb_joined_at = 1\<rparr>]\<rparr>"

lemma nocase_demo:
  "nocase ''g_1'' = ''g_1''" "nocase ''alice'' = ''alice''" "nocase ''ALICE'' = ''alice''" "nocase ''bob'' = ''bob''"
  by code_simp+

lemma demo_gdb_ok: "sql_groups_ok ci_env demo_gdb"
  by (simp add: sql_groups_ok_def demo_gdb_def ci_env_def)

theorem sql_groups_refine_witness:
  "fst (SqlAddMember ci_env no_faults 5 ''g_1'' ''ALICE'' demo_gdb) = Some ErrAlreadyMember"
proof -
  have "sql_view ci_env demo_gdb ''g_1'' = Some ({''alice''}, ''alice'')"
    by (auto simp: sql_view_def members_of_def demo_gdb_def ci_env_def nocase_demo)
  then show ?thesis
    using sql_groups_refine [OF demo_gdb_ok, of 5 "''g_1''" "''ALICE''"]
    by (simp add: spec_add_def ci_env_def nocase_demo)
qed

lemma insert_members_rows:
  "insert_members E flt i g own nw uids t = (Inr k, t') \<Longrightarrow>
    t' = t @ map (\<lambda>u. \<lparr>mb_group_id = g, mb_uid = u, mb_joined_at = nw\<rparr>) (filter (\<lambda>u. u \<noteq> [] \<and> u \<noteq> own) uids)"
proof (induction uids arbitrary: i t)
  case (Cons u uids)
  show ?case
  proof (cases "u = [] \<or> u = own")
    case False
    obtain r t1 where x: "exec_stmt flt i (insert_member E g u nw) t = (r, t1)" by (metis surj_pair)
    with Cons.prems False have r: "r \<noteq> Inl e" for e by auto
    then obtain n where n: "r = Inr n" by (cases r) auto
    with x have "t1 = t @ [\<lparr>mb_group_id = g, mb_uid = u, mb_joined_at = nw\<rparr>]"
      by (auto simp: exec_stmt_def insert_member_def sql_insert_def split: option.splits if_splits)
    with Cons.IH [of "Suc i" t1] Cons.prems False x n show ?thesis by simp
  qed (use Cons in auto)
qed simp

text \<open>
  C40. Creating a group is all or nothing: with any faults in any of its statements, the tables
  are either unchanged, and then an error is returned, or hold exactly the new group row and the
  member rows of the owner and of all other named members. Success implies the latter.
\<close>

theorem create_atomic:
  assumes "CreateGroup E flt i nw name own members d = (r, d')"
  shows "(d' = d \<and> (\<exists>e. r = Inl e)) \<or>
    d' = d\<lparr>t_groups := t_groups d @ [\<lparr>gr_ID = i, gr_Name = name, gr_OwnerUID = own, gr_CreatedAt = nw\<rparr>],
      t_members := t_members d @ map (\<lambda>u. \<lparr>mb_group_id = i, mb_uid = u, mb_joined_at = nw\<rparr>)
        (own # filter (\<lambda>u. u \<noteq> [] \<and> u \<noteq> own) members)\<rparr>"
proof -
  let ?g = "\<lparr>gr_ID = i, gr_Name = name, gr_OwnerUID = own, gr_CreatedAt = nw\<rparr>"
  obtain rg gs where g: "exec_stmt flt 1 (sql_insert (\<lambda>x. sql_eq E (gr_ID x) i) ?g) (t_groups d) = (rg, gs)"
    by (metis surj_pair)
  obtain ro ms where o: "exec_stmt flt 2 (insert_member E i own nw) (t_members d) = (ro, ms)" by (metis surj_pair)
  obtain rm ms' where m: "insert_members E flt 3 i own nw members ms = (rm, ms')" by (metis surj_pair)
  show ?thesis
  proof (cases "(\<exists>e. query flt 0 () = Inl e) \<or> (\<exists>e. rg = Inl e) \<or> (\<exists>e. ro = Inl e) \<or> (\<exists>e. rm = Inl e)")
    case True
    then have "d' = d \<and> (\<exists>e. r = Inl e)"
      using assms by (auto simp: CreateGroup_def g [unfolded One_nat_def] o m Let_def split: sum.splits prod.splits)
    then show ?thesis by blast
  next
    case False
    then obtain x ng no k where *: "query flt 0 () = Inr x" "rg = Inr ng" "ro = Inr no" "rm = Inr k"
      by (cases "query flt 0 ()"; cases rg; cases ro; cases rm) auto
    have "gs = t_groups d @ [?g]"
      using g *(2) by (auto simp: exec_stmt_def sql_insert_def split: option.splits if_splits)
    moreover have "ms = t_members d @ [\<lparr>mb_group_id = i, mb_uid = own, mb_joined_at = nw\<rparr>]"
      using o *(3) by (auto simp: exec_stmt_def insert_member_def sql_insert_def split: option.splits if_splits)
    moreover have "ms' = ms @ map (\<lambda>u. \<lparr>mb_group_id = i, mb_uid = u, mb_joined_at = nw\<rparr>) (filter (\<lambda>u. u \<noteq> [] \<and> u \<noteq> own) members)"
      using m *(4) insert_members_rows by blast
    moreover have "d' = d \<and> (\<exists>e. r = Inl e) \<or> d' = d\<lparr>t_groups := gs, t_members := ms'\<rparr>"
      using assms by (auto simp: CreateGroup_def g [unfolded One_nat_def] o m * Let_def commit_def split: option.splits prod.splits if_splits)
    ultimately show ?thesis by auto
  qed
qed

theorem create_atomic_witness:
  "snd (CreateGroup ci_env (\<lambda>i. if i = 3 then Some (''lost'', True) else None) ''g_2'' 7 ''x'' ''bob'' [''alice''] demo_gdb) = demo_gdb"
proof -
  let ?flt = "\<lambda>i::nat. if i = 3 then Some (''lost'', True) else None"
  obtain r d' where c: "CreateGroup ci_env ?flt ''g_2'' 7 ''x'' ''bob'' [''alice''] demo_gdb = (r, d')" by (metis surj_pair)
  have g2: "nocase ''g_2'' = ''g_2''" by (simp add: nocase_def)
  have "d' = demo_gdb"
    using c by (auto simp: CreateGroup_def query_def exec_stmt_def insert_member_def sql_insert_def demo_gdb_def ci_env_def
        nocase_demo g2 Let_def)
  with create_atomic [OF c] c show ?thesis by simp
qed

lemma insert_members_dup:
  assumes flt: "\<And>k. flt k = None" and "\<exists>x \<in> set t. sql_eq E (mb_group_id x) g \<and> sql_eq E (mb_uid x) u" and "u \<in> set uids" and "u \<noteq> []" and "u \<noteq> own"
  shows "\<exists>e. fst (insert_members E flt i g own nw uids t) = Inl e"
  using assms(2-)
proof (induction uids arbitrary: i t)
  case (Cons v uids)
  let ?row = "\<lparr>mb_group_id = g, mb_uid = v, mb_joined_at = nw\<rparr>"
  show ?case
  proof (cases "v = [] \<or> v = own")
    case True
    then show ?thesis using Cons by auto
  next
    case False
    show ?thesis
    proof (cases "list_ex (\<lambda>x. sql_eq E (mb_group_id x) g \<and> sql_eq E (mb_uid x) v) t")
      case clash: True
      then show ?thesis using False by (simp add: flt [of i] insert_member_def sql_insert_def)
    next
      case noclash: False
      then have "u \<noteq> v" using Cons.prems(1) by (auto simp: list_ex_iff)
      then have "\<exists>e. fst (insert_members E flt (Suc i) g own nw uids (t @ [?row])) = Inl e"
        using Cons.prems by (intro Cons.IH) auto
      then show ?thesis using False noclash by (simp add: flt [of i] insert_member_def sql_insert_def)
    qed
  qed
qed simp

lemma insert_members_twice:
  assumes flt: "\<And>k. flt k = None" and "u \<in> set rest" and "u \<noteq> []" and "u \<noteq> own"
  shows "\<exists>e. fst (insert_members E flt i g own nw (pre @ u # rest) t) = Inl e"
proof (induction pre arbitrary: i t)
  case Nil
  let ?row = "\<lparr>mb_group_id = g, mb_uid = u, mb_joined_at = nw\<rparr>"
  have "\<exists>e. fst (insert_members E flt (Suc i) g own nw rest (t @ [?row])) = Inl e"
    using assms by (intro insert_members_dup [of flt _ E g u]) auto
  then show ?case using assms(2-) by (simp add: flt [of i] insert_member_def sql_insert_def)
next
  case (Cons v pre)
  from Cons.IH [of "Suc i" "t @ [\<lparr>mb_group_id = g, mb_uid = v, mb_joined_at = nw\<rparr>]"] Cons.IH [of i t]
  show ?case by (auto simp: flt [of i] insert_member_def sql_insert_def)
qed

text \<open>
  Where the two group stores differ: a member listed twice makes the MySQL store refuse the
  whole group, while the in-memory store creates it; and renaming a group to the name it has is
  reported as group not found by MySQL and succeeds in memory.
\<close>

theorem stores_differ:
  assumes "u \<in> set rest" and "u \<noteq> []" and "u \<noteq> own"
    and "\<forall>x \<in> set (t_groups d). sql_eq E (gr_ID x) g \<longrightarrow> gr_Name x = n"
  shows "(\<exists>e. CreateGroup E no_faults i nw name own (pre @ u # rest) d = (Inl e, d)) \<and>
    (\<not> has_key gs i \<longrightarrow> (\<exists>x. fst (GroupCreate i nw name own (pre @ u # rest) gs) = Inr x)) \<and>
    SqlUpdateName E no_faults g n d = (Some ErrGroupNotFound, d) \<and>
    (has_key gs g \<longrightarrow> fst (UpdateName g n gs) = None)"
proof -
  have "\<exists>e. fst (insert_members E no_faults 3 i own nw (pre @ u # rest) ms) = Inl e" for ms
    by (rule insert_members_twice [OF _ assms(1-3)]) simp
  then obtain f where f: "\<And>ms. fst (insert_members E no_faults 3 i own nw (pre @ u # rest) ms) = Inl (f ms)" by metis
  have "\<exists>e. CreateGroup E no_faults i nw name own (pre @ u # rest) d = (Inl e, d)"
    using f by (auto simp: CreateGroup_def Let_def split: sum.split prod.split) (metis fst_conv sum.distinct(1))
  moreover have "RepoUpdateName E no_faults g n d = (Some RepoGroupNotFound, d)"
  proof -
    have "sql_update (\<lambda>x. sql_eq E (gr_ID x) g) (\<lambda>x. x\<lparr>gr_Name := n\<rparr>) (t_groups d) = (Inr 0, t_groups d)"
      using assms(4) by (intro sql_update_none) auto
    then show ?thesis by (simp add: RepoUpdateName_def)
  qed
  ultimately show ?thesis
    by (auto simp: SqlUpdateName_def GroupCreate_def UpdateName_def has_key_def Let_def)
qed

theorem stores_differ_witness:
  "SqlUpdateName ci_env no_faults ''g_1'' ''team'' demo_gdb = (Some ErrGroupNotFound, demo_gdb) \<and>
   (\<exists>e. CreateGroup ci_env no_faults ''g_2'' 9 ''x'' ''alice'' [''bob'', ''bob''] demo_gdb = (Inl e, demo_gdb))"
  using stores_differ [of "''bob''" "[''bob'']" "''alice''" demo_gdb ci_env "''g_1''" "''team''" "''g_2''" 9 "''x''" "[]"]
  by (simp add: demo_gdb_def)

end
