(* ===== verification/Unread_Tracker.thy ===== *)
theory Unread_Tracker
  imports IM_Prelude
begin

text \<open>
  Unread counters. The interface \<open>UnreadTracker\<close> of \<open>internal/gateway/unread_tracker.go\<close> is the
  locale \<open>unread_tracker\<close>; its in-memory implementation is modelled here, the MySQL-backed one
  of \<open>internal/repo/mysql_unread.go\<close> in \<open>MySQL_Unread\<close>. Counters are 64-bit.
\<close>

section \<open>The interface\<close>

text \<open>
  \<open>same\<close> says when the store takes two user names for one user: equality in Go, equality under
  the collation in MySQL.
\<close>

locale unread_tracker =
  fixes incr :: "string \<Rightarrow> string \<Rightarrow> 's \<Rightarrow> 's" and mark_read :: "string \<Rightarrow> string \<Rightarrow> 's \<Rightarrow> 's"
    and count :: "'s \<Rightarrow> string \<Rightarrow> string \<Rightarrow> int" and ok :: "'s \<Rightarrow> bool"
    and same :: "string \<Rightarrow> string \<Rightarrow> bool"
  assumes ok_incr: "ok s \<Longrightarrow> count s t f < 2 ^ 63 - 1 \<Longrightarrow> ok (incr t f s)" and ok_mark: "ok s \<Longrightarrow> ok (mark_read r p s)"
    and count_incr: "ok s \<Longrightarrow> t \<noteq> f \<Longrightarrow> count s t f < 2 ^ 63 - 1 \<Longrightarrow>
      count (incr t f s) u p = (if same u t \<and> same p f then count s u p + 1 else count s u p)"
    and count_mark: "ok s \<Longrightarrow>
      count (mark_read r p s) u q = (if same u r \<and> same q p then 0 else count s u q)"
    and count_nonneg: "ok s \<Longrightarrow> 0 \<le> count s u p"
    and same_refl: "same u u"
begin

text \<open>After \<open>n\<close> messages since the last read the counter is \<open>n\<close>, whoever else was written to.\<close>

lemma count_after_read_ok:
  "ok s \<Longrightarrow> t \<noteq> f \<Longrightarrow> int n < 2 ^ 63 \<Longrightarrow>
    ok ((incr t f ^^ n) (mark_read t f s)) \<and> count ((incr t f ^^ n) (mark_read t f s)) t f = int n"
proof (induction n)
  case 0
  then show ?case by (simp add: count_mark same_refl ok_mark)
next
  case (Suc n)
  then have "ok ((incr t f ^^ n) (mark_read t f s))" "count ((incr t f ^^ n) (mark_read t f s)) t f = int n"
    by auto
  with Suc.prems show ?case by (simp add: count_incr same_refl ok_incr)
qed

lemmas count_after_read = count_after_read_ok [THEN conjunct2]

end

section \<open>The in-memory tracker\<close>

record unread_mem =
  counts :: "(string, (string, int) gomap) gomap"

definition NewInMemoryUnreadTracker :: unread_mem where
  "NewInMemoryUnreadTracker = \<lparr>counts = []\<rparr>"

definition inner_count :: "(string, int) gomap \<Rightarrow> string \<Rightarrow> int" where
  "inner_count m k = (case map_of m k of None \<Rightarrow> 0 | Some n \<Rightarrow> n)"

definition Increment :: "string \<Rightarrow> string \<Rightarrow> unread_mem \<Rightarrow> unread_mem" where
  "Increment toUID fromUID t =
    (if toUID = fromUID then t
     else
       let inner = (case map_of (counts t) toUID of None \<Rightarrow> [] | Some m \<Rightarrow> m);
           inner = AList.update fromUID (i64 (inner_count inner fromUID + 1)) inner
       in t\<lparr>counts := AList.update toUID inner (counts t)\<rparr>)"

definition MarkRead :: "string \<Rightarrow> string \<Rightarrow> unread_mem \<Rightarrow> unread_mem" where
  "MarkRead readerUID peerUID t =
    (case map_of (counts t) readerUID of
       None \<Rightarrow> t
     | Some inner \<Rightarrow>
         let inner = AList.delete peerUID inner in
         if inner = [] then t\<lparr>counts := AList.delete readerUID (counts t)\<rparr>
         else t\<lparr>counts := AList.update readerUID inner (counts t)\<rparr>)"

definition GetCounts :: "string \<Rightarrow> unread_mem \<Rightarrow> (string, int) gomap" where
  "GetCounts uid t = (case map_of (counts t) uid of None \<Rightarrow> [] | Some inner \<Rightarrow> inner)"

definition GetCount :: "string \<Rightarrow> string \<Rightarrow> unread_mem \<Rightarrow> int" where
  "GetCount uid peerUID t =
    (case map_of (counts t) uid of None \<Rightarrow> 0 | Some inner \<Rightarrow> inner_count inner peerUID)"

text \<open>No empty inner map is kept, and every counter is positive.\<close>

definition unread_ok :: "unread_mem \<Rightarrow> bool" where
  "unread_ok t \<longleftrightarrow> gomap_ok (counts t) \<and>
    (\<forall>u m. map_of (counts t) u = Some m \<longrightarrow> gomap_ok m \<and> m \<noteq> [] \<and> (\<forall>p n. map_of m p = Some n \<longrightarrow> 0 < n \<and> n < 2 ^ 63))"

lemma GetCount_GetCounts: "GetCount u p t = inner_count (GetCounts u t) p"
  by (simp add: GetCount_def GetCounts_def inner_count_def split: option.split)

lemma GetCounts_Increment:
  assumes "t \<noteq> f"
  shows "GetCounts u (Increment t f s) =
    (if u = t then AList.update f (i64 (GetCount t f s + 1)) (GetCounts t s) else GetCounts u s)"
  using assms by (simp add: GetCounts_def GetCount_def Increment_def inner_count_def Let_def map_of_update split: option.split)

lemma GetCounts_MarkRead:
  "GetCounts u (MarkRead r p s) = (if u = r then AList.delete p (GetCounts r s) else GetCounts u s)"
  by (auto simp: GetCounts_def MarkRead_def Let_def map_of_update map_of_delete split: option.split)

lemma unread_ok_iff:
  "unread_ok t \<longleftrightarrow> gomap_ok (counts t) \<and> (\<forall>u. map_of (counts t) u \<noteq> Some []) \<and>
    (\<forall>u. gomap_ok (GetCounts u t) \<and> (\<forall>p n. map_of (GetCounts u t) p = Some n \<longrightarrow> 0 < n \<and> n < 2 ^ 63))"
  by (auto simp: unread_ok_def GetCounts_def split: option.splits)

lemma GetCount_bounds: "unread_ok t \<Longrightarrow> 0 \<le> GetCount u p t \<and> GetCount u p t < 2 ^ 63"
  by (auto simp: unread_ok_iff GetCount_GetCounts inner_count_def order.strict_implies_order split: option.split)

lemma unread_ok_Increment:
  assumes "unread_ok s" and "GetCount t f s < 2 ^ 63 - 1"
  shows "unread_ok (Increment t f s)"
proof (cases "t = f")
  case False
  have "i64 (GetCount t f s + 1) = GetCount t f s + 1"
    using GetCount_bounds [OF assms(1), of t f] assms(2) by (simp add: i64_id in_i64_def)
  moreover have "map_of (counts (Increment t f s)) u \<noteq> Some []" for u
    using assms(1) False by (simp add: Increment_def Let_def map_of_update unread_ok_iff update_not_Nil)
  moreover have "gomap_ok (counts (Increment t f s))"
    using assms(1) False by (simp add: Increment_def Let_def unread_ok_def)
  ultimately show ?thesis
    using assms GetCount_bounds [OF assms(1), of t f] False
    by (auto simp: unread_ok_iff GetCounts_Increment map_of_update split: if_splits)
qed (use assms in \<open>simp add: Increment_def\<close>)

lemma unread_ok_MarkRead:
  assumes "unread_ok s"
  shows "unread_ok (MarkRead r p s)"
proof -
  have "map_of (counts (MarkRead r p s)) u \<noteq> Some []" "gomap_ok (counts (MarkRead r p s))" for u
    using assms by (auto simp: MarkRead_def Let_def map_of_update map_of_delete unread_ok_def split: option.splits if_splits)
  with assms show ?thesis by (auto simp: unread_ok_iff GetCounts_MarkRead map_of_delete split: if_splits)
qed

lemma inner_count_update: "inner_count (AList.update k v m) j = (if j = k then v else inner_count m j)"
  by (simp add: inner_count_def map_of_update)

lemma inner_count_delete: "inner_count (AList.delete k m) j = (if j = k then 0 else inner_count m j)"
  by (simp add: inner_count_def map_of_delete)

interpretation mem_unread: unread_tracker Increment MarkRead "\<lambda>t u p. GetCount u p t" unread_ok "(=)"
proof unfold_locales
  show "unread_ok s \<Longrightarrow> GetCount t f s < 2 ^ 63 - 1 \<Longrightarrow> unread_ok (Increment t f s)" for s t f
    by (rule unread_ok_Increment)
  show "unread_ok s \<Longrightarrow> unread_ok (MarkRead r p s)" for s r p by (rule unread_ok_MarkRead)
  show "GetCount u p (Increment t f s) = (if u = t \<and> p = f then GetCount u p s + 1 else GetCount u p s)"
    if "unread_ok s" "t \<noteq> f" "GetCount t f s < 2 ^ 63 - 1" for s t f u p
  proof -
    have "i64 (GetCount t f s + 1) = GetCount t f s + 1"
      using GetCount_bounds [OF that(1), of t f] that(3) by (simp add: i64_id in_i64_def)
    then show ?thesis
      using that(2) unfolding GetCount_GetCounts GetCounts_Increment [OF that(2)]
      by (auto simp: inner_count_update)
  qed
  show "GetCount u q (MarkRead r p s) = (if u = r \<and> q = p then 0 else GetCount u q s)" for s r p u q
    by (simp add: GetCount_GetCounts GetCounts_MarkRead inner_count_delete)
  show "unread_ok s \<Longrightarrow> 0 \<le> GetCount u p s" for s u p using GetCount_bounds by blast
qed simp

section \<open>Properties\<close>

text \<open>
  The in-memory tracker is a faithful counter: after reading, \<open>n\<close> messages make the counter
  \<open>n\<close>; a message changes only the counter of its receiver for its sender, and one to oneself
  none; reading clears one counter and touches no other.
\<close>

theorem unread_counts:
  assumes "unread_ok s"
  shows "(t \<noteq> f \<and> int n < 2 ^ 63 \<longrightarrow> GetCount t f ((Increment t f ^^ n) (MarkRead t f s)) = int n) \<and>
    ((u, p) \<noteq> (t, f) \<longrightarrow> GetCount u p (Increment t f s) = GetCount u p s) \<and> Increment t t s = s \<and>
    GetCount u p (MarkRead t f s) = (if u = t \<and> p = f then 0 else GetCount u p s)"
proof -
  have "GetCount u p (Increment t f s) = GetCount u p s" if "(u, p) \<noteq> (t, f)"
  proof (cases "t = f")
    case False
    with that show ?thesis by (auto simp: GetCount_GetCounts GetCounts_Increment inner_count_update)
  qed (simp add: Increment_def)
  moreover have "GetCount u p (MarkRead t f s) = (if u = t \<and> p = f then 0 else GetCount u p s)"
    by (rule mem_unread.count_mark [OF assms])
  moreover have "Increment t t s = s" by (simp add: Increment_def)
  ultimately show ?thesis
    using mem_unread.count_after_read [OF assms, of t f n] by simp
qed

theorem unread_counts_witness:
  "GetCount ''bob'' ''alice'' ((Increment ''bob'' ''alice'' ^^ 3) (MarkRead ''bob'' ''alice'' NewInMemoryUnreadTracker)) = 3"
  using unread_counts [of NewInMemoryUnreadTracker "''bob''" "''alice''" 3]
  by (simp add: unread_ok_def NewInMemoryUnreadTracker_def)

end
