(* ===== verification/MySQL_Unread.thy ===== *)
theory MySQL_Unread
  imports MySQL_Base Unread_Tracker
begin

text \<open>
  The persistent unread counters of \<open>internal/repo/mysql_unread.go\<close>, used by the logic service.
  The table has the primary key \<open>(uid, peer)\<close> and a signed 64-bit column \<open>count\<close>.
\<close>

section \<open>Operations\<close>

abbreviation unread_key :: "sql_env \<Rightarrow> string \<Rightarrow> string \<Rightarrow> unread_row \<Rightarrow> bool" where
  "unread_key E uid peer x \<equiv> sql_eq E (ur_uid x) uid \<and> sql_eq E (ur_peer x) peer"

text \<open>
  \<open>INSERT ... VALUES (uid, peer, 1) ON DUPLICATE KEY UPDATE count = count + 1\<close>. An update counts
  as two affected rows; an addition past the largest 64-bit value is refused.
\<close>

definition upsert_unread :: "sql_env \<Rightarrow> string \<Rightarrow> string \<Rightarrow> unread_row list \<Rightarrow> (string + int) \<times> unread_row list" where
  "upsert_unread E uid peer t =
    (if list_ex (unread_key E uid peer) t then
       if list_ex (\<lambda>x. unread_key E uid peer x \<and> ur_count x \<ge> 2 ^ 63 - 1) t
       then (Inl ''Error 1690 (22003): BIGINT value is out of range'', t)
       else (Inr 2, map (\<lambda>x. if unread_key E uid peer x then x\<lparr>ur_count := ur_count x + 1\<rparr> else x) t)
     else (Inr 1, t @ [\<lparr>ur_uid = uid, ur_peer = peer, ur_count = 1\<rparr>]))"

definition UnreadGetCount :: "sql_env \<Rightarrow> faults \<Rightarrow> nat \<Rightarrow> string \<Rightarrow> string \<Rightarrow> db \<Rightarrow> string + int" where
  "UnreadGetCount E flt i uid peer d =
    (case query flt i (find (unread_key E uid peer) (t_unread d)) of
       Inl e \<Rightarrow> Inl (wrap_err ''get unread count'' e)
     | Inr None \<Rightarrow> Inr 0
     | Inr (Some x) \<Rightarrow> Inr (ur_count x))"

definition UnreadIncrement :: "sql_env \<Rightarrow> faults \<Rightarrow> string \<Rightarrow> string \<Rightarrow> db \<Rightarrow> (string + int) \<times> db" where
  "UnreadIncrement E flt uid peer d =
    (let (r, t) = exec_stmt flt 0 (upsert_unread E uid peer) (t_unread d);
         d' = d\<lparr>t_unread := t\<rparr>
     in (case r of
           Inl e \<Rightarrow> Inl (wrap_err ''increment unread'' e)
         | Inr _ \<Rightarrow> UnreadGetCount E flt 1 uid peer d', d'))"

definition UnreadMarkRead :: "sql_env \<Rightarrow> faults \<Rightarrow> string \<Rightarrow> string \<Rightarrow> db \<Rightarrow> string option \<times> db" where
  "UnreadMarkRead E flt reader peer d =
    (let (r, t) = exec_stmt flt 0 (sql_delete (unread_key E reader peer)) (t_unread d)
     in (case r of Inl e \<Rightarrow> Some (wrap_err ''mark read'' e) | Inr _ \<Rightarrow> None, d\<lparr>t_unread := t\<rparr>))"

text \<open>The result map is filled row by row.\<close>

definition UnreadGetCounts :: "sql_env \<Rightarrow> faults \<Rightarrow> string \<Rightarrow> db \<Rightarrow> string + (string, int) gomap" where
  "UnreadGetCounts E flt uid d =
    (case query flt 0 () of
       Inl e \<Rightarrow> Inl (wrap_err ''query unread counts'' e)
     | Inr _ \<Rightarrow>
         (case query flt 1 (fold (\<lambda>x m. AList.update (ur_peer x) (ur_count x) m)
                 (filter (\<lambda>x. sql_eq E (ur_uid x) uid) (t_unread d)) []) of
            Inl e \<Rightarrow> Inl (wrap_err ''iterate unread'' e) | Inr m \<Rightarrow> Inr m))"

section \<open>The counters and their invariant\<close>

definition unread_rows_ok :: "sql_env \<Rightarrow> unread_row list \<Rightarrow> bool" where
  "unread_rows_ok E t \<longleftrightarrow>
    distinct (map (\<lambda>x. (collate E (ur_uid x), collate E (ur_peer x))) t) \<and>
    (\<forall>x \<in> set t. 0 < ur_count x \<and> ur_count x < 2 ^ 63)"

definition row_count :: "sql_env \<Rightarrow> db \<Rightarrow> string \<Rightarrow> string \<Rightarrow> int" where
  "row_count E d u p = (case find (unread_key E u p) (t_unread d) of None \<Rightarrow> 0 | Some x \<Rightarrow> ur_count x)"

lemma GetCount_row: "flt i = None \<Longrightarrow> UnreadGetCount E flt i u p d = Inr (row_count E d u p)"
  by (simp add: UnreadGetCount_def row_count_def split: option.split)

lemma find_Some_ex: "find P t = Some x \<Longrightarrow> (P x \<Longrightarrow> Q x) \<Longrightarrow> list_ex Q t"
  by (auto simp: list_ex_iff dest: find_some)

lemma find_filter_not: "(\<And>x. P x \<Longrightarrow> \<not> Q x) \<Longrightarrow> find P (filter (\<lambda>x. \<not> Q x) t) = find P t"
  by (induction t) auto

lemma find_filter_none: "(\<And>x. P x \<Longrightarrow> Q x) \<Longrightarrow> find P (filter (\<lambda>x. \<not> Q x) t) = None"
  by (induction t) auto

abbreviation bump :: "sql_env \<Rightarrow> string \<Rightarrow> string \<Rightarrow> unread_row \<Rightarrow> unread_row" where
  "bump E uid peer x \<equiv> (if unread_key E uid peer x then x\<lparr>ur_count := ur_count x + 1\<rparr> else x)"

text \<open>The effect of the upsert below the bound of the column.\<close>

lemma key_row_unique:
  assumes "unread_rows_ok E l" and "find (unread_key E t f) l = Some x" and "y \<in> set l" and "unread_key E t f y"
  shows "y = x"
proof -
  have "x \<in> set l" "unread_key E t f x" using find_some [OF assms(2)] by blast+
  moreover have "inj_on (\<lambda>x. (collate E (ur_uid x), collate E (ur_peer x))) (set l)"
    using assms(1) by (simp add: unread_rows_ok_def distinct_map)
  ultimately show ?thesis using assms(3,4) by (auto simp: inj_on_def)
qed

lemma upsert_below:
  assumes "unread_rows_ok E (t_unread d)" and "row_count E d t f < 2 ^ 63 - 1"
  shows "snd (upsert_unread E t f (t_unread d)) =
    (if find (unread_key E t f) (t_unread d) = None then t_unread d @ [\<lparr>ur_uid = t, ur_peer = f, ur_count = 1\<rparr>]
     else map (bump E t f) (t_unread d))"
proof (cases "find (unread_key E t f) (t_unread d)")
  case None
  then have "\<not> list_ex (unread_key E t f) (t_unread d)" by (auto simp: find_None_iff list_ex_iff)
  with None show ?thesis by (simp add: upsert_unread_def)
next
  case (Some x)
  then have "list_ex (unread_key E t f) (t_unread d)" by (rule find_Some_ex)
  moreover have "\<not> list_ex (\<lambda>y. unread_key E t f y \<and> ur_count y \<ge> 2 ^ 63 - 1) (t_unread d)"
    using assms key_row_unique [OF assms(1) Some] Some by (auto simp: list_ex_iff row_count_def)
  ultimately show ?thesis using Some by (simp add: upsert_unread_def)
qed

lemma count_bounds: "unread_rows_ok E (t_unread d) \<Longrightarrow> 0 \<le> row_count E d u p \<and> row_count E d u p < 2 ^ 63"
  by (auto simp: row_count_def unread_rows_ok_def order.strict_implies_order split: option.split dest!: find_some)

abbreviation sql_incr :: "sql_env \<Rightarrow> string \<Rightarrow> string \<Rightarrow> db \<Rightarrow> db" where
  "sql_incr E t f d \<equiv> snd (UnreadIncrement E no_faults t f d)"

abbreviation sql_mark :: "sql_env \<Rightarrow> string \<Rightarrow> string \<Rightarrow> db \<Rightarrow> db" where
  "sql_mark E r p d \<equiv> snd (UnreadMarkRead E no_faults r p d)"

lemma incr_table: "t_unread (sql_incr E t f d) = snd (upsert_unread E t f (t_unread d))"
  by (simp add: UnreadIncrement_def Let_def split: prod.split)

lemma mark_table: "t_unread (sql_mark E r p d) = filter (\<lambda>x. \<not> unread_key E r p x) (t_unread d)"
  by (simp add: UnreadMarkRead_def sql_delete_def)

lemma bump_row [simp]: "ur_uid (bump E t f x) = ur_uid x" "ur_peer (bump E t f x) = ur_peer x"
  by simp_all

lemma rows_ok_incr:
  assumes "unread_rows_ok E (t_unread d)" and "row_count E d t f < 2 ^ 63 - 1"
  shows "unread_rows_ok E (t_unread (sql_incr E t f d))"
proof (cases "find (unread_key E t f) (t_unread d)")
  case None
  then show ?thesis using assms
    by (auto simp: incr_table upsert_below unread_rows_ok_def find_None_iff)
next
  case (Some x)
  have "ur_count y < 2 ^ 63 - 1" if "y \<in> set (t_unread d)" "unread_key E t f y" for y
    using key_row_unique [OF assms(1) Some that] assms(2) Some by (simp add: row_count_def)
  moreover have "map (\<lambda>x. (collate E (ur_uid x), collate E (ur_peer x))) (map (bump E t f) (t_unread d)) =
      map (\<lambda>x. (collate E (ur_uid x), collate E (ur_peer x))) (t_unread d)" by simp
  ultimately show ?thesis using assms Some
    unfolding incr_table upsert_below [OF assms] unread_rows_ok_def by (auto simp del: map_map)
qed

lemma row_count_incr:
  assumes "unread_rows_ok E (t_unread d)" and "row_count E d t f < 2 ^ 63 - 1"
  shows "row_count E (sql_incr E t f d) u p =
    (if sql_eq E u t \<and> sql_eq E p f then row_count E d u p + 1 else row_count E d u p)"
proof (cases "find (unread_key E t f) (t_unread d)")
  case None
  then show ?thesis
    unfolding row_count_def incr_table upsert_below [OF assms]
    by (auto simp: find_append split: option.split)
next
  case (Some x)
  have "find (unread_key E u p) (map (bump E t f) (t_unread d)) =
      map_option (bump E t f) (find (unread_key E u p) (t_unread d))"
    by (rule find_map_row) simp
  with Some show ?thesis
    unfolding row_count_def incr_table upsert_below [OF assms]
    by (auto split: option.split dest!: find_some)
qed

lemma row_count_mark:
  "row_count E (sql_mark E r p d) u q = (if sql_eq E u r \<and> sql_eq E q p then 0 else row_count E d u q)"
proof (cases "sql_eq E u r \<and> sql_eq E q p")
  case True
  then have "find (unread_key E u q) (filter (\<lambda>x. \<not> unread_key E r p x) (t_unread d)) = None"
    by (intro find_filter_none) simp
  with True show ?thesis by (simp add: row_count_def mark_table)
next
  case False
  then have "find (unread_key E u q) (filter (\<lambda>x. \<not> unread_key E r p x) (t_unread d)) = find (unread_key E u q) (t_unread d)"
    by (intro find_filter_not) auto
  with False show ?thesis unfolding row_count_def mark_table by presburger
qed

interpretation sql_unread: unread_tracker "sql_incr E" "sql_mark E" "row_count E"
  "\<lambda>d. unread_rows_ok E (t_unread d)" "sql_eq E" for E
proof unfold_locales
  show "unread_rows_ok E (t_unread s) \<Longrightarrow> row_count E s t f < 2 ^ 63 - 1 \<Longrightarrow>
      unread_rows_ok E (t_unread (sql_incr E t f s))" for s t f
    by (rule rows_ok_incr)
  show "unread_rows_ok E (t_unread (sql_mark E r p s))" if "unread_rows_ok E (t_unread s)" for s r p
    using that by (auto simp: mark_table unread_rows_ok_def distinct_map inj_on_def)
  show "row_count E (sql_incr E t f s) u p =
      (if sql_eq E u t \<and> sql_eq E p f then row_count E s u p + 1 else row_count E s u p)"
    if "unread_rows_ok E (t_unread s)" "row_count E s t f < 2 ^ 63 - 1" for s t f u p
    by (rule row_count_incr [OF that])
  show "row_count E (sql_mark E r p s) u q = (if sql_eq E u r \<and> sql_eq E q p then 0 else row_count E s u q)" for s r p u q
    by (rule row_count_mark)
  show "unread_rows_ok E (t_unread s) \<Longrightarrow> 0 \<le> row_count E s u p" for s u p using count_bounds by blast
qed simp

section \<open>Properties\<close>

text \<open>
  The persistent counters keep the same promise as the in-memory ones, up to the collation:
  after reading, \<open>n\<close> increments bring the counter to \<open>n\<close>, the \<open>n\<close>-th increment reports \<open>n\<close>,
  and no counter of another pair changes. At the end of the 64-bit range the increment is
  refused and nothing changes.
\<close>

theorem sql_unread_counts:
  assumes "unread_rows_ok E (t_unread d)" and "t \<noteq> f"
  shows "(int n < 2 ^ 63 - 1 \<longrightarrow>
      UnreadGetCount E no_faults 0 t f ((sql_incr E t f ^^ n) (sql_mark E t f d)) = Inr (int n) \<and>
      fst (UnreadIncrement E no_faults t f ((sql_incr E t f ^^ n) (sql_mark E t f d))) = Inr (int n + 1)) \<and>
    (\<not> (sql_eq E u t \<and> sql_eq E p f) \<longrightarrow>
      UnreadGetCount E no_faults 0 u p (sql_incr E t f d) = UnreadGetCount E no_faults 0 u p d) \<and>
    (row_count E d t f = 2 ^ 63 - 1 \<longrightarrow>
      (\<exists>e. fst (UnreadIncrement E no_faults t f d) = Inl e) \<and> sql_incr E t f d = d)"
proof -
  let ?d = "(sql_incr E t f ^^ n) (sql_mark E t f d)"
  have "UnreadGetCount E no_faults 0 t f ?d = Inr (int n) \<and> fst (UnreadIncrement E no_faults t f ?d) = Inr (int n + 1)"
    if n: "int n < 2 ^ 63 - 1"
  proof -
    have *: "unread_rows_ok E (t_unread ?d)" "row_count E ?d t f = int n"
      using sql_unread.count_after_read_ok [OF assms] n by auto
    then have "row_count E (sql_incr E t f ?d) t f = int n + 1" using n by (subst row_count_incr) auto
    moreover have "\<exists>k. fst (upsert_unread E t f (t_unread ?d)) = Inr k"
    proof (cases "find (unread_key E t f) (t_unread ?d)")
      case (Some x)
      then have "\<not> list_ex (\<lambda>y. unread_key E t f y \<and> ur_count y \<ge> 2 ^ 63 - 1) (t_unread ?d)"
        using * n key_row_unique [OF *(1) Some] by (auto simp: list_ex_iff row_count_def)
      then show ?thesis by (simp add: upsert_unread_def)
    qed (auto simp: upsert_unread_def find_None_iff list_ex_iff)
    ultimately show ?thesis
      using * by (auto simp: GetCount_row UnreadIncrement_def Let_def split: prod.splits)
  qed
  moreover have "row_count E (sql_incr E t f d) u p = row_count E d u p" if "\<not> (sql_eq E u t \<and> sql_eq E p f)"
  proof (cases "row_count E d t f < 2 ^ 63 - 1")
    case True
    then show ?thesis using that by (subst row_count_incr [OF assms(1)]) auto
  next
    case False
    then obtain x where x: "find (unread_key E t f) (t_unread d) = Some x" "ur_count x \<ge> 2 ^ 63 - 1"
      by (auto simp: row_count_def split: option.splits)
    then have "list_ex (\<lambda>y. unread_key E t f y \<and> ur_count y \<ge> 2 ^ 63 - 1) (t_unread d)"
      by (auto intro: find_Some_ex)
    then show ?thesis by (auto simp: row_count_def incr_table upsert_unread_def list_ex_iff)
  qed
  moreover have "(\<exists>e. fst (UnreadIncrement E no_faults t f d) = Inl e) \<and> sql_incr E t f d = d"
    if full: "row_count E d t f = 2 ^ 63 - 1"
  proof -
    obtain x where "find (unread_key E t f) (t_unread d) = Some x" "ur_count x \<ge> 2 ^ 63 - 1"
      using full by (auto simp: row_count_def split: option.splits)
    then have "list_ex (\<lambda>y. unread_key E t f y \<and> ur_count y \<ge> 2 ^ 63 - 1) (t_unread d)"
        "list_ex (unread_key E t f) (t_unread d)"
      by (auto intro: find_Some_ex)
    then show ?thesis by (simp add: UnreadIncrement_def upsert_unread_def)
  qed
  ultimately show ?thesis by (simp add: GetCount_row)
qed

theorem sql_unread_counts_witness:
  "UnreadGetCount \<lparr>collate = id, ftmatch = \<lambda>_ _. False\<rparr> no_faults 0 ''bob'' ''al''
    ((sql_incr \<lparr>collate = id, ftmatch = \<lambda>_ _. False\<rparr> ''bob'' ''al'' ^^ 3)
      (sql_mark \<lparr>collate = id, ftmatch = \<lambda>_ _. False\<rparr> ''bob'' ''al'' migrate)) = Inr 3"
  using sql_unread_counts [of "\<lparr>collate = id, ftmatch = \<lambda>_ _. False\<rparr>" migrate "''bob''" "''al''" 3]
  by (simp add: unread_rows_ok_def migrate_def)

end
