(* ===== verification/MySQL_Messages.thy ===== *)
theory MySQL_Messages
  imports MySQL_Base
begin

text \<open>
  The message store of \<open>internal/repo/mysql.go\<close>: saving, recalling, editing, history, full-text
  search and the administrator's operations. Errors are their texts.
\<close>

definition Save :: "faults \<Rightarrow> message \<Rightarrow> db \<Rightarrow> string option \<times> db" where
  "Save flt msg d =
    (let (r, t) = exec_stmt flt 0 (sql_insert_ignore (\<lambda>x. m_msgId (r_msg x) = m_msgId msg)
           \<lparr>r_msg = msg, r_recalled = False\<rparr>) (t_messages d)
     in (case r of Inl e \<Rightarrow> Some (wrap_err ''insert message'' e) | Inr _ \<Rightarrow> None, d\<lparr>t_messages := t\<rparr>))"

definition recalled_content :: string where
  "recalled_content = ''{\"recalled\":true}''"

definition recall_row :: "msg_row \<Rightarrow> msg_row" where
  "recall_row r = r\<lparr>r_msg := (r_msg r)\<lparr>m_content := recalled_content\<rparr>, r_recalled := True\<rparr>"

definition RecallMessage ::
  "sql_env \<Rightarrow> faults \<Rightarrow> int \<Rightarrow> int \<Rightarrow> string \<Rightarrow> int \<Rightarrow> db \<Rightarrow> string option \<times> db" where
  "RecallMessage E flt nw msgID fromUID recallWindowMs d =
    (let cutoff = i64 (nw - recallWindowMs);
         (r, t) = exec_stmt flt 0 (sql_update
           (\<lambda>x. m_msgId (r_msg x) = msgID \<and> sql_eq E (m_from (r_msg x)) fromUID \<and> m_timestamp (r_msg x) \<ge> cutoff)
           recall_row) (t_messages d)
     in (affected_or ''recall message''
           (''message '' @ show_int msgID @ '' not found or not owned by '' @ fromUID) r,
         d\<lparr>t_messages := t\<rparr>))"

definition edit_row :: "string \<Rightarrow> msg_row \<Rightarrow> msg_row" where
  "edit_row newContent r = r\<lparr>r_msg := (r_msg r)\<lparr>m_content := newContent\<rparr>\<rparr>"

definition UpdateMessageContent ::
  "sql_env \<Rightarrow> faults \<Rightarrow> int \<Rightarrow> string \<Rightarrow> string \<Rightarrow> db \<Rightarrow> string option \<times> db" where
  "UpdateMessageContent E flt msgID fromUID newContent d =
    (let (r, t) = exec_stmt flt 0 (sql_update
           (\<lambda>x. m_msgId (r_msg x) = msgID \<and> sql_eq E (m_from (r_msg x)) fromUID) (edit_row newContent)) (t_messages d)
     in (affected_or ''update message content'' (''message '' @ show_int msgID @ '' not found'') r,
         d\<lparr>t_messages := t\<rparr>))"

text \<open>A row as it is scanned: the content of a recalled message is replaced.\<close>

definition scan_message :: "msg_row \<Rightarrow> message" where
  "scan_message r = (if r_recalled r then (r_msg r)\<lparr>m_content := recalled_content\<rparr> else r_msg r)"

text \<open>Running a query and iterating over its rows: two places where an error may come up.\<close>

definition run_query :: "string \<Rightarrow> string \<Rightarrow> faults \<Rightarrow> 'a \<Rightarrow> string + 'a" where
  "run_query what iter flt v =
    (case query flt 0 () of
       Inl e \<Rightarrow> Inl (wrap_err what e)
     | Inr _ \<Rightarrow> (case query flt 1 () of Inl e \<Rightarrow> Inl (wrap_err iter e) | Inr _ \<Rightarrow> Inr v))"

definition history_limit :: "int \<Rightarrow> int" where
  "history_limit limit = (if limit \<le> 0 \<or> limit > 200 then 50 else limit)"

definition between :: "sql_env \<Rightarrow> string \<Rightarrow> string \<Rightarrow> msg_row \<Rightarrow> bool" where
  "between E a b r \<longleftrightarrow> sql_eq E (m_from (r_msg r)) a \<and> sql_eq E (m_to (r_msg r)) b \<or>
    sql_eq E (m_from (r_msg r)) b \<and> sql_eq E (m_to (r_msg r)) a"

abbreviation row_time :: "msg_row \<Rightarrow> int" where
  "row_time r \<equiv> m_timestamp (r_msg r)"

definition QueryHistory ::
  "sql_env \<Rightarrow> faults \<Rightarrow> string \<Rightarrow> string \<Rightarrow> int \<Rightarrow> int \<Rightarrow> db \<Rightarrow> string + message list" where
  "QueryHistory E flt uid1 uid2 before limit d =
    run_query ''query history'' ''rows iterate'' flt
      (map scan_message (limit_rows (history_limit limit)
        (order_desc row_time (filter (\<lambda>r. between E uid1 uid2 r \<and> row_time r < before) (t_messages d)))))"

definition QueryGroupHistory ::
  "sql_env \<Rightarrow> faults \<Rightarrow> string \<Rightarrow> int \<Rightarrow> int \<Rightarrow> db \<Rightarrow> string + message list" where
  "QueryGroupHistory E flt groupID before limit d =
    run_query ''query group history'' ''rows iterate'' flt
      (map scan_message (limit_rows (history_limit limit)
        (order_desc row_time (filter (\<lambda>r. sql_eq E (m_to (r_msg r)) groupID \<and> m_chatType (r_msg r) = 2 \<and>
          row_time r < before) (t_messages d)))))"

section \<open>Search\<close>

record search_params =
  s_UID :: string
  s_Query :: string
  s_Peer :: string
  s_ChatType :: int
  s_MsgType :: int
  s_Before :: int
  s_After :: int
  s_Limit :: int
  s_Cursor :: int

record search_result =
  sr_Messages :: "message list"
  sr_Count :: int
  sr_NextCursor :: int

definition empty_result :: search_result where
  "empty_result = \<lparr>sr_Messages = [], sr_Count = 0, sr_NextCursor = 0\<rparr>"

text \<open>
  \<open>strings.TrimSpace\<close> on UTF-8: the encodings of the characters Go takes for white space.
\<close>

definition utf8_spaces :: "string list" where
  "utf8_spaces =
    [[CHR 0x09], [CHR 0x0A], [CHR 0x0B], [CHR 0x0C], [CHR 0x0D], [CHR 0x20],
     [CHR 0xC2, CHR 0x85], [CHR 0xC2, CHR 0xA0], [CHR 0xE1, CHR 0x9A, CHR 0x80],
     [CHR 0xE2, CHR 0x80, CHR 0x80], [CHR 0xE2, CHR 0x80, CHR 0x81], [CHR 0xE2, CHR 0x80, CHR 0x82],
     [CHR 0xE2, CHR 0x80, CHR 0x83], [CHR 0xE2, CHR 0x80, CHR 0x84], [CHR 0xE2, CHR 0x80, CHR 0x85],
     [CHR 0xE2, CHR 0x80, CHR 0x86], [CHR 0xE2, CHR 0x80, CHR 0x87], [CHR 0xE2, CHR 0x80, CHR 0x88],
     [CHR 0xE2, CHR 0x80, CHR 0x89], [CHR 0xE2, CHR 0x80, CHR 0x8A], [CHR 0xE2, CHR 0x80, CHR 0xA8],
     [CHR 0xE2, CHR 0x80, CHR 0xA9], [CHR 0xE2, CHR 0x80, CHR 0xAF], [CHR 0xE2, CHR 0x81, CHR 0x9F],
     [CHR 0xE3, CHR 0x80, CHR 0x80]]"

text \<open>Strips encodings in \<open>ws\<close> from the front; the fuel is the length of the string.\<close>

fun strip_front :: "nat \<Rightarrow> string list \<Rightarrow> string \<Rightarrow> string" where
  "strip_front 0 ws s = s"
| "strip_front (Suc n) ws s =
    (case find (\<lambda>w. is_prefix w s) ws of None \<Rightarrow> s | Some w \<Rightarrow> strip_front n ws (drop (length w) s))"

definition TrimSpace :: "string \<Rightarrow> string" where
  "TrimSpace s =
    (let l = strip_front (length s) utf8_spaces s
     in rev (strip_front (length l) (map rev utf8_spaces) (rev l)))"

definition boolean_special :: "char list" where
  "boolean_special = ''+-><()~*\"@''"

definition escapeBooleanMode :: "string \<Rightarrow> string" where
  "escapeBooleanMode s = concat (map (\<lambda>c. if c \<in> set boolean_special then [CHR 0x5C, c] else [c]) s)"

definition search_limit :: "int \<Rightarrow> int" where
  "search_limit l = (let l = (if l \<le> 0 then 20 else l) in if l > 50 then 50 else l)"

definition search_where :: "sql_env \<Rightarrow> search_params \<Rightarrow> string \<Rightarrow> msg_row \<Rightarrow> bool" where
  "search_where E p q r \<longleftrightarrow>
    ftmatch E q (m_content (r_msg r)) \<and>
    (if s_Peer p \<noteq> [] then between E (s_UID p) (s_Peer p) r
     else sql_eq E (m_from (r_msg r)) (s_UID p) \<or> sql_eq E (m_to (r_msg r)) (s_UID p)) \<and>
    (s_ChatType p > 0 \<longrightarrow> m_chatType (r_msg r) = s_ChatType p) \<and>
    (s_MsgType p > 0 \<longrightarrow> m_msgType (r_msg r) = s_MsgType p) \<and>
    (s_Before p > 0 \<longrightarrow> row_time r < s_Before p) \<and>
    (s_After p > 0 \<longrightarrow> row_time r > s_After p) \<and>
    (s_Cursor p > 0 \<longrightarrow> m_msgId (r_msg r) < s_Cursor p)"

definition SearchMessages ::
  "sql_env \<Rightarrow> faults \<Rightarrow> search_params option \<Rightarrow> db \<Rightarrow> string + search_result" where
  "SearchMessages E flt params d =
    (case params of
       None \<Rightarrow> Inr empty_result
     | Some p \<Rightarrow>
         let limit = search_limit (s_Limit p); queryText = TrimSpace (s_Query p) in
         if queryText = [] then Inr empty_result
         else
           let queryText = escapeBooleanMode queryText in
           case run_query ''search'' ''rows iterate'' flt
             (map scan_message (limit_rows (limit + 1)
               (order_desc row_time (filter (search_where E p queryText) (t_messages d))))) of
             Inl e \<Rightarrow> Inl e
           | Inr msgs \<Rightarrow>
               let hasMore = int (length msgs) > limit;
                   msgs = (if hasMore then take (nat limit) msgs else msgs);
                   nextCursor = (if hasMore \<and> length msgs > 0 then m_msgId (last msgs) else 0)
               in Inr \<lparr>sr_Messages = msgs, sr_Count = int (length msgs), sr_NextCursor = nextCursor\<rparr>)"

section \<open>Administration\<close>

definition BrowseMessages :: "faults \<Rightarrow> int \<Rightarrow> int \<Rightarrow> int \<Rightarrow> db \<Rightarrow> string + message list" where
  "BrowseMessages flt nw before limit d =
    (let limit = (if limit \<le> 0 \<or> limit > 100 then 50 else limit);
         before = (if before \<le> 0 then nw else before) in
     case query flt 0 () of
       Inl e \<Rightarrow> Inl (wrap_err ''browse messages'' e)
     | Inr _ \<Rightarrow> query flt 1 (map scan_message (limit_rows limit
         (order_desc row_time (filter (\<lambda>r. row_time r < before) (t_messages d))))))"

definition DeleteMessage :: "faults \<Rightarrow> int \<Rightarrow> db \<Rightarrow> string option \<times> db" where
  "DeleteMessage flt msgID d =
    (let (r, t) = exec_stmt flt 0 (sql_delete (\<lambda>x. m_msgId (r_msg x) = msgID)) (t_messages d)
     in (affected_or ''delete message'' (''message '' @ show_int msgID @ '' not found'') r, d\<lparr>t_messages := t\<rparr>))"

definition CountMessages :: "faults \<Rightarrow> db \<Rightarrow> string + int" where
  "CountMessages flt d =
    (case query flt 0 (int (length (t_messages d))) of
       Inl e \<Rightarrow> Inl (wrap_err ''count messages'' e) | Inr n \<Rightarrow> Inr n)"

section \<open>Facts\<close>

lemma run_query_Inr: "run_query w i flt v = Inr x \<longleftrightarrow> flt 0 = None \<and> flt 1 = None \<and> x = v"
  by (auto simp: run_query_def query_def split: option.splits prod.splits sum.splits)

lemma scan_fields [simp]:
  "m_msgId (scan_message r) = m_msgId (r_msg r)" "m_from (scan_message r) = m_from (r_msg r)"
  "m_to (scan_message r) = m_to (r_msg r)" "m_timestamp (scan_message r) = m_timestamp (r_msg r)"
  "m_chatType (scan_message r) = m_chatType (r_msg r)"
  by (simp_all add: scan_message_def)

lemma recall_row_fields [simp]:
  "m_msgId (r_msg (recall_row r)) = m_msgId (r_msg r)" "m_from (r_msg (recall_row r)) = m_from (r_msg r)"
  "m_timestamp (r_msg (recall_row r)) = m_timestamp (r_msg r)" "r_recalled (recall_row r)"
  "m_content (r_msg (recall_row r)) = recalled_content"
  by (simp_all add: recall_row_def)

lemma edit_row_fields [simp]:
  "m_msgId (r_msg (edit_row c r)) = m_msgId (r_msg r)" "r_recalled (edit_row c r) = r_recalled r"
  by (simp_all add: edit_row_def)

section \<open>Any use of the table\<close>

datatype msg_op =
    OpSave faults message
  | OpRecall faults int int string int
  | OpEdit faults int string string
  | OpDelete faults int

fun msg_step :: "sql_env \<Rightarrow> msg_op \<Rightarrow> db \<Rightarrow> db" where
  "msg_step E (OpSave flt m) d = snd (Save flt m d)"
| "msg_step E (OpRecall flt nw i u w) d = snd (RecallMessage E flt nw i u w d)"
| "msg_step E (OpEdit flt i u c) d = snd (UpdateMessageContent E flt i u c d)"
| "msg_step E (OpDelete flt i) d = snd (DeleteMessage flt i d)"

definition recalled_rows :: "int \<Rightarrow> msg_row list \<Rightarrow> bool" where
  "recalled_rows i t \<longleftrightarrow> (\<exists>r \<in> set t. m_msgId (r_msg r) = i) \<and>
    (\<forall>r \<in> set t. m_msgId (r_msg r) = i \<longrightarrow> r_recalled r)"

definition recalled_id :: "int \<Rightarrow> db \<Rightarrow> bool" where
  "recalled_id i d = recalled_rows i (t_messages d)"

lemma recalled_rows_map:
  assumes "recalled_rows i t" and "\<And>r. m_msgId (r_msg (f r)) = m_msgId (r_msg r) \<and> (r_recalled r \<longrightarrow> r_recalled (f r))"
  shows "recalled_rows i (map f t)"
  using assms by (auto simp: recalled_rows_def)

lemma recalled_id_step:
  assumes "recalled_id i d" and "\<And>flt. p \<noteq> OpDelete flt i"
  shows "recalled_id i (msg_step E p d)"
proof (cases p)
  case (OpSave flt m)
  have "recalled_rows i (snd (sql_insert_ignore (\<lambda>x. m_msgId (r_msg x) = m_msgId m) \<lparr>r_msg = m, r_recalled = False\<rparr> (t_messages d)))"
    using assms(1) by (auto simp: recalled_id_def recalled_rows_def sql_insert_ignore_def list_ex_iff)
  with OpSave assms(1) show ?thesis by (simp add: recalled_id_def Save_def split_beta Let_def exec_keeps)
next
  case (OpRecall flt nw j u w)
  have "recalled_rows i (snd (sql_update P recall_row (t_messages d)))" for P
    using assms(1) by (simp add: recalled_id_def sql_update_def recalled_rows_map)
  with OpRecall assms(1) show ?thesis by (simp add: recalled_id_def RecallMessage_def split_beta Let_def exec_keeps)
next
  case (OpEdit flt j u c)
  have "recalled_rows i (snd (sql_update P (edit_row c) (t_messages d)))" for P
    using assms(1) by (simp add: recalled_id_def sql_update_def recalled_rows_map)
  with OpEdit assms(1) show ?thesis by (simp add: recalled_id_def UpdateMessageContent_def split_beta Let_def exec_keeps)
next
  case (OpDelete flt j)
  with assms(2) have "j \<noteq> i" by blast
  then have "recalled_rows i (snd (sql_delete (\<lambda>x. m_msgId (r_msg x) = j) (t_messages d)))"
    using assms(1) by (auto simp: recalled_id_def recalled_rows_def sql_delete_def)
  with OpDelete assms(1) show ?thesis by (simp add: recalled_id_def DeleteMessage_def split_beta Let_def exec_keeps)
qed

lemma recalled_id_run:
  "recalled_id i d \<Longrightarrow> \<forall>p \<in> set ps. \<forall>flt. p \<noteq> OpDelete flt i \<Longrightarrow> recalled_id i (fold (msg_step E) ps d)"
  by (induction ps arbitrary: d) (auto intro: recalled_id_step)

lemma scan_recalled: "r_recalled r \<Longrightarrow> m_content (scan_message r) = recalled_content"
  by (simp add: scan_message_def)

definition reads :: "sql_env \<Rightarrow> db \<Rightarrow> message list \<Rightarrow> bool" where
  "reads E d ms \<longleftrightarrow>
    (\<exists>flt a b before l. QueryHistory E flt a b before l d = Inr ms) \<or>
    (\<exists>flt g before l. QueryGroupHistory E flt g before l d = Inr ms) \<or>
    (\<exists>flt p rs. SearchMessages E flt p d = Inr rs \<and> ms = sr_Messages rs) \<or>
    (\<exists>flt nw before l. BrowseMessages flt nw before l d = Inr ms)"

text \<open>Every message that a read returns is a stored row as it is scanned.\<close>

lemma in_limit_order: "x \<in> set (limit_rows n (order_desc k (filter P t))) \<Longrightarrow> x \<in> set t"
  using set_limit_rows by fastforce

lemma SearchMessages_rows:
  assumes "SearchMessages E flt p d = Inr rs" and "m \<in> set (sr_Messages rs)"
  obtains q r where "p = Some q" and "r \<in> set (t_messages d)" and "m = scan_message r"
    and "search_where E q (escapeBooleanMode (TrimSpace (s_Query q))) r"
    and "length (sr_Messages rs) \<le> nat (search_limit (s_Limit q))"
proof (cases p)
  case (Some q)
  let ?w = "search_where E q (escapeBooleanMode (TrimSpace (s_Query q)))" and ?l = "search_limit (s_Limit q)"
  let ?ms = "map scan_message (limit_rows (?l + 1) (order_desc row_time (filter ?w (t_messages d))))"
  have rs: "sr_Messages rs = (if int (length ?ms) > ?l then take (nat ?l) ?ms else ?ms)"
    using assms Some by (auto simp: SearchMessages_def empty_result_def Let_def run_query_Inr split: if_splits sum.splits)
  then have "m \<in> set ?ms" using assms(2) by (auto split: if_splits dest: in_set_takeD)
  then obtain r where "r \<in> set (order_desc row_time (filter ?w (t_messages d)))" "m = scan_message r"
    using set_limit_rows by fastforce
  moreover have "length (sr_Messages rs) \<le> nat ?l" unfolding rs by (auto simp: not_less le_nat_iff)
  ultimately show thesis using that Some by auto
qed (use assms in \<open>auto simp: SearchMessages_def empty_result_def\<close>)

lemma reads_scan:
  assumes "reads E d ms" and "m \<in> set ms"
  shows "\<exists>r \<in> set (t_messages d). m = scan_message r"
proof -
  have "\<exists>r \<in> set (t_messages d). m = scan_message r"
    if "SearchMessages E flt p d = Inr rs" "ms = sr_Messages rs" for flt p rs
    using SearchMessages_rows [OF that(1)] assms(2) that(2) by metis
  then show ?thesis
    using assms unfolding reads_def
    by (auto simp: QueryHistory_def QueryGroupHistory_def BrowseMessages_def run_query_Inr query_def Let_def
        split: option.splits prod.splits sum.splits dest!: in_limit_order)
qed

section \<open>Properties\<close>

text \<open>
  C34. Recall is authorised by the store: without faults it succeeds exactly when a row with that
  ID, of that sender, inside the recall window is not already recalled; it then hides that row
  and touches nothing else, and otherwise it touches nothing.
\<close>

theorem recall_guard:
  assumes "flt 0 = None" and "RecallMessage E flt nw i u w d = (err, d')"
  shows "(err = None \<longleftrightarrow> (\<exists>r \<in> set (t_messages d). m_msgId (r_msg r) = i \<and> sql_eq E (m_from (r_msg r)) u \<and>
        i64 (nw - w) \<le> row_time r \<and> recall_row r \<noteq> r)) \<and>
    t_messages d' = map (\<lambda>r. if m_msgId (r_msg r) = i \<and> sql_eq E (m_from (r_msg r)) u \<and> i64 (nw - w) \<le> row_time r
        then recall_row r else r) (t_messages d) \<and>
    (err \<noteq> None \<longrightarrow> d' = d)"
proof -
  let ?P = "\<lambda>r. m_msgId (r_msg r) = i \<and> sql_eq E (m_from (r_msg r)) u \<and> i64 (nw - w) \<le> row_time r"
  have e: "err = affected_or ''recall message'' (''message '' @ show_int i @ '' not found or not owned by '' @ u)
      (fst (sql_update ?P recall_row (t_messages d)))" and d': "d' = d\<lparr>t_messages := snd (sql_update ?P recall_row (t_messages d))\<rparr>"
    using assms by (auto simp: RecallMessage_def split_beta Let_def)
  have "(\<exists>x. err = Some x) \<longleftrightarrow> (\<forall>r \<in> set (t_messages d). ?P r \<longrightarrow> recall_row r = r)"
    unfolding e by (rule affected_update_iff)
  then have iff: "err \<noteq> None \<longleftrightarrow> (\<forall>r \<in> set (t_messages d). ?P r \<longrightarrow> recall_row r = r)" by simp
  moreover have "d' = d" if "err \<noteq> None"
    using that iff sql_update_none [of "t_messages d" ?P recall_row] d' by simp
  moreover have "t_messages d' = map (\<lambda>r. if ?P r then recall_row r else r) (t_messages d)"
    by (simp add: d' sql_update_def)
  ultimately show ?thesis by blast
qed

definition demo_env :: sql_env where
  "demo_env = \<lparr>collate = (\<lambda>s. s), ftmatch = (\<lambda>q c. str_contains c q)\<rparr>"

definition demo_msg :: message where
  "demo_msg = msg0\<lparr>m_msgId := 7, m_cmd := 1, m_from := ''alice'', m_to := ''bob'', m_content := ''hi'', m_timestamp := 1000\<rparr>"

definition demo_db :: db where
  "demo_db = migrate\<lparr>t_messages := [\<lparr>r_msg = demo_msg, r_recalled = False\<rparr>]\<rparr>"

theorem recall_guard_witness:
  "fst (RecallMessage demo_env no_faults 2000 7 ''alice'' 5000 demo_db) = None \<and>
   snd (RecallMessage demo_env no_faults 2000 7 ''eve'' 5000 demo_db) = demo_db"
proof -
  have f: "no_faults 0 = None" by (simp add: no_faults_def)
  show ?thesis
    using recall_guard [OF f prod.collapse [symmetric, of "RecallMessage demo_env no_faults 2000 7 ''alice'' 5000 demo_db"]]
      recall_guard [OF f prod.collapse [symmetric, of "RecallMessage demo_env no_faults 2000 7 ''eve'' 5000 demo_db"]]
    by (auto simp: demo_db_def demo_msg_def demo_env_def recall_row_def i64_id in_i64_def msg0_def migrate_def)
qed

text \<open>
  A recalled message never shows its content again: after any saves, recalls, edits and
  deletions of other messages, with any faults, every read (history, group history, search,
  browsing) that returns it returns the recall marker instead.
\<close>

theorem recalled_stays_hidden:
  assumes "recalled_id i d" and "\<forall>p \<in> set ps. \<forall>flt. p \<noteq> OpDelete flt i"
    and "reads E (fold (msg_step E) ps d) ms" and "m \<in> set ms" and "m_msgId m = i"
  shows "m_content m = recalled_content"
  using recalled_id_run [OF assms(1,2), of E] reads_scan [OF assms(3,4)] assms(5)
  by (auto simp: recalled_id_def recalled_rows_def scan_recalled)

definition demo_recalled :: db where
  "demo_recalled = migrate\<lparr>t_messages := [\<lparr>r_msg = demo_msg, r_recalled = True\<rparr>]\<rparr>"

theorem recalled_stays_hidden_witness:
  "m_content (demo_msg\<lparr>m_content := recalled_content\<rparr>) = recalled_content"
proof (rule recalled_stays_hidden)
  show "recalled_id 7 demo_recalled" by (simp add: recalled_id_def recalled_rows_def demo_recalled_def demo_msg_def)
  let ?d = "fold (msg_step demo_env) [OpEdit no_faults 7 ''alice'' ''new''] demo_recalled"
  have "QueryHistory demo_env no_faults ''alice'' ''bob'' 5000 10 ?d = Inr [demo_msg\<lparr>m_content := recalled_content\<rparr>]"
    by (simp add: QueryHistory_def run_query_Inr no_faults_def UpdateMessageContent_def sql_update_def demo_recalled_def
        demo_env_def demo_msg_def edit_row_def between_def order_desc_def limit_rows_def history_limit_def scan_message_def)
  then show "reads demo_env ?d [demo_msg\<lparr>m_content := recalled_content\<rparr>]"
    unfolding reads_def by blast
qed (simp_all add: demo_msg_def)



text \<open>
  Search respects participation: every message it returns was sent by or to the searching
  user (and, with a peer given, between the two), matches the query text after escaping, lies
  in the requested window and before the cursor; at most 50 are returned.
\<close>

theorem search_access:
  assumes "SearchMessages E flt (Some p) d = Inr rs" and "m \<in> set (sr_Messages rs)"
  shows "(sql_eq E (m_from m) (s_UID p) \<or> sql_eq E (m_to m) (s_UID p)) \<and>
    (s_Peer p \<noteq> [] \<longrightarrow> sql_eq E (m_from m) (s_Peer p) \<or> sql_eq E (m_to m) (s_Peer p)) \<and>
    (s_Before p > 0 \<longrightarrow> m_timestamp m < s_Before p) \<and> (s_After p > 0 \<longrightarrow> m_timestamp m > s_After p) \<and>
    (s_Cursor p > 0 \<longrightarrow> m_msgId m < s_Cursor p) \<and> length (sr_Messages rs) \<le> 50"
proof -
  obtain r where r: "m = scan_message r" "search_where E p (escapeBooleanMode (TrimSpace (s_Query p))) r"
    "length (sr_Messages rs) \<le> nat (search_limit (s_Limit p))"
    using SearchMessages_rows [OF assms] by auto
  have "nat (search_limit (s_Limit p)) \<le> 50" by (auto simp: search_limit_def Let_def)
  with r show ?thesis by (auto simp: search_where_def between_def split: if_splits)
qed

theorem search_access_witness:
  "length (sr_Messages \<lparr>sr_Messages = [demo_msg], sr_Count = 1, sr_NextCursor = 0\<rparr>) \<le> 50"
proof -
  let ?p = "\<lparr>s_UID = ''bob'', s_Query = '' hi'', s_Peer = [], s_ChatType = 0, s_MsgType = 0, s_Before = 0,
    s_After = 0, s_Limit = 0, s_Cursor = 0\<rparr>"
  have "TrimSpace '' hi'' = ''hi''" "escapeBooleanMode ''hi'' = ''hi''" by code_simp+
  then have "SearchMessages demo_env no_faults (Some ?p) demo_db =
      Inr \<lparr>sr_Messages = [demo_msg], sr_Count = 1, sr_NextCursor = 0\<rparr>"
    by (simp add: SearchMessages_def run_query_def no_faults_def demo_db_def search_where_def demo_env_def demo_msg_def
        order_desc_def limit_rows_def search_limit_def scan_message_def Let_def)
  from search_access [OF this, of demo_msg] show ?thesis by simp
qed

end
