(* ===== verification/MySQL_Users.thy ===== *)
theory MySQL_Users
  imports MySQL_Base
begin

text \<open>
  The user and friend stores of \<open>internal/repo/mysql.go\<close>. Errors are their texts; the instants
  read from the clock are arguments.
\<close>

section \<open>Users\<close>

definition UserCreate :: "sql_env \<Rightarrow> faults \<Rightarrow> user \<Rightarrow> db \<Rightarrow> string option \<times> db" where
  "UserCreate E flt u d =
    (let (r, t) = exec_stmt flt 0 (sql_insert (\<lambda>x. sql_eq E (u_UID x) (u_UID u))
           (u\<lparr>u_Role := ''user'', u_IsDisabled := False\<rparr>)) (t_users d)
     in (case r of Inl e \<Rightarrow> Some (wrap_err ''insert user'' e) | Inr _ \<Rightarrow> None, d\<lparr>t_users := t\<rparr>))"

definition UpdatePassword :: "sql_env \<Rightarrow> faults \<Rightarrow> string \<Rightarrow> string \<Rightarrow> db \<Rightarrow> string option \<times> db" where
  "UpdatePassword E flt uid newPasswordHash d =
    (let (r, t) = exec_stmt flt 0 (sql_update (\<lambda>x. sql_eq E (u_UID x) uid)
           (\<lambda>x. x\<lparr>u_PasswordHash := newPasswordHash\<rparr>)) (t_users d)
     in (affected_or ''update password'' (''user '' @ uid @ '' not found'') r, d\<lparr>t_users := t\<rparr>))"

definition GetByUID :: "sql_env \<Rightarrow> faults \<Rightarrow> string \<Rightarrow> db \<Rightarrow> string + user option" where
  "GetByUID E flt uid d =
    (case query flt 0 (find (\<lambda>x. sql_eq E (u_UID x) uid) (t_users d)) of
       Inl e \<Rightarrow> Inl (wrap_err ''select user'' e) | Inr u \<Rightarrow> Inr u)"

definition ListUsers :: "faults \<Rightarrow> int \<Rightarrow> int \<Rightarrow> db \<Rightarrow> string + user list \<times> int" where
  "ListUsers flt offset limit d =
    (let limit = (if limit \<le> 0 \<or> limit > 200 then 50 else limit);
         offset = (if offset < 0 then 0 else offset) in
     case query flt 0 (int (length (t_users d))) of
       Inl e \<Rightarrow> Inl (wrap_err ''count users'' e)
     | Inr n \<Rightarrow>
         (case query flt 1 () of
            Inl e \<Rightarrow> Inl (wrap_err ''list users'' e)
          | Inr _ \<Rightarrow> query flt 2 (limit_rows limit (drop (nat offset) (order_desc u_CreatedAt (t_users d))), n)))"

definition DeleteUser :: "sql_env \<Rightarrow> faults \<Rightarrow> string \<Rightarrow> db \<Rightarrow> string option \<times> db" where
  "DeleteUser E flt uid d =
    (let (r, t) = exec_stmt flt 0 (sql_delete (\<lambda>x. sql_eq E (u_UID x) uid)) (t_users d)
     in (affected_or ''delete user'' (''user '' @ uid @ '' not found'') r, d\<lparr>t_users := t\<rparr>))"

definition userExists :: "sql_env \<Rightarrow> faults \<Rightarrow> nat \<Rightarrow> string \<Rightarrow> db \<Rightarrow> string + bool" where
  "userExists E flt i uid d =
    (case query flt i (sql_count (\<lambda>x. sql_eq E (u_UID x) uid) (t_users d)) of Inl e \<Rightarrow> Inl e | Inr n \<Rightarrow> Inr (n > 0))"

text \<open>An update that affects no row succeeds if the user is there (the value was set already).\<close>

definition update_user ::
  "sql_env \<Rightarrow> faults \<Rightarrow> string \<Rightarrow> string \<Rightarrow> (user \<Rightarrow> bool) \<Rightarrow> (user \<Rightarrow> user) \<Rightarrow> db \<Rightarrow> string option \<times> db" where
  "update_user E flt what uid differs f d =
    (let (r, t) = exec_stmt flt 0 (sql_update (\<lambda>x. sql_eq E (u_UID x) uid \<and> differs x) f) (t_users d);
         d' = d\<lparr>t_users := t\<rparr>
     in (case r of
           Inl e \<Rightarrow> Some (wrap_err what e)
         | Inr n \<Rightarrow>
             if n = 0 then
               (case userExists E flt 1 uid d' of
                  Inl e \<Rightarrow> Some (wrap_err (''check user '' @ uid) e)
                | Inr ok \<Rightarrow> if \<not> ok then Some (''user '' @ uid @ '' not found'') else None)
             else None, d'))"

definition UpdateUserRole :: "sql_env \<Rightarrow> faults \<Rightarrow> string \<Rightarrow> string \<Rightarrow> db \<Rightarrow> string option \<times> db" where
  "UpdateUserRole E flt uid role d =
    update_user E flt ''update user role'' uid (\<lambda>x. \<not> sql_eq E (u_Role x) role) (\<lambda>x. x\<lparr>u_Role := role\<rparr>) d"

definition UpdateUserDisabled :: "sql_env \<Rightarrow> faults \<Rightarrow> string \<Rightarrow> bool \<Rightarrow> db \<Rightarrow> string option \<times> db" where
  "UpdateUserDisabled E flt uid disabled d =
    update_user E flt ''update user disabled'' uid (\<lambda>x. u_IsDisabled x \<noteq> disabled) (\<lambda>x. x\<lparr>u_IsDisabled := disabled\<rparr>) d"

definition CountUsers :: "faults \<Rightarrow> db \<Rightarrow> string + int" where
  "CountUsers flt d =
    (case query flt 0 (int (length (t_users d))) of Inl e \<Rightarrow> Inl (wrap_err ''count users'' e) | Inr n \<Rightarrow> Inr n)"

section \<open>Friends\<close>

definition FriendStatusPending :: int where "FriendStatusPending = 0"
definition FriendStatusAccepted :: int where "FriendStatusAccepted = 1"
definition FriendStatusRejected :: int where "FriendStatusRejected = 2"

lemmas friend_status_defs = FriendStatusPending_def FriendStatusAccepted_def FriendStatusRejected_def

definition SendRequest :: "sql_env \<Rightarrow> faults \<Rightarrow> int \<Rightarrow> string \<Rightarrow> string \<Rightarrow> db \<Rightarrow> string option \<times> db" where
  "SendRequest E flt nw fromUID toUID d =
    (let (r, t) = exec_stmt flt 0 (sql_insert (\<lambda>x. sql_eq E (fr_uid x) fromUID \<and> sql_eq E (fr_friend_uid x) toUID)
           \<lparr>fr_uid = fromUID, fr_friend_uid = toUID, fr_status = FriendStatusPending,
            fr_created_at = nw, fr_updated_at = nw\<rparr>) (t_friends d)
     in (case r of
           Inl e \<Rightarrow>
             if str_contains e ''Error 1062'' \<or> str_contains e ''Duplicate entry''
             then Some (''friend request already exists between '' @ fromUID @ '' and '' @ toUID)
             else Some (wrap_err ''insert friend request'' e)
         | Inr _ \<Rightarrow> None, d\<lparr>t_friends := t\<rparr>))"

text \<open>The pending request from \<open>fromUID\<close> to \<open>uid\<close> gets a new status.\<close>

definition answer_request ::
  "sql_env \<Rightarrow> faults \<Rightarrow> string \<Rightarrow> int \<Rightarrow> int \<Rightarrow> string \<Rightarrow> string \<Rightarrow> db \<Rightarrow> string option \<times> db" where
  "answer_request E flt what status nw uid fromUID d =
    (let (r, t) = exec_stmt flt 0 (sql_update
           (\<lambda>x. sql_eq E (fr_uid x) fromUID \<and> sql_eq E (fr_friend_uid x) uid \<and> fr_status x = FriendStatusPending)
           (\<lambda>x. x\<lparr>fr_status := status, fr_updated_at := nw\<rparr>)) (t_friends d)
     in (affected_or what (''no pending friend request from '' @ fromUID @ '' to '' @ uid) r, d\<lparr>t_friends := t\<rparr>))"

definition AcceptRequest :: "sql_env \<Rightarrow> faults \<Rightarrow> int \<Rightarrow> string \<Rightarrow> string \<Rightarrow> db \<Rightarrow> string option \<times> db" where
  "AcceptRequest E flt nw uid fromUID d =
    answer_request E flt ''accept friend request'' FriendStatusAccepted nw uid fromUID d"

definition RejectRequest :: "sql_env \<Rightarrow> faults \<Rightarrow> int \<Rightarrow> string \<Rightarrow> string \<Rightarrow> db \<Rightarrow> string option \<times> db" where
  "RejectRequest E flt nw uid fromUID d =
    answer_request E flt ''reject friend request'' FriendStatusRejected nw uid fromUID d"

definition friends_of :: "sql_env \<Rightarrow> string \<Rightarrow> string \<Rightarrow> friend_row \<Rightarrow> bool" where
  "friends_of E a b x \<longleftrightarrow>
    (sql_eq E (fr_uid x) a \<and> sql_eq E (fr_friend_uid x) b \<or> sql_eq E (fr_uid x) b \<and> sql_eq E (fr_friend_uid x) a) \<and>
    fr_status x = FriendStatusAccepted"

definition RemoveFriend :: "sql_env \<Rightarrow> faults \<Rightarrow> string \<Rightarrow> string \<Rightarrow> db \<Rightarrow> string option \<times> db" where
  "RemoveFriend E flt uid friendUID d =
    (let (r, t) = exec_stmt flt 0 (sql_delete (friends_of E uid friendUID)) (t_friends d)
     in (affected_or ''remove friend'' (''friendship not found between '' @ uid @ '' and '' @ friendUID) r,
         d\<lparr>t_friends := t\<rparr>))"

record friend =
  fd_UID :: string
  fd_FriendUID :: string
  fd_Status :: int
  fd_CreatedAt :: int

text \<open>The other user comes first: the columns are swapped when the row starts with \<open>uid\<close> (a Go comparison).\<close>

definition scan_friend :: "string \<Rightarrow> friend_row \<Rightarrow> friend" where
  "scan_friend uid x =
    (if fr_uid x = uid
     then \<lparr>fd_UID = fr_friend_uid x, fd_FriendUID = fr_uid x, fd_Status = fr_status x, fd_CreatedAt = fr_created_at x\<rparr>
     else \<lparr>fd_UID = fr_uid x, fd_FriendUID = fr_friend_uid x, fd_Status = fr_status x, fd_CreatedAt = fr_created_at x\<rparr>)"

definition GetFriends :: "sql_env \<Rightarrow> faults \<Rightarrow> string \<Rightarrow> db \<Rightarrow> string + friend list" where
  "GetFriends E flt uid d =
    (case query flt 0 () of
       Inl e \<Rightarrow> Inl (wrap_err ''get friends'' e)
     | Inr _ \<Rightarrow> query flt 1 (map (scan_friend uid) (order_desc fr_created_at
         (filter (\<lambda>x. (sql_eq E (fr_uid x) uid \<or> sql_eq E (fr_friend_uid x) uid) \<and> fr_status x = FriendStatusAccepted)
           (t_friends d)))))"

record friend_request =
  fq_FromUID :: string
  fq_Username :: string
  fq_CreatedAt :: int

definition GetPendingRequests :: "sql_env \<Rightarrow> faults \<Rightarrow> string \<Rightarrow> db \<Rightarrow> string + friend_request list" where
  "GetPendingRequests E flt uid d =
    (case query flt 0 () of
       Inl e \<Rightarrow> Inl (wrap_err ''get pending requests'' e)
     | Inr _ \<Rightarrow> query flt 1 (map (\<lambda>x. \<lparr>fq_FromUID = fr_uid x,
           fq_Username = (case find (\<lambda>u. sql_eq E (u_UID u) (fr_uid x)) (t_users d) of None \<Rightarrow> fr_uid x | Some u \<Rightarrow> u_Username u),
           fq_CreatedAt = fr_created_at x\<rparr>)
         (order_desc fr_created_at
           (filter (\<lambda>x. sql_eq E (fr_friend_uid x) uid \<and> fr_status x = FriendStatusPending) (t_friends d)))))"

section \<open>Facts\<close>

definition friends_ok :: "sql_env \<Rightarrow> db \<Rightarrow> bool" where
  "friends_ok E d \<longleftrightarrow> distinct (map (\<lambda>x. (collate E (fr_uid x), collate E (fr_friend_uid x))) (t_friends d)) \<and>
    (\<forall>x \<in> set (t_friends d). fr_status x \<in> {0, 1, 2})"

definition are_friends :: "sql_env \<Rightarrow> string \<Rightarrow> string \<Rightarrow> db \<Rightarrow> bool" where
  "are_friends E a b d \<longleftrightarrow> (\<exists>x \<in> set (t_friends d). friends_of E a b x)"

definition pending :: "sql_env \<Rightarrow> string \<Rightarrow> string \<Rightarrow> db \<Rightarrow> bool" where
  "pending E a b d \<longleftrightarrow> (\<exists>x \<in> set (t_friends d). sql_eq E (fr_uid x) a \<and> sql_eq E (fr_friend_uid x) b \<and>
    fr_status x = FriendStatusPending)"

lemma update_user_ok:
  assumes "flt 0 = None" and "flt 1 = None" and "\<And>x. differs x \<Longrightarrow> f x \<noteq> x" and "\<And>x. u_UID (f x) = u_UID x"
  shows "fst (update_user E flt w uid differs f d) = None \<longleftrightarrow> (\<exists>x \<in> set (t_users d). sql_eq E (u_UID x) uid)"
proof -
  let ?P = "\<lambda>x. sql_eq E (u_UID x) uid \<and> differs x"
  let ?d = "d\<lparr>t_users := map (\<lambda>x. if ?P x then f x else x) (t_users d)\<rparr>"
  let ?none = "filter (\<lambda>x. ?P x \<and> f x \<noteq> x) (t_users d) = []"
  have res: "fst (update_user E flt w uid differs f d) =
      (if ?none then (if sql_count (\<lambda>x. sql_eq E (u_UID x) uid) (t_users ?d) > 0 then None
        else Some (''user '' @ uid @ '' not found'')) else None)"
    using assms(1,2) by (simp add: update_user_def sql_update_def userExists_def Let_def)
  have "sql_count (\<lambda>x. sql_eq E (u_UID x) uid) (t_users ?d) > 0 \<longleftrightarrow> (\<exists>x \<in> set (t_users ?d). sql_eq E (u_UID x) uid)"
    by (auto simp: sql_count_def filter_empty_conv)
  also have "\<dots> \<longleftrightarrow> (\<exists>x \<in> set (t_users d). sql_eq E (u_UID x) uid)"
    using assms(4) by (simp del: if_image_distrib) blast
  finally have cnt: "sql_count (\<lambda>x. sql_eq E (u_UID x) uid) (t_users ?d) > 0 \<longleftrightarrow>
    (\<exists>x \<in> set (t_users d). sql_eq E (u_UID x) uid)" .
  have "\<exists>x \<in> set (t_users d). sql_eq E (u_UID x) uid" if "\<not> ?none"
    using that by (auto simp: filter_empty_conv)
  then show ?thesis unfolding res cnt by (cases ?none) auto
qed

section \<open>Properties\<close>

text \<open>
  The friend protocol of the store: a request can be answered only by its receiver and only
  while it is pending; accepting makes the two friends in both directions, rejecting does not;
  removal ends the friendship for both, whoever asks.
\<close>

theorem friend_protocol:
  assumes "flt 0 = None"
  shows "(fst (AcceptRequest E flt nw b a d) = None \<longleftrightarrow> pending E a b d) \<and>
    (fst (RejectRequest E flt nw b a d) = None \<longleftrightarrow> pending E a b d) \<and>
    (pending E a b d \<longrightarrow> are_friends E a b (snd (AcceptRequest E flt nw b a d)) \<and>
      are_friends E b a (snd (AcceptRequest E flt nw b a d))) \<and>
    (are_friends E a b (snd (RejectRequest E flt nw b a d)) \<longleftrightarrow> are_friends E a b d) \<and>
    (fst (RemoveFriend E flt a b d) = None \<longleftrightarrow> are_friends E a b d) \<and>
    \<not> are_friends E b a (snd (RemoveFriend E flt a b d))"
proof -
  let ?P = "\<lambda>x. sql_eq E (fr_uid x) a \<and> sql_eq E (fr_friend_uid x) b \<and> fr_status x = FriendStatusPending"
  have ans: "answer_request E flt w st nw b a d =
      (affected_or w (''no pending friend request from '' @ a @ '' to '' @ b)
        (fst (sql_update ?P (\<lambda>x. x\<lparr>fr_status := st, fr_updated_at := nw\<rparr>) (t_friends d))),
       d\<lparr>t_friends := map (\<lambda>x. if ?P x then x\<lparr>fr_status := st, fr_updated_at := nw\<rparr> else x) (t_friends d)\<rparr>)" for w st
    using assms by (simp add: answer_request_def sql_update_def)
  have ok: "fst (answer_request E flt w st nw b a d) = None \<longleftrightarrow> pending E a b d" if "st \<noteq> FriendStatusPending" for w st
    using that by (auto simp: ans affected_or_def sql_update_def filter_empty_conv pending_def friend_row.splits)
  have st: "FriendStatusAccepted \<noteq> FriendStatusPending" "FriendStatusRejected \<noteq> FriendStatusPending"
    by (simp_all add: friend_status_defs)
  have acc: "are_friends E a b (snd (AcceptRequest E flt nw b a d)) \<and> are_friends E b a (snd (AcceptRequest E flt nw b a d))"
    if p: "pending E a b d"
  proof -
    obtain x where x: "x \<in> set (t_friends d)" "?P x" using p by (auto simp: pending_def)
    let ?x = "x\<lparr>fr_status := FriendStatusAccepted, fr_updated_at := nw\<rparr>"
    have "?x \<in> set (t_friends (snd (AcceptRequest E flt nw b a d)))"
      using x unfolding AcceptRequest_def ans by (auto simp: image_iff intro!: bexI [of _ x])
    moreover have "friends_of E a b ?x" "friends_of E b a ?x" using x by (auto simp: friends_of_def)
    ultimately show ?thesis by (auto simp: are_friends_def)
  qed
  have rej: "are_friends E a b (snd (RejectRequest E flt nw b a d)) \<longleftrightarrow> are_friends E a b d"
  proof -
    have "friends_of E a b (if ?P x then x\<lparr>fr_status := FriendStatusRejected, fr_updated_at := nw\<rparr> else x) \<longleftrightarrow>
        friends_of E a b x" for x
      by (auto simp: friends_of_def friend_status_defs)
    then show ?thesis unfolding RejectRequest_def ans by (simp add: are_friends_def del: if_image_distrib)
  qed
  have rem: "fst (RemoveFriend E flt a b d) = None \<longleftrightarrow> are_friends E a b d" "\<not> are_friends E b a (snd (RemoveFriend E flt a b d))"
    using assms by (auto simp: RemoveFriend_def sql_delete_def affected_or_def filter_empty_conv are_friends_def friends_of_def)
  show ?thesis
    using ok [OF st(1)] ok [OF st(2)] acc rej rem by (simp add: AcceptRequest_def RejectRequest_def)
qed

definition demo_friends :: db where
  "demo_friends = migrate\<lparr>t_friends := [\<lparr>fr_uid = ''alice'', fr_friend_uid = ''bob'', fr_status = 0,
    fr_created_at = 1, fr_updated_at = 1\<rparr>]\<rparr>"

definition plain_env :: sql_env where
  "plain_env = \<lparr>collate = (\<lambda>s. s), ftmatch = (\<lambda>q c. str_contains c q)\<rparr>"

theorem friend_protocol_witness:
  "are_friends plain_env ''bob'' ''alice'' (snd (AcceptRequest plain_env no_faults 5 ''bob'' ''alice'' demo_friends))"
proof -
  have "pending plain_env ''alice'' ''bob'' demo_friends"
    by (simp add: pending_def plain_env_def demo_friends_def friend_status_defs)
  then show ?thesis
    using friend_protocol [of no_faults plain_env 5 "''bob''" "''alice''" demo_friends] by (simp add: no_faults_def)
qed

text \<open>
  A friend request is refused exactly when a row from the same sender to the same receiver
  exists, whatever its status: a pending or accepted request in the other direction does not
  prevent it, and a rejected request can never be repeated.
\<close>

theorem request_directions:
  assumes "flt 0 = None"
  shows "fst (SendRequest E flt nw a b d) = None \<longleftrightarrow>
    \<not> (\<exists>x \<in> set (t_friends d). sql_eq E (fr_uid x) a \<and> sql_eq E (fr_friend_uid x) b)"
  using assms dup_entry_is_duplicate
  by (auto simp: SendRequest_def sql_insert_def list_ex_iff isMySQLDuplicate_def)

theorem request_directions_witness:
  "pending plain_env ''alice'' ''bob'' demo_friends \<and>
   fst (SendRequest plain_env no_faults 9 ''bob'' ''alice'' demo_friends) = None \<and>
   fst (SendRequest plain_env no_faults 9 ''alice'' ''bob'' (snd (RejectRequest plain_env no_faults 5 ''bob'' ''alice'' demo_friends))) \<noteq> None"
proof -
  have f: "no_faults 0 = None" by (simp add: no_faults_def)
  show ?thesis
    using request_directions [of no_faults plain_env 9 "''bob''" "''alice''" demo_friends]
      request_directions [of no_faults plain_env 9 "''alice''" "''bob''" "snd (RejectRequest plain_env no_faults 5 ''bob'' ''alice'' demo_friends)"]
    by (simp add: pending_def plain_env_def demo_friends_def friend_status_defs RejectRequest_def answer_request_def
        sql_update_def f)
qed

text \<open>
  Setting a role or the disabled flag succeeds exactly when the user exists, also when the
  value is already set (MySQL then reports no affected row); setting a password to the stored
  hash reports the user as not found.
\<close>

theorem user_updates:
  assumes "flt 0 = None" and "flt 1 = None" and "inj (collate E)"
  shows "(fst (UpdateUserRole E flt uid role d) = None \<longleftrightarrow> (\<exists>x \<in> set (t_users d). u_UID x = uid)) \<and>
    (fst (UpdateUserDisabled E flt uid b d) = None \<longleftrightarrow> (\<exists>x \<in> set (t_users d). u_UID x = uid)) \<and>
    (fst (UpdatePassword E flt uid h d) = None \<longleftrightarrow> (\<exists>x \<in> set (t_users d). u_UID x = uid \<and> u_PasswordHash x \<noteq> h))"
proof -
  have eq: "sql_eq E x y \<longleftrightarrow> x = y" for x y using assms(3) by (simp add: inj_eq)
  have "x\<lparr>u_Role := role\<rparr> \<noteq> x" if "\<not> sql_eq E (u_Role x) role" for x :: user
    using that by (cases x) auto
  moreover have "x\<lparr>u_IsDisabled := b\<rparr> \<noteq> x" if "u_IsDisabled x \<noteq> b" for x :: user
    using that by (cases x) auto
  moreover have "x\<lparr>u_PasswordHash := h\<rparr> \<noteq> x \<longleftrightarrow> u_PasswordHash x \<noteq> h" for x :: user
    by (cases x) auto
  then have "fst (UpdatePassword E flt uid h d) = None \<longleftrightarrow> (\<exists>x \<in> set (t_users d). u_UID x = uid \<and> u_PasswordHash x \<noteq> h)"
    using assms(1) by (auto simp: UpdatePassword_def sql_update_def affected_or_def filter_empty_conv eq)
  ultimately show ?thesis
    unfolding UpdateUserRole_def UpdateUserDisabled_def
    using update_user_ok [OF assms(1,2), of "\<lambda>x. \<not> sql_eq E (u_Role x) role" "\<lambda>x. x\<lparr>u_Role := role\<rparr>"]
      update_user_ok [OF assms(1,2), of "\<lambda>x. u_IsDisabled x \<noteq> b" "\<lambda>x. x\<lparr>u_IsDisabled := b\<rparr>"]
    by (simp add: eq)
qed

theorem user_updates_witness:
  "fst (UpdatePassword plain_env no_faults ''bob'' ''h'' (migrate\<lparr>t_users := [\<lparr>u_UID = ''bob'', u_Username = ''Bob'',
      u_PasswordHash = ''h'', u_Role = ''user'', u_IsDisabled = False, u_CreatedAt = 1\<rparr>]\<rparr>)) \<noteq> None"
  using user_updates [of no_faults plain_env "''bob''" "''user''" "migrate\<lparr>t_users := [\<lparr>u_UID = ''bob'', u_Username = ''Bob'',
      u_PasswordHash = ''h'', u_Role = ''user'', u_IsDisabled = False, u_CreatedAt = 1\<rparr>]\<rparr>" False "''h''"]
  by (simp add: no_faults_def plain_env_def)

end
