(* ===== verification/Logic.thy ===== *)
theory Logic
  imports Snowflake MySQL_Group MySQL_Unread MySQL_Messages MySQL_Users
begin

text \<open>
  The logic service, \<open>internal/logic/server.go\<close>, and the client the gateway calls it with,
  \<open>internal/gateway/grpc_client.go\<close>. The service works on the MySQL tables; a call through gRPC
  either comes back with the reply or fails with an error, and the service may have executed
  a call whose reply got lost. An empty repeated field arrives as a nil slice.
\<close>

section \<open>The service\<close>

record logic_server =
  lg_mysql :: bool
  lg_snow :: "generator option"

text \<open>The group store exists when the generator for group IDs could be made.\<close>

definition NewServer :: "bool \<Rightarrow> int \<Rightarrow> logic_server" where
  "NewServer mysql workerId =
    \<lparr>lg_mysql = mysql,
     lg_snow = (if mysql then (case New (if workerId \<le> 0 then 2 else workerId) of Inl _ \<Rightarrow> None | Inr g \<Rightarrow> Some g) else None)\<rparr>"

abbreviation has_groupStore :: "logic_server \<Rightarrow> bool" where
  "has_groupStore s \<equiv> lg_snow s \<noteq> None"

record group_info =
  gi_Id :: string
  gi_Name :: string
  gi_OwnerUid :: string
  gi_Members :: "string list"
  gi_CreatedAt :: int

definition groupInfoFromRow :: "group_row \<Rightarrow> string list \<Rightarrow> group_info" where
  "groupInfoFromRow g members = \<lparr>gi_Id = gr_ID g, gi_Name = gr_Name g, gi_OwnerUid = gr_OwnerUID g,
    gi_Members = members, gi_CreatedAt = gr_CreatedAt g\<rparr>"

definition no_store :: string where
  "no_store = ''group store not available''"

text \<open>\<open>members, _ := GetMembers(...)\<close>: an error gives the nil slice.\<close>

definition members_or_nil :: "repo_error + string list \<Rightarrow> string list" where
  "members_or_nil r = (case r of Inl _ \<Rightarrow> [] | Inr ms \<Rightarrow> ms)"

abbreviation later :: "faults \<Rightarrow> faults" where
  "later flt \<equiv> (\<lambda>i. flt (i + 10))"

definition LogicQueryHistory ::
  "sql_env \<Rightarrow> faults \<Rightarrow> int \<Rightarrow> logic_server \<Rightarrow> string \<Rightarrow> string \<Rightarrow> int \<Rightarrow> int \<Rightarrow> db \<Rightarrow> message list \<times> int" where
  "LogicQueryHistory E flt nw s uid peer before limit d =
    (if \<not> lg_mysql s then ([], 0)
     else
       let limit = (if limit \<le> 0 then 30 else limit);
           limit = (if limit > 100 then 100 else limit);
           before = (if before \<le> 0 then nw else before)
       in case QueryHistory E flt uid peer before limit d of
            Inl _ \<Rightarrow> ([], 0)
          | Inr msgs \<Rightarrow> (msgs, int (length msgs)))"

definition LogicSearchMessages ::
  "sql_env \<Rightarrow> faults \<Rightarrow> logic_server \<Rightarrow> search_params \<Rightarrow> db \<Rightarrow> search_result" where
  "LogicSearchMessages E flt s p d =
    (if \<not> lg_mysql s then empty_result
     else case SearchMessages E flt (Some p) d of Inl _ \<Rightarrow> empty_result | Inr r \<Rightarrow> r)"

text \<open>The reply of \<open>CreateGroup\<close>: the group, if there is one, and the error text.\<close>

definition LogicCreateGroup ::
  "sql_env \<Rightarrow> faults \<Rightarrow> string \<Rightarrow> int \<Rightarrow> logic_server \<Rightarrow> string \<Rightarrow> string \<Rightarrow> db \<Rightarrow> (group_info option \<times> string) \<times> db" where
  "LogicCreateGroup E flt i nw s name ownerUid d =
    (if \<not> has_groupStore s then ((None, no_store), d)
     else case CreateGroup E flt i nw name ownerUid [] d of
       (Inl e, d') \<Rightarrow> ((None, repo_error_text e), d')
     | (Inr g, d') \<Rightarrow>
         ((Some (groupInfoFromRow g (members_or_nil (RepoGetMembers E (later flt) (gr_ID g) d'))), []), d'))"

definition LogicJoinGroup ::
  "sql_env \<Rightarrow> faults \<Rightarrow> int \<Rightarrow> logic_server \<Rightarrow> string \<Rightarrow> string \<Rightarrow> db \<Rightarrow> (bool \<times> string) \<times> db" where
  "LogicJoinGroup E flt nw s groupId uid d =
    (if \<not> has_groupStore s then ((False, no_store), d)
     else case RepoAddMember E flt nw groupId uid d of
       (Some e, d') \<Rightarrow> ((False, repo_error_text e), d')
     | (None, d') \<Rightarrow> ((True, []), d'))"

definition LogicLeaveGroup ::
  "sql_env \<Rightarrow> faults \<Rightarrow> logic_server \<Rightarrow> string \<Rightarrow> string \<Rightarrow> db \<Rightarrow> (bool \<times> bool \<times> string) \<times> db" where
  "LogicLeaveGroup E flt s groupId uid d =
    (if \<not> has_groupStore s then ((False, False, no_store), d)
     else case RepoRemoveMember E flt groupId uid d of
       (Inl e, d') \<Rightarrow> ((False, False, repo_error_text e), d')
     | (Inr deleted, d') \<Rightarrow> ((True, deleted, []), d'))"

definition LogicGetGroup :: "sql_env \<Rightarrow> faults \<Rightarrow> logic_server \<Rightarrow> string \<Rightarrow> db \<Rightarrow> group_info option" where
  "LogicGetGroup E flt s groupId d =
    (if \<not> has_groupStore s then None
     else case RepoGetGroup E flt groupId d of
       Inl _ \<Rightarrow> None
     | Inr g \<Rightarrow> Some (groupInfoFromRow g (members_or_nil (RepoGetMembers E (later flt) (gr_ID g) d))))"

fun list_infos :: "sql_env \<Rightarrow> faults \<Rightarrow> db \<Rightarrow> group_row list \<Rightarrow> group_info list" where
  "list_infos E flt d [] = []"
| "list_infos E flt d (g # gs) =
    groupInfoFromRow g (members_or_nil (RepoGetMembers E flt (gr_ID g) d)) # list_infos E (later flt) d gs"

definition LogicListGroups :: "sql_env \<Rightarrow> faults \<Rightarrow> logic_server \<Rightarrow> string \<Rightarrow> db \<Rightarrow> group_info list" where
  "LogicListGroups E flt s uid d =
    (if \<not> has_groupStore s then []
     else case RepoListGroups E flt uid d of Inl _ \<Rightarrow> [] | Inr gs \<Rightarrow> list_infos E (later flt) d gs)"

text \<open>
  The reply of \<open>GetUser\<close>: UID and user name when found. The interface \<open>userRepo\<close> is made from the
  pointer \<open>mysql\<close>, so it is never nil: with a nil pointer the lookup panics (\<open>None\<close>).
\<close>

definition LogicGetUser :: "sql_env \<Rightarrow> faults \<Rightarrow> logic_server \<Rightarrow> string \<Rightarrow> db \<Rightarrow> (string \<times> string) option option" where
  "LogicGetUser E flt s uid d =
    (if \<not> lg_mysql s then None
     else Some (case GetByUID E flt uid d of
       Inr (Some u) \<Rightarrow> Some (u_UID u, u_Username u)
     | _ \<Rightarrow> None))"

definition LogicIncrementUnread ::
  "sql_env \<Rightarrow> faults \<Rightarrow> logic_server \<Rightarrow> string \<Rightarrow> string \<Rightarrow> db \<Rightarrow> int \<times> db" where
  "LogicIncrementUnread E flt s uid peer d =
    (if \<not> lg_mysql s then (0, d)
     else case UnreadIncrement E flt uid peer d of (Inl _, d') \<Rightarrow> (0, d') | (Inr n, d') \<Rightarrow> (n, d'))"

definition LogicMarkRead ::
  "sql_env \<Rightarrow> faults \<Rightarrow> logic_server \<Rightarrow> string \<Rightarrow> string \<Rightarrow> db \<Rightarrow> bool \<times> db" where
  "LogicMarkRead E flt s reader peer d =
    (if \<not> lg_mysql s then (False, d)
     else case UnreadMarkRead E flt reader peer d of (Some _, d') \<Rightarrow> (False, d') | (None, d') \<Rightarrow> (True, d'))"

definition LogicGetUnreadCounts ::
  "sql_env \<Rightarrow> faults \<Rightarrow> logic_server \<Rightarrow> string \<Rightarrow> db \<Rightarrow> (string \<times> int) list" where
  "LogicGetUnreadCounts E flt s uid d =
    (if \<not> lg_mysql s then [] else case UnreadGetCounts E flt uid d of Inl _ \<Rightarrow> [] | Inr m \<Rightarrow> m)"

section \<open>The client\<close>

text \<open>
  How one RPC went: \<open>None\<close> is a reply, \<open>Some (e, executed)\<close> the gRPC error with the text \<open>e\<close>.
\<close>

type_synonym rpc = "(string \<times> bool) option"

definition rpc_call :: "rpc \<Rightarrow> ('s \<Rightarrow> 'r \<times> 's) \<Rightarrow> 's \<Rightarrow> (string + 'r) \<times> 's" where
  "rpc_call r f s =
    (case r of
       None \<Rightarrow> (let (x, s') = f s in (Inr x, s'))
     | Some (e, executed) \<Rightarrow> (Inl e, if executed then snd (f s) else s))"

abbreviation reading :: "('s \<Rightarrow> 'r) \<Rightarrow> 's \<Rightarrow> 'r \<times> 's" where
  "reading f s \<equiv> (f s, s)"

definition ClientQueryHistory ::
  "rpc \<Rightarrow> sql_env \<Rightarrow> faults \<Rightarrow> int \<Rightarrow> logic_server \<Rightarrow> string \<Rightarrow> string \<Rightarrow> int \<Rightarrow> int \<Rightarrow> db \<Rightarrow> string + message list" where
  "ClientQueryHistory r E flt nw s uid peer before limit d =
    map_sum id fst (fst (rpc_call r (reading (LogicQueryHistory E flt nw s uid peer before (i32 limit))) d))"

text \<open>The request of \<open>QueryGroupHistory\<close> has the group as one user and no peer.\<close>

definition ClientQueryGroupHistory ::
  "rpc \<Rightarrow> sql_env \<Rightarrow> faults \<Rightarrow> int \<Rightarrow> logic_server \<Rightarrow> string \<Rightarrow> int \<Rightarrow> int \<Rightarrow> db \<Rightarrow> string + message list" where
  "ClientQueryGroupHistory r E flt nw s groupID before limit d =
    map_sum id fst (fst (rpc_call r (reading (LogicQueryHistory E flt nw s groupID [] before (i32 limit))) d))"

definition ClientSearchMessages ::
  "rpc \<Rightarrow> sql_env \<Rightarrow> faults \<Rightarrow> logic_server \<Rightarrow> search_params \<Rightarrow> db \<Rightarrow> string + search_result" where
  "ClientSearchMessages r E flt s p d =
    fst (rpc_call r (reading (LogicSearchMessages E flt s (p\<lparr>s_Limit := i32 (s_Limit p)\<rparr>))) d)"

text \<open>A service that panicked closes the connection.\<close>

definition ClientGetUser ::
  "rpc \<Rightarrow> sql_env \<Rightarrow> faults \<Rightarrow> logic_server \<Rightarrow> string \<Rightarrow> db \<Rightarrow> string + (string \<times> string) option" where
  "ClientGetUser r E flt s uid d =
    (case fst (rpc_call r (reading (LogicGetUser E flt s uid)) d) of
       Inl e \<Rightarrow> Inl e
     | Inr None \<Rightarrow> Inl ''rpc error: code = Unavailable''
     | Inr (Some u) \<Rightarrow> Inr u)"

definition CreateGroupClient ::
  "rpc \<Rightarrow> sql_env \<Rightarrow> faults \<Rightarrow> string \<Rightarrow> int \<Rightarrow> logic_server \<Rightarrow> string \<Rightarrow> string \<Rightarrow> db \<Rightarrow> (string + group_info option) \<times> db" where
  "CreateGroupClient r E flt i nw s name ownerUID d =
    (case rpc_call r (LogicCreateGroup E flt i nw s name ownerUID) d of
       (Inl e, d') \<Rightarrow> (Inl e, d')
     | (Inr (g, err), d') \<Rightarrow> (if err \<noteq> [] then Inl err else Inr g, d'))"

definition JoinGroupClient ::
  "rpc \<Rightarrow> sql_env \<Rightarrow> faults \<Rightarrow> int \<Rightarrow> logic_server \<Rightarrow> string \<Rightarrow> string \<Rightarrow> db \<Rightarrow> string option \<times> db" where
  "JoinGroupClient r E flt nw s groupID uid d =
    (case rpc_call r (LogicJoinGroup E flt nw s groupID uid) d of
       (Inl e, d') \<Rightarrow> (Some e, d')
     | (Inr (_, err), d') \<Rightarrow> (if err \<noteq> [] then Some err else None, d'))"

definition LeaveGroupClient ::
  "rpc \<Rightarrow> sql_env \<Rightarrow> faults \<Rightarrow> logic_server \<Rightarrow> string \<Rightarrow> string \<Rightarrow> db \<Rightarrow> (string + bool) \<times> db" where
  "LeaveGroupClient r E flt s groupID uid d =
    (case rpc_call r (LogicLeaveGroup E flt s groupID uid) d of
       (Inl e, d') \<Rightarrow> (Inl e, d')
     | (Inr (_, deleted, err), d') \<Rightarrow> (if err \<noteq> [] then Inl err else Inr deleted, d'))"

definition GetGroupClient ::
  "rpc \<Rightarrow> sql_env \<Rightarrow> faults \<Rightarrow> logic_server \<Rightarrow> string \<Rightarrow> db \<Rightarrow> string + group_info option" where
  "GetGroupClient r E flt s groupID d = fst (rpc_call r (reading (LogicGetGroup E flt s groupID)) d)"

definition ListGroupsClient ::
  "rpc \<Rightarrow> sql_env \<Rightarrow> faults \<Rightarrow> logic_server \<Rightarrow> string \<Rightarrow> db \<Rightarrow> string + group_info list" where
  "ListGroupsClient r E flt s uid d = fst (rpc_call r (reading (LogicListGroups E flt s uid)) d)"

definition IncrementUnreadClient ::
  "rpc \<Rightarrow> sql_env \<Rightarrow> faults \<Rightarrow> logic_server \<Rightarrow> string \<Rightarrow> string \<Rightarrow> db \<Rightarrow> (string + int) \<times> db" where
  "IncrementUnreadClient r E flt s uid peer d = rpc_call r (LogicIncrementUnread E flt s uid peer) d"

definition MarkReadClient ::
  "rpc \<Rightarrow> sql_env \<Rightarrow> faults \<Rightarrow> logic_server \<Rightarrow> string \<Rightarrow> string \<Rightarrow> db \<Rightarrow> string option \<times> db" where
  "MarkReadClient r E flt s reader peer d =
    (case rpc_call r (LogicMarkRead E flt s reader peer) d of
       (Inl e, d') \<Rightarrow> (Some e, d')
     | (Inr ok, d') \<Rightarrow> (if \<not> ok then Some ''mark read failed'' else None, d'))"

definition GetUnreadCountsClient ::
  "rpc \<Rightarrow> sql_env \<Rightarrow> faults \<Rightarrow> logic_server \<Rightarrow> string \<Rightarrow> db \<Rightarrow> string + (string, int) gomap" where
  "GetUnreadCountsClient r E flt s uid d =
    map_sum id (\<lambda>cs. fold (\<lambda>(p, n) m. AList.update p n m) cs [])
      (fst (rpc_call r (reading (LogicGetUnreadCounts E flt s uid)) d))"

end
