(* ===== verification/Go_JSON.thy ===== *)
theory Go_JSON
  imports IM_Prelude
begin

text \<open>
  Go's \<open>encoding/json\<close> as far as the gateway uses it. \<open>json_marshal\<close> is \<open>json.Marshal\<close> with its
  default HTML escaping; objects made from a Go map have their keys sorted. \<open>json_parse\<close>
  is the syntax check and reading of \<open>json.Unmarshal\<close>, and \<open>fill_string\<close>, \<open>fill_int\<close> and
  \<open>fill_strings\<close> store into the fields of a struct. Bytes that are not valid UTF-8 become
  U+FFFD in both directions. The text of a syntax or type error is not modelled.
\<close>

datatype json = JNull | JBool bool | JNum string | JStr string | JArr "json list" | JObj "(string \<times> json) list"

abbreviation code :: "char \<Rightarrow> nat" where
  "code c \<equiv> of_char c"

section \<open>UTF-8\<close>

definition cont :: "nat \<Rightarrow> nat \<Rightarrow> char \<Rightarrow> bool" where
  "cont lo hi c \<longleftrightarrow> lo \<le> code c \<and> code c \<le> hi"

text \<open>How many bytes the valid UTF-8 sequence at the front takes; 0 if there is none.\<close>

definition rune_size :: "string \<Rightarrow> nat" where
  "rune_size s =
    (case s of [] \<Rightarrow> 0
     | a # s1 \<Rightarrow>
       let b = code a in
       if b < 128 then 1
       else case s1 of [] \<Rightarrow> 0
       | c # s2 \<Rightarrow>
         if 194 \<le> b \<and> b \<le> 223 then (if cont 128 191 c then 2 else 0)
         else case s2 of [] \<Rightarrow> 0
         | d # s3 \<Rightarrow>
           if 224 \<le> b \<and> b \<le> 239 then
             (if cont (if b = 224 then 160 else 128) (if b = 237 then 159 else 191) c \<and> cont 128 191 d then 3 else 0)
           else case s3 of [] \<Rightarrow> 0
           | e # _ \<Rightarrow>
             if 240 \<le> b \<and> b \<le> 244 then
               (if cont (if b = 240 then 144 else 128) (if b = 244 then 143 else 191) c \<and> cont 128 191 d \<and> cont 128 191 e
                then 4 else 0)
             else 0)"

text \<open>\<open>utf8.AppendRune\<close> for a code point that is not a surrogate.\<close>

definition utf8_encode :: "nat \<Rightarrow> string" where
  "utf8_encode r =
    map char_of
     (if r < 128 then [r]
      else if r < 2048 then [192 + r div 64, 128 + r mod 64]
      else if r < 65536 then [224 + r div 4096, 128 + r div 64 mod 64, 128 + r mod 64]
      else [240 + r div 262144, 128 + r div 4096 mod 64, 128 + r div 64 mod 64, 128 + r mod 64])"

definition replacement :: string where
  "replacement = utf8_encode 65533"

section \<open>Encoding\<close>

definition hex_digit :: "nat \<Rightarrow> char" where
  "hex_digit n = (if n < 10 then char_of (48 + n) else char_of (87 + n))"

definition bs :: char where "bs = CHR 0x5C"

definition escape_ascii :: "char \<Rightarrow> string" where
  "escape_ascii c =
    (let b = code c in
     if c = bs \<or> c = CHR 0x22 then [bs, c]
     else if b = 8 then [bs, CHR ''b'']
     else if b = 12 then [bs, CHR ''f'']
     else if b = 10 then [bs, CHR ''n'']
     else if b = 13 then [bs, CHR ''r'']
     else if b = 9 then [bs, CHR ''t'']
     else if b < 32 \<or> c = CHR ''<'' \<or> c = CHR ''>'' \<or> c = CHR ''&''
       then [bs, CHR ''u'', CHR ''0'', CHR ''0'', hex_digit (b div 16), hex_digit (b mod 16)]
     else [c])"

function escape_body :: "string \<Rightarrow> string" where
  "escape_body [] = []"
| "escape_body (c # s) =
    (if code c < 128 then escape_ascii c @ escape_body s
     else
       let n = rune_size (c # s) in
       if n = 0 then bs # ''ufffd'' @ escape_body s
       else if n = 3 \<and> c = CHR 0xE2 \<and> hd s = CHR 0x80 \<and> (hd (tl s) = CHR 0xA8 \<or> hd (tl s) = CHR 0xA9)
         then bs # ''u202'' @ [hex_digit (code (hd (tl s)) - 160)] @ escape_body (drop (n - 1) s)
       else c # take (n - 1) s @ escape_body (drop (n - 1) s))"
  by pat_completeness auto
termination by (relation "measure length") auto

definition json_string :: "string \<Rightarrow> string" where
  "json_string s = CHR 0x22 # escape_body s @ [CHR 0x22]"

fun join_comma :: "string list \<Rightarrow> string" where
  "join_comma [] = []"
| "join_comma [x] = x"
| "join_comma (x # y # xs) = x @ CHR '','' # join_comma (y # xs)"

fun json_marshal :: "json \<Rightarrow> string" where
  "json_marshal JNull = ''null''"
| "json_marshal (JBool b) = (if b then ''true'' else ''false'')"
| "json_marshal (JNum l) = l"
| "json_marshal (JStr s) = json_string s"
| "json_marshal (JArr xs) = CHR ''['' # join_comma (map json_marshal xs) @ '']''"
| "json_marshal (JObj kvs) =
    CHR ''{'' # join_comma (map (\<lambda>(k, v). json_string k @ CHR '':'' # json_marshal v) kvs) @ ''}''"

definition JInt :: "int \<Rightarrow> json" where
  "JInt x = JNum (show_int x)"

text \<open>A Go map, and a slice of strings with \<open>None\<close> for the nil slice.\<close>

definition json_map :: "(string, json) gomap \<Rightarrow> json" where
  "json_map m = JObj (sort_key fst m)"

definition json_strings :: "string list option \<Rightarrow> json" where
  "json_strings xs = (case xs of None \<Rightarrow> JNull | Some l \<Rightarrow> JArr (map JStr l))"

section \<open>Parsing\<close>

fun skip_ws :: "string \<Rightarrow> string" where
  "skip_ws [] = []"
| "skip_ws (c # s) = (if code c = 32 \<or> code c = 9 \<or> code c = 10 \<or> code c = 13 then skip_ws s else c # s)"

definition hex_val :: "char \<Rightarrow> nat option" where
  "hex_val c =
    (let b = code c in
     if 48 \<le> b \<and> b \<le> 57 then Some (b - 48)
     else if 97 \<le> b \<and> b \<le> 102 then Some (b - 87)
     else if 65 \<le> b \<and> b \<le> 70 then Some (b - 55)
     else None)"

definition getu4 :: "string \<Rightarrow> (nat \<times> string) option" where
  "getu4 s =
    (case s of
       a # b # c # d # r \<Rightarrow>
         (case (hex_val a, hex_val b, hex_val c, hex_val d) of
            (Some w, Some x, Some y, Some z) \<Rightarrow> Some (((w * 16 + x) * 16 + y) * 16 + z, r)
          | _ \<Rightarrow> None)
     | _ \<Rightarrow> None)"

text \<open>The code point of a \<open>\\u\<close> escape, whose digits have been read, and the input after it.\<close>

definition unicode_escape :: "nat \<Rightarrow> string \<Rightarrow> string \<times> string" where
  "unicode_escape r s =
    (if r < 55296 \<or> 57343 < r then (utf8_encode r, s)
     else
       case s of
         a # b # t \<Rightarrow>
           if a = bs \<and> b = CHR ''u'' then
             (case getu4 t of
                Some (r2, rest) \<Rightarrow>
                  if r < 56320 \<and> 56320 \<le> r2 \<and> r2 < 57344
                  then (utf8_encode (65536 + (r - 55296) * 1024 + (r2 - 56320)), rest)
                  else (replacement, s)
              | None \<Rightarrow> (replacement, s))
           else (replacement, s)
       | _ \<Rightarrow> (replacement, s))"

lemma getu4_length: "getu4 s = Some (r, t) \<Longrightarrow> length t < length s"
  by (auto simp: getu4_def split: list.splits option.splits)

lemma unicode_escape_length: "unicode_escape r s = (d, t) \<Longrightarrow> length t \<le> length s"
  by (auto simp: unicode_escape_def split: if_splits list.splits option.splits dest!: getu4_length)

definition simple_escape :: "char \<Rightarrow> char option" where
  "simple_escape c = map_of
    [(CHR 0x22, CHR 0x22), (bs, bs), (CHR ''/'', CHR ''/''), (CHR ''b'', CHR 0x08), (CHR ''f'', CHR 0x0C),
     (CHR ''n'', CHR 0x0A), (CHR ''r'', CHR 0x0D), (CHR ''t'', CHR 0x09)] c"

text \<open>The string after its opening quote: its value and the input after the closing quote.\<close>

function parse_string :: "string \<Rightarrow> (string \<times> string) option" where
  "parse_string [] = None"
| "parse_string (c # s) =
    (if c = CHR 0x22 then Some ([], s)
     else if c = bs then
       (case s of
          [] \<Rightarrow> None
        | e # s1 \<Rightarrow>
            if e = CHR ''u'' then
              (case getu4 s1 of
                 None \<Rightarrow> None
               | Some (r, s2) \<Rightarrow>
                   (case unicode_escape r s2 of (d, s3) \<Rightarrow> map_option (apfst ((@) d)) (parse_string s3)))
            else
              (case simple_escape e of
                 None \<Rightarrow> None
               | Some d \<Rightarrow> map_option (apfst ((#) d)) (parse_string s1)))
     else if code c < 32 then None
     else
       let n = rune_size (c # s) in
       if n = 0 then map_option (apfst ((@) replacement)) (parse_string s)
       else map_option (apfst ((@) (c # take (n - 1) s))) (parse_string (drop (n - 1) s)))"
  by pat_completeness auto
termination
  by (relation "measure length") (auto dest!: getu4_length unicode_escape_length [OF sym])

definition is_digit :: "char \<Rightarrow> bool" where
  "is_digit c \<longleftrightarrow> 48 \<le> code c \<and> code c \<le> 57"

text \<open>Digits, at least one; an optional fraction; an optional exponent.\<close>

definition digits1 :: "string \<Rightarrow> (string \<times> string) option" where
  "digits1 s = (if takeWhile is_digit s = [] then None else Some (takeWhile is_digit s, dropWhile is_digit s))"

definition int_part :: "string \<Rightarrow> (string \<times> string) option" where
  "int_part s = (case s of [] \<Rightarrow> None | c # t \<Rightarrow> if c = CHR ''0'' then Some ([c], t) else digits1 s)"

definition frac_part :: "string \<Rightarrow> (string \<times> string) option" where
  "frac_part s =
    (case s of c # t \<Rightarrow> if c = CHR ''.'' then map_option (apfst ((#) c)) (digits1 t) else Some ([], s) | [] \<Rightarrow> Some ([], s))"

definition exp_part :: "string \<Rightarrow> (string \<times> string) option" where
  "exp_part s =
    (case s of
       c # t \<Rightarrow>
         if c = CHR ''e'' \<or> c = CHR ''E'' then
           (case t of
              g # u \<Rightarrow>
                if g = CHR ''+'' \<or> g = CHR ''-'' then map_option (apfst (\<lambda>d. c # g # d)) (digits1 u)
                else map_option (apfst ((#) c)) (digits1 t)
            | [] \<Rightarrow> None)
         else Some ([], s)
     | [] \<Rightarrow> Some ([], s))"

definition parse_number :: "string \<Rightarrow> (string \<times> string) option" where
  "parse_number s =
    (let (sign, s) = (case s of c # t \<Rightarrow> if c = CHR ''-'' then ([c], t) else ([], s) | [] \<Rightarrow> ([], s)) in
     case int_part s of
       None \<Rightarrow> None
     | Some (i, s) \<Rightarrow>
         (case frac_part s of
            None \<Rightarrow> None
          | Some (f, s) \<Rightarrow>
              (case exp_part s of None \<Rightarrow> None | Some (e, s) \<Rightarrow> Some (sign @ i @ f @ e, s))))"

text \<open>
  Values, the rest of an array after \<open>[\<close> or a comma, the rest of an object. The first argument is
  fuel: every call consumes a character, so the length of the input is enough. \<open>depth\<close> is the
  nesting depth, of which the scanner allows 10000.
\<close>

definition maxNestingDepth :: nat where "maxNestingDepth = 10000"

fun parse_value :: "nat \<Rightarrow> nat \<Rightarrow> string \<Rightarrow> (json \<times> string) option"
  and parse_elems :: "nat \<Rightarrow> nat \<Rightarrow> string \<Rightarrow> (json list \<times> string) option"
  and parse_members :: "nat \<Rightarrow> nat \<Rightarrow> string \<Rightarrow> ((string \<times> json) list \<times> string) option" where
  "parse_value 0 depth s = None"
| "parse_value (Suc n) depth s =
    (case skip_ws s of
       [] \<Rightarrow> None
     | c # t \<Rightarrow>
         if c = CHR 0x22 then map_option (apfst JStr) (parse_string t)
         else if c = CHR ''['' then
           if depth \<ge> maxNestingDepth then None
           else if skip_ws t \<noteq> [] \<and> hd (skip_ws t) = CHR '']'' then Some (JArr [], tl (skip_ws t))
           else map_option (apfst JArr) (parse_elems n (Suc depth) t)
         else if c = CHR ''{'' then
           if depth \<ge> maxNestingDepth then None
           else if skip_ws t \<noteq> [] \<and> hd (skip_ws t) = CHR ''}'' then Some (JObj [], tl (skip_ws t))
           else map_option (apfst JObj) (parse_members n (Suc depth) t)
         else if take 4 (c # t) = ''null'' then Some (JNull, drop 4 (c # t))
         else if take 4 (c # t) = ''true'' then Some (JBool True, drop 4 (c # t))
         else if take 5 (c # t) = ''false'' then Some (JBool False, drop 5 (c # t))
         else map_option (apfst JNum) (parse_number (c # t)))"
| "parse_elems 0 depth s = None"
| "parse_elems (Suc n) depth s =
    (case parse_value n depth s of
       None \<Rightarrow> None
     | Some (v, t) \<Rightarrow>
         (case skip_ws t of
            [] \<Rightarrow> None
          | c # u \<Rightarrow>
              if c = CHR '']'' then Some ([v], u)
              else if c = CHR '','' then map_option (apfst ((#) v)) (parse_elems n depth u)
              else None))"
| "parse_members 0 depth s = None"
| "parse_members (Suc n) depth s =
    (case skip_ws s of
       [] \<Rightarrow> None
     | q # s1 \<Rightarrow>
         if q \<noteq> CHR 0x22 then None
         else case parse_string s1 of
           None \<Rightarrow> None
         | Some (k, s2) \<Rightarrow>
             (case skip_ws s2 of
                [] \<Rightarrow> None
              | col # s3 \<Rightarrow>
                  if col \<noteq> CHR '':'' then None
                  else case parse_value n depth s3 of
                    None \<Rightarrow> None
                  | Some (v, t) \<Rightarrow>
                      (case skip_ws t of
                         [] \<Rightarrow> None
                       | c # u \<Rightarrow>
                           if c = CHR ''}'' then Some ([(k, v)], u)
                           else if c = CHR '','' then map_option (apfst ((#) (k, v))) (parse_members n depth u)
                           else None)))"

definition json_parse :: "string \<Rightarrow> json option" where
  "json_parse s =
    (case parse_value (2 * length s + 1) 0 s of
       None \<Rightarrow> None
     | Some (v, t) \<Rightarrow> if skip_ws t = [] then Some v else None)"

section \<open>Storing into a struct\<close>

text \<open>
  A key matches a field when both fold to the same name; of the non-ASCII letters only the
  long s and the Kelvin sign fold to ASCII ones.
\<close>

fun fold_name :: "string \<Rightarrow> string" where
  "fold_name [] = []"
| "fold_name (c # s) =
    (if 97 \<le> code c \<and> code c \<le> 122 then char_of (code c - 32) # fold_name s
     else if c = CHR 0xC5 \<and> take 1 s = [CHR 0xBF] then CHR ''S'' # fold_name (drop 1 s)
     else if c = CHR 0xE2 \<and> take 2 s = [CHR 0x84, CHR 0xAA] then CHR ''K'' # fold_name (drop 2 s)
     else c # fold_name s)"

definition field_values :: "string \<Rightarrow> (string \<times> json) list \<Rightarrow> json list" where
  "field_values name kvs = map snd (filter (\<lambda>(k, _). fold_name k = fold_name name) kvs)"

text \<open>
  What is stored into a field, starting from its zero value, and whether a type error occurred.
  A repeated key stores again; \<open>null\<close> leaves a string or a number as it is.
\<close>

definition store_string :: "json \<Rightarrow> string \<times> bool \<Rightarrow> string \<times> bool" where
  "store_string v = (\<lambda>(x, bad). case v of JStr s \<Rightarrow> (s, bad) | JNull \<Rightarrow> (x, bad) | _ \<Rightarrow> (x, True))"

definition fill_string :: "string \<Rightarrow> (string \<times> json) list \<Rightarrow> string \<times> bool" where
  "fill_string name kvs = fold store_string (field_values name kvs) ([], False)"

definition parse_int :: "string \<Rightarrow> int option" where
  "parse_int l =
    (case l of
       [] \<Rightarrow> None
     | c # t \<Rightarrow>
         if list_all is_digit l then Some (int (read_nat l))
         else if c = CHR ''-'' \<and> t \<noteq> [] \<and> list_all is_digit t then Some (- int (read_nat t))
         else None)"

definition store_int :: "nat \<Rightarrow> json \<Rightarrow> int \<times> bool \<Rightarrow> int \<times> bool" where
  "store_int w v = (\<lambda>(x, bad).
    case v of
      JNum l \<Rightarrow>
        (case parse_int l of
           Some n \<Rightarrow> if - (2 ^ (w - 1)) \<le> n \<and> n < 2 ^ (w - 1) then (n, bad) else (x, True)
         | None \<Rightarrow> (x, True))
    | JNull \<Rightarrow> (x, bad)
    | _ \<Rightarrow> (x, True))"

definition fill_int :: "nat \<Rightarrow> string \<Rightarrow> (string \<times> json) list \<Rightarrow> int \<times> bool" where
  "fill_int w name kvs = fold (store_int w) (field_values name kvs) (0, False)"

text \<open>
  A slice is its backing array and its length (\<open>None\<close> for the nil slice): a repeated key decodes into the elements
  that are there.
\<close>

fun store_elems :: "nat \<Rightarrow> json list \<Rightarrow> string list \<times> bool \<Rightarrow> string list \<times> bool" where
  "store_elems i [] st = st"
| "store_elems i (v # vs) (xs, bad) =
    (let (x, bad) = store_string v (if i < length xs then xs ! i else [], bad)
     in store_elems (Suc i) vs (if i < length xs then xs[i := x] else xs @ [x], bad))"

definition store_strings :: "json \<Rightarrow> (string list \<times> nat) option \<times> bool \<Rightarrow> (string list \<times> nat) option \<times> bool" where
  "store_strings v = (\<lambda>(sl, bad).
    case v of
      JNull \<Rightarrow> (None, bad)
    | JArr vs \<Rightarrow>
        if vs = [] then (Some ([], 0), bad)
        else
          let (xs, bad) = store_elems 0 vs (case sl of None \<Rightarrow> [] | Some (xs, _) \<Rightarrow> xs, bad)
          in (Some (xs, length vs), bad)
    | _ \<Rightarrow> (sl, True))"

definition fill_strings :: "string \<Rightarrow> (string \<times> json) list \<Rightarrow> string list \<times> bool" where
  "fill_strings name kvs =
    (let (sl, bad) = fold store_strings (field_values name kvs) (None, False)
     in (case sl of None \<Rightarrow> [] | Some (xs, n) \<Rightarrow> take n xs, bad))"

text \<open>The members of the object read into a struct; \<open>null\<close> stores nothing, other values are errors.\<close>

definition struct_members :: "string \<Rightarrow> (string \<times> json) list option" where
  "struct_members s =
    (case json_parse s of Some JNull \<Rightarrow> Some [] | Some (JObj kvs) \<Rightarrow> Some kvs | _ \<Rightarrow> None)"

end
