(* ===== verification/World.thy ===== *)
theory World
  imports Hash_Ring Redis_Store Dedup Rate_Limiter Logic Go_JSON
begin

text \<open>
  The state a gateway process works on, as the router (\<open>internal/gateway/router.go\<close>) and the
  gateway server (\<open>grpc_server.go\<close>) see it, and the calls they make to the components around
  them, as computations of the state monad.

  The environment \<open>env\<close> holds what is decided elsewhere: the readings of the clock, the
  protobuf codec, the database's collation and search, and, for the \<open>n\<close>-th external event of
  the run, the choice of a \<open>select\<close>, the faults of a database call, the answer of Redis, of the
  logic service and of another gateway. \<open>w_calls\<close> numbers these events. Message objects are
  never changed after they were handed to another component, so they are passed by value.
\<close>

section \<open>Environment and state\<close>

record env =
  e_clock :: clock
  e_mar :: "message \<Rightarrow> bytes option"
  e_unm :: "bytes \<Rightarrow> message option"
  e_rnd :: "rat \<Rightarrow> rat"
  e_sql :: sql_env
  e_pick :: "nat \<Rightarrow> bool"
  e_flt :: "nat \<Rightarrow> faults"
  e_out :: "nat \<Rightarrow> outcome"
  e_get :: "nat \<Rightarrow> string \<Rightarrow> int option"
  e_rpc :: "nat \<Rightarrow> rpc"
  e_fwd :: "nat \<Rightarrow> string \<Rightarrow> message \<Rightarrow> string + bool"
  e_pub :: "nat \<Rightarrow> bool"
  e_jsonerr :: "string \<Rightarrow> string"

text \<open>The offline store of the router is the hub itself or Redis with the hub as fallback.\<close>

datatype offline = HubOffline | RedisOffline redis_store

datatype groups = MemGroups groups_mem | SqlGroups

datatype metric =
    MCommand int | MReceived string | MDelivered string | MDeliveryFailure | MDuplicateDropped
  | MGroupFanoutSend | MPersistSuccess | MPersistFail | MPersistQueueDrop | MDeliveredDuration string int

record world =
  w_tick :: nat
  w_calls :: nat
  w_objs :: heap
  w_hub :: hub
  w_offline :: offline
  w_snow :: generator
  w_dedup :: dedup_cache
  w_rateLimit :: "rate_limiter option"
  w_db :: db
  w_msgStore :: bool
  w_friendStore :: bool
  w_kafka :: bool
  w_kafkaLog :: "(bytes \<times> bytes) list"
  w_logic :: "logic_server option"
  w_hashRing :: "hashring option"
  w_forwarder :: bool
  w_thisNodeID :: string
  w_forwarded :: "(string \<times> message) list"
  w_groupStore :: "groups option"
  w_unreadTracker :: "unread_mem option"
  w_metrics :: "metric list"
  w_persistTasks :: "message list"
  w_persistDone :: bool
  w_recallWindow :: int
  w_historyLimit :: int
  w_searchLimit :: int
  w_rlCleanup :: int
  w_panics :: nat

type_synonym 'a io = "(world, 'a) state"

section \<open>Clock, identifiers, events\<close>

definition now :: "env \<Rightarrow> gotime io" where
  "now V = State (\<lambda>w. (read_clock (e_clock V) (w_tick w), w\<lparr>w_tick := Suc (w_tick w)\<rparr>))"

definition nowMs :: "env \<Rightarrow> int io" where
  "nowMs V = do { t \<leftarrow> now V; State_Monad.return (unixMilli t) }"

definition snowNext :: "env \<Rightarrow> int io" where
  "snowNext V = State (\<lambda>w. case Next (e_clock V) (w_tick w) (w_snow w) of
     (i, k, g) \<Rightarrow> (i, w\<lparr>w_tick := k, w_snow := g\<rparr>))"

definition event :: "nat io" where
  "event = State (\<lambda>w. (w_calls w, w\<lparr>w_calls := Suc (w_calls w)\<rparr>))"

definition metric :: "metric \<Rightarrow> unit io" where
  "metric m = modify (\<lambda>w. w\<lparr>w_metrics := w_metrics w @ [m]\<rparr>)"

section \<open>Connections and offline store\<close>

definition send :: "env \<Rightarrow> addr \<Rightarrow> message \<Rightarrow> send_error option io" where
  "send V a msg = do {
     n \<leftarrow> event;
     State (\<lambda>w. case Send (e_mar V) (e_pick V n) msg (w_objs w a) of
       (e, c) \<Rightarrow> (e, w\<lparr>w_objs := (w_objs w)(a := c)\<rparr>)) }"

definition sendTo :: "env \<Rightarrow> addr \<Rightarrow> message \<Rightarrow> unit io" where
  "sendTo V a msg = do { _ \<leftarrow> send V a msg; skip }"

definition uid_of :: "addr \<Rightarrow> string io" where
  "uid_of a = gets (\<lambda>w. c_UID (w_objs w a))"

definition clientsGet :: "string \<Rightarrow> addr option io" where
  "clientsGet uid = gets (\<lambda>w. HubGet uid (w_hub w))"

definition storeOffline :: "env \<Rightarrow> string \<Rightarrow> message \<Rightarrow> unit io" where
  "storeOffline V uid msg = do {
     n \<leftarrow> event;
     modify (\<lambda>w. case w_offline w of
       HubOffline \<Rightarrow> w\<lparr>w_hub := StoreOffline uid msg (w_hub w)\<rparr>
     | RedisOffline rs \<Rightarrow>
         (case RedisStoreOffline (e_mar V) (e_out V n) uid msg (rs, w_hub w) of
            (rs', h) \<Rightarrow> w\<lparr>w_offline := RedisOffline rs', w_hub := h\<rparr>)) }"

definition drainOffline :: "env \<Rightarrow> string \<Rightarrow> message list io" where
  "drainOffline V uid = do {
     n \<leftarrow> event;
     State (\<lambda>w. case w_offline w of
       HubOffline \<Rightarrow> (case DrainOffline uid (w_hub w) of (ms, h) \<Rightarrow> (ms, w\<lparr>w_hub := h\<rparr>))
     | RedisOffline rs \<Rightarrow>
         (case RedisDrainOffline (e_unm V) (e_out V n) uid (rs, w_hub w) of
            (ms, rs', h) \<Rightarrow> (ms, w\<lparr>w_offline := RedisOffline rs', w_hub := h\<rparr>))) }"

section \<open>Duplicate filter, unread counters\<close>

definition isDuplicate :: "env \<Rightarrow> string \<Rightarrow> int \<Rightarrow> (bool \<times> int) io" where
  "isDuplicate V uid sq = do {
     n \<leftarrow> event;
     t \<leftarrow> now V;
     State (\<lambda>w. case IsDuplicate (e_get V n) t uid sq (w_dedup w) of (r, d) \<Rightarrow> (r, w\<lparr>w_dedup := d\<rparr>)) }"

definition mark :: "env \<Rightarrow> string \<Rightarrow> int \<Rightarrow> int \<Rightarrow> unit io" where
  "mark V uid sq i = do {
     t \<leftarrow> now V;
     modify (\<lambda>w. w\<lparr>w_dedup := Mark t uid sq i (w_dedup w)\<rparr>) }"

definition unreadIncrement :: "string \<Rightarrow> string \<Rightarrow> unit io" where
  "unreadIncrement toUID fromUID =
     modify (\<lambda>w. w\<lparr>w_unreadTracker := map_option (Increment toUID fromUID) (w_unreadTracker w)\<rparr>)"

definition unreadMarkRead :: "string \<Rightarrow> string \<Rightarrow> unit io" where
  "unreadMarkRead reader peer =
     modify (\<lambda>w. w\<lparr>w_unreadTracker := map_option (MarkRead reader peer) (w_unreadTracker w)\<rparr>)"

section \<open>Database, groups, logic service\<close>

text \<open>A call to the database: its fault plan is that of the event; the result and the tables.\<close>

definition dbCall :: "env \<Rightarrow> (faults \<Rightarrow> db \<Rightarrow> 'a \<times> db) \<Rightarrow> 'a io" where
  "dbCall V f = do {
     n \<leftarrow> event;
     State (\<lambda>w. case f (e_flt V n) (w_db w) of (r, d) \<Rightarrow> (r, w\<lparr>w_db := d\<rparr>)) }"

text \<open>A call to the logic service, which works on the same database.\<close>

definition logicCall :: "env \<Rightarrow> (rpc \<Rightarrow> faults \<Rightarrow> db \<Rightarrow> 'a \<times> db) \<Rightarrow> 'a io" where
  "logicCall V f = do {
     n \<leftarrow> event;
     State (\<lambda>w. case f (e_rpc V n) (e_flt V n) (w_db w) of (r, d) \<Rightarrow> (r, w\<lparr>w_db := d\<rparr>)) }"

text \<open>The group ID the logic service draws from its own generator when the next call reaches it.\<close>

definition logicNext :: "env \<Rightarrow> logic_server \<Rightarrow> int io" where
  "logicNext V s = State (\<lambda>w.
     case (lg_snow s, e_rpc V (w_calls w)) of
       (None, _) \<Rightarrow> (0, w)
     | (_, Some (_, False)) \<Rightarrow> (0, w)
     | (Some g, _) \<Rightarrow>
         (case Next (e_clock V) (w_tick w) g of
            (i, k, g') \<Rightarrow> (i, w\<lparr>w_tick := k, w_logic := Some (s\<lparr>lg_snow := Some g'\<rparr>)\<rparr>)))"

definition set_mem :: "groups_mem \<Rightarrow> world \<Rightarrow> world" where
  "set_mem gs w = w\<lparr>w_groupStore := Some (MemGroups gs)\<rparr>"

text \<open>
  A call on the \<open>GroupStore\<close> interface, dispatched on the implementation behind it. A nil interface
  is a panic; the router asks before it calls.
\<close>

definition groupOp ::
  "env \<Rightarrow> 'a \<Rightarrow> (groups_mem \<Rightarrow> 'a \<times> groups_mem) \<Rightarrow> (faults \<Rightarrow> db \<Rightarrow> 'a \<times> db) \<Rightarrow> 'a io" where
  "groupOp V nil mem sql = do {
     gst \<leftarrow> gets w_groupStore;
     case gst of
       None \<Rightarrow> do { modify (\<lambda>w. w\<lparr>w_panics := Suc (w_panics w)\<rparr>); State_Monad.return nil }
     | Some (MemGroups gs) \<Rightarrow> (case mem gs of (r, gs') \<Rightarrow> do { modify (set_mem gs'); State_Monad.return r })
     | Some SqlGroups \<Rightarrow> dbCall V sql }"

definition nil_groups :: group_error where
  "nil_groups = GroupErr ''nil pointer dereference''"

definition groupCreate :: "env \<Rightarrow> string \<Rightarrow> string \<Rightarrow> string list \<Rightarrow> (group_error + group) io" where
  "groupCreate V name ownerUID members = do {
     i \<leftarrow> snowNext V;
     nw \<leftarrow> nowMs V;
     groupOp V (Inl nil_groups) (GroupCreate (newGroupID i) nw name ownerUID members)
       (\<lambda>flt. SqlGroupCreate (e_sql V) flt (newGroupID i) nw name ownerUID members) }"

definition groupAddMember :: "env \<Rightarrow> string \<Rightarrow> string \<Rightarrow> group_error option io" where
  "groupAddMember V groupID uid = do {
     nw \<leftarrow> nowMs V;
     groupOp V (Some nil_groups) (AddMember groupID uid) (\<lambda>flt. SqlAddMember (e_sql V) flt nw groupID uid) }"

definition groupRemoveMember :: "env \<Rightarrow> string \<Rightarrow> string \<Rightarrow> group_error option io" where
  "groupRemoveMember V groupID uid =
     groupOp V (Some nil_groups) (RemoveMember groupID uid) (\<lambda>flt. SqlRemoveMember (e_sql V) flt groupID uid)"

definition groupGetMembers :: "env \<Rightarrow> string \<Rightarrow> (group_error + string list) io" where
  "groupGetMembers V groupID =
     groupOp V (Inl nil_groups) (reading (GetMembers groupID)) (\<lambda>flt. reading (SqlGetMembers (e_sql V) flt groupID))"

definition groupGet :: "env \<Rightarrow> string \<Rightarrow> (group_error + group) io" where
  "groupGet V groupID =
     groupOp V (Inl nil_groups) (reading (GroupGet groupID)) (\<lambda>flt. reading (SqlGroupGet (e_sql V) flt groupID))"

definition groupGetUserGroups :: "env \<Rightarrow> string \<Rightarrow> (group_error + group list) io" where
  "groupGetUserGroups V uid =
     groupOp V (Inl nil_groups) (reading (\<lambda>gs. Inr (GetUserGroups uid gs)))
       (\<lambda>flt. reading (SqlGetUserGroups (e_sql V) flt uid))"

definition hasGroups :: "bool io" where
  "hasGroups = gets (\<lambda>w. w_groupStore w \<noteq> None)"

section \<open>Other gateways\<close>

text \<open>\<open>Forwarder.Forward\<close>: what was handed over is recorded, the answer is the environment's.\<close>

definition forward :: "env \<Rightarrow> string \<Rightarrow> message \<Rightarrow> (string + bool) io" where
  "forward V uid msg = do {
     n \<leftarrow> event;
     modify (\<lambda>w. w\<lparr>w_forwarded := w_forwarded w @ [(uid, msg)]\<rparr>);
     State_Monad.return (e_fwd V n uid msg) }"

definition ringGet :: "string \<Rightarrow> string io" where
  "ringGet uid = gets (\<lambda>w. case w_hashRing w of None \<Rightarrow> [] | Some h \<Rightarrow> Get uid h)"

end
