(* ===== verification/Router.thy ===== *)
theory Router
  imports World
begin

text \<open>
  The message router, \<open>internal/gateway/router.go\<close>: one computation per method, over the state of
  \<open>World\<close>. An early return is the branch that does nothing more; log output is left out. The
  sender is the address of its connection. Lemmas and properties are in \<open>Router_Delivery\<close> and
  the theories after it.
\<close>

section \<open>Configuration\<close>

definition persistQueueCap :: nat where "persistQueueCap = 1024"

record router_config =
  rc_DedupTTL :: int
  rc_PersistConcurrency :: int
  rc_RecallWindowMs :: int
  rc_HistoryDefaultLimit :: int
  rc_SearchDefaultLimit :: int
  rc_RateLimitCleanup :: int

abbreviation minute :: int where
  "minute \<equiv> 60000000000"

definition DefaultRouterConfig :: router_config where
  "DefaultRouterConfig = \<lparr>rc_DedupTTL = 5 * minute, rc_PersistConcurrency = 64, rc_RecallWindowMs = 120000,
    rc_HistoryDefaultLimit = 30, rc_SearchDefaultLimit = 20, rc_RateLimitCleanup = 5 * minute\<rparr>"

text \<open>
  The router's part of the state; hub, offline store, generator and message store are given.
  The number of persistence workers only says how many \<open>persistWorker\<close> steps may run at a time.
\<close>

definition NewRouter :: "heap \<Rightarrow> hub \<Rightarrow> offline \<Rightarrow> generator \<Rightarrow> db \<Rightarrow> bool \<Rightarrow> router_config \<Rightarrow> world" where
  "NewRouter objs clients off snow d msgStore cfg =
    \<lparr>w_tick = 0, w_calls = 0, w_objs = objs, w_hub = clients, w_offline = off, w_snow = snow,
     w_dedup = NewDedupCache (if rc_DedupTTL cfg \<le> 0 then 5 * minute else rc_DedupTTL cfg),
     w_rateLimit = None, w_db = d, w_msgStore = msgStore, w_friendStore = False, w_kafka = False, w_kafkaLog = [],
     w_logic = None, w_hashRing = None, w_forwarder = False, w_thisNodeID = [], w_forwarded = [],
     w_groupStore = None, w_unreadTracker = None, w_metrics = [], w_persistTasks = [], w_persistDone = False,
     w_recallWindow = rc_RecallWindowMs cfg, w_historyLimit = rc_HistoryDefaultLimit cfg,
     w_searchLimit = rc_SearchDefaultLimit cfg, w_rlCleanup = rc_RateLimitCleanup cfg, w_panics = 0\<rparr>"

definition SetKafkaProducer :: "bool \<Rightarrow> world \<Rightarrow> world" where "SetKafkaProducer p w = w\<lparr>w_kafka := p\<rparr>"
definition SetLogicClient :: "logic_server option \<Rightarrow> world \<Rightarrow> world" where "SetLogicClient c w = w\<lparr>w_logic := c\<rparr>"
definition SetHashRing :: "hashring option \<Rightarrow> world \<Rightarrow> world" where "SetHashRing hr w = w\<lparr>w_hashRing := hr\<rparr>"
definition SetForwarder :: "bool \<Rightarrow> world \<Rightarrow> world" where "SetForwarder f w = w\<lparr>w_forwarder := f\<rparr>"
definition SetThisNodeID :: "string \<Rightarrow> world \<Rightarrow> world" where "SetThisNodeID i w = w\<lparr>w_thisNodeID := i\<rparr>"
definition SetGroupStore :: "groups option \<Rightarrow> world \<Rightarrow> world" where "SetGroupStore gs w = w\<lparr>w_groupStore := gs\<rparr>"
definition SetUnreadTracker :: "unread_mem option \<Rightarrow> world \<Rightarrow> world" where "SetUnreadTracker u w = w\<lparr>w_unreadTracker := u\<rparr>"
definition SetDedupRedis :: "world \<Rightarrow> world" where "SetDedupRedis w = w\<lparr>w_dedup := SetRedis (w_dedup w)\<rparr>"
definition SetFriendStore :: "bool \<Rightarrow> world \<Rightarrow> world" where "SetFriendStore fs w = w\<lparr>w_friendStore := fs\<rparr>"

definition SetRateLimit :: "env \<Rightarrow> int \<Rightarrow> int \<Rightarrow> world \<Rightarrow> world" where
  "SetRateLimit V rate burst w =
    (if rate > 0 then
       w\<lparr>w_rateLimit := Some (NewRateLimiter (e_rnd V) rate (if burst \<le> 0 then i64 (rate * 2) else burst) (w_rlCleanup w))\<rparr>
     else w\<lparr>w_rateLimit := None\<rparr>)"

definition Stop :: "world \<Rightarrow> world" where
  "Stop w = w\<lparr>w_dedup := DedupStop (w_dedup w), w_rateLimit := map_option RLStop (w_rateLimit w), w_persistDone := True\<rparr>"

definition RateLimitStats :: "world \<Rightarrow> int \<times> int" where
  "RateLimitStats w = (case w_rateLimit w of None \<Rightarrow> (0, 0) | Some rl \<Rightarrow> (Allowed rl, Rejected rl))"

definition DedupMarks :: "world \<Rightarrow> int" where
  "DedupMarks w = Marks (w_dedup w)"

section \<open>Persistence\<close>

definition persistAsync :: "message \<Rightarrow> unit io" where
  "persistAsync msg = do {
     w \<leftarrow> gets id;
     if \<not> w_kafka w \<and> \<not> w_msgStore w then skip
     else if length (w_persistTasks w) < persistQueueCap
     then modify (\<lambda>w. w\<lparr>w_persistTasks := w_persistTasks w @ [msg]\<rparr>)
     else metric MPersistQueueDrop }"

text \<open>
  \<open>Producer.Publish\<close> of \<open>internal/mq/producer.go\<close>: a record with the message ID in big-endian order as
  its key. A failed write is only logged.
\<close>

definition PutUint64 :: "64 word \<Rightarrow> bytes" where
  "PutUint64 v = map (\<lambda>i. char_of (unat v div 256 ^ i)) [7, 6, 5, 4, 3, 2, 1, 0]"

definition Publish :: "env \<Rightarrow> message \<Rightarrow> unit io" where
  "Publish V msg =
     (case e_mar V msg of
        None \<Rightarrow> skip
      | Some data \<Rightarrow> do {
          n \<leftarrow> event;
          on (e_pub V n) (modify (\<lambda>w. w\<lparr>w_kafkaLog := w_kafkaLog w @ [(PutUint64 (word_of_int (m_msgId msg)), data)]\<rparr>)) })"

definition doPersist :: "env \<Rightarrow> message \<Rightarrow> unit io" where
  "doPersist V msg = do {
     w \<leftarrow> gets id;
     on (w_kafka w) (Publish V msg);
     on (w_msgStore w) (do {
       r \<leftarrow> dbCall V (\<lambda>flt. Save flt msg);
       case r of Some _ \<Rightarrow> metric MPersistFail | None \<Rightarrow> metric MPersistSuccess }) }"

text \<open>One turn of a worker that takes the first task of the queue.\<close>

definition persistWorker :: "env \<Rightarrow> unit io" where
  "persistWorker V = do {
     tasks \<leftarrow> gets w_persistTasks;
     case tasks of
       [] \<Rightarrow> skip
     | msg # rest \<Rightarrow> do { modify (\<lambda>w. w\<lparr>w_persistTasks := rest\<rparr>); doPersist V msg } }"

definition checkRateLimit :: "env \<Rightarrow> string \<Rightarrow> bool io" where
  "checkRateLimit V uid = do {
     rl \<leftarrow> gets w_rateLimit;
     case rl of
       None \<Rightarrow> State_Monad.return False
     | Some rl \<Rightarrow> do {
         t \<leftarrow> now V;
         case Allow (e_rnd V) t uid rl of (ok, rl') \<Rightarrow> do {
           modify (\<lambda>w. w\<lparr>w_rateLimit := Some rl'\<rparr>);
           State_Monad.return (\<not> ok) } } }"

definition routerSearch :: "env \<Rightarrow> search_params \<Rightarrow> (string + search_result option) io" where
  "routerSearch V p = do {
     ms \<leftarrow> gets w_msgStore;
     if \<not> ms then State_Monad.return (Inr None)
     else do {
       r \<leftarrow> dbCall V (\<lambda>flt. reading (SearchMessages (e_sql V) flt (Some p)));
       State_Monad.return (map_sum id Some r) } }"

section \<open>Delivery\<close>

text \<open>A composite literal with \<open>MsgId: r.snow.Next()\<close> and \<open>Timestamp: time.Now().UnixMilli()\<close>.\<close>

definition stamped :: "env \<Rightarrow> message \<Rightarrow> message io" where
  "stamped V m = do {
     i \<leftarrow> snowNext V;
     t \<leftarrow> nowMs V;
     State_Monad.return (m\<lparr>m_msgId := i, m_timestamp := t\<rparr>) }"

definition reply :: "env \<Rightarrow> addr \<Rightarrow> message \<Rightarrow> unit io" where
  "reply V sender m = do { m' \<leftarrow> stamped V m; sendTo V sender m' }"

definition routeOrStoreOffline :: "env \<Rightarrow> string \<Rightarrow> message \<Rightarrow> unit io" where
  "routeOrStoreOffline V targetUID msg = do {
     w \<leftarrow> gets id;
     if w_hashRing w = None \<or> w_thisNodeID w = [] then storeOffline V targetUID msg
     else do {
       ownerNode \<leftarrow> ringGet targetUID;
       if ownerNode = [] \<or> ownerNode = w_thisNodeID w then storeOffline V targetUID msg
       else if \<not> w_forwarder w then storeOffline V targetUID msg
       else do {
         r \<leftarrow> forward V targetUID msg;
         case r of Inl _ \<Rightarrow> storeOffline V targetUID msg | Inr _ \<Rightarrow> skip } } }"

text \<open>The loop body of both fan-outs.\<close>

definition fanoutMember :: "env \<Rightarrow> string \<Rightarrow> message \<Rightarrow> string \<Rightarrow> unit io" where
  "fanoutMember V senderUID msg memberUID =
     (if memberUID = senderUID then skip
      else do {
        target \<leftarrow> clientsGet memberUID;
        case target of
          Some t \<Rightarrow> do {
            metric MGroupFanoutSend;
            e \<leftarrow> send V t msg;
            case e of
              Some _ \<Rightarrow> do { metric MDeliveryFailure; storeOffline V memberUID msg }
            | None \<Rightarrow> metric (MDelivered ''group'') }
        | None \<Rightarrow> routeOrStoreOffline V memberUID msg })"

definition fanoutGroupWithMembers :: "env \<Rightarrow> string \<Rightarrow> message \<Rightarrow> string list \<Rightarrow> unit io" where
  "fanoutGroupWithMembers V senderUID msg members = for_each members (fanoutMember V senderUID msg)"

definition fanoutGroup :: "env \<Rightarrow> string \<Rightarrow> message \<Rightarrow> unit io" where
  "fanoutGroup V senderUID msg = do {
     r \<leftarrow> groupGetMembers V (m_to msg);
     case r of Inl _ \<Rightarrow> skip | Inr members \<Rightarrow> for_each members (fanoutMember V senderUID msg) }"

text \<open>The steps \<open>handleForward\<close> and \<open>handleEdit\<close> share with each other: group, online or elsewhere.\<close>

definition deliver :: "env \<Rightarrow> string \<Rightarrow> message \<Rightarrow> unit io" where
  "deliver V senderUID msg = do {
     g \<leftarrow> hasGroups;
     if m_chatType msg = ChatTypeGroup \<and> g then fanoutGroup V senderUID msg
     else do {
       target \<leftarrow> clientsGet (m_to msg);
       case target of
         Some t \<Rightarrow> do {
           e \<leftarrow> send V t msg;
           case e of Some _ \<Rightarrow> storeOffline V (m_to msg) msg | None \<Rightarrow> skip }
       | None \<Rightarrow> routeOrStoreOffline V (m_to msg) msg } }"

text \<open>The unread counters after a message of \<open>senderUID\<close>, counted under the name \<open>fromUID\<close>.\<close>

definition countUnread :: "env \<Rightarrow> string \<Rightarrow> string \<Rightarrow> message \<Rightarrow> unit io" where
  "countUnread V senderUID fromUID msg = do {
     w \<leftarrow> gets id;
     on (w_unreadTracker w \<noteq> None) (
       if m_chatType msg = ChatTypeGroup \<and> w_groupStore w \<noteq> None then do {
         r \<leftarrow> groupGetMembers V (m_to msg);
         case r of
           Inl _ \<Rightarrow> skip
         | Inr members \<Rightarrow> for_each members (\<lambda>m. on (m \<noteq> senderUID) (unreadIncrement m fromUID)) }
       else on (m_to msg \<noteq> fromUID) (unreadIncrement (m_to msg) fromUID)) }"

text \<open>Messages sent one by one until the first error; how many were sent.\<close>

fun sendUntilError :: "env \<Rightarrow> addr \<Rightarrow> message list \<Rightarrow> nat io" where
  "sendUntilError V a [] = State_Monad.return 0"
| "sendUntilError V a (m # ms) = do {
     e \<leftarrow> send V a m;
     case e of
       Some _ \<Rightarrow> State_Monad.return 0
     | None \<Rightarrow> do { n \<leftarrow> sendUntilError V a ms; State_Monad.return (Suc n) } }"

section \<open>Chat, heartbeat, offline messages\<close>

definition handleHeartbeat :: "env \<Rightarrow> addr \<Rightarrow> unit io" where
  "handleHeartbeat V sender = reply V sender (msg0\<lparr>m_cmd := CmdHeartbeat\<rparr>)"

definition ack :: "int \<Rightarrow> int \<Rightarrow> string \<Rightarrow> int \<Rightarrow> message" where
  "ack msgID sq toUID t = msg0\<lparr>m_cmd := CmdAck, m_msgId := msgID, m_seq := sq, m_to := toUID, m_timestamp := t\<rparr>"

definition sendAck :: "env \<Rightarrow> addr \<Rightarrow> string \<Rightarrow> message \<Rightarrow> unit io" where
  "sendAck V sender uid msg = do {
     t \<leftarrow> nowMs V;
     sendTo V sender (ack (m_msgId msg) (m_seq msg) uid t) }"

definition ChatTypeStr :: "message \<Rightarrow> string" where
  "ChatTypeStr msg = (if m_chatType msg = ChatTypeGroup then ''group'' else ''single'')"

text \<open>The delivery of a chat message with its marks in the duplicate filter.\<close>

definition deliverChat :: "env \<Rightarrow> string \<Rightarrow> string \<Rightarrow> message \<Rightarrow> unit io" where
  "deliverChat V chatType uid msg = do {
     g \<leftarrow> hasGroups;
     let markIt = on (m_seq msg > 0) (mark V uid (m_seq msg) (m_msgId msg));
     if m_chatType msg = ChatTypeGroup \<and> g then do { fanoutGroup V uid msg; markIt }
     else do {
       target \<leftarrow> clientsGet (m_to msg);
       case target of
         Some t \<Rightarrow> do {
           e \<leftarrow> send V t msg;
           case e of
             Some _ \<Rightarrow> do { metric MDeliveryFailure; storeOffline V (m_to msg) msg }
           | None \<Rightarrow> do { metric (MDelivered chatType); markIt } }
       | None \<Rightarrow> do { routeOrStoreOffline V (m_to msg) msg; markIt } } }"

definition chatDuplicate :: "env \<Rightarrow> addr \<Rightarrow> string \<Rightarrow> message \<Rightarrow> bool io" where
  "chatDuplicate V sender uid msg =
     (if m_seq msg > 0 then do {
        r \<leftarrow> isDuplicate V uid (m_seq msg);
        if fst r then do {
          on (m_needAck msg) (do {
            t \<leftarrow> nowMs V;
            sendTo V sender (ack (snd r) (m_seq msg) uid t) });
          metric MDuplicateDropped;
          State_Monad.return True }
        else State_Monad.return False }
      else State_Monad.return False)"

text \<open>What happens to a chat message that is new, valid and within the rate.\<close>

definition acceptChat :: "env \<Rightarrow> addr \<Rightarrow> string \<Rightarrow> gotime \<Rightarrow> message \<Rightarrow> unit io" where
  "acceptChat V sender uid start msg0' = do {
     msg \<leftarrow> stamped V msg0';
     deliverChat V (ChatTypeStr msg) uid msg;
     countUnread V uid (m_from msg) msg;
     on (m_needAck msg) (do {
       sendAck V sender uid msg;
       t \<leftarrow> now V;
       metric (MDeliveredDuration (ChatTypeStr msg) (time_sub t start)) });
     persistAsync msg }"

definition handleChat :: "env \<Rightarrow> addr \<Rightarrow> message \<Rightarrow> unit io" where
  "handleChat V sender msg = do {
     uid \<leftarrow> uid_of sender;
     metric (MReceived (ChatTypeStr msg));
     start \<leftarrow> now V;
     dup \<leftarrow> chatDuplicate V sender uid msg;
     if dup \<or> Validate msg \<noteq> None then skip
     else do {
       limited \<leftarrow> checkRateLimit V uid;
       if limited then skip else acceptChat V sender uid start msg } }"

definition handleOffline :: "env \<Rightarrow> addr \<Rightarrow> unit io" where
  "handleOffline V sender = do {
     uid \<leftarrow> uid_of sender;
     msgs \<leftarrow> drainOffline V uid;
     if msgs = [] then reply V sender (msg0\<lparr>m_cmd := CmdOffline\<rparr>)
     else do {
       delivered \<leftarrow> sendUntilError V sender msgs;
       for_each (drop delivered msgs) (storeOffline V uid) } }"

section \<open>History, receipts, unread counts, search\<close>

definition done_msg :: "int \<Rightarrow> message" where
  "done_msg cmd = msg0\<lparr>m_cmd := cmd\<rparr>"

definition queryHistory :: "env \<Rightarrow> string \<Rightarrow> message \<Rightarrow> int \<Rightarrow> int \<Rightarrow> (string + message list) io" where
  "queryHistory V uid msg before limit = do {
     w \<leftarrow> gets id;
     if m_chatType msg = ChatTypeGroup then
       if w_msgStore w then dbCall V (\<lambda>flt. reading (QueryGroupHistory (e_sql V) flt (m_to msg) before limit))
       else State_Monad.return (Inr [])
     else
       case w_logic w of
         Some s \<Rightarrow> do {
           nw \<leftarrow> nowMs V;
           logicCall V (\<lambda>rpc flt. reading (ClientQueryHistory rpc (e_sql V) flt nw s uid (m_to msg) before limit)) }
       | None \<Rightarrow>
           if w_msgStore w then dbCall V (\<lambda>flt. reading (QueryHistory (e_sql V) flt uid (m_to msg) before limit))
           else State_Monad.return (Inr []) }"

definition handleHistory :: "env \<Rightarrow> addr \<Rightarrow> message \<Rightarrow> unit io" where
  "handleHistory V sender msg =
     (if Validate msg \<noteq> None then skip
      else do {
        uid \<leftarrow> uid_of sender;
        w \<leftarrow> gets id;
        let limit = (if m_seq msg \<le> 0 then w_historyLimit w else m_seq msg);
        let limit = (if limit > 100 then 100 else limit);
        before \<leftarrow> (if m_timestamp msg \<le> 0 then nowMs V else State_Monad.return (m_timestamp msg));
        r \<leftarrow> queryHistory V uid msg before limit;
        case r of
          Inl _ \<Rightarrow> reply V sender (done_msg CmdHistory)
        | Inr msgs \<Rightarrow>
            if \<not> w_msgStore w \<and> w_logic w = None then reply V sender (done_msg CmdHistory)
            else do {
              delivered \<leftarrow> sendUntilError V sender msgs;
              reply V sender ((done_msg CmdHistory)\<lparr>m_seq := int delivered\<rparr>) } })"

definition clearUnread :: "env \<Rightarrow> string \<Rightarrow> string \<Rightarrow> unit io" where
  "clearUnread V uid peerUID = do {
     w \<leftarrow> gets id;
     case w_logic w of
       Some s \<Rightarrow> do {
         e \<leftarrow> logicCall V (\<lambda>rpc flt. MarkReadClient rpc (e_sql V) flt s uid peerUID);
         case e of Some _ \<Rightarrow> unreadMarkRead uid peerUID | None \<Rightarrow> skip }
     | None \<Rightarrow> unreadMarkRead uid peerUID }"

definition handleReadReceipt :: "env \<Rightarrow> addr \<Rightarrow> message \<Rightarrow> unit io" where
  "handleReadReceipt V sender msg = do {
     uid \<leftarrow> uid_of sender;
     let peerUID = m_to msg;
     if peerUID = [] \<or> peerUID = uid then skip
     else do {
       clearUnread V uid peerUID;
       receipt \<leftarrow> stamped V (msg0\<lparr>m_cmd := CmdReadReceipt, m_from := uid, m_to := peerUID, m_seq := m_msgId msg\<rparr>);
       target \<leftarrow> clientsGet peerUID;
       case target of
         Some t \<Rightarrow> sendTo V t receipt
       | None \<Rightarrow> do {
           w \<leftarrow> gets id;
           ownerNode \<leftarrow> ringGet peerUID;
           on (w_hashRing w \<noteq> None \<and> w_thisNodeID w \<noteq> [] \<and> ownerNode \<noteq> [] \<and>
               ownerNode \<noteq> w_thisNodeID w \<and> w_forwarder w)
             (do { _ \<leftarrow> forward V peerUID receipt; skip }) } } }"

definition json_counts :: "string \<Rightarrow> (string, int) gomap \<Rightarrow> json" where
  "json_counts uid cnts =
    JObj [(''counts'', json_map (map (\<lambda>(p, n). (p, JInt n)) cnts)), (''uid'', JStr uid)]"

definition handleUnreadCount :: "env \<Rightarrow> addr \<Rightarrow> unit io" where
  "handleUnreadCount V sender = do {
     uid \<leftarrow> uid_of sender;
     w \<leftarrow> gets id;
     remote \<leftarrow> (case w_logic w of
       Some s \<Rightarrow> do {
         r \<leftarrow> logicCall V (\<lambda>rpc flt. reading (GetUnreadCountsClient rpc (e_sql V) flt s uid));
         State_Monad.return (case r of Inl _ \<Rightarrow> [] | Inr m \<Rightarrow> m) }
     | None \<Rightarrow> State_Monad.return []);
     let cnts = (case w_unreadTracker w of
       Some u \<Rightarrow> if remote = [] then GetCounts uid u else remote
     | None \<Rightarrow> remote);
     reply V sender (msg0\<lparr>m_cmd := CmdUnreadCount, m_to := uid, m_content := json_marshal (json_counts uid cnts)\<rparr>) }"

text \<open>
  \<open>json.Unmarshal\<close> into \<open>SearchParams\<close>, whose fields have no tags: keys match the field names up
  to case. \<open>None\<close> is an error.
\<close>

definition no_params :: search_params where
  "no_params = \<lparr>s_UID = [], s_Query = [], s_Peer = [], s_ChatType = 0, s_MsgType = 0, s_Before = 0, s_After = 0,
    s_Limit = 0, s_Cursor = 0\<rparr>"

definition decodeSearch :: "string \<Rightarrow> search_params option" where
  "decodeSearch content =
    (case struct_members content of
       None \<Rightarrow> None
     | Some kvs \<Rightarrow>
         let (uid, b1) = fill_string ''UID'' kvs; (q, b2) = fill_string ''Query'' kvs; (peer, b3) = fill_string ''Peer'' kvs;
             (ct, b4) = fill_int 32 ''ChatType'' kvs; (mt, b5) = fill_int 32 ''MsgType'' kvs;
             (bf, b6) = fill_int 64 ''Before'' kvs; (af, b7) = fill_int 64 ''After'' kvs;
             (lim, b8) = fill_int 64 ''Limit'' kvs; (cur, b9) = fill_int 64 ''Cursor'' kvs
         in if b1 \<or> b2 \<or> b3 \<or> b4 \<or> b5 \<or> b6 \<or> b7 \<or> b8 \<or> b9 then None
            else Some \<lparr>s_UID = uid, s_Query = q, s_Peer = peer, s_ChatType = ct, s_MsgType = mt, s_Before = bf,
              s_After = af, s_Limit = lim, s_Cursor = cur\<rparr>)"

definition searchError :: "env \<Rightarrow> addr \<Rightarrow> string \<Rightarrow> unit io" where
  "searchError V sender content = reply V sender (msg0\<lparr>m_cmd := CmdSearch, m_content := content\<rparr>)"

definition runSearch :: "env \<Rightarrow> search_params \<Rightarrow> (string + search_result option) io" where
  "runSearch V p = do {
     l \<leftarrow> gets w_logic;
     case l of
       Some s \<Rightarrow> do {
         r \<leftarrow> logicCall V (\<lambda>rpc flt. reading (ClientSearchMessages rpc (e_sql V) flt s p));
         State_Monad.return (map_sum id Some r) }
     | None \<Rightarrow> routerSearch V p }"

definition handleSearch :: "env \<Rightarrow> addr \<Rightarrow> message \<Rightarrow> unit io" where
  "handleSearch V sender msg = do {
     uid \<leftarrow> uid_of sender;
     searchLimit \<leftarrow> gets w_searchLimit;
     case (if m_content msg \<noteq> [] then decodeSearch (m_content msg) else Some no_params) of
       None \<Rightarrow> searchError V sender ''{\"error\":\"invalid search params\"}''
     | Some p \<Rightarrow> do {
         let limit = (if s_Limit p \<le> 0 then searchLimit else s_Limit p);
         let limit = (if limit > 50 then 50 else limit);
         r \<leftarrow> runSearch V (p\<lparr>s_UID := uid, s_Limit := limit\<rparr>);
         case r of
           Inl _ \<Rightarrow> searchError V sender ''{\"error\":\"search failed\"}''
         | Inr None \<Rightarrow> reply V sender (done_msg CmdSearch)
         | Inr (Some result) \<Rightarrow>
             if sr_Messages result = [] then reply V sender (done_msg CmdSearch)
             else do {
               delivered \<leftarrow> sendUntilError V sender (sr_Messages result);
               reply V sender ((done_msg CmdSearch)\<lparr>m_seq := int delivered,
                 m_content := json_marshal (JObj [(''delivered'', JInt (int delivered)),
                   (''next_cursor'', JInt (sr_NextCursor result))])\<rparr>) } } }"

section \<open>Groups\<close>

definition sendGroupError :: "env \<Rightarrow> addr \<Rightarrow> int \<Rightarrow> string \<Rightarrow> unit io" where
  "sendGroupError V sender cmd errMsg =
     reply V sender (msg0\<lparr>m_cmd := cmd, m_content := json_marshal (JObj [(''error'', JStr errMsg)])\<rparr>)"

text \<open>
  \<open>members\<close> is a slice, \<open>None\<close> the nil slice: then the members come from the local group store, and
  without one the call panics before anything is stored.
\<close>

definition sendGroupNotificationWithMembers :: "env \<Rightarrow> string \<Rightarrow> string \<Rightarrow> string \<Rightarrow> string list option \<Rightarrow> unit io" where
  "sendGroupNotificationWithMembers V fromUID groupID notifType members = do {
     notif \<leftarrow> stamped V (msg0\<lparr>m_cmd := CmdChat, m_from := fromUID, m_to := groupID, m_chatType := ChatTypeGroup,
       m_msgType := MsgTypeText,
       m_content := json_marshal (JObj [(''group_id'', JStr groupID), (''type'', JStr notifType), (''uid'', JStr fromUID)])\<rparr>);
     sender \<leftarrow> clientsGet fromUID;
     senderUID \<leftarrow> (case sender of Some a \<Rightarrow> uid_of a | None \<Rightarrow> State_Monad.return fromUID);
     g \<leftarrow> hasGroups;
     case members of
       Some ms \<Rightarrow> do { fanoutGroupWithMembers V senderUID notif ms; persistAsync notif }
     | None \<Rightarrow>
         if g then do { fanoutGroup V senderUID notif; persistAsync notif }
         else modify (\<lambda>w. w\<lparr>w_panics := Suc (w_panics w)\<rparr>) }"

definition sendGroupNotification :: "env \<Rightarrow> string \<Rightarrow> string \<Rightarrow> string \<Rightarrow> unit io" where
  "sendGroupNotification V fromUID groupID notifType =
     sendGroupNotificationWithMembers V fromUID groupID notifType None"

definition json_group :: "int \<Rightarrow> string \<Rightarrow> string list option \<Rightarrow> string \<Rightarrow> string \<Rightarrow> json" where
  "json_group createdAt gid members name owner =
    JObj [(''created_at'', JInt createdAt), (''id'', JStr gid), (''members'', json_strings members),
          (''name'', JStr name), (''owner_uid'', JStr owner)]"

text \<open>A slice from a repeated field: empty is nil.\<close>

definition repeated :: "string list \<Rightarrow> string list option" where
  "repeated xs = (if xs = [] then None else Some xs)"

definition membersOrNil :: "group_error + string list \<Rightarrow> string list option" where
  "membersOrNil r = (case r of Inl _ \<Rightarrow> None | Inr ms \<Rightarrow> Some ms)"

text \<open>\<open>json.Unmarshal\<close> into the request of \<open>CmdGroupCreate\<close>; \<open>None\<close> is an error.\<close>

definition decodeCreate :: "string \<Rightarrow> (string \<times> string list) option" where
  "decodeCreate content =
    (case struct_members content of
       None \<Rightarrow> None
     | Some kvs \<Rightarrow>
         let (name, b1) = fill_string ''name'' kvs; (members, b2) = fill_strings ''members'' kvs
         in if b1 \<or> b2 then None else Some (name, members))"

text \<open>The loop that adds the initial members through the logic service; who was added.\<close>

fun joinAll :: "env \<Rightarrow> logic_server \<Rightarrow> string \<Rightarrow> string \<Rightarrow> string list \<Rightarrow> string list io" where
  "joinAll V s gid ownerUID [] = State_Monad.return []"
| "joinAll V s gid ownerUID (m # ms) =
     (if m = [] \<or> m = ownerUID then joinAll V s gid ownerUID ms
      else do {
        nw \<leftarrow> nowMs V;
        e \<leftarrow> logicCall V (\<lambda>rpc flt. JoinGroupClient rpc (e_sql V) flt nw s gid m);
        rest \<leftarrow> joinAll V s gid ownerUID ms;
        State_Monad.return (case e of Some _ \<Rightarrow> rest | None \<Rightarrow> m # rest) })"

definition createLocal :: "env \<Rightarrow> addr \<Rightarrow> string \<Rightarrow> string \<Rightarrow> string list \<Rightarrow> unit io" where
  "createLocal V sender uid name members = do {
     g \<leftarrow> hasGroups;
     if \<not> g then sendGroupError V sender CmdGroupCreate ''group chat not enabled''
     else do {
       r \<leftarrow> groupCreate V name uid members;
       case r of
         Inl e \<Rightarrow> sendGroupError V sender CmdGroupCreate (group_error_text e)
       | Inr grp \<Rightarrow> do {
           r \<leftarrow> groupGetMembers V (g_ID grp);
           let ms = membersOrNil r;
           reply V sender (msg0\<lparr>m_cmd := CmdGroupCreate, m_content :=
             json_marshal (json_group (g_CreatedAt grp) (g_ID grp) ms (g_Name grp) (g_OwnerUID grp))\<rparr>);
           on (members \<noteq> []) (sendGroupNotificationWithMembers V uid (g_ID grp) ''member_joined'' ms) } } }"

definition createRemote :: "env \<Rightarrow> addr \<Rightarrow> logic_server \<Rightarrow> string \<Rightarrow> string \<Rightarrow> string list \<Rightarrow> unit io" where
  "createRemote V sender s uid name members = do {
     i \<leftarrow> logicNext V s;
     nw \<leftarrow> nowMs V;
     r \<leftarrow> logicCall V (\<lambda>rpc flt. CreateGroupClient rpc (e_sql V) flt (newGroupID i) nw s name uid);
     case r of
       Inl e \<Rightarrow> sendGroupError V sender CmdGroupCreate e
     | Inr None \<Rightarrow> createLocal V sender uid name members
     | Inr (Some g) \<Rightarrow> do {
         joined \<leftarrow> joinAll V s (gi_Id g) uid members;
         let ms = gi_Members g @ joined;
         reply V sender (msg0\<lparr>m_cmd := CmdGroupCreate, m_content :=
           json_marshal (json_group (gi_CreatedAt g) (gi_Id g) (repeated ms) (gi_Name g) (gi_OwnerUid g))\<rparr>);
         on (filter (\<lambda>m. m \<noteq> [] \<and> m \<noteq> uid) members \<noteq> [])
           (sendGroupNotificationWithMembers V uid (gi_Id g) ''member_joined'' (repeated ms)) } }"

definition handleGroupCreate :: "env \<Rightarrow> addr \<Rightarrow> message \<Rightarrow> unit io" where
  "handleGroupCreate V sender msg = do {
     uid \<leftarrow> uid_of sender;
     l \<leftarrow> gets w_logic;
     case (if m_content msg \<noteq> [] then decodeCreate (m_content msg) else Some ([], [])) of
       None \<Rightarrow> sendGroupError V sender CmdGroupCreate (''invalid request: '' @ e_jsonerr V (m_content msg))
     | Some (name, members) \<Rightarrow>
         if name = [] then sendGroupError V sender CmdGroupCreate ''group name is required''
         else
           case l of
             Some s \<Rightarrow> createRemote V sender s uid name members
           | None \<Rightarrow> createLocal V sender uid name members }"

definition need_group_id :: string where
  "need_group_id = ''group_id is required (set 'to' field)''"

definition json_joined :: "string \<Rightarrow> string list option \<Rightarrow> string \<Rightarrow> json" where
  "json_joined gid members uid = JObj [(''group_id'', JStr gid), (''members'', json_strings members), (''uid'', JStr uid)]"

text \<open>\<open>groupInfo, _ := GetGroupClient(...)\<close> and its members, the empty non-nil slice if there is none.\<close>

definition remoteMembers :: "env \<Rightarrow> logic_server \<Rightarrow> string \<Rightarrow> string list option io" where
  "remoteMembers V s groupID = do {
     r \<leftarrow> logicCall V (\<lambda>rpc flt. reading (GetGroupClient rpc (e_sql V) flt s groupID));
     State_Monad.return (case r of Inr (Some g) \<Rightarrow> repeated (gi_Members g) | _ \<Rightarrow> Some []) }"

definition handleGroupJoin :: "env \<Rightarrow> addr \<Rightarrow> message \<Rightarrow> unit io" where
  "handleGroupJoin V sender msg = do {
     uid \<leftarrow> uid_of sender;
     l \<leftarrow> gets w_logic;
     g \<leftarrow> hasGroups;
     let groupID = m_to msg;
     if groupID = [] then sendGroupError V sender CmdGroupJoin need_group_id
     else case l of
       Some s \<Rightarrow> do {
         nw \<leftarrow> nowMs V;
         e \<leftarrow> logicCall V (\<lambda>rpc flt. JoinGroupClient rpc (e_sql V) flt nw s groupID uid);
         case e of
           Some e \<Rightarrow> sendGroupError V sender CmdGroupJoin e
         | None \<Rightarrow> do {
             members \<leftarrow> remoteMembers V s groupID;
             reply V sender (msg0\<lparr>m_cmd := CmdGroupJoin, m_content := json_marshal (json_joined groupID members uid)\<rparr>);
             sendGroupNotificationWithMembers V uid groupID ''member_joined'' members } }
     | None \<Rightarrow>
         if \<not> g then sendGroupError V sender CmdGroupJoin ''group chat not enabled''
         else do {
           e \<leftarrow> groupAddMember V groupID uid;
           case e of
             Some e \<Rightarrow> sendGroupError V sender CmdGroupJoin (group_error_text e)
           | None \<Rightarrow> do {
               r \<leftarrow> groupGetMembers V groupID;
               reply V sender (msg0\<lparr>m_cmd := CmdGroupJoin, m_content := json_marshal (json_joined groupID (membersOrNil r) uid)\<rparr>);
               sendGroupNotification V uid groupID ''member_joined'' } } }"

definition decodeInvite :: "string \<Rightarrow> string option" where
  "decodeInvite content =
    (case struct_members content of
       None \<Rightarrow> None
     | Some kvs \<Rightarrow> let (t, bad) = fill_string ''target_uid'' kvs in if bad \<or> t = [] then None else Some t)"

definition json_invited :: "string \<Rightarrow> string \<Rightarrow> string list option \<Rightarrow> string \<Rightarrow> json" where
  "json_invited gid inviter members target =
    JObj [(''group_id'', JStr gid), (''inviter_uid'', JStr inviter), (''members'', json_strings members), (''target_uid'', JStr target)]"

definition not_owner_text :: string where
  "not_owner_text = ''only the group owner can invite members''"

text \<open>Go's source text is UTF-8: the dash in the message is three bytes.\<close>

definition self_invite_text :: string where
  "self_invite_text = ''cannot invite yourself '' @ [CHR 0xE2, CHR 0x80, CHR 0x94] @ '' use CmdGroupJoin instead''"

definition inviteRemote :: "env \<Rightarrow> addr \<Rightarrow> logic_server \<Rightarrow> string \<Rightarrow> string \<Rightarrow> string \<Rightarrow> unit io" where
  "inviteRemote V sender s uid groupID targetUID = do {
     let err = sendGroupError V sender CmdGroupInviteMember;
     r \<leftarrow> logicCall V (\<lambda>rpc flt. reading (GetGroupClient rpc (e_sql V) flt s groupID));
     case r of
       Inl e \<Rightarrow> err e
     | Inr None \<Rightarrow> err ''group not found''
     | Inr (Some g) \<Rightarrow>
         if gi_OwnerUid g \<noteq> uid then err not_owner_text
         else do {
           nw \<leftarrow> nowMs V;
           e \<leftarrow> logicCall V (\<lambda>rpc flt. JoinGroupClient rpc (e_sql V) flt nw s groupID targetUID);
           case e of
             Some e \<Rightarrow> err e
           | None \<Rightarrow> do {
               members \<leftarrow> remoteMembers V s groupID;
               reply V sender (msg0\<lparr>m_cmd := CmdGroupInviteMember,
                 m_content := json_marshal (json_invited groupID uid members targetUID)\<rparr>);
               sendGroupNotificationWithMembers V targetUID groupID ''member_joined'' members } } }"

definition inviteLocal :: "env \<Rightarrow> addr \<Rightarrow> string \<Rightarrow> string \<Rightarrow> string \<Rightarrow> unit io" where
  "inviteLocal V sender uid groupID targetUID = do {
     let err = sendGroupError V sender CmdGroupInviteMember;
     r \<leftarrow> groupGet V groupID;
     case r of
       Inl e \<Rightarrow> err (group_error_text e)
     | Inr g \<Rightarrow>
         if g_OwnerUID g \<noteq> uid then err not_owner_text
         else do {
           e \<leftarrow> groupAddMember V groupID targetUID;
           case e of
             Some e \<Rightarrow> err (group_error_text e)
           | None \<Rightarrow> do {
               r \<leftarrow> groupGetMembers V groupID;
               reply V sender (msg0\<lparr>m_cmd := CmdGroupInviteMember,
                 m_content := json_marshal (json_invited groupID uid (membersOrNil r) targetUID)\<rparr>);
               sendGroupNotification V targetUID groupID ''member_joined'' } } }"

definition handleGroupInviteMember :: "env \<Rightarrow> addr \<Rightarrow> message \<Rightarrow> unit io" where
  "handleGroupInviteMember V sender msg = do {
     uid \<leftarrow> uid_of sender;
     l \<leftarrow> gets w_logic;
     g \<leftarrow> hasGroups;
     let err = sendGroupError V sender CmdGroupInviteMember;
     if m_to msg = [] then err need_group_id
     else case decodeInvite (m_content msg) of
       None \<Rightarrow> err ''target_uid is required in content''
     | Some targetUID \<Rightarrow>
         if targetUID = uid then err self_invite_text
         else case l of
           Some s \<Rightarrow> inviteRemote V sender s uid (m_to msg) targetUID
         | None \<Rightarrow>
             if \<not> g then err ''group chat not enabled'' else inviteLocal V sender uid (m_to msg) targetUID }"

definition json_left :: "bool \<Rightarrow> string \<Rightarrow> string \<Rightarrow> json" where
  "json_left deleted gid uid = JObj [(''deleted'', JBool deleted), (''group_id'', JStr gid), (''uid'', JStr uid)]"

definition leaveRemote :: "env \<Rightarrow> addr \<Rightarrow> logic_server \<Rightarrow> string \<Rightarrow> string \<Rightarrow> unit io" where
  "leaveRemote V sender s uid groupID = do {
     r \<leftarrow> logicCall V (\<lambda>rpc flt. LeaveGroupClient rpc (e_sql V) flt s groupID uid);
     case r of
       Inl e \<Rightarrow> sendGroupError V sender CmdGroupLeave e
     | Inr deleted \<Rightarrow> do {
         reply V sender (msg0\<lparr>m_cmd := CmdGroupLeave, m_content := json_marshal (json_left deleted groupID uid)\<rparr>);
         on (\<not> deleted) (do {
           members \<leftarrow> remoteMembers V s groupID;
           sendGroupNotificationWithMembers V uid groupID ''member_left'' members }) } }"

definition leaveLocal :: "env \<Rightarrow> addr \<Rightarrow> string \<Rightarrow> string \<Rightarrow> unit io" where
  "leaveLocal V sender uid groupID = do {
     e \<leftarrow> groupRemoveMember V groupID uid;
     case e of
       Some e \<Rightarrow> sendGroupError V sender CmdGroupLeave (group_error_text e)
     | None \<Rightarrow> do {
         r \<leftarrow> groupGet V groupID;
         let wasDeleted = (case r of Inl _ \<Rightarrow> True | Inr _ \<Rightarrow> False);
         reply V sender (msg0\<lparr>m_cmd := CmdGroupLeave, m_content := json_marshal (json_left wasDeleted groupID uid)\<rparr>);
         on (\<not> wasDeleted) (sendGroupNotification V uid groupID ''member_left'') } }"

definition handleGroupLeave :: "env \<Rightarrow> addr \<Rightarrow> message \<Rightarrow> unit io" where
  "handleGroupLeave V sender msg = do {
     uid \<leftarrow> uid_of sender;
     l \<leftarrow> gets w_logic;
     g \<leftarrow> hasGroups;
     if m_to msg = [] then sendGroupError V sender CmdGroupLeave need_group_id
     else case l of
       Some s \<Rightarrow> leaveRemote V sender s uid (m_to msg)
     | None \<Rightarrow>
         if \<not> g then sendGroupError V sender CmdGroupLeave ''group chat not enabled''
         else leaveLocal V sender uid (m_to msg) }"

definition handleGroupInfo :: "env \<Rightarrow> addr \<Rightarrow> message \<Rightarrow> unit io" where
  "handleGroupInfo V sender msg = do {
     l \<leftarrow> gets w_logic;
     g \<leftarrow> hasGroups;
     let err = sendGroupError V sender CmdGroupInfo;
     let ok = (\<lambda>j. reply V sender (msg0\<lparr>m_cmd := CmdGroupInfo, m_content := json_marshal j\<rparr>));
     if m_to msg = [] then err need_group_id
     else case l of
       Some s \<Rightarrow> do {
         r \<leftarrow> logicCall V (\<lambda>rpc flt. reading (GetGroupClient rpc (e_sql V) flt s (m_to msg)));
         case r of
           Inl e \<Rightarrow> err e
         | Inr None \<Rightarrow> err ''group not found''
         | Inr (Some g) \<Rightarrow> ok (json_group (gi_CreatedAt g) (gi_Id g) (repeated (gi_Members g)) (gi_Name g) (gi_OwnerUid g)) }
     | None \<Rightarrow>
         if \<not> g then err ''group chat not enabled''
         else do {
           r \<leftarrow> groupGet V (m_to msg);
           case r of
             Inl e \<Rightarrow> err (group_error_text e)
           | Inr g \<Rightarrow> do {
               ms \<leftarrow> groupGetMembers V (m_to msg);
               ok (json_group (g_CreatedAt g) (g_ID g) (membersOrNil ms) (g_Name g) (g_OwnerUID g)) } } }"

text \<open>A struct is marshalled in the order of its fields.\<close>

definition json_summary :: "string \<Rightarrow> string \<Rightarrow> string \<Rightarrow> nat \<Rightarrow> int \<Rightarrow> json" where
  "json_summary gid name owner count createdAt =
    JObj [(''id'', JStr gid), (''name'', JStr name), (''owner_uid'', JStr owner),
          (''member_count'', JInt (int count)), (''created_at'', JInt createdAt)]"

definition json_group_list :: "json list \<Rightarrow> string \<Rightarrow> json" where
  "json_group_list summaries uid = JObj [(''groups'', JArr summaries), (''uid'', JStr uid)]"

definition handleGroupList :: "env \<Rightarrow> addr \<Rightarrow> unit io" where
  "handleGroupList V sender = do {
     uid \<leftarrow> uid_of sender;
     l \<leftarrow> gets w_logic;
     g \<leftarrow> hasGroups;
     let err = sendGroupError V sender CmdGroupList;
     let ok = (\<lambda>js. reply V sender (msg0\<lparr>m_cmd := CmdGroupList, m_content := json_marshal (json_group_list js uid)\<rparr>));
     case l of
       Some s \<Rightarrow> do {
         r \<leftarrow> logicCall V (\<lambda>rpc flt. reading (ListGroupsClient rpc (e_sql V) flt s uid));
         case r of
           Inl e \<Rightarrow> err e
         | Inr gs \<Rightarrow>
             ok (map (\<lambda>g. json_summary (gi_Id g) (gi_Name g) (gi_OwnerUid g) (length (gi_Members g)) (gi_CreatedAt g)) gs) }
     | None \<Rightarrow>
         if \<not> g then err ''group chat not enabled''
         else do {
           r \<leftarrow> groupGetUserGroups V uid;
           case r of
             Inl e \<Rightarrow> err (group_error_text e)
           | Inr gs \<Rightarrow>
               ok (map (\<lambda>g. json_summary (g_ID g) (g_Name g) (g_OwnerUID g) (length (g_Members g)) (g_CreatedAt g)) gs) } }"

section \<open>Friends\<close>

definition friend_notice :: "string \<Rightarrow> string" where
  "friend_notice uid = ''{\"from_uid\":\"'' @ uid @ ''\",\"username\":\"'' @ uid @ ''\"}''"

definition handleFriendRequest :: "env \<Rightarrow> addr \<Rightarrow> message \<Rightarrow> unit io" where
  "handleFriendRequest V sender msg = do {
     uid \<leftarrow> uid_of sender;
     fs \<leftarrow> gets w_friendStore;
     if \<not> fs \<or> m_to msg = [] \<or> m_to msg = uid then skip
     else do {
       nw \<leftarrow> nowMs V;
       e \<leftarrow> dbCall V (\<lambda>flt. SendRequest (e_sql V) flt nw uid (m_to msg));
       let toSender = (\<lambda>c. msg0\<lparr>m_cmd := CmdFriendRequest, m_from := m_to msg, m_to := uid, m_content := c\<rparr>);
       case e of
         Some e \<Rightarrow> reply V sender (toSender (json_marshal (JObj [(''error'', JStr e)])))
       | None \<Rightarrow> do {
           notify \<leftarrow> stamped V (msg0\<lparr>m_cmd := CmdFriendRequest, m_from := uid, m_to := m_to msg,
             m_content := friend_notice uid\<rparr>);
           routeOrStoreOffline V (m_to msg) notify;
           reply V sender (toSender ''{\"status\":\"sent\"}'') } } }"

text \<open>The action of a friend response: \<open>accept\<close> unless the content decodes to another one.\<close>

definition friendAction :: "string \<Rightarrow> string" where
  "friendAction content =
    (if content = [] then ''accept''
     else case struct_members content of
       None \<Rightarrow> ''accept''
     | Some kvs \<Rightarrow> let (x, bad) = fill_string ''action'' kvs in if bad \<or> x = [] then ''accept'' else x)"

definition friend_answer :: "string \<Rightarrow> string \<Rightarrow> string" where
  "friend_answer action uid = ''{\"action\":\"'' @ action @ ''\",\"from_uid\":\"'' @ uid @ ''\"}''"

definition handleFriendResponse :: "env \<Rightarrow> addr \<Rightarrow> message \<Rightarrow> unit io" where
  "handleFriendResponse V sender msg = do {
     uid \<leftarrow> uid_of sender;
     fs \<leftarrow> gets w_friendStore;
     let action = friendAction (m_content msg);
     if \<not> fs \<or> m_to msg = [] \<or> m_to msg = uid then skip
     else do {
       nw \<leftarrow> nowMs V;
       e \<leftarrow> (if action = ''accept'' then dbCall V (\<lambda>flt. AcceptRequest (e_sql V) flt nw uid (m_to msg))
            else if action = ''reject'' then dbCall V (\<lambda>flt. RejectRequest (e_sql V) flt nw uid (m_to msg))
            else State_Monad.return (Some (''unknown action: '' @ action)));
       case e of
         Some _ \<Rightarrow> skip
       | None \<Rightarrow> do {
           notify \<leftarrow> stamped V (msg0\<lparr>m_cmd := CmdFriendResponse, m_from := uid, m_to := m_to msg,
             m_content := friend_answer action uid\<rparr>);
           routeOrStoreOffline V (m_to msg) notify } } }"

section \<open>Typing, forwarding, editing, recalling\<close>

definition typingTo :: "env \<Rightarrow> message \<Rightarrow> string \<Rightarrow> unit io" where
  "typingTo V msg uid = do {
     target \<leftarrow> clientsGet uid;
     case target of Some t \<Rightarrow> sendTo V t msg | None \<Rightarrow> skip }"

definition handleTyping :: "env \<Rightarrow> addr \<Rightarrow> message \<Rightarrow> unit io" where
  "handleTyping V sender msg = do {
     uid \<leftarrow> uid_of sender;
     g \<leftarrow> hasGroups;
     if m_to msg = [] \<or> m_to msg = uid then skip
     else do {
       let msg = msg\<lparr>m_from := uid\<rparr>;
       if m_chatType msg \<noteq> ChatTypeGroup \<or> \<not> g then typingTo V msg (m_to msg)
       else do {
         r \<leftarrow> groupGetMembers V (m_to msg);
         case r of
           Inl _ \<Rightarrow> skip
         | Inr members \<Rightarrow> for_each members (\<lambda>m. on (m \<noteq> uid) (typingTo V msg m)) } } }"

definition handleForward :: "env \<Rightarrow> addr \<Rightarrow> message \<Rightarrow> unit io" where
  "handleForward V sender msg = do {
     uid \<leftarrow> uid_of sender;
     if Validate msg \<noteq> None \<or> m_to msg = uid \<or> m_content msg = [] then skip
     else do {
       msg \<leftarrow> stamped V (msg\<lparr>m_from := uid\<rparr>);
       deliver V uid msg;
       countUnread V uid uid msg;
       on (m_needAck msg) (sendAck V sender uid msg);
       persistAsync msg } }"

definition json_edited :: "int \<Rightarrow> string \<Rightarrow> json" where
  "json_edited msgID text = JObj [(''edited'', JBool True), (''msg_id'', JInt msgID), (''new_text'', JStr text)]"

definition handleEdit :: "env \<Rightarrow> addr \<Rightarrow> message \<Rightarrow> unit io" where
  "handleEdit V sender msg = do {
     uid \<leftarrow> uid_of sender;
     if Validate msg \<noteq> None \<or> m_to msg = uid then skip
     else if m_seq msg = 0 then
       reply V sender (msg0\<lparr>m_cmd := CmdEdit, m_to := uid, m_content := ''{\"error\":\"missing original message ID\"}''\<rparr>)
     else if m_content msg = [] then skip
     else do {
       msg' \<leftarrow> stamped V (msg\<lparr>m_from := uid\<rparr>);
       let msg'' = msg'\<lparr>m_content := json_marshal (json_edited (m_seq msg) (m_content msg))\<rparr>;
       deliver V uid msg'';
       ms \<leftarrow> gets w_msgStore;
       on ms (do {
         _ \<leftarrow> dbCall V (\<lambda>flt. UpdateMessageContent (e_sql V) flt (m_seq msg) uid (m_content msg''));
         skip }) } }"

definition sendRecallError :: "env \<Rightarrow> addr \<Rightarrow> string \<Rightarrow> string \<Rightarrow> unit io" where
  "sendRecallError V sender uid reason =
     reply V sender (msg0\<lparr>m_cmd := CmdRecall, m_to := uid, m_content := ''{\"error\":\"'' @ reason @ ''\"}''\<rparr>)"

definition recall_notice :: "int \<Rightarrow> string" where
  "recall_notice msgID = ''{\"recalled\":true,\"msg_id\":'' @ show_int msgID @ ''}''"

text \<open>The store marks the message; without a store there is nothing to mark.\<close>

definition recallStored :: "env \<Rightarrow> string \<Rightarrow> int \<Rightarrow> string option io" where
  "recallStored V uid msgID = do {
     w \<leftarrow> gets id;
     if w_msgStore w then do {
       nw \<leftarrow> nowMs V;
       dbCall V (\<lambda>flt. RecallMessage (e_sql V) flt nw msgID uid (w_recallWindow w)) }
     else State_Monad.return None }"

definition handleRecall :: "env \<Rightarrow> addr \<Rightarrow> message \<Rightarrow> unit io" where
  "handleRecall V sender msg = do {
     uid \<leftarrow> uid_of sender;
     if Validate msg \<noteq> None \<or> m_to msg = uid then skip
     else if m_seq msg = 0 then sendRecallError V sender uid ''missing original message ID''
     else do {
       e \<leftarrow> recallStored V uid (m_seq msg);
       case e of
         Some e \<Rightarrow> sendRecallError V sender uid e
       | None \<Rightarrow> do {
           msg' \<leftarrow> stamped V (msg\<lparr>m_from := uid, m_content := recall_notice (m_seq msg)\<rparr>);
           target \<leftarrow> clientsGet (m_to msg);
           case target of
             Some t \<Rightarrow> do {
               e \<leftarrow> send V t msg';
               case e of
                 Some _ \<Rightarrow> do { metric MDeliveryFailure; storeOffline V (m_to msg) msg' }
               | None \<Rightarrow> skip }
           | None \<Rightarrow> routeOrStoreOffline V (m_to msg) msg' } } }"

section \<open>Dispatch\<close>

definition Route :: "env \<Rightarrow> addr \<Rightarrow> message \<Rightarrow> unit io" where
  "Route V sender msg =
     (if Validate msg \<noteq> None then skip
      else do {
        metric (MCommand (m_cmd msg));
        let c = m_cmd msg;
        if c = CmdHeartbeat then handleHeartbeat V sender
        else if c = CmdChat then handleChat V sender msg
        else if c = CmdFile then handleChat V sender msg
        else if c = CmdOffline then handleOffline V sender
        else if c = CmdHistory then handleHistory V sender msg
        else if c = CmdReadReceipt then handleReadReceipt V sender msg
        else if c = CmdUnreadCount then handleUnreadCount V sender
        else if c = CmdSearch then handleSearch V sender msg
        else if c = CmdGroupCreate then handleGroupCreate V sender msg
        else if c = CmdGroupJoin then handleGroupJoin V sender msg
        else if c = CmdGroupInviteMember then handleGroupInviteMember V sender msg
        else if c = CmdGroupLeave then handleGroupLeave V sender msg
        else if c = CmdGroupInfo then handleGroupInfo V sender msg
        else if c = CmdGroupList then handleGroupList V sender
        else if c = CmdRecall then handleRecall V sender msg
        else if c = CmdFriendRequest then handleFriendRequest V sender msg
        else if c = CmdFriendResponse then handleFriendResponse V sender msg
        else if c = CmdTyping then handleTyping V sender msg
        else if c = CmdForward then handleForward V sender msg
        else if c = CmdEdit then handleEdit V sender msg
        else skip })"

end
