(* ===== verification/Router_Effects.thy ===== *)
theory Router_Effects
  imports Router
begin

text \<open>
  What a command may do to the state, proved once for all handlers. The locale \<open>message_effects\<close>
  takes a relation between the states before and after that every elementary effect keeps,
  forwarding to another gateway and storing in the history only for messages with the property
  \<open>P\<close>; delivery, fan-out and notifications then keep it too. Its extension \<open>router_effects\<close> adds the
  acting user \<open>U\<close> and the changes of groups open to him, and every handler keeps the relation;
  \<open>router_effects_all\<close> adds the one command by which a user changes the membership of another.
\<close>

locale message_effects = step_relation R for R :: "world \<Rightarrow> world \<Rightarrow> bool" +
  fixes V :: env and P :: "message \<Rightarrow> bool"
  assumes k_now: "keeps R (now V)" and k_next: "keeps R (snowNext V)" and k_lnext: "keeps R (logicNext V s)"
    and k_metric: "keeps R (metric x)" and k_send: "keeps R (send V b m)"
    and k_store: "keeps R (storeOffline V u m)" and k_drain: "keeps R (drainOffline V u)"
    and k_dup: "keeps R (isDuplicate V u sq)" and k_mark: "keeps R (mark V u sq i)"
    and k_incr: "keeps R (unreadIncrement u p)" and k_read: "keeps R (unreadMarkRead u p)"
    and k_rate: "keeps R (checkRateLimit V u)"
    and k_tables: "R w (w\<lparr>w_calls := k, w_db := d\<rparr>)" and k_panics: "R w (w\<lparr>w_panics := k\<rparr>)"
    and k_forward: "P m \<Longrightarrow> keeps R (forward V u m)" and k_persist: "P m \<Longrightarrow> keeps R (persistAsync m)"
begin

lemma keeps_stamped:
  "(\<And>i t. keeps R (f (m\<lparr>m_msgId := i, m_timestamp := t\<rparr>))) \<Longrightarrow> keeps R (State_Monad.bind (stamped V m) f)"
  unfolding stamped_def nowMs_def
  by (simp add: State_Monad.bind_assoc) (intro keeps_bind k_now k_next)

lemma keeps_nowMs: "keeps R (nowMs V)"
  unfolding nowMs_def by (intro keeps_bind k_now keeps_return)

lemma keeps_sendTo: "keeps R (sendTo V b m)"
  unfolding sendTo_def by (intro keeps_bind k_send keeps_skip)

lemma keeps_reply: "keeps R (reply V b m)"
  unfolding reply_def by (intro keeps_stamped keeps_sendTo)

lemma keeps_dbCall: "keeps R (dbCall V f)"
  by (rule keepsI) (simp add: dbCall_def event_def run_simps k_tables split: prod.split)

lemma keeps_logicCall: "keeps R (logicCall V f)"
  by (rule keepsI) (simp add: logicCall_def event_def run_simps k_tables split: prod.split)

lemma keeps_panic: "keeps R (modify (\<lambda>w. w\<lparr>w_panics := Suc (w_panics w)\<rparr>))"
  by (rule keepsI) (simp add: run_simps k_panics)

text \<open>Looking at the groups changes none of them.\<close>

lemma keeps_view: "keeps R (groupOp V n (reading f) q)"
proof (rule keepsI)
  fix w
  show "R w (post (groupOp V n (reading f) q) w)"
  proof (cases "w_groupStore w")
    case None
    then show ?thesis by (simp add: groupOp_def run_simps k_panics)
  next
    case (Some gst)
    have same: "w\<lparr>w_groupStore := Some gst\<rparr> = w" by (simp flip: Some)
    show ?thesis
    proof (cases gst)
      case (MemGroups gs)
      with Some have "post (groupOp V n (reading f) q) w = w\<lparr>w_groupStore := Some gst\<rparr>"
        by (simp add: groupOp_def run_simps set_mem_def)
      then show ?thesis unfolding same by (simp only: R_refl)
    next
      case SqlGroups
      with Some show ?thesis using keepsD [OF keeps_dbCall, of w q] by (simp add: groupOp_def run_simps)
    qed
  qed
qed

lemma keeps_members: "keeps R (groupGetMembers V g)" "keeps R (groupGet V g)" "keeps R (groupGetUserGroups V u)"
  unfolding groupGetMembers_def groupGet_def groupGetUserGroups_def by (rule keeps_view)+

lemma keeps_look: "keeps R (clientsGet u)" "keeps R hasGroups" "keeps R (ringGet u)" "keeps R (uid_of b)"
  unfolding clientsGet_def hasGroups_def ringGet_def uid_of_def by (rule keeps_gets)+

lemmas elementary =
  k_now k_next k_lnext k_metric k_send k_store k_drain k_dup k_mark k_incr k_read k_rate keeps_dbCall keeps_logicCall
  keeps_panic
  keeps_nowMs keeps_sendTo keeps_reply keeps_members keeps_look

lemma keeps_routeOrStoreOffline: "P m \<Longrightarrow> keeps R (routeOrStoreOffline V u m)"
  unfolding routeOrStoreOffline_def by (intro keeps_rules elementary k_forward)

lemma keeps_fanoutMember: "P m \<Longrightarrow> keeps R (fanoutMember V u m x)"
  unfolding fanoutMember_def by (intro keeps_rules elementary keeps_routeOrStoreOffline)

lemma keeps_fanout: "P m \<Longrightarrow> keeps R (fanoutGroup V u m)" "P m \<Longrightarrow> keeps R (fanoutGroupWithMembers V u m ms)"
  unfolding fanoutGroup_def fanoutGroupWithMembers_def by (intro keeps_rules elementary keeps_fanoutMember; assumption)+

lemma keeps_deliver: "P m \<Longrightarrow> keeps R (deliver V u m)"
  unfolding deliver_def by (intro keeps_rules elementary keeps_fanout keeps_routeOrStoreOffline)

lemma keeps_countUnread: "keeps R (countUnread V u f m)"
  unfolding countUnread_def by (intro keeps_rules elementary)

lemma keeps_sendUntilError: "keeps R (sendUntilError V b ms)"
  by (induction ms) (auto intro!: keeps_rules k_send)

lemma keeps_notification:
  "P (msg0\<lparr>m_from := f\<rparr>) \<Longrightarrow> (\<And>m. m_from m = f \<Longrightarrow> P m) \<Longrightarrow>
    keeps R (sendGroupNotificationWithMembers V f g n ms)"
  unfolding sendGroupNotificationWithMembers_def
  by (intro keeps_stamped keeps_rules elementary keeps_fanout k_persist) simp_all

lemma keeps_sendGroupError: "keeps R (sendGroupError V b c e)"
  unfolding sendGroupError_def by (rule keeps_reply)

end

locale router_effects = message_effects R V P
  for R :: "world \<Rightarrow> world \<Rightarrow> bool" and V :: env and a :: addr and U :: string and P :: "message \<Rightarrow> bool" +
  assumes acting: "c_UID (w_objs w a) \<noteq> U \<Longrightarrow> R w w'"
    and own_messages: "m_from m = U \<Longrightarrow> P m"
    and k_create: "keeps R (groupCreate V name U ms)"
    and k_join: "keeps R (groupAddMember V g U)" and k_leave: "keeps R (groupRemoveMember V g U)"
begin

lemma keeps_uid: "keeps R (f U) \<Longrightarrow> keeps R (State_Monad.bind (uid_of a) f)"
proof (rule keepsI)
  fix w assume k: "keeps R (f U)"
  show "R w (post (State_Monad.bind (uid_of a) f) w)"
  proof (cases "c_UID (w_objs w a) = U")
    case True
    then show ?thesis using keepsD [OF k, of w] by (simp add: uid_of_def run_simps)
  qed (rule acting)
qed

lemma keeps_own_notification:
  "keeps R (sendGroupNotificationWithMembers V U g n ms)" "keeps R (sendGroupNotification V U g n)"
  unfolding sendGroupNotification_def by (auto intro!: keeps_notification own_messages)

lemmas composed =
  elementary k_create k_join k_leave keeps_routeOrStoreOffline keeps_fanout keeps_deliver keeps_countUnread keeps_sendUntilError
  keeps_own_notification keeps_sendGroupError k_persist

lemma keeps_handleChat:
  "(\<And>i t. P (m\<lparr>m_msgId := i, m_timestamp := t\<rparr>)) \<Longrightarrow> keeps R (handleChat V a m)"
  unfolding handleChat_def chatDuplicate_def acceptChat_def deliverChat_def sendAck_def Let_def
  by (intro keeps_uid keeps_stamped keeps_rules composed) assumption+


lemma keeps_handleRecall: "keeps R (handleRecall V a m)"
  unfolding handleRecall_def recallStored_def sendRecallError_def Let_def
  by (intro keeps_uid keeps_stamped keeps_rules composed own_messages) simp_all

lemma keeps_handleForward: "keeps R (handleForward V a m)"
  unfolding handleForward_def sendAck_def Let_def
  by (intro keeps_uid keeps_stamped keeps_rules composed own_messages) simp_all

lemma keeps_handleEdit: "keeps R (handleEdit V a m)"
  unfolding handleEdit_def Let_def
  by (intro keeps_uid keeps_stamped keeps_rules composed own_messages) simp_all

lemma keeps_handleTyping: "keeps R (handleTyping V a m)"
  unfolding handleTyping_def typingTo_def Let_def by (intro keeps_uid keeps_rules composed)

lemma keeps_handleFriendRequest: "keeps R (handleFriendRequest V a m)"
  unfolding handleFriendRequest_def Let_def
  by (intro keeps_uid keeps_stamped keeps_rules composed own_messages) simp_all

lemma keeps_handleFriendResponse: "keeps R (handleFriendResponse V a m)"
  unfolding handleFriendResponse_def Let_def
  by (intro keeps_uid keeps_stamped keeps_rules composed own_messages) simp_all

lemma keeps_handleOffline: "keeps R (handleOffline V a)"
  unfolding handleOffline_def by (intro keeps_uid keeps_rules composed)

lemma keeps_handleHistory: "keeps R (handleHistory V a m)"
  unfolding handleHistory_def queryHistory_def Let_def by (intro keeps_uid keeps_rules composed)

lemma keeps_handleReadReceipt: "keeps R (handleReadReceipt V a m)"
  unfolding handleReadReceipt_def clearUnread_def Let_def
  by (intro keeps_uid keeps_stamped keeps_rules composed own_messages k_forward) simp_all

lemma keeps_handleUnreadCount: "keeps R (handleUnreadCount V a)"
  unfolding handleUnreadCount_def Let_def by (intro keeps_uid keeps_rules composed)

lemma keeps_handleSearch: "keeps R (handleSearch V a m)"
  unfolding handleSearch_def searchError_def runSearch_def routerSearch_def Let_def
  by (intro keeps_uid keeps_rules composed)

lemma keeps_joinAll: "keeps R (joinAll V s g u ms)"
  by (induction ms) (auto intro!: keeps_rules composed)

lemma keeps_remoteMembers: "keeps R (remoteMembers V s g)"
  unfolding remoteMembers_def by (intro keeps_rules composed)

lemma keeps_handleGroupCreate: "keeps R (handleGroupCreate V a m)"
  unfolding handleGroupCreate_def createRemote_def createLocal_def Let_def
  by (intro keeps_uid keeps_rules composed keeps_joinAll)

lemma keeps_handleGroupJoin: "keeps R (handleGroupJoin V a m)"
  unfolding handleGroupJoin_def Let_def by (intro keeps_uid keeps_rules composed keeps_remoteMembers)

lemma keeps_handleGroupLeave: "keeps R (handleGroupLeave V a m)"
  unfolding handleGroupLeave_def leaveRemote_def leaveLocal_def Let_def
  by (intro keeps_uid keeps_rules composed keeps_remoteMembers)

lemma keeps_handleGroupInfo: "keeps R (handleGroupInfo V a m)"
  unfolding handleGroupInfo_def Let_def by (intro keeps_uid keeps_rules composed)

lemma keeps_handleGroupList: "keeps R (handleGroupList V a)"
  unfolding handleGroupList_def Let_def by (intro keeps_uid keeps_rules composed)

lemmas handlers =
  keeps_handleChat keeps_handleRecall keeps_handleForward keeps_handleEdit keeps_handleTyping
  keeps_handleFriendRequest keeps_handleFriendResponse keeps_handleOffline keeps_handleHistory
  keeps_handleReadReceipt keeps_handleUnreadCount keeps_handleSearch keeps_handleGroupCreate
  keeps_handleGroupJoin keeps_handleGroupLeave keeps_handleGroupInfo keeps_handleGroupList

text \<open>Every command but the invitation.\<close>

lemma keeps_Route:
  "(\<And>i t. P (m\<lparr>m_msgId := i, m_timestamp := t\<rparr>)) \<Longrightarrow> m_cmd m \<noteq> CmdGroupInviteMember \<Longrightarrow> keeps R (Route V a m)"
  unfolding Route_def handleHeartbeat_def Let_def by (intro keeps_rules handlers k_metric keeps_reply; simp)

end

locale router_effects_all = router_effects +
  assumes any_message: "P m" and k_invite: "keeps R (inviteLocal V a U g t)"
begin

lemma keeps_handleGroupInviteMember: "keeps R (handleGroupInviteMember V a m)"
  unfolding handleGroupInviteMember_def inviteRemote_def Let_def
  by (intro keeps_uid keeps_rules composed keeps_remoteMembers keeps_notification k_invite any_message)

lemma keeps_every_Route: "keeps R (Route V a m)"
  using keeps_Route [of m, OF any_message] keeps_handleGroupInviteMember k_metric
  by (cases "m_cmd m = CmdGroupInviteMember")
    (auto simp: Route_def Let_def cmd_defs intro!: keeps_if keeps_skip keeps_bind)

end

section \<open>How the elementary computations run\<close>

lemma run_now [run_simps]: "run_state (now V) w = (read_clock (e_clock V) (w_tick w), w\<lparr>w_tick := Suc (w_tick w)\<rparr>)"
  by (simp add: now_def)

lemma run_nowMs [run_simps]: "run_state (nowMs V) w = (now_ms (e_clock V) (w_tick w), w\<lparr>w_tick := Suc (w_tick w)\<rparr>)"
  by (simp add: nowMs_def now_ms_def run_simps)

lemma run_event [run_simps]: "run_state event w = (w_calls w, w\<lparr>w_calls := Suc (w_calls w)\<rparr>)"
  by (simp add: event_def)

lemma run_metric [run_simps]: "run_state (metric m) w = ((), w\<lparr>w_metrics := w_metrics w @ [m]\<rparr>)"
  by (simp add: metric_def run_simps)

lemma run_snowNext [run_simps]:
  "run_state (snowNext V) w = (let (i, k, g) = Next (e_clock V) (w_tick w) (w_snow w) in (i, w\<lparr>w_tick := k, w_snow := g\<rparr>))"
  by (simp add: snowNext_def split: prod.split)

lemma run_send [run_simps]:
  "run_state (send V a m) w = (let (e, c) = Send (e_mar V) (e_pick V (w_calls w)) m (w_objs w a)
     in (e, w\<lparr>w_calls := Suc (w_calls w), w_objs := (w_objs w)(a := c)\<rparr>))"
  by (simp add: send_def run_simps split: prod.split)

lemma run_clientsGet [run_simps]: "run_state (clientsGet u) w = (HubGet u (w_hub w), w)"
  by (simp add: clientsGet_def run_simps)

lemma run_uid_of [run_simps]: "run_state (uid_of a) w = (c_UID (w_objs w a), w)"
  by (simp add: uid_of_def run_simps)

lemma run_hasGroups [run_simps]: "run_state hasGroups w = (w_groupStore w \<noteq> None, w)"
  by (simp add: hasGroups_def run_simps)

lemma run_ringGet [run_simps]: "run_state (ringGet u) w = (case w_hashRing w of None \<Rightarrow> [] | Some h \<Rightarrow> Get u h, w)"
  by (simp add: ringGet_def run_simps)

lemma run_storeOffline_hub [run_simps]:
  "w_offline w = HubOffline \<Longrightarrow>
    run_state (storeOffline V u m) w = ((), w\<lparr>w_calls := Suc (w_calls w), w_hub := StoreOffline u m (w_hub w)\<rparr>)"
  by (simp add: storeOffline_def run_simps)

lemma run_drainOffline_hub [run_simps]:
  "w_offline w = HubOffline \<Longrightarrow>
    run_state (drainOffline V u) w = (offline_queue (w_hub w) u,
      w\<lparr>w_calls := Suc (w_calls w), w_hub := snd (DrainOffline u (w_hub w))\<rparr>)"
  by (simp add: drainOffline_def run_simps DrainOffline_def)

lemma run_forward [run_simps]:
  "run_state (forward V u m) w = (e_fwd V (w_calls w) u m,
    w\<lparr>w_calls := Suc (w_calls w), w_forwarded := w_forwarded w @ [(u, m)]\<rparr>)"
  by (simp add: forward_def run_simps)

lemma run_mark [run_simps]:
  "run_state (mark V u s i) w = ((), w\<lparr>w_tick := Suc (w_tick w), w_dedup := Mark (read_clock (e_clock V) (w_tick w)) u s i (w_dedup w)\<rparr>)"
  by (simp add: mark_def run_simps)

lemma run_isDuplicate [run_simps]:
  "run_state (isDuplicate V u s) w =
    (let (r, d) = IsDuplicate (e_get V (w_calls w)) (read_clock (e_clock V) (w_tick w)) u s (w_dedup w)
     in (r, w\<lparr>w_calls := Suc (w_calls w), w_tick := Suc (w_tick w), w_dedup := d\<rparr>))"
  by (simp add: isDuplicate_def run_simps split: prod.split)

lemma run_unread [run_simps]:
  "run_state (unreadIncrement u p) w = ((), w\<lparr>w_unreadTracker := map_option (Increment u p) (w_unreadTracker w)\<rparr>)"
  "run_state (unreadMarkRead u p) w = ((), w\<lparr>w_unreadTracker := map_option (MarkRead u p) (w_unreadTracker w)\<rparr>)"
  by (simp_all add: unreadIncrement_def unreadMarkRead_def run_simps)

lemma run_persistAsync [run_simps]:
  "run_state (persistAsync m) w = ((),
    if \<not> w_kafka w \<and> \<not> w_msgStore w then w
    else if length (w_persistTasks w) < persistQueueCap then w\<lparr>w_persistTasks := w_persistTasks w @ [m]\<rparr>
    else w\<lparr>w_metrics := w_metrics w @ [MPersistQueueDrop]\<rparr>)"
  by (simp add: persistAsync_def run_simps)

section \<open>Parts of the state an elementary computation leaves alone\<close>

text \<open>The parts the relations of the router theories speak about, without the hub's queues.\<close>

definition quiet :: "world \<Rightarrow> world \<Rightarrow> bool" where
  "quiet w w' \<longleftrightarrow> (\<forall>x. c_UID (w_objs w' x) = c_UID (w_objs w x)) \<and> h_clients (w_hub w') = h_clients (w_hub w) \<and>
    w_persistTasks w' = w_persistTasks w \<and> w_forwarded w' = w_forwarded w \<and> w_groupStore w' = w_groupStore w"

lemma StoreOffline_clients [simp]: "h_clients (StoreOffline u m h) = h_clients h"
  by (simp add: StoreOffline_def Let_def)

lemma DrainOffline_clients [simp]: "h_clients (snd (DrainOffline u h)) = h_clients h"
  by (simp add: DrainOffline_def)

lemma Redis_clients:
  "h_clients (snd (RedisStoreOffline mar out u m (rs, h))) = h_clients h"
  "h_clients (snd (snd (RedisDrainOffline unm out u (rs, h)))) = h_clients h"
  by (auto simp: RedisStoreOffline_def RedisDrainOffline_def Let_def DrainOffline_def split: option.split prod.split)

lemma Send_UID: "c_UID (snd (Send mar pick m c)) = c_UID c"
  by (auto simp: Send_def split: option.split)

lemma quiet_elementary:
  "keeps quiet (now V)" "keeps quiet (snowNext V)" "keeps quiet (logicNext V s)" "keeps quiet (metric x)"
  "keeps quiet (isDuplicate V u sq)" "keeps quiet (mark V u sq i)"
  "keeps quiet (unreadIncrement u p)" "keeps quiet (unreadMarkRead u p)"
  by (auto intro!: keepsI simp: quiet_def run_simps logicNext_def Let_def
      split: prod.splits option.splits bool.splits)

lemma quiet_send: "keeps quiet (send V b m)"
  using Send_UID [of "e_mar V" _ m]
  by (auto intro!: keepsI simp: quiet_def run_simps Let_def split: prod.split) (metis snd_conv)

lemma quiet_rate: "keeps quiet (checkRateLimit V u)"
  by (auto intro!: keepsI simp: quiet_def checkRateLimit_def run_simps split: option.split prod.split)

lemma quiet_store: "keeps quiet (storeOffline V u m)"
proof (rule keepsI)
  fix w
  show "quiet w (post (storeOffline V u m) w)"
  proof (cases "w_offline w")
    case (RedisOffline rs)
    then show ?thesis using Redis_clients(1) [of "e_mar V" "e_out V (w_calls w)" u m rs "w_hub w"]
      by (auto simp: quiet_def storeOffline_def run_simps split: prod.splits)
  qed (simp add: quiet_def run_simps)
qed

lemma quiet_drain: "keeps quiet (drainOffline V u)"
proof (rule keepsI)
  fix w
  show "quiet w (post (drainOffline V u) w)"
  proof (cases "w_offline w")
    case (RedisOffline rs)
    then show ?thesis using Redis_clients(2) [of "e_unm V" "e_out V (w_calls w)" u rs "w_hub w"]
      by (auto simp: quiet_def drainOffline_def run_simps split: prod.splits)
  qed (simp add: quiet_def run_simps)
qed

lemmas quiet_effects = quiet_elementary quiet_send quiet_rate quiet_store quiet_drain

lemma keeps_mono: "keeps Q m \<Longrightarrow> Q \<le> R \<Longrightarrow> keeps R m"
  by (auto simp: keeps_def le_fun_def)

lemma keeps_quiet:
  assumes "quiet \<le> R"
  shows "keeps R (now V)" "keeps R (snowNext V)" "keeps R (logicNext V s)" "keeps R (metric x)"
    "keeps R (isDuplicate V u sq)" "keeps R (mark V u sq i)" "keeps R (unreadIncrement u p)"
    "keeps R (unreadMarkRead u p)" "keeps R (send V b m)" "keeps R (checkRateLimit V u)"
    "keeps R (storeOffline V u m)" "keeps R (drainOffline V u)"
  by (rule keeps_mono [OF _ assms], rule quiet_effects)+

text \<open>A call on the groups changes nothing but the groups, the tables and the counters of the run.\<close>

lemma groupOp_frame:
  "\<exists>k d p g. post (groupOp V n mem sql) w = w\<lparr>w_calls := k, w_db := d, w_panics := p, w_groupStore := g\<rparr>"
proof (cases "w_groupStore w")
  case None
  then have "post (groupOp V n mem sql) w =
      w\<lparr>w_calls := w_calls w, w_db := w_db w, w_panics := Suc (w_panics w), w_groupStore := w_groupStore w\<rparr>"
    by (simp add: groupOp_def run_simps)
  then show ?thesis by blast
next
  case (Some gst)
  show ?thesis
  proof (cases gst)
    case (MemGroups gs)
    with Some have "post (groupOp V n mem sql) w =
        w\<lparr>w_calls := w_calls w, w_db := w_db w, w_panics := w_panics w, w_groupStore := Some (MemGroups (snd (mem gs)))\<rparr>"
      by (simp add: groupOp_def run_simps set_mem_def split: prod.split)
    then show ?thesis by blast
  next
    case SqlGroups
    with Some have "post (groupOp V n mem sql) w =
        w\<lparr>w_calls := Suc (w_calls w), w_db := snd (sql (e_flt V (w_calls w)) (w_db w)), w_panics := w_panics w,
          w_groupStore := w_groupStore w\<rparr>"
      by (simp add: groupOp_def dbCall_def run_simps split: prod.split)
    then show ?thesis by blast
  qed
qed

lemma keeps_groupOp: "(\<And>w k d p g. R w (w\<lparr>w_calls := k, w_db := d, w_panics := p, w_groupStore := g\<rparr>)) \<Longrightarrow> keeps R (groupOp V n mem sql)"
  by (rule keepsI) (metis groupOp_frame)

text \<open>The operations on groups, for a relation that group calls keep.\<close>

locale world_relation = step_relation R for R :: "world \<Rightarrow> world \<Rightarrow> bool" +
  fixes V :: env
  assumes time_R: "keeps R (now V)" and next_R: "keeps R (snowNext V)"
begin

lemma keeps_groupCreate:
  "(\<And>i nw. keeps R (groupOp V (Inl nil_groups) (GroupCreate (newGroupID i) nw name u ms)
      (\<lambda>flt. SqlGroupCreate (e_sql V) flt (newGroupID i) nw name u ms))) \<Longrightarrow> keeps R (groupCreate V name u ms)"
  unfolding groupCreate_def nowMs_def by (intro keeps_bind keeps_return time_R next_R)

lemma keeps_groupAddMember:
  "(\<And>nw. keeps R (groupOp V (Some nil_groups) (AddMember g u) (\<lambda>flt. SqlAddMember (e_sql V) flt nw g u))) \<Longrightarrow>
    keeps R (groupAddMember V g u)"
  unfolding groupAddMember_def nowMs_def by (intro keeps_bind keeps_return time_R)

end

end
