(* ===== verification/Router_Demo.thy ===== *)
theory Router_Demo
  imports Router
begin

text \<open>
  A small gateway on which the router's theorems are instantiated: alice is connected with
  connection 2 and bob with connection 3, both are members of a group that alice owns, messages
  are persisted, and no call fails. \<open>full_gate\<close> is the same gateway with bob's send queue full,
  \<open>late_gate\<close> the same after alice's message with sequence number 7 was handled.
\<close>

definition gate_env :: env where
  "gate_env = \<lparr>e_clock = pace_clock 1704067200005 2, e_mar = demo_mar, e_unm = (\<lambda>d. Some (msg0\<lparr>m_content := d\<rparr>)),
    e_rnd = (\<lambda>x. x), e_sql = demo_env, e_pick = (\<lambda>_. False), e_flt = (\<lambda>_. no_faults), e_out = (\<lambda>_. Replied),
    e_get = (\<lambda>_ _. None), e_rpc = (\<lambda>_. None), e_fwd = (\<lambda>_ _ _. Inr True), e_pub = (\<lambda>_. True),
    e_jsonerr = (\<lambda>_. ''invalid character'')\<rparr>"

definition gate :: world where
  "gate = (NewRouter demo_heap ((NewHub 5)\<lparr>h_clients := [(''alice'', 2), (''bob'', 3)]\<rparr>) HubOffline
      \<lparr>workerID = 1, sequence = 0, lastStamp = 0\<rparr> migrate True DefaultRouterConfig)
    \<lparr>w_groupStore := Some (MemGroups demo_groups)\<rparr>"

definition gate_chat :: message where
  "gate_chat = msg0\<lparr>m_cmd := CmdChat, m_from := ''alice'', m_to := ''bob'', m_content := ''hello'', m_seq := 7, m_needAck := True\<rparr>"

definition full_gate :: world where
  "full_gate = gate\<lparr>w_objs := demo_heap(3 := (demo_heap 3)\<lparr>c_send := [''1'', ''2'', ''3'', ''4'']\<rparr>)\<rparr>"

definition late_gate :: world where
  "late_gate = gate\<lparr>w_dedup := Mark \<lparr>wall = 0, mono = 0\<rparr> ''alice'' 7 99 (w_dedup gate)\<rparr>"

lemma demo_uids [simp]: "c_UID (demo_heap 2) = ''alice''" "c_UID (demo_heap 3) = ''bob''"
  by (simp_all add: demo_heap_def NewClient_def)

lemma gate_simps [simp]:
  "w_objs gate = demo_heap" "w_hub gate = (NewHub 5)\<lparr>h_clients := [(''alice'', 2), (''bob'', 3)]\<rparr>"
  "w_offline gate = HubOffline" "w_groupStore gate = Some (MemGroups demo_groups)" "w_rateLimit gate = None"
  "w_persistTasks gate = []" "w_forwarded gate = []" "w_dedup gate = NewDedupCache (5 * minute)"
  "w_unreadTracker gate = None" "w_logic gate = None" "w_msgStore gate" "w_calls gate = 0" "w_tick gate = 0"
  by (simp_all add: gate_def NewRouter_def DefaultRouterConfig_def)

lemma gate_chat_simps [simp]:
  "m_from gate_chat = ''alice''" "m_to gate_chat = ''bob''" "m_cmd gate_chat = CmdChat" "m_seq gate_chat = 7"
  "m_needAck gate_chat" "m_chatType gate_chat = 0" "Validate gate_chat = None" "m_content gate_chat = ''hello''"
  by (simp_all add: gate_chat_def msg0_def Validate_def CmdChat_def CmdNone_def CmdEdit_def)

lemma chat_not_group [simp]: "(0::int) \<noteq> ChatTypeGroup"
  by (simp add: ChatTypeGroup_def)

lemma gate_hub: "hub_ok (w_hub gate) (w_objs gate)"
  by (simp add: hub_ok_def own_uids_def offline_queue_def NewHub_def)

end
