(* ===== verification/Router_Safety.thy ===== *)
theory Router_Safety
  imports Router_Effects Router_Demo
begin

text \<open>
  Safety of the router over all commands, by interpretation of the effect locales: nobody can
  put messages of others into the history or send them to another gateway, the invariant of the
  state is kept, and group membership changes only with authority.
\<close>

section \<open>No forged messages\<close>

definition honest :: "addr \<Rightarrow> string \<Rightarrow> world \<Rightarrow> world \<Rightarrow> bool" where
  "honest a U w w' \<longleftrightarrow> (c_UID (w_objs w a) = U \<longrightarrow> c_UID (w_objs w' a) = U \<and>
    (\<exists>p f. w_persistTasks w' = w_persistTasks w @ p \<and> w_forwarded w' = w_forwarded w @ f \<and>
      (\<forall>m \<in> set p. m_from m = U) \<and> (\<forall>x \<in> set f. m_from (snd x) = U)))"

lemma quiet_honest: "quiet \<le> honest a U"
  by (simp add: le_fun_def quiet_def honest_def)

lemma honest_trans: "honest a U w w' \<Longrightarrow> honest a U w' w'' \<Longrightarrow> honest a U w w''"
  unfolding honest_def by (smt (verit, best) Un_iff append.assoc set_append)

lemma honest_groups: "keeps (honest a U) (groupOp V n mem sql)"
  by (rule keeps_groupOp) (simp add: honest_def)

interpretation honest: world_relation "honest a U" V for a U V
  by unfold_locales (auto simp: honest_def [of _ _ w w for w] intro: honest_trans keeps_quiet [OF quiet_honest])

interpretation own: router_effects "honest a U" V a U "\<lambda>m. m_from m = U" for V a U
proof unfold_locales
  show "c_UID (w_objs w a) \<noteq> U \<Longrightarrow> honest a U w w'" for w w' by (simp add: honest_def)
  show "keeps (honest a U) (now V)" "keeps (honest a U) (snowNext V)" "keeps (honest a U) (metric x)" for x
    by (rule keeps_quiet [OF quiet_honest])+
  show "keeps (honest a U) (logicNext V s)" "keeps (honest a U) (send V b m)" "keeps (honest a U) (storeOffline V u m)"
    "keeps (honest a U) (drainOffline V u)" "keeps (honest a U) (isDuplicate V u sq)" "keeps (honest a U) (mark V u sq i)"
    "keeps (honest a U) (unreadIncrement u p)" "keeps (honest a U) (unreadMarkRead u p)" "keeps (honest a U) (checkRateLimit V u)"
    for s b m u sq i p by (rule keeps_quiet [OF quiet_honest])+
  show "honest a U w (w\<lparr>w_calls := k, w_db := d\<rparr>)" "honest a U w (w\<lparr>w_panics := k\<rparr>)" for w k d
    by (simp_all add: honest_def)
  show "keeps (honest a U) (groupCreate V name U ms)" "keeps (honest a U) (groupAddMember V g U)"
    "keeps (honest a U) (groupRemoveMember V g U)" for name ms g
    by (auto intro!: honest.keeps_groupCreate honest.keeps_groupAddMember honest_groups simp: groupRemoveMember_def)
  show "m_from m = U \<Longrightarrow> keeps (honest a U) (forward V u m)" for m u
    by (rule keepsI) (simp add: honest_def run_simps)
  show "m_from m = U \<Longrightarrow> keeps (honest a U) (persistAsync m)" for m
    by (rule keepsI) (auto simp: honest_def run_simps)
qed simp

section \<open>The invariant\<close>

definition redis_bounded :: "redis_store \<Rightarrow> bool" where
  "redis_bounded rs \<longleftrightarrow> 0 < rs_maxSize rs \<and> (\<forall>k. int (length (redis_list rs k)) \<le> rs_maxSize rs)"

definition world_ok :: "world \<Rightarrow> bool" where
  "world_ok w \<longleftrightarrow> hub_ok (w_hub w) (w_objs w) \<and> dedup_ok (w_dedup w) \<and> length (w_persistTasks w) \<le> persistQueueCap \<and>
    (\<forall>rs. w_offline w = RedisOffline rs \<longrightarrow> redis_bounded rs) \<and>
    (\<forall>gs. w_groupStore w = Some (MemGroups gs) \<longrightarrow> groups_ok gs)"

definition safe :: "world \<Rightarrow> world \<Rightarrow> bool" where
  "safe w w' \<longleftrightarrow> (world_ok w \<longrightarrow> world_ok w')"

lemma redis_bounded_ops:
  assumes "redis_bounded rs"
  shows "redis_bounded (fst (RedisStoreOffline mar out u m (rs, h)))"
    and "redis_bounded (fst (snd (RedisDrainOffline unm out u (rs, h))))"
proof -
  have "int (length (redis_list (storeScript k d (rs_maxSize rs) rs) k')) \<le> rs_maxSize rs" for k d k'
    using assms by (auto simp: redis_bounded_def redis_list_storeScript keep_last_def)
  then have "redis_bounded (storeScript k d (rs_maxSize rs) rs)" for k d
    using assms by (simp add: redis_bounded_def storeScript_frame)
  then show "redis_bounded (fst (RedisStoreOffline mar out u m (rs, h)))"
    using assms by (auto simp: RedisStoreOffline_def Let_def split: option.split)
  have "redis_bounded (snd (drainScript k rs))" for k
    using assms by (auto simp: redis_bounded_def redis_list_drainScript drainScript_frame)
  then show "redis_bounded (fst (snd (RedisDrainOffline unm out u (rs, h))))"
    using assms by (auto simp: RedisDrainOffline_def Let_def split: prod.split) (metis snd_conv)+
qed

lemma hub_ok_redis:
  assumes "hub_ok h objs"
  shows "hub_ok (snd (RedisStoreOffline mar out u m (rs, h))) objs"
    and "hub_ok (snd (snd (RedisDrainOffline unm out u (rs, h)))) objs"
  using assms hub_ok_StoreOffline [OF assms] hub_ok_DrainOffline [OF assms, of u]
  by (auto simp: RedisStoreOffline_def RedisDrainOffline_def Let_def split: option.split prod.split)

lemma safe_plain:
  "keeps safe (now V)" "keeps safe (snowNext V)" "keeps safe (logicNext V s)" "keeps safe (metric x)"
  "keeps safe (unreadIncrement u p)" "keeps safe (unreadMarkRead u p)" "keeps safe (checkRateLimit V u)"
  "keeps safe (forward V u m)"
  by (auto intro!: keepsI simp: safe_def world_ok_def run_simps logicNext_def checkRateLimit_def Let_def
      split: prod.splits option.splits bool.splits)

lemma safe_send: "keeps safe (send V b m)"
proof (rule keepsI)
  fix w :: world
  have "hub_ok (w_hub w) ((w_objs w)(b := snd (Send (e_mar V) p m (w_objs w b)))) = hub_ok (w_hub w) (w_objs w)" for p
    by (rule hub_ok_heap) (simp add: Send_UID)
  then show "safe w (post (send V b m) w)"
    by (auto simp: safe_def world_ok_def run_simps Let_def split: prod.split) (metis snd_conv)
qed

lemma safe_store: "keeps safe (storeOffline V u m)"
proof (rule keepsI)
  fix w :: world
  show "safe w (post (storeOffline V u m) w)"
  proof (cases "w_offline w")
    case HubOffline
    then show ?thesis by (simp add: safe_def world_ok_def run_simps hub_ok_StoreOffline)
  next
    case (RedisOffline rs)
    obtain rs' h' where r: "RedisStoreOffline (e_mar V) (e_out V (w_calls w)) u m (rs, w_hub w) = (rs', h')"
      by (metis surj_pair)
    with RedisOffline show ?thesis
      using redis_bounded_ops(1) [of rs "e_mar V" "e_out V (w_calls w)" u m "w_hub w"]
        hub_ok_redis(1) [of "w_hub w" "w_objs w" "e_mar V" "e_out V (w_calls w)" u m rs]
      by (simp add: safe_def world_ok_def run_simps storeOffline_def)
  qed
qed

lemma safe_drain: "keeps safe (drainOffline V u)"
proof (rule keepsI)
  fix w :: world
  show "safe w (post (drainOffline V u) w)"
  proof (cases "w_offline w")
    case HubOffline
    then show ?thesis by (simp add: safe_def world_ok_def run_simps hub_ok_DrainOffline)
  next
    case (RedisOffline rs)
    obtain ms rs' h' where r: "RedisDrainOffline (e_unm V) (e_out V (w_calls w)) u (rs, w_hub w) = (ms, rs', h')"
      by (metis surj_pair)
    with RedisOffline show ?thesis
      using redis_bounded_ops(2) [of rs "e_unm V" "e_out V (w_calls w)" u "w_hub w"]
        hub_ok_redis(2) [of "w_hub w" "w_objs w" "e_unm V" "e_out V (w_calls w)" u rs]
      by (simp add: safe_def world_ok_def run_simps drainOffline_def)
  qed
qed

lemma safe_dedup: "keeps safe (isDuplicate V u sq)" "keeps safe (mark V u sq i)"
proof -
  have "dedup_ok d \<Longrightarrow> IsDuplicate get nw u sq d = (r, d') \<Longrightarrow> dedup_ok d'" for get nw d r d'
    using dedup_ok_ops(3) [of d get nw u sq] by simp
  then show "keeps safe (isDuplicate V u sq)"
    by (auto intro!: keepsI simp: safe_def world_ok_def run_simps Let_def split: prod.split)
  show "keeps safe (mark V u sq i)"
    by (auto intro!: keepsI simp: safe_def world_ok_def run_simps dedup_ok_ops)
qed

lemma safe_persist: "keeps safe (persistAsync m)"
  by (auto intro!: keepsI simp: safe_def world_ok_def run_simps)

lemma safe_groupOp:
  assumes "\<And>gs. groups_ok gs \<Longrightarrow> groups_ok (snd (mem gs))"
  shows "keeps safe (groupOp V n mem sql)"
proof (rule keepsI)
  fix w :: world
  show "safe w (post (groupOp V n mem sql) w)"
  proof (cases "w_groupStore w")
    case (Some gst)
    then show ?thesis using assms
      by (cases gst) (auto simp: safe_def world_ok_def groupOp_def dbCall_def run_simps set_mem_def split_beta)
  qed (simp add: safe_def world_ok_def groupOp_def run_simps)
qed

lemma groups_ok_create: "groups_ok gs \<Longrightarrow> groups_ok (snd (GroupCreate i nw name u ms gs))"
  using GroupCreate_refines [of gs i nw name u ms] by (cases "has_key gs i") (auto simp: GroupCreate_def Let_def)

interpretation safe: world_relation safe V for V
proof unfold_locales
  show "keeps safe (now V)" "keeps safe (snowNext V)" by (rule safe_plain)+
qed (simp_all add: safe_def)

lemma safe_groups:
  "keeps safe (groupCreate V name u ms)" "keeps safe (groupAddMember V g u)" "keeps safe (groupRemoveMember V g u)"
  by (auto intro!: safe.keeps_groupCreate safe.keeps_groupAddMember safe_groupOp groups_ok_create
      simp: groupRemoveMember_def AddMember_refines(1) RemoveMember_refines(1))

text \<open>The same relation for the acting user, who stays who he is.\<close>

definition for_user :: "addr \<Rightarrow> string \<Rightarrow> (world \<Rightarrow> world \<Rightarrow> bool) \<Rightarrow> world \<Rightarrow> world \<Rightarrow> bool" where
  "for_user a U Q w w' \<longleftrightarrow> (c_UID (w_objs w a) = U \<longrightarrow> Q w w' \<and> c_UID (w_objs w' a) = U)"

definition same_uids :: "world \<Rightarrow> world \<Rightarrow> bool" where
  "same_uids w w' \<longleftrightarrow> (\<forall>x. c_UID (w_objs w' x) = c_UID (w_objs w x))"

lemma keeps_for_user: "keeps Q m \<Longrightarrow> keeps same_uids m \<Longrightarrow> keeps (for_user a U Q) m"
  by (simp add: keeps_def for_user_def same_uids_def)

lemma uids_quiet: "quiet \<le> same_uids"
  by (simp add: le_fun_def quiet_def same_uids_def)

lemma uids_groupOp: "keeps same_uids (groupOp V n mem sql)"
  by (rule keeps_groupOp) (simp add: same_uids_def)

lemma uids_emit: "keeps same_uids (forward V u m)" "keeps same_uids (persistAsync m)"
  by (auto intro!: keepsI simp: same_uids_def run_simps)

interpretation uids: world_relation same_uids V for V
proof unfold_locales
  show "keeps same_uids (now V)" "keeps same_uids (snowNext V)" by (rule keeps_quiet [OF uids_quiet])+
qed (simp_all add: same_uids_def)

lemma uids_groups:
  "keeps same_uids (groupCreate V name u ms)" "keeps same_uids (groupAddMember V g u)" "keeps same_uids (groupRemoveMember V g u)"
  by (auto intro!: uids.keeps_groupCreate uids.keeps_groupAddMember uids_groupOp simp: groupRemoveMember_def)

lemmas uids_effects = keeps_quiet [OF uids_quiet] uids_emit uids_groups

lemmas safe_effects = safe_plain safe_send safe_store safe_drain safe_dedup safe_persist safe_groups

interpretation inv: router_effects "for_user a U safe" V a U "\<lambda>m. True" for V a U
proof unfold_locales
  show "for_user a U safe w w' \<Longrightarrow> for_user a U safe w' w'' \<Longrightarrow> for_user a U safe w w''" for w w' w''
    by (simp add: for_user_def safe_def)
  show "for_user a U safe w w" "c_UID (w_objs w a) \<noteq> U \<Longrightarrow> for_user a U safe w w'" for w w'
    by (simp_all add: for_user_def safe_def)
  show "for_user a U safe w (w\<lparr>w_calls := k, w_db := d\<rparr>)" "for_user a U safe w (w\<lparr>w_panics := k\<rparr>)" for w k d
    by (simp_all add: for_user_def safe_def world_ok_def)
qed (rule TrueI | (rule keeps_for_user; (rule safe_effects | rule uids_effects)))+

lemma inv_invite: "keeps (for_user a U safe) (inviteLocal V a U g t)"
proof -
  have "keeps (for_user a U safe) (groupAddMember V g t)"
    by (intro keeps_for_user safe_effects uids_effects)
  then show ?thesis
    unfolding inviteLocal_def sendGroupNotification_def Let_def
    by (intro inv.keeps_rules inv.composed inv.keeps_notification) simp_all
qed

interpretation inv: router_effects_all "for_user a U safe" V a U "\<lambda>m. True" for V a U
  by unfold_locales (simp_all add: inv_invite)

section \<open>Authority over groups\<close>

text \<open>
  How the entry of a group (members and owner) may change by what the user \<open>U\<close> does: nobody but
  \<open>U\<close> leaves, nobody but \<open>U\<close> joins unless \<open>U\<close> is the owner, the owner stays, a group
  disappears only with its last member \<open>U\<close>, and new groups are owned by \<open>U\<close>.
\<close>

fun authorised :: "string \<Rightarrow> (string set \<times> string) option \<Rightarrow> (string set \<times> string) option \<Rightarrow> bool" where
  "authorised U None None = True"
| "authorised U None (Some (ms', own')) = (own' = U)"
| "authorised U (Some (ms, own)) None = (ms \<subseteq> {U})"
| "authorised U (Some (ms, own)) (Some (ms', own')) =
    (ms \<subseteq> {U} \<and> own' = U \<or> own' = own \<and> ms - {U} \<subseteq> ms' \<and> (own \<noteq> U \<longrightarrow> ms' - {U} \<subseteq> ms))"

lemma authorised_refl: "authorised U x x"
  by (cases x) auto

lemma authorised_trans: "authorised U x y \<Longrightarrow> authorised U y z \<Longrightarrow> authorised U x z"
  by (cases x; cases y; cases z) (auto, blast+)

definition lawful :: "string \<Rightarrow> world \<Rightarrow> world \<Rightarrow> bool" where
  "lawful U w w' \<longleftrightarrow> (\<forall>gs. w_groupStore w = Some (MemGroups gs) \<and> groups_ok gs \<longrightarrow>
    (\<exists>gs'. w_groupStore w' = Some (MemGroups gs') \<and> groups_ok gs' \<and>
      (\<forall>g. authorised U (group_view gs g) (group_view gs' g))))"

lemma lawful_same: "w_groupStore w' = w_groupStore w \<Longrightarrow> lawful U w w'"
  by (auto simp: lawful_def intro: authorised_refl)

lemma lawful_trans: "lawful U w w' \<Longrightarrow> lawful U w' w'' \<Longrightarrow> lawful U w w''"
  unfolding lawful_def by (meson authorised_trans)

lemma quiet_lawful: "quiet \<le> lawful U"
  by (auto simp: le_fun_def quiet_def intro: lawful_same)

text \<open>The three changes open to everybody.\<close>

lemma lawful_create:
  assumes "groups_ok gs"
  shows "authorised U (group_view gs g) (group_view (snd (GroupCreate i nw name U ms gs)) g)"
proof (cases "has_key gs i")
  case False
  with GroupCreate_refines [OF assms this, of nw name U ms] show ?thesis
    by (auto simp: spec_create_def group_view_def has_key_def authorised_refl)
qed (simp add: GroupCreate_def Let_def authorised_refl)

lemma lawful_add:
  assumes "groups_ok gs" and "u = U \<or> (\<exists>ms. group_view gs h = Some (ms, U))"
  shows "authorised U (group_view gs g) (group_view (snd (AddMember h u gs)) g)"
  using AddMember_refines(2) [OF assms(1), of h u] assms(2)
  by (cases "group_view gs h") (auto simp: spec_add_def authorised_refl split: if_splits)

lemma lawful_remove:
  assumes "groups_ok gs"
  shows "authorised U (group_view gs g) (group_view (snd (RemoveMember h U gs)) g)"
  using RemoveMember_refines(2) [OF assms(1), of h U]
  by (cases "group_view gs h") (auto simp: spec_remove_def authorised_refl split: if_splits)

lemma lawful_groupOp:
  assumes "\<And>gs. groups_ok gs \<Longrightarrow> groups_ok (snd (mem gs)) \<and> (\<forall>g. authorised U (group_view gs g) (group_view (snd (mem gs)) g))"
  shows "keeps (lawful U) (groupOp V n mem sql)"
proof (rule keepsI)
  fix w :: world
  show "lawful U w (post (groupOp V n mem sql) w)"
  proof (cases "w_groupStore w")
    case (Some gst)
    then show ?thesis
      using assms by (cases gst) (auto simp: lawful_def groupOp_def run_simps set_mem_def split_beta)
  qed (simp add: lawful_def)
qed

interpretation lawful: world_relation "lawful U" V for U V
  by unfold_locales (auto intro: lawful_same lawful_trans keeps_quiet [OF quiet_lawful])

lemma lawful_groups:
  "keeps (lawful U) (groupCreate V name U ms)" "keeps (lawful U) (groupAddMember V g U)"
  "keeps (lawful U) (groupRemoveMember V g U)"
  by (auto intro!: lawful.keeps_groupCreate lawful.keeps_groupAddMember lawful_groupOp lawful_create lawful_add lawful_remove
      groups_ok_create simp: groupRemoveMember_def AddMember_refines(1) RemoveMember_refines(1))

lemma lawful_emit: "keeps (lawful U) (forward V u m)" "keeps (lawful U) (persistAsync m)"
  by (auto intro!: keepsI lawful_same simp: run_simps)

lemmas lawful_effects = keeps_quiet [OF quiet_lawful] lawful_emit lawful_groups

interpretation law: router_effects "for_user a U (lawful U)" V a U "\<lambda>m. True" for V a U
proof unfold_locales
  show "for_user a U (lawful U) w w' \<Longrightarrow> for_user a U (lawful U) w' w'' \<Longrightarrow> for_user a U (lawful U) w w''" for w w' w''
    by (auto simp: for_user_def intro: lawful_trans)
  show "for_user a U (lawful U) w w" "c_UID (w_objs w a) \<noteq> U \<Longrightarrow> for_user a U (lawful U) w w'" for w w'
    by (simp_all add: for_user_def lawful_same)
  show "for_user a U (lawful U) w (w\<lparr>w_calls := k, w_db := d\<rparr>)" "for_user a U (lawful U) w (w\<lparr>w_panics := k\<rparr>)" for w k d
    by (simp_all add: for_user_def lawful_same)
qed (rule TrueI | (rule keeps_for_user; (rule lawful_effects | rule uids_effects)))+

text \<open>An invitation adds a member only after the group was found to be owned by the inviting user.\<close>

lemma lawful_invite: "keeps (for_user a U (lawful U)) (inviteLocal V a U g t)"
proof (rule keepsI)
  fix w :: world
  let ?R = "for_user a U (lawful U)" and ?err = "sendGroupError V a CmdGroupInviteMember"
  let ?fin = "\<lambda>e. case e of Some e \<Rightarrow> ?err (group_error_text e)
     | None \<Rightarrow> do { r \<leftarrow> groupGetMembers V g;
         reply V a (msg0\<lparr>m_cmd := CmdGroupInviteMember, m_content := json_marshal (json_invited g U (membersOrNil r) t)\<rparr>);
         sendGroupNotification V t g ''member_joined'' }"
  have fin: "keeps ?R (?fin e)" for e
    unfolding sendGroupNotification_def by (intro law.keeps_rules law.composed law.keeps_notification) simp_all
  have err: "keeps ?R (?err x)" for x by (rule law.composed)
  show "?R w (post (inviteLocal V a U g t) w)"
  proof (cases "\<exists>gs x. w_groupStore w = Some (MemGroups gs) \<and> map_of gs g = Some x \<and> g_OwnerUID x = U \<and> groups_ok gs")
    case True
    then obtain gs x where gs: "w_groupStore w = Some (MemGroups gs)" "map_of gs g = Some x" "g_OwnerUID x = U" "groups_ok gs"
      by blast
    have w: "w\<lparr>w_groupStore := Some (MemGroups gs)\<rparr> = w" by (simp flip: gs(1))
    have run: "post (inviteLocal V a U g t) w = post (?fin (res (groupAddMember V g t) w)) (post (groupAddMember V g t) w)"
      by (simp add: inviteLocal_def groupGet_def groupOp_def run_simps gs GroupGet_def set_mem_def w post_bind Let_def split_beta)
    have "lawful U w (post (groupAddMember V g t) w)"
      using lawful_add [OF gs(4), of t U g] gs AddMember_refines(1) [OF gs(4), of g t]
      by (auto simp: lawful_def groupAddMember_def groupOp_def run_simps set_mem_def split_beta group_view_def)
    then have "?R w (post (groupAddMember V g t) w)"
      using keepsD [OF uids_groups(2) [of V g t], of w] by (simp add: for_user_def same_uids_def)
    then show ?thesis unfolding run using keepsD [OF fin] by (rule law.R_trans)
  next
    case False
    show ?thesis
    proof (cases "\<exists>gs. w_groupStore w = Some (MemGroups gs) \<and> groups_ok gs")
      case True
      then obtain gs where gs: "w_groupStore w = Some (MemGroups gs)" "groups_ok gs" by blast
      have w: "w\<lparr>w_groupStore := Some (MemGroups gs)\<rparr> = w" by (simp flip: gs(1))
      have "\<exists>x. post (inviteLocal V a U g t) w = post (?err x) w"
        using False gs by (auto simp: inviteLocal_def groupGet_def groupOp_def run_simps GroupGet_def set_mem_def w Let_def
            split: option.splits)
      then show ?thesis using keepsD [OF err] by metis
    next
      case none: False
      then have "lawful U w w'" for w' by (auto simp: lawful_def)
      then show ?thesis using keepsD [OF inv_invite [of a U V g t], of w] by (simp add: for_user_def)
    qed
  qed
qed

interpretation law: router_effects_all "for_user a U (lawful U)" V a U "\<lambda>m. True" for V a U
  by unfold_locales (simp_all add: lawful_invite)

section \<open>Properties\<close>

text \<open>
  C9. Nobody can write in the name of another: what a command adds to the persistence queue
  (the history) and what it hands to other gateways is signed with the user of the connection
  it came from. The connection readers set \<open>From\<close> to that user before they call the router. The
  one exception is the invitation, whose notice names the invited user as sender.
\<close>

theorem no_forgery:
  assumes "m_from m = c_UID (w_objs w a)" and "m_cmd m \<noteq> CmdGroupInviteMember"
  shows "\<exists>p f. w_persistTasks (post (Route V a m) w) = w_persistTasks w @ p \<and>
    w_forwarded (post (Route V a m) w) = w_forwarded w @ f \<and>
    (\<forall>x \<in> set p. m_from x = c_UID (w_objs w a)) \<and> (\<forall>(u, x) \<in> set f. m_from x = c_UID (w_objs w a))"
proof -
  have "keeps (honest a (c_UID (w_objs w a))) (Route V a m)"
    using assms by (intro own.keeps_Route) simp_all
  from keepsD [OF this, of w] show ?thesis by (auto simp: honest_def split_beta)
qed

theorem no_forgery_witness:
  "\<exists>p f. w_persistTasks (post (Route gate_env 2 gate_chat) gate) = p \<and> w_forwarded (post (Route gate_env 2 gate_chat) gate) = f \<and>
    (\<forall>x \<in> set p. m_from x = ''alice'') \<and> (\<forall>(u, x) \<in> set f. m_from x = ''alice'')"
  using no_forgery [of gate_chat gate 2 gate_env] by (simp add: CmdChat_def CmdGroupInviteMember_def)

text \<open>
  C8. No command, from whomever and however the databases, Redis, the logic service and other
  gateways answer, breaks the invariant of the gateway's state: the hub maps each user to a
  connection of his, the offline queues, the Redis lists and the persistence queue stay within
  their bounds, the duplicate filter and the groups stay well formed.
\<close>

theorem route_invariant:
  assumes "world_ok w"
  shows "world_ok (post (Route V a m) w)"
  using keepsD [OF inv.keeps_every_Route [of a "c_UID (w_objs w a)" V m], of w] assms
  by (simp add: for_user_def safe_def)

theorem route_invariant_witness: "world_ok (post (Route gate_env 2 gate_chat) gate)"
  by (rule route_invariant)
    (use gate_hub demo_groups_ok in \<open>simp add: world_ok_def dedup_ok_def NewDedupCache_def\<close>)

text \<open>
  C10. Group membership changes only with authority, whatever command a user sends and on every
  path of every handler (groups kept in memory): nobody is removed by another, nobody is added
  by another unless the acting user owns the group, owners stay, a group disappears only when
  the acting user was its last member, and new groups belong to the acting user.
\<close>

theorem group_authority:
  assumes "w_groupStore w = Some (MemGroups gs)" and "groups_ok gs"
  shows "\<exists>gs'. w_groupStore (post (Route V a m) w) = Some (MemGroups gs') \<and> groups_ok gs' \<and>
    (\<forall>g. authorised (c_UID (w_objs w a)) (group_view gs g) (group_view gs' g))"
  using keepsD [OF law.keeps_every_Route [of a "c_UID (w_objs w a)" V m], of w] assms
  by (simp add: for_user_def lawful_def)

theorem group_authority_witness:
  "\<exists>gs'. w_groupStore (post (Route gate_env 3 (gate_chat\<lparr>m_cmd := CmdGroupLeave, m_to := ''g_1''\<rparr>)) gate) = Some (MemGroups gs') \<and>
    groups_ok gs' \<and> (\<forall>g. authorised ''bob'' (group_view demo_groups g) (group_view gs' g))"
  using group_authority [of gate demo_groups] demo_groups_ok by fastforce

end
