(* ===== verification/Router_Delivery.thy ===== *)
theory Router_Delivery
  imports Router_Safety
begin

text \<open>
  Where messages go. The mail of a user is what waits for him in three places: the send queue of
  his connection, his offline queue in the hub, and what was handed to other gateways for him.
  The relation \<open>got_one\<close> is the abstract specification of delivering one message: it ends in
  exactly one of them, except that a failed hand-over is followed by storing it. The router's
  delivery methods refine it (offline messages kept in the hub).
\<close>

section \<open>Mail\<close>

record mailbox =
  buffered :: "bytes list"
  waiting :: "message list"
  handed :: "message list"

definition send_queue :: "heap \<Rightarrow> hub \<Rightarrow> string \<Rightarrow> bytes list" where
  "send_queue objs h u = (case HubGet u h of None \<Rightarrow> [] | Some t \<Rightarrow> c_send (objs t))"

definition mail :: "world \<Rightarrow> string \<Rightarrow> mailbox" where
  "mail w u = \<lparr>buffered = send_queue (w_objs w) (w_hub w) u,
    waiting = offline_queue (w_hub w) u, handed = map snd (filter (\<lambda>x. fst x = u) (w_forwarded w))\<rparr>"

text \<open>The hash ring gives the user to another gateway, and there is a forwarder.\<close>

definition elsewhere :: "world \<Rightarrow> string \<Rightarrow> bool" where
  "elsewhere w u \<longleftrightarrow> (\<exists>h. w_hashRing w = Some h \<and> Get u h \<noteq> [] \<and> Get u h \<noteq> w_thisNodeID w) \<and>
    w_thisNodeID w \<noteq> [] \<and> w_forwarder w"

definition stored :: "world \<Rightarrow> message \<Rightarrow> mailbox \<Rightarrow> mailbox" where
  "stored w m b = b\<lparr>waiting := keep_last (h_offlineMaxSize (w_hub w)) (waiting b @ [m])\<rparr>"

text \<open>When a connection with \<open>n\<close> queued frames may refuse a message.\<close>

definition refuses :: "env \<Rightarrow> message \<Rightarrow> nat \<Rightarrow> client \<Rightarrow> bool" where
  "refuses V m n c \<longleftrightarrow> e_mar V m = None \<or> c_sendCap c \<le> n \<or> c_closed c"

definition got_one :: "env \<Rightarrow> world \<Rightarrow> string \<Rightarrow> message \<Rightarrow> mailbox \<Rightarrow> mailbox \<Rightarrow> bool" where
  "got_one V w u m b b' \<longleftrightarrow>
    (case HubGet u (w_hub w) of
       Some t \<Rightarrow>
         (\<exists>d. e_mar V m = Some d \<and> length (buffered b) < c_sendCap (w_objs w t) \<and> b' = b\<lparr>buffered := buffered b @ [d]\<rparr>) \<or>
         refuses V m (length (buffered b)) (w_objs w t) \<and> b' = stored w m b
     | None \<Rightarrow>
         if elsewhere w u then
           b' = b\<lparr>handed := handed b @ [m]\<rparr> \<or> b' = stored w m (b\<lparr>handed := handed b @ [m]\<rparr>)
         else b' = stored w m b)"

text \<open>What delivery decisions depend on, and what no command changes.\<close>

definition same_conns :: "world \<Rightarrow> world \<Rightarrow> bool" where
  "same_conns w w' \<longleftrightarrow> (\<forall>x. c_UID (w_objs w' x) = c_UID (w_objs w x) \<and> c_sendCap (w_objs w' x) = c_sendCap (w_objs w x) \<and>
    c_closed (w_objs w' x) = c_closed (w_objs w x))"

definition fixed :: "world \<Rightarrow> world \<Rightarrow> bool" where
  "fixed w w' \<longleftrightarrow> h_clients (w_hub w') = h_clients (w_hub w) \<and> h_offlineMaxSize (w_hub w') = h_offlineMaxSize (w_hub w) \<and>
    (w_offline w = HubOffline \<longrightarrow> w_offline w' = HubOffline) \<and> w_hashRing w' = w_hashRing w \<and>
    w_thisNodeID w' = w_thisNodeID w \<and> w_forwarder w' = w_forwarder w \<and> same_conns w w'"

definition same_mail :: "world \<Rightarrow> world \<Rightarrow> bool" where
  "same_mail w w' \<longleftrightarrow> fixed w w' \<and> (\<forall>u. mail w' u = mail w u)"

text \<open>Only the mail of \<open>u\<close> changed, by one delivery of \<open>m\<close>.\<close>

definition delivered_to :: "env \<Rightarrow> string \<Rightarrow> message \<Rightarrow> world \<Rightarrow> world \<Rightarrow> bool" where
  "delivered_to V u m w w' \<longleftrightarrow> fixed w w' \<and> got_one V w u m (mail w u) (mail w' u) \<and> (\<forall>v. v \<noteq> u \<longrightarrow> mail w' v = mail w v)"

lemma fixed_refl: "fixed w w"
  by (simp add: fixed_def same_conns_def)

lemma fixed_trans: "fixed w w' \<Longrightarrow> fixed w' w'' \<Longrightarrow> fixed w w''"
  by (simp add: fixed_def same_conns_def)

lemma send_queue_hub: "h_clients h' = h_clients h \<Longrightarrow> send_queue objs h' u = send_queue objs h u"
  by (simp add: send_queue_def HubGet_def)

lemma fixed_got_one: "fixed w w' \<Longrightarrow> got_one V w' u m b b' = got_one V w u m b b'"
proof -
  assume f: "fixed w w'"
  then have "elsewhere w' u = elsewhere w u" by (simp add: fixed_def elsewhere_def)
  moreover have "refuses V m n (w_objs w' t) = refuses V m n (w_objs w t)" "c_sendCap (w_objs w' t) = c_sendCap (w_objs w t)" for n t
    using f by (simp_all add: fixed_def same_conns_def refuses_def)
  moreover have "stored w' = stored w" "HubGet u (w_hub w') = HubGet u (w_hub w)"
    using f by (simp_all add: fixed_def stored_def HubGet_def fun_eq_iff)
  ultimately show ?thesis by (simp add: got_one_def split: option.split)
qed

interpretation same_mail: step_relation same_mail
  by unfold_locales (auto simp: same_mail_def fixed_refl intro: fixed_trans)

lemma same_mail_delivered: "same_mail w w' \<Longrightarrow> delivered_to V u m w' w'' \<Longrightarrow> delivered_to V u m w w''"
  by (auto simp: same_mail_def delivered_to_def fixed_got_one intro: fixed_trans)

lemma delivered_same_mail: "delivered_to V u m w w' \<Longrightarrow> same_mail w' w'' \<Longrightarrow> delivered_to V u m w w''"
  by (auto simp: same_mail_def delivered_to_def intro: fixed_trans)

lemma same_mail_plain:
  "keeps same_mail (now V)" "keeps same_mail (snowNext V)" "keeps same_mail (metric x)"
  "keeps same_mail (isDuplicate V u sq)" "keeps same_mail (mark V u sq i)" "keeps same_mail (unreadIncrement u p)"
  "keeps same_mail (checkRateLimit V u)" "keeps same_mail (persistAsync m)"
  by (auto intro!: keepsI simp: same_mail_def fixed_def same_conns_def mail_def run_simps checkRateLimit_def Let_def
      split: prod.splits option.splits)

lemma same_mail_nowMs: "keeps same_mail (nowMs V)"
  unfolding nowMs_def by (intro same_mail.keeps_rules same_mail_plain)

lemma same_mail_groupOp: "keeps same_mail (groupOp V n mem sql)"
  by (rule keeps_groupOp) (simp add: same_mail_def fixed_def same_conns_def mail_def)

lemma Send_conn:
  "c_UID (snd (Send mar p m c)) = c_UID c" "c_sendCap (snd (Send mar p m c)) = c_sendCap c" "c_closed (snd (Send mar p m c)) = c_closed c"
  using Send_frame [of mar p m c] by (metis prod.collapse)+

section \<open>One delivery\<close>

lemma offline_queue_keep: "offline_queue (StoreOffline u m h) v =
    (if v = u then keep_last (h_offlineMaxSize h) (offline_queue h u @ [m]) else offline_queue h v)"
  by (simp add: offline_queue_store keep_last_def Let_def)

text \<open>Storing in the hub.\<close>

lemma store_mail:
  assumes "w_offline w = HubOffline"
  shows "fixed w (post (storeOffline V u m) w)"
    and "mail (post (storeOffline V u m) w) v = (if v = u then stored w m (mail w u) else mail w v)"
  using assms
  by (simp_all add: fixed_def same_conns_def run_simps mail_def stored_def offline_queue_keep StoreOffline_max
      send_queue_hub [OF StoreOffline_clients])

text \<open>Different users have different connections.\<close>

lemma own_conn: "own_uids objs (h_clients h) \<Longrightarrow> HubGet u h = Some t \<Longrightarrow> HubGet v h = Some t \<Longrightarrow> u = v"
  by (auto simp: own_uids_def HubGet_def)

lemma send_mail:
  assumes "own_uids (w_objs w) (h_clients (w_hub w))" and "HubGet u (w_hub w) = Some t"
  shows "fixed w (post (send V t m) w)"
    and "mail (post (send V t m) w) v =
      (if v = u \<and> res (send V t m) w = None then (mail w u)\<lparr>buffered := buffered (mail w u) @ [the (e_mar V m)]\<rparr> else mail w v)"
    and "res (send V t m) w = None \<Longrightarrow> e_mar V m \<noteq> None \<and> length (buffered (mail w u)) < c_sendCap (w_objs w t)"
    and "res (send V t m) w \<noteq> None \<Longrightarrow> refuses V m (length (buffered (mail w u))) (w_objs w t)"
proof -
  obtain e c where s: "Send (e_mar V) (e_pick V (w_calls w)) m (w_objs w t) = (e, c)" by (metis surj_pair)
  note fr = Send_frame [OF s]
  show "fixed w (post (send V t m) w)"
    using s fr(1-3) by (simp add: fixed_def same_conns_def run_simps)
  show "mail (post (send V t m) w) v =
      (if v = u \<and> res (send V t m) w = None then (mail w u)\<lparr>buffered := buffered (mail w u) @ [the (e_mar V m)]\<rparr> else mail w v)"
  proof (cases "v = u")
    case True
    then show ?thesis using s fr(6) assms(2) by (simp add: mail_def send_queue_def run_simps)
  next
    case False
    then have "HubGet v (w_hub w) \<noteq> Some t" using own_conn [OF assms] by blast
    with False s show ?thesis by (simp add: mail_def send_queue_def run_simps split: option.split)
  qed
  have b: "buffered (mail w u) = c_send (w_objs w t)" using assms(2) by (simp add: mail_def send_queue_def)
  show "res (send V t m) w = None \<Longrightarrow> e_mar V m \<noteq> None \<and> length (buffered (mail w u)) < c_sendCap (w_objs w t)"
    "res (send V t m) w \<noteq> None \<Longrightarrow> refuses V m (length (buffered (mail w u))) (w_objs w t)"
    using Send_None_iff [of "e_mar V" "e_pick V (w_calls w)" m "w_objs w t"] s
    by (auto simp: run_simps b refuses_def has_room_def)
qed

lemma route_delivers:
  assumes "w_offline w = HubOffline" and "HubGet u (w_hub w) = None"
  shows "delivered_to V u m w (post (routeOrStoreOffline V u m) w)"
proof (cases "elsewhere w u")
  case False
  have "\<exists>w1. w1 = w \<and> post (routeOrStoreOffline V u m) w = post (storeOffline V u m) w1"
    using False by (auto simp: routeOrStoreOffline_def elsewhere_def run_simps split: option.splits)
  then show ?thesis
    using store_mail [OF assms(1), of V u m] False assms(2) by (auto simp: delivered_to_def got_one_def)
next
  case True
  let ?w1 = "post (forward V u m) w"
  have f: "fixed w ?w1" "mail ?w1 v = (if v = u then (mail w u)\<lparr>handed := handed (mail w u) @ [m]\<rparr> else mail w v)" for v
    by (simp_all add: fixed_def same_conns_def run_simps mail_def)
  have h: "w_offline ?w1 = HubOffline" using assms(1) by (simp add: run_simps)
  have "post (routeOrStoreOffline V u m) w = (case res (forward V u m) w of Inl _ \<Rightarrow> post (storeOffline V u m) ?w1 | Inr _ \<Rightarrow> ?w1)"
    using True by (auto simp: routeOrStoreOffline_def elsewhere_def run_simps split: sum.splits)
  then show ?thesis
    using True assms f store_mail [OF h, of V u m] fixed_trans [OF f(1) store_mail(1) [OF h, of V u m]]
    by (auto simp: delivered_to_def got_one_def stored_def run_simps split: sum.split)
qed

text \<open>
  The common shape: send to the connection and store on failure, with bookkeeping \<open>A\<close> and \<open>B\<close>
  that touches no mail.
\<close>

lemma send_delivers:
  assumes "w_offline w = HubOffline" and "own_uids (w_objs w) (h_clients (w_hub w))" and "HubGet u (w_hub w) = Some t"
    and "keeps same_mail A" and "keeps same_mail B" and "\<And>w. w_offline (post A w) = w_offline w"
  shows "delivered_to V u m w (post (do { e \<leftarrow> send V t m; case e of Some x \<Rightarrow> do { A; storeOffline V u m } | None \<Rightarrow> B }) w)"
proof -
  let ?w1 = "post (send V t m) w"
  note s = send_mail [OF assms(2,3), of V m]
  have h1: "w_offline ?w1 = HubOffline" using assms(1) by (simp add: run_simps split_beta Let_def)
  show ?thesis
  proof (cases "res (send V t m) w")
    case None
    have "delivered_to V u m w ?w1"
      using s None assms(3) by (auto simp: delivered_to_def got_one_def)
    then have "delivered_to V u m w (post B ?w1)" by (rule delivered_same_mail) (rule keepsD [OF assms(5)])
    then show ?thesis by (simp only: post_bind None option.case)
  next
    case (Some x)
    let ?w2 = "post A ?w1"
    have "same_mail w ?w1" using s Some by (simp add: same_mail_def)
    then have m2: "same_mail w ?w2" using keepsD [OF assms(4)] by (rule same_mail.R_trans)
    have h2: "w_offline ?w2 = HubOffline" using h1 assms(6) by simp
    have "HubGet u (w_hub ?w2) = Some t" "refuses V m (length (buffered (mail ?w2 u))) (w_objs ?w2 t)"
      using m2 assms(3) s(4) Some by (simp_all add: same_mail_def fixed_def HubGet_def same_conns_def refuses_def)
    then have "delivered_to V u m ?w2 (post (storeOffline V u m) ?w2)"
      using store_mail [OF h2, of V u m] by (auto simp: delivered_to_def got_one_def)
    with m2 have "delivered_to V u m w (post (storeOffline V u m) ?w2)" by (rule same_mail_delivered)
    then show ?thesis by (simp only: post_bind Some option.case)
  qed
qed

section \<open>Fan-out\<close>

definition ready :: "world \<Rightarrow> bool" where
  "ready w \<longleftrightarrow> w_offline w = HubOffline \<and> own_uids (w_objs w) (h_clients (w_hub w))"

lemma ready_fixed: "fixed w w' \<Longrightarrow> ready w \<Longrightarrow> ready w'"
  by (auto simp: ready_def fixed_def same_conns_def own_uids_def)

lemma same_mail_ready: "same_mail w w' \<Longrightarrow> ready w \<Longrightarrow> ready w'"
  by (auto simp: same_mail_def intro: ready_fixed)

lemma same_mail_HubGet: "same_mail w w' \<Longrightarrow> HubGet u (w_hub w') = HubGet u (w_hub w)"
  by (simp add: same_mail_def fixed_def HubGet_def)

lemma metric_offline [simp]: "w_offline (post (metric x) w) = w_offline w"
  by (simp add: run_simps)

lemma fanoutMember_delivers:
  assumes "ready w" and "u \<noteq> s"
  shows "delivered_to V u m w (post (fanoutMember V s m u) w)"
proof (cases "HubGet u (w_hub w)")
  case None
  then have "post (fanoutMember V s m u) w = post (routeOrStoreOffline V u m) w"
    using assms(2) by (simp add: fanoutMember_def run_simps)
  then show ?thesis using route_delivers None assms(1) by (simp add: ready_def)
next
  case (Some t)
  let ?w1 = "post (metric MGroupFanoutSend) w"
  have m: "same_mail w ?w1" by (rule keepsD [OF same_mail_plain(3)])
  then have "ready ?w1" "HubGet u (w_hub ?w1) = Some t"
    using assms(1) Some by (auto simp: same_mail_HubGet intro: same_mail_ready)
  then have "delivered_to V u m ?w1 (post (do { e \<leftarrow> send V t m;
      case e of Some x \<Rightarrow> do { metric MDeliveryFailure; storeOffline V u m } | None \<Rightarrow> metric (MDelivered ''group'') }) ?w1)"
    by (intro send_delivers same_mail_plain metric_offline) (simp_all add: ready_def)
  from same_mail_delivered [OF m this] show ?thesis
    using assms(2) Some by (simp only: fanoutMember_def run_simps post_bind if_False option.case prod.case fst_conv snd_conv) 
qed

text \<open>Each member but the sender gets the message once, nobody else anything.\<close>

definition spread :: "env \<Rightarrow> string set \<Rightarrow> message \<Rightarrow> world \<Rightarrow> world \<Rightarrow> bool" where
  "spread V us m w w' \<longleftrightarrow> fixed w w' \<and>
    (\<forall>u. if u \<in> us then got_one V w u m (mail w u) (mail w' u) else mail w' u = mail w u)"

lemma spread_step:
  assumes "delivered_to V u m w w1" and "spread V us m w1 w2" and "u \<notin> us"
  shows "spread V (insert u us) m w w2"
proof -
  have 2: "if v \<in> us then got_one V w1 v m (mail w1 v) (mail w2 v) else mail w2 v = mail w1 v" for v
    using assms(2) by (simp add: spread_def)
  have "if v \<in> insert u us then got_one V w v m (mail w v) (mail w2 v) else mail w2 v = mail w v" for v
    using 2 [of v] assms(1,3) fixed_got_one [of w w1 V v m] by (cases "v = u") (auto simp: delivered_to_def split: if_splits)
  then show ?thesis using assms by (auto simp: spread_def delivered_to_def intro: fixed_trans)
qed

lemma fanout_spread:
  "ready w \<Longrightarrow> distinct us \<Longrightarrow> spread V (set us - {s}) m w (post (for_each us (fanoutMember V s m)) w)"
proof (induction us arbitrary: w)
  case Nil
  then show ?case by (simp add: spread_def fixed_refl run_simps)
next
  case (Cons u us)
  let ?w1 = "post (fanoutMember V s m u) w"
  have run: "post (for_each (u # us) (fanoutMember V s m)) w = post (for_each us (fanoutMember V s m)) ?w1"
    by (simp only: for_each.simps post_bind)
  show ?case
  proof (cases "u = s")
    case True
    then have "?w1 = w" by (simp add: fanoutMember_def run_simps)
    with Cons True run show ?thesis by (simp add: insert_Diff_if)
  next
    case False
    note d = fanoutMember_delivers [OF Cons.prems(1) False, of V m]
    then have "ready ?w1" using Cons.prems(1) by (auto simp: delivered_to_def intro: ready_fixed)
    with Cons have "spread V (set us - {s}) m ?w1 (post (for_each us (fanoutMember V s m)) ?w1)" by simp
    from spread_step [OF d this] Cons.prems(2) False run show ?thesis by (simp add: insert_Diff_if)
  qed
qed

section \<open>Chat\<close>

lemma deliverChat_single:
  assumes "ready w" and "m_chatType m \<noteq> ChatTypeGroup \<or> w_groupStore w = None"
  shows "delivered_to V (m_to m) m w (post (deliverChat V ct u m) w)"
proof -
  let ?mark = "on (m_seq m > 0) (mark V u (m_seq m) (m_msgId m))"
  have mk: "keeps same_mail ?mark" by (intro same_mail.keeps_rules same_mail_plain)
  show ?thesis
  proof (cases "HubGet (m_to m) (w_hub w)")
    case None
    then have "post (deliverChat V ct u m) w = post ?mark (post (routeOrStoreOffline V (m_to m) m) w)"
      using assms(2) by (auto simp: deliverChat_def run_simps Let_def split_beta)
    with delivered_same_mail [OF route_delivers keepsD [OF mk]] None assms(1) show ?thesis by (simp add: ready_def)
  next
    case (Some t)
    then have "post (deliverChat V ct u m) w = post (do { e \<leftarrow> send V t m;
        case e of Some x \<Rightarrow> do { metric MDeliveryFailure; storeOffline V (m_to m) m }
        | None \<Rightarrow> do { metric (MDelivered ct); ?mark } }) w"
      using assms(2) by (auto simp: deliverChat_def run_simps Let_def)
    moreover have "delivered_to V (m_to m) m w (post (do { e \<leftarrow> send V t m;
        case e of Some x \<Rightarrow> do { metric MDeliveryFailure; storeOffline V (m_to m) m }
        | None \<Rightarrow> do { metric (MDelivered ct); ?mark } }) w)"
      using assms(1) Some
      by (intro send_delivers same_mail_plain same_mail.keeps_bind mk metric_offline) (simp_all add: ready_def)
    ultimately show ?thesis by simp
  qed
qed

text \<open>An acknowledgement reaches at most the user of the connection it is sent on.\<close>

definition acked :: "env \<Rightarrow> string \<Rightarrow> world \<Rightarrow> world \<Rightarrow> bool" where
  "acked V u w w' \<longleftrightarrow> fixed w w' \<and> (\<forall>v. v \<noteq> u \<longrightarrow> mail w' v = mail w v) \<and>
    (mail w' u = mail w u \<or> (\<exists>i sq t d. e_mar V (ack i sq u t) = Some d \<and> mail w' u = (mail w u)\<lparr>buffered := buffered (mail w u) @ [d]\<rparr>))"

lemma sendTo_ack:
  assumes "ready w" and "c_UID (w_objs w a) = u"
  shows "acked V u w (post (sendTo V a (ack i sq u t)) w)"
proof (cases "HubGet u (w_hub w) = Some a")
  case True
  let ?m = "ack i sq u t"
  have s: "own_uids (w_objs w) (h_clients (w_hub w))" using assms(1) by (simp add: ready_def)
  have "post (sendTo V a ?m) w = post (send V a ?m) w" by (simp add: sendTo_def run_simps split_beta Let_def)
  then show ?thesis using send_mail [OF s True, of V ?m] by (auto simp: acked_def) blast
next
  case False
  have "HubGet v (w_hub w) \<noteq> Some a" for v
    using False assms by (auto simp: ready_def own_uids_def HubGet_def)
  then have "mail (post (sendTo V a (ack i sq u t)) w) v = mail w v" for v
    by (simp add: mail_def sendTo_def send_queue_def run_simps split_beta Let_def split: option.split)
  moreover have "fixed w (post (sendTo V a (ack i sq u t)) w)"
    by (simp add: fixed_def same_conns_def sendTo_def run_simps split_beta Let_def Send_conn)
  ultimately show ?thesis by (simp add: acked_def)
qed

lemma acked_same_mail: "acked V u w w' \<Longrightarrow> same_mail w' w'' \<Longrightarrow> acked V u w w''"
  by (auto simp: acked_def same_mail_def intro: fixed_trans)

lemma same_mail_acked: "same_mail w w' \<Longrightarrow> acked V u w' w'' \<Longrightarrow> acked V u w w''"
  by (auto simp: acked_def same_mail_def intro: fixed_trans)

lemma acked_refl: "acked V u w w"
  by (simp add: acked_def fixed_refl)

lemma same_mail_countUnread: "keeps same_mail (countUnread V u f m)"
  unfolding countUnread_def groupGetMembers_def
  by (intro same_mail.keeps_rules same_mail_plain same_mail_groupOp)

text \<open>A message that was let through, in a conversation of two.\<close>

lemma acceptChat_mail:
  assumes "ready w" and "c_UID (w_objs w a) = u" and "m_chatType m \<noteq> ChatTypeGroup \<or> w_groupStore w = None"
  shows "\<exists>i t w1. delivered_to V (m_to m) (m\<lparr>m_msgId := i, m_timestamp := t\<rparr>) w w1 \<and>
    acked V u w1 (post (acceptChat V a u start m) w) \<and>
    (\<exists>k. i = fst (Next (e_clock V) k (w_snow w)))"
proof -
  obtain m' w1 where s: "run_state (stamped V m) w = (m', w1)" by (metis surj_pair)
  then obtain i t where m': "m' = m\<lparr>m_msgId := i, m_timestamp := t\<rparr>" "i = fst (Next (e_clock V) (w_tick w) (w_snow w))"
    and w1: "w_groupStore w1 = w_groupStore w"
    by (auto simp: stamped_def run_simps split: prod.splits)
  have "keeps same_mail (stamped V m)" unfolding stamped_def by (intro same_mail.keeps_rules same_mail_plain same_mail_nowMs)
  from keepsD [OF this, of w] s have sm: "same_mail w w1" by simp
  let ?w2 = "post (deliverChat V (ChatTypeStr m') u m') w1"
  let ?w3 = "post (countUnread V u (m_from m') m') ?w2"
  let ?ack = "do { sendAck V a u m'; t \<leftarrow> now V; metric (MDeliveredDuration (ChatTypeStr m') (time_sub t start)) }"
  have "delivered_to V (m_to m') m' w1 ?w2"
    using assms same_mail_ready [OF sm assms(1)] w1 by (intro deliverChat_single) (auto simp: m')
  from same_mail_delivered [OF sm delivered_same_mail [OF this keepsD [OF same_mail_countUnread]]]
  have d: "delivered_to V (m_to m) m' w ?w3" by (simp add: m')
  then have f: "fixed w ?w3" by (simp add: delivered_to_def)
  have r: "ready ?w3" using f assms(1) by (rule ready_fixed)
  have u3: "c_UID (w_objs ?w3 a) = u" using f assms(2) by (simp add: fixed_def same_conns_def)
  have a: "acked V u ?w3 (post (on (m_needAck m') ?ack) ?w3)"
  proof (cases "m_needAck m'")
    case True
    let ?w4 = "post (nowMs V) ?w3"
    have n: "same_mail ?w3 ?w4" by (rule keepsD [OF same_mail_nowMs])
    have u4: "c_UID (w_objs ?w4 a) = u" using u3 n by (simp add: same_mail_def fixed_def same_conns_def)
    have k: "keeps same_mail (do { t \<leftarrow> now V; metric (MDeliveredDuration (ChatTypeStr m') (time_sub t start)) })"
      by (intro same_mail.keeps_bind same_mail_plain)
    have "post (on (m_needAck m') ?ack) ?w3 =
        post (do { t \<leftarrow> now V; metric (MDeliveredDuration (ChatTypeStr m') (time_sub t start)) })
          (post (sendTo V a (ack (m_msgId m') (m_seq m') u (res (nowMs V) ?w3))) ?w4)"
      using True by (simp only: on_def if_True sendAck_def post_bind res_bind)
    then show ?thesis
      using same_mail_acked [OF n acked_same_mail [OF sendTo_ack [OF same_mail_ready [OF n r] u4] keepsD [OF k]]] by simp
  qed (simp add: run_simps acked_refl)
  have "post (acceptChat V a u start m) w = post (persistAsync m') (post (on (m_needAck m') ?ack) ?w3)"
    using s by (simp only: acceptChat_def post_bind fst_conv snd_conv)
  with acked_same_mail [OF a keepsD [OF same_mail_plain(8)]] d m' show ?thesis by auto
qed

text \<open>The checks before: the duplicate filter and the rate limiter let the message pass.\<close>

definition fresh :: "env \<Rightarrow> world \<Rightarrow> string \<Rightarrow> message \<Rightarrow> bool" where
  "fresh V w u m \<longleftrightarrow> (m_seq m > 0 \<longrightarrow>
    \<not> fst (fst (IsDuplicate (e_get V (w_calls w)) (read_clock (e_clock V) (Suc (w_tick w))) u (m_seq m) (w_dedup w))))"

definition within_rate :: "env \<Rightarrow> world \<Rightarrow> string \<Rightarrow> message \<Rightarrow> bool" where
  "within_rate V w u m \<longleftrightarrow> (\<forall>rl. w_rateLimit w = Some rl \<longrightarrow>
    fst (Allow (e_rnd V) (read_clock (e_clock V) (w_tick w + (if m_seq m > 0 then 2 else 1))) u rl))"

lemma IsDuplicate_miss: "\<not> fst (fst (IsDuplicate get nw u sq d)) \<Longrightarrow> snd (IsDuplicate get nw u sq d) = d"
  by (auto simp: IsDuplicate_def Let_def split: option.splits if_splits)

lemma handleChat_accept:
  assumes "c_UID (w_objs w a) = u" and "fresh V w u m" and "Validate m = None" and "within_rate V w u m"
  shows "\<exists>start w1. post (handleChat V a m) w = post (acceptChat V a u start m) w1 \<and> same_mail w w1 \<and>
    w_groupStore w1 = w_groupStore w \<and> w_snow w1 = w_snow w \<and> w_dedup w1 = w_dedup w \<and> w_objs w1 = w_objs w"
proof -
  let ?w0 = "post (now V) (post (metric (MReceived (ChatTypeStr m))) w)"
  let ?w1 = "post (chatDuplicate V a u m) ?w0"
  let ?w2 = "post (checkRateLimit V u) ?w1"
  have new: "res (chatDuplicate V a u m) ?w0 = False"
    using assms(2) by (auto simp: chatDuplicate_def fresh_def run_simps split_beta Let_def)
  have w1: "?w1 = (if m_seq m > 0 then post (isDuplicate V u (m_seq m)) ?w0 else ?w0)"
    using assms(2) by (auto simp: chatDuplicate_def fresh_def run_simps split_beta Let_def)
  have t1: "w_tick ?w1 = w_tick w + (if m_seq m > 0 then 2 else 1)" "w_rateLimit ?w1 = w_rateLimit w"
    unfolding w1 by (simp_all add: run_simps split_beta Let_def)
  have limited: "res (checkRateLimit V u) v = (case w_rateLimit v of None \<Rightarrow> False
      | Some rl \<Rightarrow> \<not> fst (Allow (e_rnd V) (read_clock (e_clock V) (w_tick v)) u rl))" for v
    by (simp add: checkRateLimit_def run_simps split_beta split: option.split)
  have ok: "res (checkRateLimit V u) ?w1 = False"
    unfolding limited t1 using assms(4) by (cases "m_seq m > 0") (simp_all add: within_rate_def split: option.split)
  have "same_mail w ?w0" by (rule same_mail.R_trans) (rule keepsD [OF same_mail_plain(3)] keepsD [OF same_mail_plain(1)])+
  moreover have "same_mail ?w0 ?w1"
    unfolding w1 using keepsD [OF same_mail_plain(4)] same_mail.R_refl by presburger
  ultimately have "same_mail w ?w2" using keepsD [OF same_mail_plain(7)] by (blast intro: same_mail.R_trans)
  moreover have "w_groupStore ?w2 = w_groupStore w" "w_snow ?w2 = w_snow w" "w_dedup ?w2 = w_dedup w" "w_objs ?w2 = w_objs w"
  proof -
    have "w_groupStore (post (checkRateLimit V u) v) = w_groupStore v" "w_snow (post (checkRateLimit V u) v) = w_snow v"
      "w_dedup (post (checkRateLimit V u) v) = w_dedup v" "w_objs (post (checkRateLimit V u) v) = w_objs v" for v
      by (simp_all add: checkRateLimit_def run_simps split_beta split: option.split)
    then show "w_groupStore ?w2 = w_groupStore w" "w_snow ?w2 = w_snow w" "w_dedup ?w2 = w_dedup w" "w_objs ?w2 = w_objs w"
      unfolding w1 using assms(2) IsDuplicate_miss [of "e_get V (w_calls w)"]
      by (simp_all add: run_simps split_beta Let_def fresh_def)
  qed
  moreover have "post (handleChat V a m) w = post (acceptChat V a u (res (now V) (post (metric (MReceived (ChatTypeStr m))) w)) m) ?w2"
  proof -
    have u: "res (uid_of a) w = u" "post (uid_of a) w = w" using assms(1) by (simp_all add: run_simps)
    show ?thesis using assms(3) by (simp only: handleChat_def post_bind u new ok if_False not_True_eq_False simp_thms)
  qed
  ultimately show ?thesis by blast
qed

section \<open>What a refused message leaves behind\<close>

interpretation same_dedup: step_relation "\<lambda>w w'. w_dedup w' = w_dedup w"
  by unfold_locales simp_all

lemma dedup_effects:
  "keeps (\<lambda>w w'. w_dedup w' = w_dedup w) (now V)" "keeps (\<lambda>w w'. w_dedup w' = w_dedup w) (snowNext V)"
  "keeps (\<lambda>w w'. w_dedup w' = w_dedup w) (metric x)" "keeps (\<lambda>w w'. w_dedup w' = w_dedup w) (send V b m)"
  "keeps (\<lambda>w w'. w_dedup w' = w_dedup w) (unreadIncrement u p)" "keeps (\<lambda>w w'. w_dedup w' = w_dedup w) (persistAsync m)"
  by (auto intro!: keepsI simp: run_simps split_beta Let_def)

lemma dedup_store: "keeps (\<lambda>w w'. w_dedup w' = w_dedup w) (storeOffline V u m)"
  by (rule keepsI) (simp add: storeOffline_def run_simps split: offline.split prod.split)

lemma dedup_groupOp: "keeps (\<lambda>w w'. w_dedup w' = w_dedup w) (groupOp V n mem sql)"
  by (rule keeps_groupOp) simp

lemmas dedup_rules = same_dedup.keeps_rules dedup_effects dedup_store dedup_groupOp

lemma acceptChat_refused:
  assumes "m_chatType m \<noteq> ChatTypeGroup \<or> w_groupStore w = None" and "HubGet (m_to m) (w_hub w) = Some t"
    and "\<not> has_room (w_objs w t)"
  shows "w_dedup (post (acceptChat V a u start m) w) = w_dedup w"
proof -
  obtain m' w1 where s: "run_state (stamped V m) w = (m', w1)" by (metis surj_pair)
  then obtain i ts where m': "m' = m\<lparr>m_msgId := i, m_timestamp := ts\<rparr>"
    and w1: "w_groupStore w1 = w_groupStore w" "w_objs w1 = w_objs w" "w_hub w1 = w_hub w" "w_dedup w1 = w_dedup w"
    by (auto simp: stamped_def run_simps split: prod.splits)
  let ?rest = "do { countUnread V u (m_from m') m';
      on (m_needAck m') (do { sendAck V a u m'; t \<leftarrow> now V; metric (MDeliveredDuration (ChatTypeStr m') (time_sub t start)) });
      persistAsync m' }"
  have rest: "keeps (\<lambda>w w'. w_dedup w' = w_dedup w) ?rest"
    unfolding countUnread_def groupGetMembers_def sendAck_def sendTo_def nowMs_def by (intro dedup_rules)
  have full: "\<exists>e. fst (Send (e_mar V) p m' (w_objs w1 t)) = Some e" for p
    using assms(3) Send_None_iff [of "e_mar V" p m' "w_objs w1 t"] w1(2) by auto
  have "w_dedup (post (deliverChat V (ChatTypeStr m') u m') w1) = w_dedup w1"
  proof -
    obtain e where e: "fst (Send (e_mar V) (e_pick V (w_calls w1)) m' (w_objs w t)) = Some e"
      using full [of "e_pick V (w_calls w1)"] w1(2) by auto
    have g: "\<not> (m_chatType m' = ChatTypeGroup \<and> w_groupStore w1 \<noteq> None)" "HubGet (m_to m') (w_hub w1) = Some t" "m_to m' = m_to m"
      using assms(1,2) w1 by (auto simp: m')
    have "post (deliverChat V (ChatTypeStr m') u m') w1 =
        post (do { metric MDeliveryFailure; storeOffline V (m_to m) m' }) (post (send V t m') w1)"
      using g e w1(2) by (cases "m_chatType m' = ChatTypeGroup") (simp_all add: deliverChat_def run_simps Let_def split_beta)
    moreover have k: "keeps (\<lambda>w w'. w_dedup w' = w_dedup w) (do { send V t m'; metric MDeliveryFailure; storeOffline V (m_to m) m' })"
      by (intro dedup_rules)
    ultimately show ?thesis using keepsD [OF k, of w1] by (simp only: post_bind)
  qed
  moreover have "post (acceptChat V a u start m) w = post ?rest (post (deliverChat V (ChatTypeStr m') u m') w1)"
    using s by (simp only: acceptChat_def post_bind fst_conv snd_conv)
  ultimately show ?thesis using keepsD [OF rest] w1(4) by simp
qed

section \<open>Properties\<close>


lemma gate_ready: "ready gate" "c_UID (w_objs gate 2) = ''alice''" "fresh gate_env gate ''alice'' gate_chat"
  "within_rate gate_env gate ''alice'' gate_chat" "m_chatType gate_chat \<noteq> ChatTypeGroup \<or> w_groupStore gate = None"
  using gate_hub
  by (simp_all add: ready_def hub_ok_def fresh_def within_rate_def IsDuplicate_def NewDedupCache_def Let_def)




text \<open>
  C11. A repeated message is not delivered again: once its sender and sequence number are
  remembered, handling it anew changes only the metrics, the run's counters and the sender's own
  send queue, into which the acknowledgement with the message ID of the first time may go; every
  other part of the state, every other connection and everybody else's mail stay as they are.
\<close>

theorem chat_replay:
  assumes "0 < m_seq m" and "remembered (w_dedup w) (c_UID (w_objs w a)) (m_seq m) = Some i"
  shows "\<exists>t k c p. post (handleChat V a m) w = w\<lparr>w_tick := k, w_calls := c,
      w_metrics := w_metrics w @ [MReceived (ChatTypeStr m), MDuplicateDropped],
      w_objs := (if m_needAck m
        then (w_objs w)(a := snd (Send (e_mar V) p (ack i (m_seq m) (c_UID (w_objs w a)) t) (w_objs w a))) else w_objs w)\<rparr>"
proof -
  let ?u = "c_UID (w_objs w a)"
  obtain e where e: "map_of (d_seen (w_dedup w)) (dedup_key ?u (m_seq m)) = Some e" "e_msgID e = i"
    using assms(2) by (auto simp: remembered_def)
  show ?thesis
  proof (cases "m_needAck m")
    case True
    let ?t = "now_ms (e_clock V) (Suc (Suc (w_tick w)))"
    have "post (handleChat V a m) w = w\<lparr>w_tick := Suc (Suc (Suc (w_tick w))), w_calls := Suc (Suc (w_calls w)),
        w_metrics := w_metrics w @ [MReceived (ChatTypeStr m), MDuplicateDropped],
        w_objs := (w_objs w)(a := snd (Send (e_mar V) (e_pick V (Suc (w_calls w))) (ack i (m_seq m) ?u ?t) (w_objs w a)))\<rparr>"
      using assms(1) True e by (simp add: handleChat_def chatDuplicate_def sendTo_def run_simps IsDuplicate_hit Let_def split_beta)
    then show ?thesis unfolding if_P [OF True] by blast
  next
    case False
    have "post (handleChat V a m) w = w\<lparr>w_tick := Suc (Suc (w_tick w)), w_calls := Suc (w_calls w),
        w_metrics := w_metrics w @ [MReceived (ChatTypeStr m), MDuplicateDropped], w_objs := w_objs w\<rparr>"
      using assms(1) False e by (simp add: handleChat_def chatDuplicate_def run_simps IsDuplicate_hit Let_def split_beta)
    then show ?thesis unfolding if_not_P [OF False] by blast
  qed
qed

theorem chat_replay_witness:
  "w_metrics (post (handleChat gate_env 2 gate_chat) late_gate) = [MReceived ''single'', MDuplicateDropped] \<and>
    w_dedup (post (handleChat gate_env 2 gate_chat) late_gate) = w_dedup late_gate"
proof -
  have "remembered (w_dedup late_gate) (c_UID (w_objs late_gate 2)) (m_seq gate_chat) = Some 99"
    by (simp add: late_gate_def remembered_def Mark_def NewDedupCache_def Let_def)
  moreover have "w_metrics late_gate = []" "ChatTypeStr gate_chat = ''single''"
    by (simp_all add: late_gate_def gate_def NewRouter_def ChatTypeStr_def)
  ultimately show ?thesis using chat_replay [of gate_chat late_gate 2 99 gate_env] by auto
qed

text \<open>
  A message refused by the receiver's full send queue is stored for him offline, but its
  sequence number is not remembered: sent again, it passes the duplicate filter like a new one,
  so the receiver can get it twice.
\<close>

theorem full_queue_unmarked:
  assumes "ready w" and "c_UID (w_objs w a) = u" and "fresh V w u m" and "Validate m = None" and "within_rate V w u m"
    and "m_chatType m \<noteq> ChatTypeGroup \<or> w_groupStore w = None" and "m_to m \<noteq> u"
    and "HubGet (m_to m) (w_hub w) = Some t" and "\<not> has_room (w_objs w t)"
  shows "w_dedup (post (handleChat V a m) w) = w_dedup w \<and>
    (\<exists>i ts. mail (post (handleChat V a m) w) (m_to m) = stored w (m\<lparr>m_msgId := i, m_timestamp := ts\<rparr>) (mail w (m_to m)))"
proof -
  obtain start w1 where h: "post (handleChat V a m) w = post (acceptChat V a u start m) w1" "same_mail w w1"
      "w_groupStore w1 = w_groupStore w" "w_dedup w1 = w_dedup w" "w_objs w1 = w_objs w"
    using handleChat_accept [OF assms(2-5)] by blast
  have g: "m_chatType m \<noteq> ChatTypeGroup \<or> w_groupStore w1 = None" using assms(6) h(3) by simp
  have "w_dedup (post (handleChat V a m) w) = w_dedup w"
    unfolding h(1) using acceptChat_refused [OF g, of t V a u start] assms(8,9) h same_mail_HubGet [OF h(2)] by simp
  moreover obtain i ts w2 where d: "delivered_to V (m_to m) (m\<lparr>m_msgId := i, m_timestamp := ts\<rparr>) w1 w2"
      and a: "acked V u w2 (post (acceptChat V a u start m) w1)"
    using acceptChat_mail [OF same_mail_ready [OF h(2) assms(1)], of a u m V start] assms(2) g h(5) by auto
  have "mail (post (handleChat V a m) w) (m_to m) = mail w2 (m_to m)"
    using a assms(7) by (simp add: h(1) acked_def)
  moreover have "buffered (mail w (m_to m)) = c_send (w_objs w t)"
    using assms(8) by (simp add: mail_def send_queue_def)
  ultimately show ?thesis
    using same_mail_delivered [OF h(2) d] assms(8,9) by (auto simp: delivered_to_def got_one_def has_room_def)
qed

theorem full_queue_unmarked_witness:
  "w_dedup (post (handleChat gate_env 2 gate_chat) full_gate) = w_dedup full_gate"
proof -
  have "ready full_gate" "c_UID (w_objs full_gate 2) = ''alice''" "fresh gate_env full_gate ''alice'' gate_chat"
    "within_rate gate_env full_gate ''alice'' gate_chat" "HubGet (m_to gate_chat) (w_hub full_gate) = Some 3" "\<not> has_room (w_objs full_gate 3)"
    by (simp_all add: full_gate_def ready_def own_uids_def fresh_def within_rate_def IsDuplicate_def NewDedupCache_def
        HubGet_def has_room_def demo_heap_def NewClient_def Let_def)
  then show ?thesis using full_queue_unmarked [of full_gate 2 "''alice''" gate_env gate_chat 3] by simp
qed

end
