(* ===== verification/Forwarder.thy ===== *)
theory Forwarder
  imports Router_Delivery
begin

text \<open>
  Messages between gateways: the client side \<open>internal/gateway/grpc_forwarder.go\<close> and the handler
  of the receiving gateway \<open>grpc_server.go\<close>. The gateways of the cluster are a map from gRPC
  addresses to their states. gRPC is a parameter: \<open>dial a\<close> is the error of dialling \<open>a\<close>, if any, and
  a call has the outcome of \<open>rpc\<close> (a reply, or an error with the handler having run or not). A
  connection or a client stub is known by the address it was dialled with. The hash ring is
  shared with the router and the cluster manager, so it is an argument.
\<close>

definition second :: int where "second = 1000000000"

section \<open>The receiving gateway\<close>

definition send_error_text :: "string \<Rightarrow> send_error \<Rightarrow> string" where
  "send_error_text marshalText e =
    (case e of
       MarshalError \<Rightarrow> ''marshal: '' @ marshalText
     | ErrSendBufferFull \<Rightarrow> ''send buffer full''
     | ErrClientClosed \<Rightarrow> ''client closed'')"

text \<open>The response is \<open>(Delivered, Error)\<close>; \<open>err\<close> is the text of an encoding error.\<close>

definition ForwardMessage :: "string \<Rightarrow> env \<Rightarrow> message option \<Rightarrow> string \<Rightarrow> (bool \<times> string) io" where
  "ForwardMessage err V msg uid =
    (case msg of
       None \<Rightarrow> State_Monad.return (False, ''message is nil'')
     | Some m \<Rightarrow>
         if uid = [] then State_Monad.return (False, ''uid is empty'')
         else do {
           target \<leftarrow> clientsGet uid;
           case target of
             Some t \<Rightarrow> do {
               e \<leftarrow> send V t m;
               case e of
                 Some x \<Rightarrow> do { storeOffline V uid m; State_Monad.return (False, send_error_text err x) }
               | None \<Rightarrow> State_Monad.return (True, []) }
           | None \<Rightarrow> do {
               storeOffline V uid m;
               State_Monad.return (False, ''target not locally connected, stored offline'') } })"

section \<open>The forwarder\<close>

record forwarder =
  fw_thisNodeID :: string
  fw_peerAddrs :: "(string, string) gomap"
  fw_conns :: "(string, string) gomap"
  fw_clients :: "(string, string) gomap"
  fw_dialTimeout :: int
  fw_rpcTimeout :: int

definition NewGrpcForwarder :: "string \<Rightarrow> (string, string) gomap \<Rightarrow> int \<Rightarrow> int \<Rightarrow> forwarder" where
  "NewGrpcForwarder thisNodeID peerAddrs dialTimeout rpcTimeout =
    \<lparr>fw_thisNodeID = thisNodeID, fw_peerAddrs = peerAddrs, fw_conns = [], fw_clients = [],
     fw_dialTimeout = (if dialTimeout \<le> 0 then 3 * second else dialTimeout),
     fw_rpcTimeout = (if rpcTimeout \<le> 0 then 2 * second else rpcTimeout)\<rparr>"

definition ErrClientConnClosing :: string where
  "ErrClientConnClosing = ''rpc error: code = Canceled desc = grpc: the client connection is closing''"

definition getOrDial :: "(string \<Rightarrow> string option) \<Rightarrow> string \<Rightarrow> forwarder \<Rightarrow> (string + string) \<times> forwarder" where
  "getOrDial dial nodeID f =
    (case map_of (fw_clients f) nodeID of
       Some client \<Rightarrow> (Inr client, f)
     | None \<Rightarrow>
         (case map_of (fw_peerAddrs f) nodeID of
            None \<Rightarrow> (Inl ErrClientConnClosing, f)
          | Some a \<Rightarrow>
              (case dial a of
                 Some e \<Rightarrow> (Inl e, f)
               | None \<Rightarrow> (Inr a, f\<lparr>fw_conns := AList.update nodeID a (fw_conns f),
                                   fw_clients := AList.update nodeID a (fw_clients f)\<rparr>))))"

text \<open>The failed connection is given up.\<close>

definition evictConn :: "string \<Rightarrow> forwarder \<Rightarrow> forwarder" where
  "evictConn nodeID f = f\<lparr>fw_conns := AList.delete nodeID (fw_conns f), fw_clients := AList.delete nodeID (fw_clients f)\<rparr>"

type_synonym network = "string \<Rightarrow> world"

definition Forward ::
  "string \<Rightarrow> (string \<Rightarrow> env) \<Rightarrow> (string \<Rightarrow> string option) \<Rightarrow> rpc \<Rightarrow> hashring \<Rightarrow> string \<Rightarrow> message \<Rightarrow> forwarder \<times> network \<Rightarrow>
    (string + bool) \<times> forwarder \<times> network" where
  "Forward err VS dial rpc hr targetUID msg = (\<lambda>(f, net).
    let ownerNode = Get targetUID hr in
    if ownerNode = [] then (Inr False, f, net)
    else if ownerNode = fw_thisNodeID f then (Inr False, f, net)
    else
      case getOrDial dial ownerNode f of
        (Inl e, f) \<Rightarrow> (Inl e, f, net)
      | (Inr a, f) \<Rightarrow>
          (case rpc_call rpc (run_state (ForwardMessage err (VS a) (Some msg) targetUID)) (net a) of
             (Inl e, w) \<Rightarrow> (Inl e, evictConn ownerNode f, net(a := w))
           | (Inr (delivered, _), w) \<Rightarrow> (Inr delivered, f, net(a := w))))"

definition AddPeer :: "string \<Rightarrow> string \<Rightarrow> forwarder \<Rightarrow> forwarder" where
  "AddPeer nodeID a f = f\<lparr>fw_peerAddrs := AList.update nodeID a (fw_peerAddrs f)\<rparr>"

definition RemovePeer :: "string \<Rightarrow> forwarder \<Rightarrow> forwarder" where
  "RemovePeer nodeID f = evictConn nodeID (f\<lparr>fw_peerAddrs := AList.delete nodeID (fw_peerAddrs f)\<rparr>)"

definition PeerAddrs :: "forwarder \<Rightarrow> (string, string) gomap" where
  "PeerAddrs f = fw_peerAddrs f"

text \<open>\<open>cerr\<close> gives the error of closing the connection to a node; the last one is returned.\<close>

definition ForwarderClose :: "(string \<Rightarrow> string option) \<Rightarrow> forwarder \<Rightarrow> string option \<times> forwarder" where
  "ForwarderClose cerr f =
    (fold (\<lambda>(nodeID, _) lastErr. case cerr nodeID of Some e \<Rightarrow> Some e | None \<Rightarrow> lastErr) (fw_conns f) None,
     f\<lparr>fw_conns := [], fw_clients := []\<rparr>)"

section \<open>Arrival\<close>

text \<open>
  One delivery on a gateway that does not look further: into the connection of a user who is
  online there (or his offline queue, when the connection refuses it), else into the offline queue.
\<close>

definition lands :: "env \<Rightarrow> string \<Rightarrow> message \<Rightarrow> world \<Rightarrow> world \<Rightarrow> bool" where
  "lands V u m w w' \<longleftrightarrow>
    (if HubGet u (w_hub w) = None
     then fixed w w' \<and> mail w' u = stored w m (mail w u) \<and> (\<forall>v. v \<noteq> u \<longrightarrow> mail w' v = mail w v)
     else delivered_to V u m w w')"

lemma ForwardMessage_lands:
  assumes "ready w" and "u \<noteq> []"
  shows "lands V u m w (post (ForwardMessage err V (Some m) u) w)"
proof (cases "HubGet u (w_hub w)")
  case None
  then have "post (ForwardMessage err V (Some m) u) w = post (storeOffline V u m) w"
    using assms(2) by (simp add: ForwardMessage_def post_bind run_clientsGet run_return split_beta)
  with None show ?thesis using assms(1) store_mail [of w V u m] by (simp add: lands_def ready_def)
next
  case (Some t)
  have "post (ForwardMessage err V (Some m) u) w =
      post (do { e \<leftarrow> send V t m; case e of Some x \<Rightarrow> do { skip; storeOffline V u m } | None \<Rightarrow> skip }) w"
    using assms(2) Some
    by (auto simp: ForwardMessage_def post_bind run_bind run_clientsGet run_return run_skip split_beta split: option.split)
  moreover have "delivered_to V u m w (post (do { e \<leftarrow> send V t m; case e of Some x \<Rightarrow> do { skip; storeOffline V u m } | None \<Rightarrow> skip }) w)"
    using assms(1) Some by (intro send_delivers) (simp_all add: ready_def same_mail.keeps_skip run_skip)
  ultimately show ?thesis using Some by (simp add: lands_def)
qed

lemma Forward_remote:
  assumes "Get u hr \<noteq> []" and "Get u hr \<noteq> fw_thisNodeID f" and "getOrDial dial (Get u hr) f = (Inr a, f1)"
    and "Forward err VS dial rpc hr u m (f, net) = (r, f', net')"
  shows "net' = net(a := (if rpc = None \<or> snd (the rpc) then post (ForwardMessage err (VS a) (Some m) u) (net a) else net a))"
    and "(\<exists>b. r = Inr b) \<longleftrightarrow> rpc = None" and "f' = (if rpc = None then f1 else evictConn (Get u hr) f1)"
  using assms by (auto simp: Forward_def rpc_call_def Let_def split: option.splits prod.splits)

section \<open>Properties\<close>

text \<open>What the sending gateway keeps of a message it could not hand over, and of one it could.\<close>

lemma route_elsewhere:
  assumes "ready w" and "elsewhere w u"
  shows "waiting (mail (post (routeOrStoreOffline V u m) w) u) =
    (if \<exists>b. e_fwd V (w_calls w) u m = Inr b then waiting (mail w u)
     else keep_last (h_offlineMaxSize (w_hub w)) (waiting (mail w u) @ [m]))"
proof -
  let ?w1 = "post (forward V u m) w"
  have h: "w_offline ?w1 = HubOffline" using assms(1) by (simp add: ready_def run_simps)
  have "post (routeOrStoreOffline V u m) w = (case e_fwd V (w_calls w) u m of Inl _ \<Rightarrow> post (storeOffline V u m) ?w1 | Inr _ \<Rightarrow> ?w1)"
    using assms(2) by (auto simp: routeOrStoreOffline_def elsewhere_def run_simps split: sum.splits)
  moreover have "waiting (mail ?w1 u) = waiting (mail w u)" "h_offlineMaxSize (w_hub ?w1) = h_offlineMaxSize (w_hub w)"
    by (simp_all add: run_simps mail_def)
  ultimately show ?thesis
    using store_mail(2) [OF h, of V u m u] by (auto simp: stored_def split: sum.split)
qed

text \<open>
  C3. A message for a user of another gateway is never lost between the two: with \<open>a\<close> the address
  the forwarder reaches the owner under, a call that is answered puts it into exactly one place,
  the user's mail on the owner (and no other gateway changes); a call that fails before it ran
  leaves it in the sender's offline queue only; and a call that ran but whose answer was lost
  leaves it in both, once each.
\<close>

theorem cross_gateway:
  assumes "ready w" and "elsewhere w u" and "w_hashRing w = Some hr" and "fw_thisNodeID f = w_thisNodeID w"
    and "u \<noteq> []" and "getOrDial dial (Get u hr) f = (Inr a, f1)" and "ready (net a)"
    and "Forward err VS dial rpc hr u m (f, net) = (r, f', net')" and "e_fwd V (w_calls w) u m = r"
  shows "(\<forall>b. b \<noteq> a \<longrightarrow> net' b = net b) \<and>
    (case rpc of
       None \<Rightarrow> lands (VS a) u m (net a) (net' a) \<and> waiting (mail (post (routeOrStoreOffline V u m) w) u) = waiting (mail w u)
     | Some (e, executed) \<Rightarrow>
         (if executed then lands (VS a) u m (net a) (net' a) else net' a = net a) \<and>
         waiting (mail (post (routeOrStoreOffline V u m) w) u) =
           keep_last (h_offlineMaxSize (w_hub w)) (waiting (mail w u) @ [m]))"
proof -
  have o: "Get u hr \<noteq> []" "Get u hr \<noteq> fw_thisNodeID f"
    using assms(2,3,4) by (auto simp: elsewhere_def)
  note F = Forward_remote [OF o assms(6,8)]
  note L = ForwardMessage_lands [OF assms(7,5), of "VS a" m err]
  show ?thesis
    using F L route_elsewhere [OF assms(1,2), of V m] assms(9) by (auto split: option.split)
qed

text \<open>Gateway \<open>n1\<close> with nobody connected, and \<open>n2\<close> at address \<open>h:1\<close>, which owns the user \<open>u1\<close>.\<close>

definition demo_ring2 :: hashring where
  "demo_ring2 = Add ''n2'' (Add ''n1'' (NewHashRing 2))"

definition sender_gate :: world where
  "sender_gate = gate\<lparr>w_hub := NewHub 5, w_hashRing := Some demo_ring2, w_thisNodeID := ''n1'', w_forwarder := True\<rparr>"

lemma sender_gate_facts: "ready sender_gate" "elsewhere sender_gate ''u1''" "w_hashRing sender_gate = Some demo_ring2"
  "w_thisNodeID sender_gate = ''n1''"
  by (simp_all add: sender_gate_def ready_def own_uids_def elsewhere_def demo_ring2_def demo_ring)

theorem cross_gateway_witness:
  "lands gate_env ''u1'' gate_chat sender_gate
    (snd (snd (Forward [] (\<lambda>_. gate_env) (\<lambda>_. None) None demo_ring2 ''u1'' gate_chat
      (NewGrpcForwarder ''n1'' [(''n2'', ''h:1'')] 0 0, \<lambda>_. sender_gate))) ''h:1'')"
proof -
  obtain r f' net' where F: "Forward [] (\<lambda>_. gate_env) (\<lambda>_. None) None demo_ring2 ''u1'' gate_chat
      (NewGrpcForwarder ''n1'' [(''n2'', ''h:1'')] 0 0, \<lambda>_. sender_gate) = (r, f', net')"
    by (metis surj_pair)
  have dial: "getOrDial (\<lambda>_. None) (Get ''u1'' demo_ring2) (NewGrpcForwarder ''n1'' [(''n2'', ''h:1'')] 0 0) =
      (Inr ''h:1'', (NewGrpcForwarder ''n1'' [(''n2'', ''h:1'')] 0 0)
        \<lparr>fw_conns := [(''n2'', ''h:1'')], fw_clients := [(''n2'', ''h:1'')]\<rparr>)"
    by (simp add: demo_ring2_def demo_ring getOrDial_def NewGrpcForwarder_def)
  show ?thesis
    using cross_gateway [where V = "gate_env\<lparr>e_fwd := \<lambda>_ _ _. r\<rparr>", OF sender_gate_facts(1,2,3) _ _ dial sender_gate_facts(1) F]
      sender_gate_facts(4) unfolding F by (simp add: NewGrpcForwarder_def)
qed

text \<open>
  A changed address is not used while the old client is cached: after \<open>AddPeer\<close> with a new
  address for a node that was already dialled, messages for its users still go to the old
  address, and nothing reaches the new one, until a call fails.
\<close>

theorem stale_address:
  assumes "map_of (fw_clients f) (Get u hr) = Some old" and "Get u hr \<noteq> []" and "Get u hr \<noteq> fw_thisNodeID f"
    and "Forward err VS dial rpc hr u m (AddPeer (Get u hr) new f, net) = (r, f', net')"
  shows "(\<forall>b. b \<noteq> old \<longrightarrow> net' b = net b) \<and>
    (rpc = None \<longrightarrow> net' old = post (ForwardMessage err (VS old) (Some m) u) (net old) \<and> map_of (fw_clients f') (Get u hr) = Some old) \<and>
    (rpc \<noteq> None \<longrightarrow> map_of (fw_clients f') (Get u hr) = None)"
proof -
  have "getOrDial dial (Get u hr) (AddPeer (Get u hr) new f) = (Inr old, AddPeer (Get u hr) new f)"
    using assms(1) by (simp add: getOrDial_def AddPeer_def)
  from Forward_remote [OF assms(2) _ this assms(4)] assms(1,3) show ?thesis
    by (auto simp: AddPeer_def evictConn_def map_of_delete)
qed

theorem stale_address_witness:
  "snd (snd (Forward [] (\<lambda>_. gate_env) (\<lambda>_. None) None demo_ring2 ''u1'' gate_chat
      (AddPeer ''n2'' ''h:2'' ((NewGrpcForwarder ''n1'' [(''n2'', ''h:1'')] 0 0)\<lparr>fw_clients := [(''n2'', ''h:1'')]\<rparr>), \<lambda>_. sender_gate))) ''h:2'' =
    sender_gate"
proof -
  obtain r f' net' where F: "Forward [] (\<lambda>_. gate_env) (\<lambda>_. None) None demo_ring2 ''u1'' gate_chat
      (AddPeer ''n2'' ''h:2'' ((NewGrpcForwarder ''n1'' [(''n2'', ''h:1'')] 0 0)\<lparr>fw_clients := [(''n2'', ''h:1'')]\<rparr>), \<lambda>_. sender_gate) =
      (r, f', net')"
    by (metis surj_pair)
  have g: "Get ''u1'' demo_ring2 = ''n2''" by (simp add: demo_ring2_def demo_ring)
  show ?thesis
    using stale_address [of "(NewGrpcForwarder ''n1'' [(''n2'', ''h:1'')] 0 0)\<lparr>fw_clients := [(''n2'', ''h:1'')]\<rparr>" "''u1''" demo_ring2 "''h:1''",
        unfolded g, OF _ _ _ F] unfolding F by (simp add: NewGrpcForwarder_def)
qed

end
