(* ===== verification/Cluster.thy ===== *)
theory Cluster
  imports Forwarder
begin

text \<open>
  The cluster manager, \<open>internal/gateway/cluster.go\<close>, and the part of \<open>cmd/gateway/main.go\<close> that
  starts it: which gateways are on the hash ring. The ring and the forwarder are shared with the
  router. Redis and gRPC answer through arguments: the keys found and the value read for each,
  whether a command succeeded, and the states a probed connection goes through.

  The three loops run next to each other. A tick of the discovery loop and the handling of one
  peer by the health check are steps; the health check works on the list of peers it copied when
  it began, so that a discovery may come in between.
\<close>

section \<open>State\<close>

record cluster_config =
  cc_ThisNodeID :: string
  cc_ThisAddr :: string
  cc_HealthInterval :: int
  cc_ProbeTimeout :: int
  cc_Redis :: bool
  cc_RedisPrefix :: string
  cc_TTL :: int

record cluster_manager =
  cm_thisNode :: string
  cm_thisAddr :: string
  cm_redis :: bool
  cm_redisPrefix :: string
  cm_ttl :: int
  cm_healthInterval :: int
  cm_probeTimeout :: int
  cm_started :: bool
  cm_cancelled :: bool
  cm_peerHealth :: "(string, bool) gomap"

definition NewClusterManager :: "cluster_config \<Rightarrow> cluster_manager" where
  "NewClusterManager cfg =
    \<lparr>cm_thisNode = cc_ThisNodeID cfg, cm_thisAddr = cc_ThisAddr cfg, cm_redis = cc_Redis cfg,
     cm_redisPrefix = (if cc_RedisPrefix cfg = [] then ''im:gateway:node:'' else cc_RedisPrefix cfg),
     cm_ttl = (if cc_TTL cfg \<le> 0 then 15 * second else cc_TTL cfg),
     cm_healthInterval = (if cc_HealthInterval cfg \<le> 0 then 5 * second else cc_HealthInterval cfg),
     cm_probeTimeout = (if cc_ProbeTimeout cfg \<le> 0 then 2 * second else cc_ProbeTimeout cfg),
     cm_started = False, cm_cancelled = False, cm_peerHealth = []\<rparr>"

datatype redis_cmd = SetKey string string int | DelKey string

record cluster =
  cs_ring :: hashring
  cs_fwd :: forwarder
  cs_cm :: cluster_manager
  cs_redis :: "redis_cmd list"
  cs_pending :: "(string \<times> string) list"

definition setHealth :: "string \<Rightarrow> bool \<Rightarrow> cluster \<Rightarrow> cluster" where
  "setHealth nodeID b s = s\<lparr>cs_cm := (cs_cm s)\<lparr>cm_peerHealth := AList.update nodeID b (cm_peerHealth (cs_cm s))\<rparr>\<rparr>"

text \<open>A missing entry of the map reads as \<open>false\<close>.\<close>

definition health :: "cluster \<Rightarrow> string \<Rightarrow> bool" where
  "health s nodeID \<longleftrightarrow> map_of (cm_peerHealth (cs_cm s)) nodeID = Some True"

abbreviation this :: "cluster \<Rightarrow> string" where
  "this s \<equiv> cm_thisNode (cs_cm s)"

section \<open>Peers\<close>

definition addPeer :: "string \<Rightarrow> string \<Rightarrow> cluster \<Rightarrow> cluster" where
  "addPeer nodeID a s = setHealth nodeID True (s\<lparr>cs_fwd := AddPeer nodeID a (cs_fwd s), cs_ring := Add nodeID (cs_ring s)\<rparr>)"

definition removePeer :: "string \<Rightarrow> cluster \<Rightarrow> cluster" where
  "removePeer nodeID s = s\<lparr>cs_ring := Remove nodeID (cs_ring s), cs_fwd := RemovePeer nodeID (cs_fwd s),
     cs_cm := (cs_cm s)\<lparr>cm_peerHealth := AList.delete nodeID (cm_peerHealth (cs_cm s))\<rparr>\<rparr>"

definition HealthyPeers :: "cluster \<Rightarrow> nat" where
  "HealthyPeers s = length (filter snd (cm_peerHealth (cs_cm s)))"

section \<open>Discovery\<close>

definition nodeKey :: "cluster_manager \<Rightarrow> string \<Rightarrow> string" where
  "nodeKey cm nodeID = cm_redisPrefix cm @ nodeID"

definition registerSelf :: "bool \<Rightarrow> cluster \<Rightarrow> cluster" where
  "registerSelf ok s =
    (if ok then s\<lparr>cs_redis := cs_redis s @ [SetKey (nodeKey (cs_cm s) (this s)) (cm_thisAddr (cs_cm s)) (cm_ttl (cs_cm s))]\<rparr>
     else s)"

text \<open>One found peer against the peers known at the start of the reconciliation.\<close>

definition adoptPeer :: "(string, string) gomap \<Rightarrow> string \<times> string \<Rightarrow> cluster \<Rightarrow> cluster" where
  "adoptPeer currentPeers = (\<lambda>(nodeID, a) s.
    if nodeID = this s then s
    else
      case map_of currentPeers nodeID of
        None \<Rightarrow> addPeer nodeID a s
      | Some a' \<Rightarrow> if a' \<noteq> a then addPeer nodeID a s else s)"

definition expirePeer :: "(string, string) gomap \<Rightarrow> string \<times> string \<Rightarrow> cluster \<Rightarrow> cluster" where
  "expirePeer found = (\<lambda>(nodeID, _) s. if has_key found nodeID then s else removePeer nodeID s)"

definition reconcilePeers :: "(string, string) gomap \<Rightarrow> cluster \<Rightarrow> cluster" where
  "reconcilePeers found s =
    (let currentPeers = PeerAddrs (cs_fwd s)
     in fold (expirePeer found) currentPeers (fold (adoptPeer currentPeers) found s))"

text \<open>The keys all start with the prefix, as the pattern asks for.\<close>

definition foundPeers :: "string \<Rightarrow> (string \<Rightarrow> string option) \<Rightarrow> string list \<Rightarrow> (string, string) gomap" where
  "foundPeers prefix get keys = fold (\<lambda>key found.
     let nodeID = drop (length prefix) key in
     if nodeID = [] then found
     else case get key of None \<Rightarrow> found | Some a \<Rightarrow> AList.update nodeID a found) keys []"

definition discoverPeers :: "string list option \<Rightarrow> (string \<Rightarrow> string option) \<Rightarrow> cluster \<Rightarrow> cluster" where
  "discoverPeers keys get s =
    (case keys of
       None \<Rightarrow> s
     | Some keys \<Rightarrow> reconcilePeers (foundPeers (cm_redisPrefix (cs_cm s)) get keys) s)"

text \<open>The periods of the two loops; \<open>cm_ttl\<close> is positive, so Go's division is \<open>div\<close>.\<close>

definition refreshInterval :: "cluster_manager \<Rightarrow> int" where
  "refreshInterval cm = (let interval = cm_ttl cm div 3 in if interval < 2 * second then 2 * second else interval)"

definition discoveryInterval :: "cluster_manager \<Rightarrow> int" where
  "discoveryInterval cm = (let interval = cm_ttl cm div 2 in if interval < 3 * second then 3 * second else interval)"

section \<open>Health\<close>

datatype connectivity = Idle | Connecting | Ready | TransientFailure | ConnShutdown

text \<open>The states the connection takes before the context expires.\<close>

fun probeLoop :: "connectivity \<Rightarrow> connectivity list \<Rightarrow> bool" where
  "probeLoop state changes =
    (if state = Ready then True
     else case changes of [] \<Rightarrow> False | next # rest \<Rightarrow> probeLoop next rest)"

definition probePeer :: "string option \<Rightarrow> connectivity \<Rightarrow> connectivity list \<Rightarrow> bool" where
  "probePeer err state changes = (if err \<noteq> None then False else probeLoop state changes)"

definition checkPeer :: "(string \<Rightarrow> bool) \<Rightarrow> string \<times> string \<Rightarrow> cluster \<Rightarrow> cluster" where
  "checkPeer probe = (\<lambda>(nodeID, a) s.
    if nodeID = this s then s
    else
      let healthy = probe a; wasHealthy = health s nodeID in
      if healthy \<and> \<not> wasHealthy then setHealth nodeID True (s\<lparr>cs_ring := Add nodeID (cs_ring s)\<rparr>)
      else if \<not> healthy \<and> wasHealthy then setHealth nodeID False (s\<lparr>cs_ring := Remove nodeID (cs_ring s)\<rparr>)
      else s)"

definition runHealthCheck :: "(string \<Rightarrow> bool) \<Rightarrow> cluster \<Rightarrow> cluster" where
  "runHealthCheck probe s = fold (checkPeer probe) (PeerAddrs (cs_fwd s)) s"

section \<open>Life cycle\<close>

definition ClusterStart :: "bool \<Rightarrow> string list option \<Rightarrow> (string \<Rightarrow> string option) \<Rightarrow> cluster \<Rightarrow> cluster" where
  "ClusterStart ok keys get s =
    (if cm_started (cs_cm s) then s
     else
       let s = s\<lparr>cs_cm := (cs_cm s)\<lparr>cm_started := True\<rparr>\<rparr>;
           s = fold (\<lambda>(nodeID, _) s. if nodeID \<noteq> this s then setHealth nodeID True s else s) (PeerAddrs (cs_fwd s)) s
       in if cm_redis (cs_cm s) then discoverPeers keys get (registerSelf ok s) else s)"

definition ClusterStop :: "bool \<Rightarrow> cluster \<Rightarrow> cluster" where
  "ClusterStop ok s =
    (let s = s\<lparr>cs_cm := (cs_cm s)\<lparr>cm_cancelled := True\<rparr>\<rparr>
     in if cm_redis (cs_cm s) \<and> ok then s\<lparr>cs_redis := cs_redis s @ [DelKey (cm_redisPrefix (cs_cm s) @ this s)]\<rparr> else s)"

text \<open>The wiring in \<open>main\<close>: the ring holds the configured peers and the node itself.\<close>

definition bootCluster :: "(string, string) gomap \<Rightarrow> int \<Rightarrow> int \<Rightarrow> cluster_config \<Rightarrow> cluster" where
  "bootCluster peerAddrs dialTimeout rpcTimeout cfg =
    \<lparr>cs_ring = Add (cc_ThisNodeID cfg) (fold (\<lambda>(nodeID, _). Add nodeID) peerAddrs (NewHashRing 150)),
     cs_fwd = NewGrpcForwarder (cc_ThisNodeID cfg) peerAddrs dialTimeout rpcTimeout,
     cs_cm = NewClusterManager cfg, cs_redis = [], cs_pending = []\<rparr>"

datatype clevent =
    RefreshTick bool
  | DiscoveryTick "string list option" "string \<Rightarrow> string option"
  | HealthTick
  | HealthProbe bool
  | ForwardTo "string \<Rightarrow> string option" string bool
  | StopCluster bool

text \<open>
  \<open>HealthTick\<close> copies the peers, each \<open>HealthProbe\<close> handles the next of them. \<open>ForwardTo\<close> is what a
  forwarded message does to the connections: dial if needed, give up after an error.
\<close>

fun cluster_step :: "clevent \<Rightarrow> cluster \<Rightarrow> cluster" where
  "cluster_step (RefreshTick ok) s = (if cm_cancelled (cs_cm s) \<or> \<not> cm_redis (cs_cm s) then s else registerSelf ok s)"
| "cluster_step (DiscoveryTick keys get) s =
    (if cm_cancelled (cs_cm s) \<or> \<not> cm_redis (cs_cm s) then s else discoverPeers keys get s)"
| "cluster_step HealthTick s =
    (if cm_cancelled (cs_cm s) \<or> cs_pending s \<noteq> [] then s else s\<lparr>cs_pending := PeerAddrs (cs_fwd s)\<rparr>)"
| "cluster_step (HealthProbe b) s =
    (case cs_pending s of [] \<Rightarrow> s | p # ps \<Rightarrow> checkPeer (\<lambda>_. b) p (s\<lparr>cs_pending := ps\<rparr>))"
| "cluster_step (ForwardTo dial n ok) s =
    s\<lparr>cs_fwd := (case getOrDial dial n (cs_fwd s) of (Inl _, f) \<Rightarrow> f | (Inr _, f) \<Rightarrow> if ok then f else evictConn n f)\<rparr>"
| "cluster_step (StopCluster ok) s = ClusterStop ok s"

definition cluster_run :: "clevent list \<Rightarrow> cluster \<Rightarrow> cluster" where
  "cluster_run es s = fold cluster_step es s"

section \<open>The ring follows the health table\<close>

definition addrs :: "cluster \<Rightarrow> string \<Rightarrow> string option" where
  "addrs s n = map_of (fw_peerAddrs (cs_fwd s)) n"

text \<open>Every node on the ring is this one or a peer marked healthy.\<close>

definition ring_sound :: "cluster \<Rightarrow> bool" where
  "ring_sound s \<longleftrightarrow> ring_ok (cs_ring s) \<and>
    (\<forall>x n. map_of (nodes (cs_ring s)) x = Some n \<longrightarrow> n = this s \<or> health s n)"

lemma setHealth_simps [simp]:
  "cs_ring (setHealth n b s) = cs_ring s" "cs_fwd (setHealth n b s) = cs_fwd s" "this (setHealth n b s) = this s"
  "cs_pending (setHealth n b s) = cs_pending s" "addrs (setHealth n b s) = addrs s"
  "health (setHealth n b s) m = (if m = n then b else health s m)"
  by (simp_all add: setHealth_def health_def addrs_def fun_eq_iff map_of_update)

lemma peer_simps [simp]:
  "this (addPeer n a s) = this s" "this (removePeer n s) = this s" "cs_pending (addPeer n a s) = cs_pending s"
  "cs_pending (removePeer n s) = cs_pending s"
  "addrs (addPeer n a s) m = (if m = n then Some a else addrs s m)" "addrs (removePeer n s) m = (if m = n then None else addrs s m)"
  "health (addPeer n a s) m = (if m = n then True else health s m)" "health (removePeer n s) m = (if m = n then False else health s m)"
  by (simp_all add: addPeer_def removePeer_def AddPeer_def RemovePeer_def evictConn_def addrs_def health_def setHealth_def
      map_of_update map_of_delete)

lemma cluster_upd_simps [simp]:
  "health (s\<lparr>cs_ring := r\<rparr>) = health s" "addrs (s\<lparr>cs_ring := r\<rparr>) = addrs s"
  "health (s\<lparr>cs_pending := p\<rparr>) = health s" "addrs (s\<lparr>cs_pending := p\<rparr>) = addrs s"
  "health (s\<lparr>cs_fwd := f\<rparr>) = health s" "health (s\<lparr>cs_redis := l\<rparr>) = health s" "addrs (s\<lparr>cs_redis := l\<rparr>) = addrs s"
  by (simp_all add: health_def addrs_def fun_eq_iff)

lemma nodes_Remove: "ring_ok h \<Longrightarrow> map_of (nodes (Remove n h)) x = (if map_of (nodes h) x = Some n then None else map_of (nodes h) x)"
  by (simp add: Remove_def map_of_removeLocked ring_ok_def)

lemma ring_sound_add:
  "ring_sound s \<Longrightarrow> ring_sound (addPeer n a s)"
  "ring_sound s \<Longrightarrow> ring_sound (setHealth n True (s\<lparr>cs_ring := Add n (cs_ring s)\<rparr>))"
  by (auto simp: ring_sound_def addPeer_def ring_ok_Add Add_effect(6) split: if_splits)

lemma ring_sound_remove:
  "ring_sound s \<Longrightarrow> ring_sound (removePeer n s)"
  "ring_sound s \<Longrightarrow> n \<noteq> this s \<Longrightarrow> ring_sound (setHealth n False (s\<lparr>cs_ring := Remove n (cs_ring s)\<rparr>))"
  by (auto simp: ring_sound_def ring.ok_del nodes_Remove split: if_splits)
    (auto simp: removePeer_def nodes_Remove ring.ok_del split: if_splits)

lemma ring_sound_check: "ring_sound s \<Longrightarrow> ring_sound (checkPeer probe p s)"
  using ring_sound_add(2) [of s "fst p"] ring_sound_remove(2) [of s "fst p"]
  by (cases p) (simp add: checkPeer_def Let_def)

lemma ring_sound_adopt: "ring_sound s \<Longrightarrow> ring_sound (adoptPeer cur p s)"
  using ring_sound_add(1) by (cases p) (simp add: adoptPeer_def split: option.split)

lemma ring_sound_expire: "ring_sound s \<Longrightarrow> ring_sound (expirePeer found p s)"
  using ring_sound_remove(1) by (cases p) (simp add: expirePeer_def)

lemma ring_sound_reconcile: "ring_sound s \<Longrightarrow> ring_sound (reconcilePeers found s)"
  unfolding reconcilePeers_def Let_def
  by (intro fold_invariant [where P = ring_sound and Q = "\<lambda>_. True"] ring_sound_adopt ring_sound_expire) simp_all

lemma ring_sound_discover: "ring_sound s \<Longrightarrow> ring_sound (discoverPeers keys get s)"
  by (simp add: discoverPeers_def ring_sound_reconcile split: option.split)

lemma ring_sound_same: "cs_ring s' = cs_ring s \<Longrightarrow> cm_peerHealth (cs_cm s') = cm_peerHealth (cs_cm s) \<Longrightarrow> this s' = this s \<Longrightarrow>
    ring_sound s' = ring_sound s"
  by (simp add: ring_sound_def health_def)

lemma ring_sound_step: "ring_sound s \<Longrightarrow> ring_sound (cluster_step e s)"
proof (cases e)
  case (HealthProbe b)
  assume "ring_sound s"
  moreover have "ring_sound (s\<lparr>cs_pending := ps\<rparr>) = ring_sound s" for ps by (rule ring_sound_same) simp_all
  ultimately show ?thesis using HealthProbe by (simp add: ring_sound_check split: list.split)
next
  case (DiscoveryTick keys get)
  then show "ring_sound s \<Longrightarrow> ?thesis" by (simp add: ring_sound_discover)
qed (auto simp: registerSelf_def ClusterStop_def Let_def intro: ring_sound_same [THEN iffD2])

lemma ring_sound_run: "ring_sound s \<Longrightarrow> ring_sound (cluster_run es s)"
  unfolding cluster_run_def by (rule fold_invariant [where Q = "\<lambda>_. True"]) (simp_all add: ring_sound_step)

lemma mark_initial:
  fixes ps :: "(string, string) gomap"
  defines "mk \<equiv> \<lambda>(nodeID, _ :: string) s. if nodeID \<noteq> this s then setHealth nodeID True s else s"
  shows "cs_ring (fold mk ps s) = cs_ring s \<and> this (fold mk ps s) = this s \<and> addrs (fold mk ps s) = addrs s \<and>
    (\<forall>n. health (fold mk ps s) n \<longleftrightarrow> health s n \<or> n \<in> fst ` set ps \<and> n \<noteq> this s)"
proof (induction ps arbitrary: s)
  case (Cons p ps)
  show ?case using Cons.IH [of "mk p s"] by (cases p) (auto simp: mk_def)
qed simp

lemma ring_boot:
  "ring_ok (fold (\<lambda>(nodeID, _). Add nodeID) ps h) \<and>
    (\<forall>x n. map_of (nodes (fold (\<lambda>(nodeID, _). Add nodeID) ps h)) x = Some n \<longrightarrow> n \<in> fst ` set ps \<or> map_of (nodes h) x = Some n)"
  if "ring_ok h" for ps :: "(string, string) gomap"
  using that
proof (induction ps arbitrary: h)
  case (Cons p ps)
  have a: "ring_ok (Add (fst p) h)" using Cons.prems by (rule ring_ok_Add)
  show ?case
    using Cons.IH [OF a] Add_effect(6) [OF Cons.prems, of "fst p"] by (cases p) (auto split: if_splits)
qed simp

lemma ring_sound_start:
  "ring_sound (ClusterStart ok keys get (bootCluster ps dt rt cfg))"
proof -
  let ?s = "(bootCluster ps dt rt cfg)\<lparr>cs_cm := (NewClusterManager cfg)\<lparr>cm_started := True\<rparr>\<rparr>"
  let ?m = "fold (\<lambda>(nodeID, _) s. if nodeID \<noteq> this s then setHealth nodeID True s else s) ps ?s"
  have ring: "ring_ok (cs_ring ?s)" "map_of (nodes (cs_ring ?s)) x = Some n \<Longrightarrow> n = cc_ThisNodeID cfg \<or> n \<in> fst ` set ps" for x n
    using ring_boot [OF ring_ok_New [of 150], of ps] ring_ok_Add Add_effect(6) [of "fold (\<lambda>(nodeID, _). Add nodeID) ps (NewHashRing 150)"]
    by (auto simp: bootCluster_def NewHashRing_def split: if_splits)
  have "this ?s = cc_ThisNodeID cfg" by (simp add: NewClusterManager_def)
  with ring mark_initial [of ps ?s] have m: "ring_sound ?m" by (auto simp: ring_sound_def)
  have "ring_sound (registerSelf ok s)" if "ring_sound s" for s
    using that by (auto simp: registerSelf_def intro: ring_sound_same [THEN iffD2])
  then show ?thesis
    using m ring_sound_discover [of "registerSelf ok ?m" keys get]
    by (simp add: ClusterStart_def Let_def bootCluster_def PeerAddrs_def NewGrpcForwarder_def NewClusterManager_def)
qed

lemma this_discover: "this (discoverPeers keys get s) = this s"
proof -
  have adopt: "this (adoptPeer cur p s) = this s" for cur p s
    by (cases p) (simp add: adoptPeer_def split: option.split)
  have expire: "this (expirePeer found p s) = this s" for found p s by (cases p) (simp add: expirePeer_def)
  have "this (fold (adoptPeer cur) ps s) = this s" "this (fold (expirePeer found) ps s) = this s" for cur found ps s
    by (induction ps arbitrary: s) (simp_all add: adopt expire)
  then show ?thesis by (simp add: discoverPeers_def reconcilePeers_def Let_def split: option.split)
qed

lemma prefix_discover: "cm_redisPrefix (cs_cm (discoverPeers keys get s)) = cm_redisPrefix (cs_cm s)"
proof -
  let ?p = "\<lambda>s. cm_redisPrefix (cs_cm s)"
  have adopt: "?p (adoptPeer cur p s) = ?p s" for cur p s
    by (cases p) (simp add: adoptPeer_def addPeer_def setHealth_def split: option.split)
  have expire: "?p (expirePeer found p s) = ?p s" for found p s by (cases p) (simp add: expirePeer_def removePeer_def)
  have "?p (fold (adoptPeer cur) ps s) = ?p s" "?p (fold (expirePeer found) ps s) = ?p s" for cur found ps s
    by (induction ps arbitrary: s) (simp_all add: adopt expire)
  then show ?thesis by (simp add: discoverPeers_def reconcilePeers_def Let_def split: option.split)
qed

lemma this_run: "this (cluster_run es s) = this s"
proof -
  have check: "this (checkPeer probe p s) = this s" for probe p s
    by (cases p) (simp add: checkPeer_def Let_def)
  have "this (cluster_step e s) = this s" for e s
    by (cases e) (simp_all add: this_discover check registerSelf_def ClusterStop_def Let_def split: list.split)
  then show ?thesis unfolding cluster_run_def by (induction es arbitrary: s) simp_all
qed

section \<open>Reconciliation\<close>

definition news :: "(string, string) gomap \<Rightarrow> (string, string) gomap \<Rightarrow> string \<Rightarrow> bool" where
  "news cur found n \<longleftrightarrow> has_key found n \<and> map_of cur n \<noteq> map_of found n"

lemma fold_adopt:
  assumes "gomap_ok found"
  shows "this (fold (adoptPeer cur) found s) = this s \<and>
    (\<forall>n. addrs (fold (adoptPeer cur) found s) n = (if n \<noteq> this s \<and> news cur found n then map_of found n else addrs s n)) \<and>
    (\<forall>n. health (fold (adoptPeer cur) found s) n = (n \<noteq> this s \<and> news cur found n \<or> health s n))"
  using assms
proof (induction found arbitrary: s)
  case Nil
  then show ?case by (simp add: news_def has_key_def)
next
  case (Cons p found)
  obtain k a where p: "p = (k, a)" by (cases p)
  have fresh: "map_of found k = None" using Cons.prems by (simp add: p map_of_eq_None_iff)
  have news: "news cur ((k, a) # found) n = (if n = k then map_of cur k \<noteq> Some a else news cur found n)" for n
    by (simp add: news_def has_key_def)
  have none: "\<not> news cur found k" using fresh by (simp add: news_def has_key_def)
  have one: "adoptPeer cur (k, a) s = (if k \<noteq> this s \<and> map_of cur k \<noteq> Some a then addPeer k a s else s)"
    by (auto simp: adoptPeer_def split: option.split)
  have ok: "gomap_ok found" using Cons.prems by simp
  show ?case
    unfolding p fold_Cons comp_apply news using Cons.IH [OF ok, of "adoptPeer cur (k, a) s"] none unfolding one
    by (auto split: if_splits)
qed

lemma fold_expire:
  "this (fold (expirePeer found) ps s) = this s \<and>
    (\<forall>n. addrs (fold (expirePeer found) ps s) n = (if n \<in> fst ` set ps \<and> \<not> has_key found n then None else addrs s n)) \<and>
    (\<forall>n. health (fold (expirePeer found) ps s) n = (if n \<in> fst ` set ps \<and> \<not> has_key found n then False else health s n)) \<and>
    (\<forall>n. map_of (fw_clients (cs_fwd (fold (expirePeer found) ps s))) n =
      (if n \<in> fst ` set ps \<and> \<not> has_key found n then None else map_of (fw_clients (cs_fwd s)) n))"
proof (induction ps arbitrary: s)
  case (Cons p ps)
  have "map_of (fw_clients (cs_fwd (removePeer m s))) n = (if n = m then None else map_of (fw_clients (cs_fwd s)) n)" for m n
    by (simp add: removePeer_def RemovePeer_def evictConn_def map_of_delete)
  then show ?case using Cons.IH [of "expirePeer found p s"] by (cases p) (auto simp: expirePeer_def)
qed simp

lemma fold_check:
  assumes "gomap_ok ps"
  shows "this (fold (checkPeer probe) ps s) = this s \<and> addrs (fold (checkPeer probe) ps s) = addrs s \<and>
    (\<forall>n. health (fold (checkPeer probe) ps s) n = (case map_of ps n of Some a \<Rightarrow> if n = this s then health s n else probe a | None \<Rightarrow> health s n))"
  using assms
proof (induction ps arbitrary: s)
  case (Cons p ps)
  obtain k a where p: "p = (k, a)" by (cases p)
  have fresh: "map_of ps k = None" using Cons.prems by (simp add: p map_of_eq_None_iff)
  have one: "this (checkPeer probe p s) = this s" "addrs (checkPeer probe p s) = addrs s"
    "health (checkPeer probe p s) n = (if n = k \<and> k \<noteq> this s then probe a else health s n)" for n
    by (auto simp: checkPeer_def p Let_def)
  show ?case
    using Cons.IH [of "checkPeer probe p s"] Cons.prems fresh one by (auto simp: p split: option.split)
qed simp

lemma Get_node:
  assumes "ring_sound s"
  shows "Get key (cs_ring s) = [] \<or> Get key (cs_ring s) = this s \<or> health s (Get key (cs_ring s))"
proof (cases "ring (cs_ring s) = []")
  case False
  then show ?thesis using assms Get_successor [of "cs_ring s" key] by (auto simp: ring_sound_def)
qed (simp add: Get_def)

lemma foundPeers_facts:
  "gomap_ok (foundPeers prefix get keys)"
  "\<forall>k \<in> set keys. \<exists>n. k = prefix @ n \<Longrightarrow>
    map_of (foundPeers prefix get keys) n = (if n \<noteq> [] \<and> prefix @ n \<in> set keys then get (prefix @ n) else None)"
proof -
  let ?f = "\<lambda>key found. let nodeID = drop (length prefix) key in
     if nodeID = [] then found else case get key of None \<Rightarrow> found | Some a \<Rightarrow> AList.update nodeID a found"
  have "gomap_ok m \<Longrightarrow> gomap_ok (fold ?f keys m)" for m
    by (induction keys arbitrary: m) (auto simp: Let_def split: option.split)
  then show "gomap_ok (foundPeers prefix get keys)" by (simp add: foundPeers_def)
  assume "\<forall>k \<in> set keys. \<exists>n. k = prefix @ n"
  then have "map_of (fold ?f keys m) n = (if n \<noteq> [] \<and> prefix @ n \<in> set keys \<and> get (prefix @ n) \<noteq> None then get (prefix @ n) else map_of m n)" for m
  proof (induction keys arbitrary: m)
    case (Cons k keys)
    then obtain j where k: "k = prefix @ j" by auto
    show ?case using Cons by (auto simp: k Let_def map_of_update split: option.split)
  qed simp
  then show "map_of (foundPeers prefix get keys) n = (if n \<noteq> [] \<and> prefix @ n \<in> set keys then get (prefix @ n) else None)"
    by (auto simp: foundPeers_def)
qed

lemma health_steps:
  assumes "\<not> cm_cancelled (cs_cm s)" and "cs_pending s = []"
  shows "cluster_run (HealthTick # map (\<lambda>(n, a). HealthProbe (probe a)) (PeerAddrs (cs_fwd s))) s = runHealthCheck probe s"
proof -
  have upd: "checkPeer probe p (s\<lparr>cs_pending := qs\<rparr>) = (checkPeer probe p s)\<lparr>cs_pending := qs\<rparr>" for p s qs
    by (cases p) (auto simp: checkPeer_def setHealth_def Let_def)
  have one: "checkPeer (\<lambda>_. probe (snd p)) p s = checkPeer probe p s" for p s
    by (cases p) (simp add: checkPeer_def)
  have "cluster_run (map (\<lambda>(n, a). HealthProbe (probe a)) ps) (s\<lparr>cs_pending := ps\<rparr>) = (fold (checkPeer probe) ps s)\<lparr>cs_pending := []\<rparr>" for ps s
  proof (induction ps arbitrary: s)
    case (Cons p ps)
    have "cluster_step (HealthProbe (probe (snd p))) (s\<lparr>cs_pending := p # ps\<rparr>) = (checkPeer probe p s)\<lparr>cs_pending := ps\<rparr>"
      by (simp add: one upd)
    then show ?case using Cons.IH [of "checkPeer probe p s"] by (simp add: cluster_run_def split_beta)
  qed (simp add: cluster_run_def)
  moreover have "cs_pending (fold (checkPeer probe) ps s) = cs_pending s" for ps s
    by (induction ps arbitrary: s) (auto simp: checkPeer_def Let_def)
  ultimately have "cluster_run (map (\<lambda>(n, a). HealthProbe (probe a)) (PeerAddrs (cs_fwd s))) (s\<lparr>cs_pending := PeerAddrs (cs_fwd s)\<rparr>) = runHealthCheck probe s"
    using assms(2) by (simp add: runHealthCheck_def)
  then show ?thesis using assms by (simp add: cluster_run_def)
qed

section \<open>Properties\<close>


text \<open>
  Discovery converges in one round: after the peers registered in Redis were read, the
  forwarder's table of the other gateways is exactly what Redis held, whatever it was before; a
  gateway that is new or has moved is marked healthy, and one that disappeared is off the table.
\<close>

theorem discovery_converges:
  assumes "gomap_ok (fw_peerAddrs (cs_fwd s))" and "prefix = cm_redisPrefix (cs_cm s)"
    and "\<forall>k \<in> set keys. \<exists>n. k = prefix @ n" and "s' = discoverPeers (Some keys) get s"
    and "n \<noteq> cm_thisNode (cs_cm s)" and "n \<noteq> []"
  shows "map_of (PeerAddrs (cs_fwd s')) n = (if prefix @ n \<in> set keys then get (prefix @ n) else None) \<and>
    (map_of (PeerAddrs (cs_fwd s')) n \<noteq> map_of (PeerAddrs (cs_fwd s)) n \<longrightarrow>
      (health s' n \<longleftrightarrow> map_of (PeerAddrs (cs_fwd s')) n \<noteq> None))"
proof -
  let ?cur = "fw_peerAddrs (cs_fwd s)" and ?found = "foundPeers prefix get keys"
  note ok = foundPeers_facts(1) [of prefix get keys]
  note found = foundPeers_facts(2) [OF assms(3), of get n]
  let ?s1 = "fold (adoptPeer ?cur) ?found s"
  have s': "s' = fold (expirePeer ?found) ?cur ?s1"
    by (simp add: assms(2,4) discoverPeers_def reconcilePeers_def PeerAddrs_def Let_def)
  have key: "n \<in> fst ` set ?cur \<longleftrightarrow> map_of ?cur n \<noteq> None" by (simp add: map_of_eq_None_iff)
  have 1: "addrs ?s1 n = (if news ?cur ?found n then map_of ?found n else addrs s n)" "health ?s1 n = (news ?cur ?found n \<or> health s n)"
    using fold_adopt [OF ok, of ?cur s] assms(5) by simp_all
  have 2: "addrs s' n = (if map_of ?cur n \<noteq> None \<and> \<not> has_key ?found n then None else addrs ?s1 n)"
    "health s' n = (if map_of ?cur n \<noteq> None \<and> \<not> has_key ?found n then False else health ?s1 n)"
    unfolding s' key [symmetric] using fold_expire [of ?found ?cur ?s1] by simp_all
  have "addrs s' n = map_of ?found n"
    using 1 2 by (auto simp: news_def has_key_def addrs_def)
  moreover have "map_of ?found n \<noteq> map_of ?cur n \<Longrightarrow> health s' n \<longleftrightarrow> map_of ?found n \<noteq> None"
    using 1 2 by (auto simp: news_def has_key_def)
  ultimately show ?thesis using found assms(6) by (simp add: addrs_def PeerAddrs_def)
qed

definition demo_config :: cluster_config where
  "demo_config = \<lparr>cc_ThisNodeID = ''n1'', cc_ThisAddr = ''h:0'', cc_HealthInterval = 0, cc_ProbeTimeout = 0, cc_Redis = True,
     cc_RedisPrefix = ''g:'', cc_TTL = 0\<rparr>"

definition demo_cluster :: cluster where
  "demo_cluster = \<lparr>cs_ring = demo_ring2, cs_fwd = NewGrpcForwarder ''n1'' [(''n2'', ''h:1'')] 0 0,
     cs_cm = (NewClusterManager demo_config)\<lparr>cm_peerHealth := [(''n2'', True)]\<rparr>, cs_redis = [], cs_pending = []\<rparr>"

lemma demo_cluster_simps [simp]:
  "fw_peerAddrs (cs_fwd demo_cluster) = [(''n2'', ''h:1'')]" "cm_redisPrefix (cs_cm demo_cluster) = ''g:''"
  "this demo_cluster = ''n1''" "cm_peerHealth (cs_cm demo_cluster) = [(''n2'', True)]" "cs_ring demo_cluster = demo_ring2"
  "\<not> cm_cancelled (cs_cm demo_cluster)" "cs_pending demo_cluster = []" "cm_redis (cs_cm demo_cluster)"
  by (simp_all add: demo_cluster_def NewGrpcForwarder_def NewClusterManager_def demo_config_def)

theorem discovery_converges_witness:
  "map_of (PeerAddrs (cs_fwd (discoverPeers (Some [''g:n1'', ''g:n2'']) (\<lambda>_. Some ''h:7'') demo_cluster))) ''n2'' = Some ''h:7''"
  using discovery_converges [of demo_cluster "''g:''" "[''g:n1'', ''g:n2'']" _ "\<lambda>_. Some ''h:7''" "''n2''"] by simp

text \<open>
  The registration in Redis is renewed before it expires exactly when the configured lifetime
  is more than two seconds; with the default lifetime two renewals may fail. A shorter lifetime
  lets the gateway vanish from Redis between any two renewals.
\<close>

theorem refresh_margin:
  "let cm = NewClusterManager cfg in
   (refreshInterval cm < cm_ttl cm \<longleftrightarrow> cc_TTL cfg \<le> 0 \<or> 2 * second < cc_TTL cfg) \<and>
   (cc_TTL cfg \<le> 0 \<longrightarrow> 3 * refreshInterval cm \<le> cm_ttl cm)"
  by (auto simp: NewClusterManager_def refreshInterval_def Let_def second_def)

theorem refresh_margin_witness: "refreshInterval (NewClusterManager demo_config) < cm_ttl (NewClusterManager demo_config)"
  using refresh_margin [of demo_config] by (simp add: demo_config_def Let_def)

text \<open>
  An undisturbed round of the health check, step by step, settles every peer: afterwards a peer
  is marked healthy exactly if its probe succeeded, and no user is routed to one whose probe failed.
\<close>

theorem health_check_settles:
  assumes "ring_sound s" and "gomap_ok (fw_peerAddrs (cs_fwd s))" and "\<not> cm_cancelled (cs_cm s)" and "cs_pending s = []"
    and "s' = cluster_run (HealthTick # map (\<lambda>(n, a). HealthProbe (probe a)) (PeerAddrs (cs_fwd s))) s"
    and "map_of (fw_peerAddrs (cs_fwd s)) n = Some a" and "n \<noteq> cm_thisNode (cs_cm s)" and "n \<noteq> []"
  shows "(health s' n \<longleftrightarrow> probe a) \<and> (probe a \<or> Get u (cs_ring s') \<noteq> n)"
proof -
  have s': "s' = runHealthCheck probe s" using health_steps [OF assms(3,4), of probe] assms(5) by simp
  have h: "health s' n \<longleftrightarrow> probe a" and t: "this s' = this s"
    using fold_check [OF assms(2), of probe s] assms(6,7) by (simp_all add: s' runHealthCheck_def PeerAddrs_def)
  have "ring_sound s'" using assms(1,5) ring_sound_run by blast
  from Get_node [OF this, of u] h t assms(7,8) show ?thesis by auto
qed

lemma demo_cluster_sound: "ring_sound demo_cluster"
proof -
  have ok: "ring_ok demo_ring2" unfolding demo_ring2_def by (rule ring_ok_demo)
  have "map_of (nodes demo_ring2) x = Some n \<Longrightarrow> n = ''n1'' \<or> n = ''n2''" for x n
    using Add_effect(6) [OF ring_ok_Add [OF ring_ok_New], of "''n2''" "''n1''" 2 x] Add_effect(6) [OF ring_ok_New, of "''n1''" 2 x]
    by (auto simp: demo_ring2_def NewHashRing_def split: if_splits)
  with ok show ?thesis by (auto simp: ring_sound_def health_def)
qed

theorem health_check_settles_witness:
  "Get ''u1'' (cs_ring (cluster_run [HealthTick, HealthProbe False] demo_cluster)) \<noteq> ''n2''"
  using health_check_settles [OF demo_cluster_sound _ _ _ refl, of "''n2''" "''h:1''" "\<lambda>_. False" "''u1''"]
  by (simp add: PeerAddrs_def)

text \<open>Discoveries that do not find a node.\<close>

fun finds :: "string \<Rightarrow> string \<Rightarrow> clevent \<Rightarrow> bool" where
  "finds prefix n (DiscoveryTick (Some keys) get) = has_key (foundPeers prefix get keys) n"
| "finds prefix n e = False"

definition ghost :: "string \<Rightarrow> string \<Rightarrow> cluster \<Rightarrow> bool" where
  "ghost prefix n s \<longleftrightarrow> health s n \<and> addrs s n = None \<and> map_of (fw_clients (cs_fwd s)) n = None \<and>
    n \<notin> fst ` set (cs_pending s) \<and> cm_redisPrefix (cs_cm s) = prefix"

lemma ghost_peers:
  assumes "ghost prefix n s" and "m \<noteq> n"
  shows "ghost prefix n (addPeer m a s)" "ghost prefix n (removePeer m s)" "ghost prefix n (setHealth m b s)"
    "ghost prefix n (s\<lparr>cs_ring := r\<rparr>)"
  using assms by (auto simp: ghost_def) (auto simp: addPeer_def removePeer_def setHealth_def AddPeer_def RemovePeer_def evictConn_def map_of_delete)

lemma ghost_discover:
  assumes "ghost prefix n s" and "\<not> finds prefix n (DiscoveryTick keys get)"
  shows "ghost prefix n (discoverPeers keys get s)"
proof (cases keys)
  case None
  then show ?thesis using assms(1) by (simp add: discoverPeers_def)
next
  case (Some ks)
  let ?found = "foundPeers prefix get ks" and ?cur = "PeerAddrs (cs_fwd s)"
  have p: "cm_redisPrefix (cs_cm s) = prefix" using assms(1) by (simp add: ghost_def)
  have f: "fst q \<noteq> n" if "q \<in> set ?found" for q
    using that assms(2) Some by (cases q) (auto simp: has_key_iff)
  have c: "fst q \<noteq> n" if "q \<in> set ?cur" for q
    using that assms(1) by (cases q) (auto simp: ghost_def addrs_def PeerAddrs_def map_of_eq_None_iff)
  have adopt: "ghost prefix n (adoptPeer ?cur q t)" if "fst q \<noteq> n" "ghost prefix n t" for q t
    using ghost_peers(1) [OF that(2,1)] that(2) by (cases q) (auto simp: adoptPeer_def split: option.split)
  have expire: "ghost prefix n (expirePeer ?found q t)" if "fst q \<noteq> n" "ghost prefix n t" for q t
    using ghost_peers(2) [OF that(2,1)] that(2) by (cases q) (auto simp: expirePeer_def)
  have g: "ghost prefix n (fold (adoptPeer ?cur) ?found s)"
    by (rule fold_invariant [where P = "ghost prefix n" and Q = "\<lambda>q. fst q \<noteq> n", OF f assms(1) adopt])
  have "ghost prefix n (fold (expirePeer ?found) ?cur (fold (adoptPeer ?cur) ?found s))"
    by (rule fold_invariant [where P = "ghost prefix n" and Q = "\<lambda>q. fst q \<noteq> n", OF c g expire])
  then show ?thesis using Some p by (simp add: discoverPeers_def reconcilePeers_def Let_def)
qed

lemma ghost_step:
  assumes "ghost prefix n s" and "\<not> finds prefix n e"
  shows "ghost prefix n (cluster_step e s)"
proof (cases e)
  case (DiscoveryTick keys get)
  then show ?thesis using assms ghost_discover by simp
next
  case (HealthProbe b)
  show ?thesis
  proof (cases "cs_pending s")
    case (Cons q qs)
    have g: "ghost prefix n (s\<lparr>cs_pending := qs\<rparr>)" "fst q \<noteq> n" using assms(1) Cons by (auto simp: ghost_def)
    then show ?thesis using HealthProbe Cons ghost_peers(3,4) by (cases q) (auto simp: checkPeer_def Let_def)
  qed (use HealthProbe assms(1) in simp)
next
  case HealthTick
  then show ?thesis using assms(1) by (auto simp: ghost_def addrs_def PeerAddrs_def map_of_eq_None_iff)
next
  case (ForwardTo dial m ok)
  have "map_of (fw_peerAddrs (snd (getOrDial dial m f))) = map_of (fw_peerAddrs f)" for f
    by (auto simp: getOrDial_def split: option.split)
  moreover have "map_of (fw_clients (snd (getOrDial dial m (cs_fwd s)))) n = None"
    using assms(1) by (auto simp: ghost_def addrs_def getOrDial_def map_of_update split: option.split)
  ultimately show ?thesis
    using ForwardTo assms(1)
    by (auto simp: ghost_def addrs_def evictConn_def map_of_delete split: prod.split sum.split) (metis snd_conv)+
next
  case (RefreshTick ok)
  then show ?thesis using assms(1) by (auto simp: ghost_def registerSelf_def health_def addrs_def)
next
  case (StopCluster ok)
  then show ?thesis using assms(1) by (auto simp: ghost_def ClusterStop_def health_def addrs_def Let_def)
qed

text \<open>
  A discovery during a health check can leave a gateway on the ring for good that nobody can
  reach: if a peer that was unhealthy disappears from Redis after the health check copied the
  peer list and its probe then succeeds, the peer is put back on the ring without an address, and
  whatever the loops do afterwards, as long as discovery does not find it again it stays marked
  healthy while forwarding to it fails.
\<close>

theorem ghost_peer:
  assumes "n \<noteq> cm_thisNode (cs_cm s)" and "cs_pending s = [(n, a)]" and "map_of (fw_peerAddrs (cs_fwd s)) n = Some a"
    and "\<not> health s n" and "ring_ok (cs_ring s)" and "cm_redis (cs_cm s)" and "\<not> cm_cancelled (cs_cm s)"
    and "prefix = cm_redisPrefix (cs_cm s)" and "gomap_ok (fw_peerAddrs (cs_fwd s))"
    and "\<not> has_key (foundPeers prefix get keys) n"
    and "s1 = cluster_run [DiscoveryTick (Some keys) get, HealthProbe True] s" and "\<forall>e \<in> set es. \<not> finds prefix n e"
  shows "(\<exists>x. map_of (nodes (cs_ring s1)) x = Some n) \<and>
    health (cluster_run es s1) n \<and> fst (getOrDial dial n (cs_fwd (cluster_run es s1))) = Inl ErrClientConnClosing"
proof -
  let ?found = "foundPeers prefix get keys" and ?cur = "fw_peerAddrs (cs_fwd s)" and ?d = "discoverPeers (Some keys) get s"
  have d: "?d = fold (expirePeer ?found) ?cur (fold (adoptPeer ?cur) ?found s)"
    by (simp add: assms(8) discoverPeers_def reconcilePeers_def PeerAddrs_def Let_def)
  have cur: "n \<in> fst ` set ?cur" using assms(3) by (metis map_of_eq_None_iff option.distinct(1))
  have gone: "addrs ?d n = None" "\<not> health ?d n" "map_of (fw_clients (cs_fwd ?d)) n = None"
    using fold_expire [of ?found ?cur "fold (adoptPeer ?cur) ?found s"] cur assms(10) by (simp_all add: d)
  have ring: "ring_ok (cs_ring ?d)"
  proof -
    have "ring_ok (cs_ring (adoptPeer ?cur q t))" if "ring_ok (cs_ring t)" for q t
      using that by (cases q) (simp add: adoptPeer_def addPeer_def ring_ok_Add split: option.split)
    moreover have "ring_ok (cs_ring (expirePeer ?found q t))" if "ring_ok (cs_ring t)" for q t
      using that by (cases q) (simp add: expirePeer_def removePeer_def ring.ok_del)
    ultimately show ?thesis
      unfolding d using assms(5)
      by (intro fold_invariant [where P = "\<lambda>t. ring_ok (cs_ring t)" and Q = "\<lambda>_. True"]) simp_all
  qed
  have pend: "cs_pending ?d = [(n, a)]"
  proof -
    have "cs_pending (adoptPeer ?cur q t) = cs_pending t" "cs_pending (expirePeer ?found q t) = cs_pending t" for q t
      by (cases q; simp add: adoptPeer_def expirePeer_def split: option.split)+
    then have "cs_pending (fold (adoptPeer ?cur) qs t) = cs_pending t" "cs_pending (fold (expirePeer ?found) qs t) = cs_pending t" for qs t
      by (induction qs arbitrary: t) simp_all
    then show ?thesis by (simp add: d assms(2))
  qed
  have this': "this ?d = this s" by (rule this_discover)
  have s1: "s1 = setHealth n True (?d\<lparr>cs_pending := [], cs_ring := Add n (cs_ring ?d)\<rparr>)"
    using gone(2) pend this' assms(1,6,7,11) by (simp add: cluster_run_def checkPeer_def)
  have "\<exists>x. x \<in> vnodes (replicas (cs_ring ?d)) n" using vnodes_nonempty [OF ring] by blast
  then have "\<exists>x. map_of (nodes (cs_ring s1)) x = Some n" using Add_effect(6) [OF ring] by (auto simp: s1)
  moreover have "ghost prefix n s1"
    using gone prefix_discover [of "Some keys" get s] assms(8) unfolding s1 by (simp add: ghost_def setHealth_def [abs_def] health_def addrs_def map_of_update)
  then have "ghost prefix n (cluster_run es s1)"
    unfolding cluster_run_def
    by (rule fold_invariant [where P = "ghost prefix n" and Q = "\<lambda>e. \<not> finds prefix n e", rotated]) (use assms(12) ghost_step in blast)+
  ultimately show ?thesis by (simp add: ghost_def addrs_def getOrDial_def)
qed

definition sick_cluster :: cluster where
  "sick_cluster = demo_cluster\<lparr>cs_cm := (cs_cm demo_cluster)\<lparr>cm_peerHealth := [(''n2'', False)]\<rparr>, cs_pending := [(''n2'', ''h:1'')]\<rparr>"

theorem ghost_peer_witness:
  "fst (getOrDial (\<lambda>_. None) ''n2'' (cs_fwd (cluster_run [HealthTick, HealthProbe False]
    (cluster_run [DiscoveryTick (Some [''g:n1'']) (\<lambda>_. Some ''h:0''), HealthProbe True] sick_cluster)))) = Inl ErrClientConnClosing"
  using ghost_peer [of "''n2''" sick_cluster "''h:1''" "''g:''" "\<lambda>_. Some ''h:0''" "[''g:n1'']" _ "[HealthTick, HealthProbe False]"]
    ring_ok_demo
  by (simp add: sick_cluster_def health_def foundPeers_def has_key_def demo_ring2_def)

end
