(* ===== verification/Framing.thy ===== *)
theory Framing
  imports IM_Prelude
begin

text \<open>
  The wire format of the TCP transport: frames with a 4-byte big-endian length, written by
  \<open>gnetTransport.Write\<close> (\<open>internal/gateway/transport_gnet.go\<close>) and taken apart by
  \<open>GnetHandler.OnTraffic\<close> (\<open>gnet_handler.go\<close>).

  The connection's inbound buffer is that of the library \<open>gnet\<close>, a parameter: \<open>rd_peek\<close>,
  \<open>rd_discard\<close> and \<open>rd_next\<close> are \<open>Peek\<close>, \<open>Discard\<close> and \<open>Next\<close> on the buffered bytes. \<open>reader_ok\<close> is
  what their documentation says for a positive number of bytes.
\<close>

section \<open>Lengths as bytes\<close>

definition frameHeaderSize :: nat where "frameHeaderSize = 4"

text \<open>\<open>binary.BigEndian.Uint32\<close> and \<open>PutUint32\<close>.\<close>

definition Uint32 :: "bytes \<Rightarrow> 32 word" where
  "Uint32 b = foldl (\<lambda>w c. w * 256 + word_of_nat (of_char c)) 0 (take 4 b)"

definition PutUint32 :: "32 word \<Rightarrow> bytes" where
  "PutUint32 v = map (\<lambda>i. char_of (unat v div 256 ^ i)) [3, 2, 1, 0]"

lemma PutUint32_length [simp]: "length (PutUint32 v) = 4"
  by (simp add: PutUint32_def)

lemma Uint32_PutUint32: "Uint32 (PutUint32 v @ r) = v"
proof -
  let ?n = "unat v"
  have lt: "?n < 4294967296" using unsigned_less [of v, where ?'a = nat] by simp
  let ?a = "?n div 256" let ?b = "?a div 256" let ?c = "?b div 256"
  have d: "?n div 65536 = ?b" "?n div 16777216 = ?c" by (simp_all flip: div_mult2_eq)
  have "?c mod 256 = ?c" using lt by (simp flip: div_mult2_eq)
  then have n: "((?n div 16777216 mod 256 * 256 + ?n div 65536 mod 256) * 256 + ?n div 256 mod 256) * 256 + ?n mod 256 = ?n"
    unfolding d by (simp only: div_mult_mod_eq)
  have "Uint32 (PutUint32 v @ r) =
      word_of_nat (((?n div 16777216 mod 256 * 256 + ?n div 65536 mod 256) * 256 + ?n div 256 mod 256) * 256 + ?n mod 256)"
    by (simp add: Uint32_def PutUint32_def)
  then show ?thesis unfolding n by simp
qed

section \<open>Writing and reading frames\<close>

definition gnetFrame :: "bytes \<Rightarrow> bytes" where
  "gnetFrame p = PutUint32 (word_of_nat (length p)) @ p"

datatype peeked = Got bytes | ShortBuffer | PeekError

record reader =
  rd_peek :: "nat \<Rightarrow> bytes \<Rightarrow> peeked"
  rd_discard :: "nat \<Rightarrow> bytes \<Rightarrow> bytes"
  rd_next :: "nat \<Rightarrow> bytes \<Rightarrow> (bytes \<times> bytes) option"

definition reader_ok :: "reader \<Rightarrow> bool" where
  "reader_ok R \<longleftrightarrow> (\<forall>n buf. 0 < n \<longrightarrow>
    rd_peek R n buf = (if n \<le> length buf then Got (take n buf) else ShortBuffer) \<and>
    rd_discard R n buf = drop n buf \<and> (n \<le> length buf \<longrightarrow> rd_next R n buf = Some (take n buf, drop n buf)))"

datatype action = ActNone | ActClose

text \<open>
  The loop of \<open>OnTraffic\<close>, with the handling of a frame as an argument. The error of the second
  \<open>Peek\<close> is tested for the short buffer only: the test after it reads the outer variable.
\<close>

fun trafficLoop :: "nat \<Rightarrow> reader \<Rightarrow> 32 word \<Rightarrow> (bytes \<Rightarrow> 's \<Rightarrow> 's) \<Rightarrow> bytes \<Rightarrow> 's \<Rightarrow> (action \<times> bytes \<times> 's) option" where
  "trafficLoop 0 R mx pf buf s = None"
| "trafficLoop (Suc n) R mx pf buf s =
    (case rd_peek R frameHeaderSize buf of
       ShortBuffer \<Rightarrow> Some (ActNone, buf, s)
     | PeekError \<Rightarrow> Some (ActClose, buf, s)
     | Got header \<Rightarrow>
         let len = Uint32 header in
         if len > mx then Some (ActClose, buf, s)
         else if rd_peek R (frameHeaderSize + unat len) buf = ShortBuffer then Some (ActNone, buf, s)
         else
           let buf1 = rd_discard R frameHeaderSize buf in
           case rd_next R (unat len) buf1 of
             None \<Rightarrow> Some (ActClose, buf1, s)
           | Some (payload, buf2) \<Rightarrow> trafficLoop n R mx pf buf2 (pf payload s))"

text \<open>Each frame takes at least one byte, so that as many turns as bytes are enough.\<close>

definition OnTraffic :: "reader \<Rightarrow> 32 word \<Rightarrow> (bytes \<Rightarrow> 's \<Rightarrow> 's) \<Rightarrow> bytes \<Rightarrow> 's \<Rightarrow> (action \<times> bytes \<times> 's) option" where
  "OnTraffic R mx pf buf s = trafficLoop (Suc (length buf)) R mx pf buf s"

text \<open>The event loop: data arrive in chunks, each is appended to what was left.\<close>

fun feed :: "reader \<Rightarrow> 32 word \<Rightarrow> (bytes \<Rightarrow> 's \<Rightarrow> 's) \<Rightarrow> bytes list \<Rightarrow> bytes \<Rightarrow> 's \<Rightarrow> (action \<times> bytes \<times> 's) option" where
  "feed R mx pf [] buf s = Some (ActNone, buf, s)"
| "feed R mx pf (c # cs) buf s =
    (case OnTraffic R mx pf (buf @ c) s of
       Some (ActNone, buf', s') \<Rightarrow> feed R mx pf cs buf' s'
     | r \<Rightarrow> r)"

section \<open>Facts\<close>

text \<open>A payload the reader accepts.\<close>

definition fits :: "32 word \<Rightarrow> bytes \<Rightarrow> bool" where
  "fits mx p \<longleftrightarrow> p \<noteq> [] \<and> length p \<le> unat mx"

lemma fits_length: "fits mx p \<Longrightarrow> unat (word_of_nat (length p) :: 32 word) = length p \<and> \<not> (word_of_nat (length p) :: 32 word) > mx"
proof -
  assume f: "fits mx p"
  then have "length p < 2 ^ 32" using unsigned_less [of mx, where ?'a = nat] by (simp add: fits_def)
  then have u: "unat (word_of_nat (length p) :: 32 word) = length p" by (simp add: unat_of_nat take_bit_nat_eq_self)
  with f show ?thesis by (simp add: fits_def word_less_nat_alt)
qed

lemma gnetFrame_length: "length (gnetFrame p) = 4 + length p"
  by (simp add: gnetFrame_def)

lemma loop_frame:
  assumes "reader_ok R" and "fits mx p"
  shows "trafficLoop (Suc n) R mx pf (gnetFrame p @ r) s = trafficLoop n R mx pf r (pf p s)"
proof -
  have pk: "rd_peek R 4 (gnetFrame p @ r) = Got (take 4 (gnetFrame p @ r))"
      "rd_peek R (4 + length p) (gnetFrame p @ r) = Got (gnetFrame p)"
      "rd_discard R 4 (gnetFrame p @ r) = p @ r" "rd_next R (length p) (p @ r) = Some (p, r)"
    using assms by (simp_all add: reader_ok_def fits_def gnetFrame_def)
  have "Uint32 (take 4 (gnetFrame p @ r)) = word_of_nat (length p)"
    using Uint32_PutUint32 [of "word_of_nat (length p)" "[]"] by (simp add: gnetFrame_def)
  with pk fits_length [OF assms(2)] show ?thesis by (simp add: frameHeaderSize_def Let_def)
qed

lemma loop_frames:
  assumes "reader_ok R" and "\<forall>p \<in> set ps. fits mx p"
  shows "trafficLoop (length ps + n) R mx pf (concat (map gnetFrame ps) @ r) s = trafficLoop n R mx pf r (fold pf ps s)"
  using assms(2) by (induction ps arbitrary: s) (simp_all add: loop_frame [OF assms(1)] del: trafficLoop.simps)

lemma loop_part:
  assumes "reader_ok R" and "fits mx p" and "gnetFrame p = part @ rest" and "rest \<noteq> []"
  shows "trafficLoop (Suc n) R mx pf part s = Some (ActNone, part, s)"
proof (cases "length part < 4")
  case True
  then show ?thesis using assms(1) by (simp add: reader_ok_def frameHeaderSize_def)
next
  case False
  have pk: "rd_peek R n part = (if n \<le> length part then Got (take n part) else ShortBuffer)" if "0 < n" for n
    using assms(1) that by (simp add: reader_ok_def)
  have "take 4 part = take 4 (gnetFrame p)" using False assms(3) by simp
  then have "Uint32 (take 4 part) = word_of_nat (length p)"
    using Uint32_PutUint32 [of "word_of_nat (length p)" "[]"] by (simp add: gnetFrame_def)
  moreover have "length part < 4 + length p"
    using arg_cong [where f = length, OF assms(3)] assms(4) by (simp add: gnetFrame_length)
  ultimately show ?thesis
    using False pk fits_length [OF assms(2)] by (simp add: frameHeaderSize_def Let_def)
qed

text \<open>The beginning of a frame that is not complete.\<close>

definition partial :: "bytes \<Rightarrow> bytes list \<Rightarrow> bool" where
  "partial part ps \<longleftrightarrow> part = [] \<or> (\<exists>p qs rest. ps = p # qs \<and> gnetFrame p = part @ rest \<and> rest \<noteq> [])"

lemma prefix_frames:
  assumes "concat (map gnetFrame ps) = buf @ tail"
  obtains ps1 ps2 part where "ps = ps1 @ ps2" and "buf = concat (map gnetFrame ps1) @ part"
    and "part @ tail = concat (map gnetFrame ps2)"
    and "partial part ps2"
proof -
  have "\<exists>ps1 ps2 part. ps = ps1 @ ps2 \<and> buf = concat (map gnetFrame ps1) @ part \<and> part @ tail = concat (map gnetFrame ps2) \<and>
      partial part ps2"
    using assms
  proof (induction ps arbitrary: buf)
    case Nil
    then show ?case by (simp add: partial_def)
  next
    case (Cons p ps)
    then have e: "gnetFrame p @ concat (map gnetFrame ps) = buf @ tail" by simp
    from this [unfolded append_eq_append_conv2] obtain us where
      "gnetFrame p = buf @ us \<and> us @ concat (map gnetFrame ps) = tail \<or> gnetFrame p @ us = buf \<and> concat (map gnetFrame ps) = us @ tail"
      by blast
    then show ?case
    proof
      assume a: "gnetFrame p = buf @ us \<and> us @ concat (map gnetFrame ps) = tail"
      show ?thesis
      proof (cases "us = []")
        case True
        with a show ?thesis by (intro exI [of _ "[p]"] exI [of _ ps] exI [of _ "[]"]) (simp add: partial_def)
      next
        case False
        with a show ?thesis by (intro exI [of _ "[]"] exI [of _ "p # ps"] exI [of _ buf]) (auto simp: partial_def)
      qed
    next
      assume a: "gnetFrame p @ us = buf \<and> concat (map gnetFrame ps) = us @ tail"
      then obtain ps1 ps2 part where "ps = ps1 @ ps2 \<and> us = concat (map gnetFrame ps1) @ part \<and>
          part @ tail = concat (map gnetFrame ps2) \<and> partial part ps2"
        using Cons.IH [of us] by blast
      with a show ?thesis by (intro exI [of _ "p # ps1"] exI [of _ ps2] exI [of _ part] conjI) simp_all
    qed
  qed
  then show thesis using that by blast
qed

lemma frames_length: "length ps \<le> length (concat (map gnetFrame ps))"
  by (induction ps) (simp_all add: gnetFrame_length)

lemma OnTraffic_prefix:
  assumes "reader_ok R" and "\<forall>p \<in> set (ps1 @ ps2). fits mx p"
    and "partial part ps2"
  shows "OnTraffic R mx pf (concat (map gnetFrame ps1) @ part) s = Some (ActNone, part, fold pf ps1 s)"
proof -
  let ?buf = "concat (map gnetFrame ps1) @ part"
  obtain n where n: "Suc (length ?buf) = length ps1 + Suc n"
    using frames_length [of ps1] by (metis add_Suc_right le_add_diff_inverse length_append le_add1 order_trans)
  have "trafficLoop (Suc n) R mx pf part (fold pf ps1 s) = Some (ActNone, part, fold pf ps1 s)"
    using assms(3) unfolding partial_def
  proof
    assume "part = []"
    then show ?thesis using assms(1) by (simp add: reader_ok_def frameHeaderSize_def)
  next
    assume "\<exists>p qs rest. ps2 = p # qs \<and> gnetFrame p = part @ rest \<and> rest \<noteq> []"
    then show ?thesis using loop_part [OF assms(1)] assms(2) by (metis in_set_conv_decomp append_assoc append_Cons)
  qed
  then show ?thesis
    using loop_frames [OF assms(1), of ps1 mx "Suc n" pf part s] assms(2) unfolding OnTraffic_def n
    by (simp del: trafficLoop.simps)
qed

lemma feed_frames:
  assumes "reader_ok R"
  shows "\<forall>p \<in> set ps. fits mx p \<Longrightarrow> part @ concat cs = concat (map gnetFrame ps) \<Longrightarrow>
    partial part ps \<Longrightarrow>
    feed R mx pf cs part s = Some (ActNone, [], fold pf ps s)"
proof (induction cs arbitrary: ps part s)
  case Nil
  have "part = []"
  proof (rule ccontr)
    assume "part \<noteq> []"
    with Nil.prems(3) obtain p qs rest where "ps = p # qs" "gnetFrame p = part @ rest" "rest \<noteq> []" unfolding partial_def by blast
    with Nil.prems(2) show False by simp
  qed
  moreover have "ps = []"
    using Nil.prems(2) gnetFrame_length [of "hd ps"] \<open>part = []\<close> by (cases ps) auto
  ultimately show ?case by simp
next
  case (Cons c cs)
  then have "concat (map gnetFrame ps) = (part @ c) @ concat cs" by simp
  then obtain ps1 ps2 part' where s: "ps = ps1 @ ps2" "part @ c = concat (map gnetFrame ps1) @ part'"
      "part' @ concat cs = concat (map gnetFrame ps2)"
      "partial part' ps2"
    by (rule prefix_frames)
  have "OnTraffic R mx pf (part @ c) s = Some (ActNone, part', fold pf ps1 s)"
    unfolding s(2) using OnTraffic_prefix [OF assms _ s(4)] Cons.prems(1) s(1) by simp
  moreover have "feed R mx pf cs part' (fold pf ps1 s) = Some (ActNone, [], fold pf ps2 (fold pf ps1 s))"
    using Cons.prems(1) s(1) by (intro Cons.IH s(3,4)) simp
  ultimately show ?case using s(1) by simp
qed

section \<open>Properties\<close>

text \<open>
  C16. The frames one side writes are the payloads the other side handles, in order, each once,
  however the network cuts the byte stream into chunks; the reader's loop ends, asks for no
  close and leaves nothing over. (Non-empty payloads up to the maximal size.)
\<close>

theorem gnet_framing:
  assumes "reader_ok R" and "\<forall>p \<in> set ps. fits mx p" and "concat chunks = concat (map gnetFrame ps)"
  shows "feed R mx pf chunks [] s = Some (ActNone, [], fold pf ps s)"
  using feed_frames [OF assms(1,2), of "[]" chunks] assms(3) by (simp add: partial_def)

definition list_reader :: reader where
  "list_reader = \<lparr>rd_peek = (\<lambda>n buf. if n \<le> length buf then Got (take n buf) else ShortBuffer),
    rd_discard = (\<lambda>n buf. drop n buf), rd_next = (\<lambda>n buf. if n \<le> length buf then Some (take n buf, drop n buf) else None)\<rparr>"

lemma list_reader_ok: "reader_ok list_reader"
  by (simp add: reader_ok_def list_reader_def)

theorem gnet_framing_witness:
  "feed list_reader 100 (\<lambda>p ps. ps @ [p]) [take 3 (gnetFrame ''hello''), drop 3 (gnetFrame ''hello'') @ gnetFrame ''you''] [] [] =
    Some (ActNone, [], [''hello'', ''you''])"
  using gnet_framing [OF list_reader_ok, of "[''hello'', ''you'']" 100
      "[take 3 (gnetFrame ''hello''), drop 3 (gnetFrame ''hello'') @ gnetFrame ''you'']" "\<lambda>p ps. ps @ [p]" "[]"]
  by (simp add: fits_def del: feed.simps)

end
