(* ===== verification/Jwt.thy ===== *)
theory Jwt
  imports Go_Time
begin

text \<open>
  Token creation and validation, \<open>internal/pkg/jwt/jwt.go\<close>. The library \<open>golang-jwt\<close> is a
  parameter: \<open>j_sign\<close> is \<open>NewWithClaims(HS256, c).SignedString(key)\<close>, \<open>j_parse\<close> is
  \<open>ParseWithClaims\<close> with the key function and the time of the call; the key function gets whether
  the token's method is an HMAC one and the name of its algorithm. A parse error is known by what
  \<open>errors.Is\<close> finds in it and by its text.
\<close>

record claims =
  cl_UID :: string
  cl_Username :: string
  cl_Role :: string
  cl_ExpiresAt :: gotime
  cl_IssuedAt :: gotime
  cl_Issuer :: string

record jwt_fail =
  jf_expired :: bool
  jf_signature :: bool
  jf_text :: string

type_synonym keyfunc = "bool \<times> string \<Rightarrow> string + string"

record jwtlib =
  j_sign :: "claims \<Rightarrow> string \<Rightarrow> string + string"
  j_parse :: "keyfunc \<Rightarrow> gotime \<Rightarrow> string \<Rightarrow> jwt_fail + claims \<times> bool"

datatype jwt_error = ErrTokenExpired | ErrTokenInvalid | ErrTokenSignature | WrapTokenInvalid string

definition jwt_error_text :: "jwt_error \<Rightarrow> string" where
  "jwt_error_text e =
    (case e of
       ErrTokenExpired \<Rightarrow> ''token expired''
     | ErrTokenInvalid \<Rightarrow> ''token invalid''
     | ErrTokenSignature \<Rightarrow> ''token signature mismatch''
     | WrapTokenInvalid s \<Rightarrow> ''token invalid: '' @ s)"

record manager =
  mg_secret :: string
  mg_expiration :: int

definition NewManager :: "string \<Rightarrow> int \<Rightarrow> manager" where
  "NewManager secret expiration = \<lparr>mg_secret = secret, mg_expiration = expiration\<rparr>"

definition time_add :: "gotime \<Rightarrow> int \<Rightarrow> gotime" where
  "time_add t d = \<lparr>wall = wall t + d, mono = mono t + d\<rparr>"

text \<open>The two readings of the clock, in the order of the source.\<close>

definition Generate :: "jwtlib \<Rightarrow> manager \<Rightarrow> gotime \<Rightarrow> gotime \<Rightarrow> string \<Rightarrow> string \<Rightarrow> string \<Rightarrow> string + string" where
  "Generate J m t1 t2 uid username role =
    j_sign J \<lparr>cl_UID = uid, cl_Username = username, cl_Role = role,
      cl_ExpiresAt = time_add t1 (mg_expiration m), cl_IssuedAt = t2, cl_Issuer = ''im-server''\<rparr> (mg_secret m)"

definition tokenKey :: "manager \<Rightarrow> keyfunc" where
  "tokenKey m = (\<lambda>(hmac, alg).
    if \<not> hmac then Inl (''token signature mismatch: unexpected signing method: '' @ alg) else Inr (mg_secret m))"

definition TokenValidate :: "jwtlib \<Rightarrow> manager \<Rightarrow> gotime \<Rightarrow> string \<Rightarrow> jwt_error + claims" where
  "TokenValidate J m nw tokenStr =
    (case j_parse J (tokenKey m) nw tokenStr of
       Inl e \<Rightarrow>
         if jf_expired e then Inl ErrTokenExpired
         else if jf_signature e then Inl ErrTokenSignature
         else Inl (WrapTokenInvalid (jf_text e))
     | Inr (c, valid) \<Rightarrow> if valid then Inr c else Inl ErrTokenInvalid)"

section \<open>What the library promises\<close>

definition same_identity :: "claims \<Rightarrow> claims \<Rightarrow> bool" where
  "same_identity c d \<longleftrightarrow> cl_UID c = cl_UID d \<and> cl_Username c = cl_Username d \<and> cl_Role c = cl_Role d"

text \<open>
  Documented behaviour of the library: a signed token parses, under the key it was signed with,
  to the claims put into it until it expires (dates are kept in whole seconds), is reported as
  expired afterwards, and its signature is reported invalid under another key.
\<close>

definition jwt_law :: "jwtlib \<Rightarrow> bool" where
  "jwt_law J \<longleftrightarrow> (\<forall>c k tok kf nw. j_sign J c k = Inr tok \<longrightarrow>
    (kf (True, ''HS256'') = Inr k \<longrightarrow>
      (wall nw div 1000000000 < wall (cl_ExpiresAt c) div 1000000000 \<longrightarrow>
        (\<exists>d. j_parse J kf nw tok = Inr (d, True) \<and> same_identity d c)) \<and>
      (wall (cl_ExpiresAt c) < wall nw \<longrightarrow> (\<exists>f. j_parse J kf nw tok = Inl f \<and> jf_expired f))) \<and>
    (\<forall>k'. kf (True, ''HS256'') = Inr k' \<and> k' \<noteq> k \<longrightarrow> (\<exists>f. j_parse J kf nw tok = Inl f \<and> jf_signature f \<and> \<not> jf_expired f)))"

text \<open>A library that keeps the claims in clear text, in the order of their fields.\<close>

definition enc_str :: "string \<Rightarrow> string" where
  "enc_str s = replicate (length s) (CHR ''1'') @ CHR ''0'' # s"

definition dec_str :: "string \<Rightarrow> string \<times> string" where
  "dec_str t = (let n = length (takeWhile (\<lambda>c. c = CHR ''1'') t); r = drop (Suc n) t in (take n r, drop n r))"

lemma dec_enc_str: "dec_str (enc_str s @ r) = (s, r)"
proof -
  have "takeWhile (\<lambda>c. c = CHR ''1'') (replicate n (CHR ''1'') @ CHR ''0'' # t) = replicate n (CHR ''1'')" for n t
    by (subst takeWhile_append2) auto
  then show ?thesis by (simp add: dec_str_def enc_str_def Let_def)
qed

definition enc_int :: "int \<Rightarrow> string" where
  "enc_int x = enc_str ((if x < 0 then CHR ''-'' else CHR ''+'') # replicate (nat \<bar>x\<bar>) (CHR ''1''))"

definition dec_int :: "string \<Rightarrow> int \<times> string" where
  "dec_int t = (case dec_str t of (s, r) \<Rightarrow> ((if hd s = CHR ''-'' then - 1 else 1) * int (length s - 1), r))"

lemma dec_enc_int: "dec_int (enc_int x @ r) = (x, r)"
  by (simp add: dec_int_def enc_int_def dec_enc_str)

definition enc_claims :: "claims \<Rightarrow> string" where
  "enc_claims c = enc_str (cl_UID c) @ enc_str (cl_Username c) @ enc_str (cl_Role c) @ enc_int (wall (cl_ExpiresAt c))"

definition dec_claims :: "string \<Rightarrow> claims" where
  "dec_claims t =
    (let (u, t1) = dec_str t; (n, t2) = dec_str t1; (r, t3) = dec_str t2; (x, _) = dec_int t3
     in \<lparr>cl_UID = u, cl_Username = n, cl_Role = r, cl_ExpiresAt = \<lparr>wall = x, mono = x\<rparr>,
         cl_IssuedAt = \<lparr>wall = 0, mono = 0\<rparr>, cl_Issuer = []\<rparr>)"

definition plain_jwt :: jwtlib where
  "plain_jwt =
    \<lparr>j_sign = (\<lambda>c k. Inr (enc_str k @ enc_claims c)),
     j_parse = (\<lambda>kf nw tok.
       let (k, body) = dec_str tok; c = dec_claims body in
       case kf (True, ''HS256'') of
         Inl e \<Rightarrow> Inl \<lparr>jf_expired = False, jf_signature = False, jf_text = e\<rparr>
       | Inr k' \<Rightarrow>
           if k' \<noteq> k then Inl \<lparr>jf_expired = False, jf_signature = True, jf_text = ''signature is invalid''\<rparr>
           else if wall (cl_ExpiresAt c) \<le> wall nw
           then Inl \<lparr>jf_expired = True, jf_signature = False, jf_text = ''token is expired''\<rparr>
           else Inr (c, True))\<rparr>"

lemma dec_enc_claims:
  "cl_UID (dec_claims (enc_claims c)) = cl_UID c" "cl_Username (dec_claims (enc_claims c)) = cl_Username c"
  "cl_Role (dec_claims (enc_claims c)) = cl_Role c" "wall (cl_ExpiresAt (dec_claims (enc_claims c))) = wall (cl_ExpiresAt c)"
  using dec_enc_int [of "wall (cl_ExpiresAt c)" "[]"] by (simp_all add: dec_claims_def enc_claims_def dec_enc_str)

lemma plain_jwt_parse:
  "j_parse plain_jwt kf nw (enc_str k @ enc_claims c) = (case kf (True, ''HS256'') of
      Inl e \<Rightarrow> Inl \<lparr>jf_expired = False, jf_signature = False, jf_text = e\<rparr>
    | Inr k' \<Rightarrow>
        if k' \<noteq> k then Inl \<lparr>jf_expired = False, jf_signature = True, jf_text = ''signature is invalid''\<rparr>
        else if wall (cl_ExpiresAt c) \<le> wall nw then Inl \<lparr>jf_expired = True, jf_signature = False, jf_text = ''token is expired''\<rparr>
        else Inr (dec_claims (enc_claims c), True))"
  by (simp add: plain_jwt_def dec_enc_str dec_enc_claims Let_def split: sum.split)

lemma plain_jwt_valid:
  "wall nw < wall (cl_ExpiresAt c) \<Longrightarrow>
    TokenValidate plain_jwt m nw (enc_str (mg_secret m) @ enc_claims c) = Inr (dec_claims (enc_claims c))"
  by (simp add: TokenValidate_def tokenKey_def plain_jwt_parse)

lemma plain_jwt_law: "jwt_law plain_jwt"
proof -
  have lt: "x < y" if "x div 1000000000 < y div (1000000000 :: int)" for x y
    using that zdiv_mono1 [of y x 1000000000] by linarith
  show ?thesis
    unfolding jwt_law_def
  proof (intro allI impI)
    fix c k tok kf nw assume "j_sign plain_jwt c k = Inr tok"
    then have tok: "tok = enc_str k @ enc_claims c" by (simp add: plain_jwt_def)
    have "same_identity (dec_claims (enc_claims c)) c" by (simp add: same_identity_def dec_enc_claims)
    then show "(kf (True, ''HS256'') = Inr k \<longrightarrow>
        (wall nw div 1000000000 < wall (cl_ExpiresAt c) div 1000000000 \<longrightarrow>
          (\<exists>d. j_parse plain_jwt kf nw tok = Inr (d, True) \<and> same_identity d c)) \<and>
        (wall (cl_ExpiresAt c) < wall nw \<longrightarrow> (\<exists>f. j_parse plain_jwt kf nw tok = Inl f \<and> jf_expired f))) \<and>
      (\<forall>k'. kf (True, ''HS256'') = Inr k' \<and> k' \<noteq> k \<longrightarrow>
        (\<exists>f. j_parse plain_jwt kf nw tok = Inl f \<and> jf_signature f \<and> \<not> jf_expired f))"
      using lt [of "wall nw" "wall (cl_ExpiresAt c)"] unfolding tok plain_jwt_parse by (auto simp: not_le)
  qed
qed

section \<open>Properties\<close>

text \<open>
  A token validates to the identity it was generated for, under the same secret, until it
  expires; later the error is \<open>ErrTokenExpired\<close>, and under another secret \<open>ErrTokenSignature\<close>.
\<close>

theorem token_round_trip:
  assumes "jwt_law J" and "Generate J m t1 t2 uid username role = Inr tok"
  shows "(wall nw div 1000000000 < (wall t1 + mg_expiration m) div 1000000000 \<longrightarrow>
      (\<exists>c. TokenValidate J m nw tok = Inr c \<and> cl_UID c = uid \<and> cl_Username c = username \<and> cl_Role c = role)) \<and>
    (wall t1 + mg_expiration m < wall nw \<longrightarrow> TokenValidate J m nw tok = Inl ErrTokenExpired) \<and>
    (mg_secret m' \<noteq> mg_secret m \<longrightarrow> TokenValidate J m' nw tok = Inl ErrTokenSignature)"
proof -
  let ?c = "\<lparr>cl_UID = uid, cl_Username = username, cl_Role = role, cl_ExpiresAt = time_add t1 (mg_expiration m),
    cl_IssuedAt = t2, cl_Issuer = ''im-server''\<rparr>"
  have s: "j_sign J ?c (mg_secret m) = Inr tok" using assms(2) by (simp add: Generate_def)
  have k: "tokenKey x (True, ''HS256'') = Inr (mg_secret x)" for x by (simp add: tokenKey_def)
  from assms(1) [unfolded jwt_law_def, rule_format, OF s]
  have l: "tokenKey m (True, ''HS256'') = Inr (mg_secret m) \<longrightarrow>
      (wall nw div 1000000000 < wall (cl_ExpiresAt ?c) div 1000000000 \<longrightarrow>
        (\<exists>d. j_parse J (tokenKey m) nw tok = Inr (d, True) \<and> same_identity d ?c)) \<and>
      (wall (cl_ExpiresAt ?c) < wall nw \<longrightarrow> (\<exists>f. j_parse J (tokenKey m) nw tok = Inl f \<and> jf_expired f))"
    "tokenKey m' (True, ''HS256'') = Inr (mg_secret m') \<and> mg_secret m' \<noteq> mg_secret m \<longrightarrow>
      (\<exists>f. j_parse J (tokenKey m') nw tok = Inl f \<and> jf_signature f \<and> \<not> jf_expired f)"
    by blast+
  then show ?thesis by (auto simp: k TokenValidate_def same_identity_def time_add_def)
qed

theorem token_round_trip_witness:
  "\<exists>tok. Generate plain_jwt (NewManager ''s'' 2000000000) \<lparr>wall = 0, mono = 0\<rparr> \<lparr>wall = 1, mono = 1\<rparr> ''alice'' ''Alice'' ''user'' = Inr tok \<and>
    (\<exists>c. TokenValidate plain_jwt (NewManager ''s'' 2000000000) \<lparr>wall = 5, mono = 5\<rparr> tok = Inr c \<and> cl_UID c = ''alice'')"
proof -
  obtain tok where t: "Generate plain_jwt (NewManager ''s'' 2000000000) \<lparr>wall = 0, mono = 0\<rparr> \<lparr>wall = 1, mono = 1\<rparr> ''alice'' ''Alice'' ''user'' = Inr tok"
    by (simp add: Generate_def plain_jwt_def)
  from token_round_trip [OF plain_jwt_law t, of "\<lparr>wall = 5, mono = 5\<rparr>"] t show ?thesis
    by (auto simp: NewManager_def)
qed

end
