(* ===== verification/Readers.thy ===== *)
theory Readers
  imports Framing Jwt Router_Safety
begin

text \<open>
  How connections come in: the TCP handler \<open>internal/gateway/gnet_handler.go\<close> with its worker
  pool and heartbeat checker, and the WebSocket side \<open>server_ws.go\<close>. Both create a \<open>Client\<close> after
  a token was validated, register it with the hub, sign every message with the user of its
  connection and hand it to the router.

  The libraries below are parameters: the token library \<open>J\<close>, the buffer \<open>R\<close> of a TCP connection,
  and the protobuf codec of the environment. \<open>f_next\<close> is the next free address of the heap. An
  event of the network, a tick of a timer or a turn of a worker is one step; a worker first takes
  a task and runs it later, so that tasks taken by different workers may run in any order.
\<close>

section \<open>Worker pool\<close>

text \<open>\<open>wp_drops\<close> is the package's counter \<open>gnetPoolDrops\<close>; a task is a call of \<open>Route\<close>.\<close>

type_synonym task = "addr \<times> message"

record worker_pool =
  wp_size :: nat
  wp_tasks :: "task list"
  wp_running :: "task list"
  wp_closed :: bool
  wp_drops :: nat

definition NewWorkerPool :: "int \<Rightarrow> worker_pool" where
  "NewWorkerPool n = \<lparr>wp_size = nat (if n \<le> 0 then 4 else n), wp_tasks = [], wp_running = [],
     wp_closed = False, wp_drops = 0\<rparr>"

definition Submit :: "task \<Rightarrow> worker_pool \<Rightarrow> worker_pool" where
  "Submit task wp =
    (if wp_closed wp then wp
     else if length (wp_tasks wp) < wp_size wp * 256 then wp\<lparr>wp_tasks := wp_tasks wp @ [task]\<rparr>
     else wp\<lparr>wp_drops := wp_drops wp + 1\<rparr>)"

definition PoolClose :: "worker_pool \<Rightarrow> worker_pool" where
  "PoolClose wp = wp\<lparr>wp_closed := True\<rparr>"

definition takeTask :: "worker_pool \<Rightarrow> worker_pool" where
  "takeTask wp =
    (case wp_tasks wp of
       [] \<Rightarrow> wp
     | t # ts \<Rightarrow> if length (wp_running wp) < wp_size wp then wp\<lparr>wp_tasks := ts, wp_running := wp_running wp @ [t]\<rparr> else wp)"

section \<open>State\<close>

datatype conn_ctx = NilCtx | StrCtx string | ClientCtx addr

record gconn =
  gc_ctx :: conn_ctx
  gc_buf :: bytes
  gc_closing :: bool

record gnet_handler =
  gh_jwtMgr :: manager
  gh_sendBufSize :: nat
  gh_maxFrameSize :: "32 word"
  gh_heartbeatTimeout :: int

record front =
  f_world :: world
  f_next :: addr
  f_conns :: "nat \<Rightarrow> gconn"
  f_connMap :: "(nat, addr) gomap"
  f_pool :: worker_pool
  f_heartbeat :: bool
  f_engineSet :: bool
  f_stopped :: bool
  f_ws :: "addr list"

type_synonym 'a fio = "(front, 'a) state"

text \<open>The conversion \<open>uint32(maxMsgSize)\<close> keeps the low 32 bits.\<close>

definition NewGnetHandler :: "manager \<Rightarrow> nat \<Rightarrow> int \<Rightarrow> int \<Rightarrow> gnet_handler" where
  "NewGnetHandler jwtMgr sendBufSize maxMsgSize heartbeatTimeout =
    \<lparr>gh_jwtMgr = jwtMgr, gh_sendBufSize = sendBufSize, gh_maxFrameSize = word_of_int maxMsgSize,
     gh_heartbeatTimeout = heartbeatTimeout\<rparr>"

definition new_front :: "world \<Rightarrow> addr \<Rightarrow> int \<Rightarrow> front" where
  "new_front w n workerPoolSize = \<lparr>f_world = w, f_next = n, f_conns = (\<lambda>_. \<lparr>gc_ctx = NilCtx, gc_buf = [], gc_closing = False\<rparr>),
     f_connMap = [], f_pool = NewWorkerPool workerPoolSize, f_heartbeat = True, f_engineSet = False, f_stopped = False, f_ws = []\<rparr>"

definition onWorld :: "'a io \<Rightarrow> 'a fio" where
  "onWorld m = State (\<lambda>f. case run_state m (f_world f) of (r, w) \<Rightarrow> (r, f\<lparr>f_world := w\<rparr>))"

section \<open>Connections\<close>

definition allocClient :: "env \<Rightarrow> string \<Rightarrow> string \<Rightarrow> nat \<Rightarrow> addr fio" where
  "allocClient V uid username sendBufSize = do {
     t \<leftarrow> onWorld (now V);
     State (\<lambda>f. (f_next f, f\<lparr>f_next := Suc (f_next f),
       f_world := (f_world f)\<lparr>w_objs := (w_objs (f_world f))(f_next f := NewClient uid username sendBufSize t)\<rparr>\<rparr>)) }"

definition setHeartbeat :: "env \<Rightarrow> addr \<Rightarrow> unit io" where
  "setHeartbeat V a = do {
     t \<leftarrow> now V;
     modify (\<lambda>w. w\<lparr>w_objs := (w_objs w)(a := SetHeartbeat t (w_objs w a))\<rparr>) }"

definition register :: "env \<Rightarrow> addr \<Rightarrow> unit io" where
  "register V a = do {
     n \<leftarrow> event;
     modify (\<lambda>w. case Register (e_mar V) (e_pick V n) a (w_hub w, w_objs w) of (h, objs) \<Rightarrow> w\<lparr>w_hub := h, w_objs := objs\<rparr>) }"

text \<open>\<open>clients.Unregister(client); client.Close()\<close>, the end of a connection everywhere.\<close>

definition dropClient :: "addr \<Rightarrow> unit io" where
  "dropClient a = do {
     modify (\<lambda>w. w\<lparr>w_hub := Unregister a (w_objs w) (w_hub w)\<rparr>);
     modify (\<lambda>w. w\<lparr>w_objs := (w_objs w)(a := Close (w_objs w a))\<rparr>) }"

definition loginResponse :: "env \<Rightarrow> claims \<Rightarrow> addr \<Rightarrow> unit io" where
  "loginResponse V c a = do {
     t \<leftarrow> nowMs V;
     sendTo V a (msg0\<lparr>m_cmd := CmdLoginResp, m_to := cl_UID c, m_content := cl_Username c, m_timestamp := t\<rparr>) }"

text \<open>The sender is the user of the connection; a missing time stamp is filled in.\<close>

definition signed :: "env \<Rightarrow> addr \<Rightarrow> message \<Rightarrow> message io" where
  "signed V a msg = do {
     uid \<leftarrow> uid_of a;
     let m = msg\<lparr>m_from := uid\<rparr>;
     if m_timestamp m = 0 then do { t \<leftarrow> nowMs V; State_Monad.return (m\<lparr>m_timestamp := t\<rparr>) }
     else State_Monad.return m }"

section \<open>TCP handler\<close>

definition setConn :: "nat \<Rightarrow> (gconn \<Rightarrow> gconn) \<Rightarrow> front \<Rightarrow> front" where
  "setConn fd g f = f\<lparr>f_conns := (f_conns f)(fd := g (f_conns f fd))\<rparr>"

definition closeConn :: "nat \<Rightarrow> unit fio" where
  "closeConn fd = modify (setConn fd (\<lambda>c. c\<lparr>gc_closing := True\<rparr>))"

definition OnBoot :: "unit fio" where
  "OnBoot = modify (\<lambda>f. f\<lparr>f_engineSet := True\<rparr>)"

definition OnOpen :: "nat \<Rightarrow> unit fio" where
  "OnOpen fd = modify (setConn fd (\<lambda>_. \<lparr>gc_ctx = StrCtx ''pending'', gc_buf = [], gc_closing = False\<rparr>))"

definition OnClose :: "nat \<Rightarrow> unit fio" where
  "OnClose fd = do {
     ctx \<leftarrow> gets (\<lambda>f. gc_ctx (f_conns f fd));
     case ctx of
       ClientCtx client \<Rightarrow> do {
         onWorld (dropClient client);
         modify (\<lambda>f. f\<lparr>f_connMap := AList.delete fd (f_connMap f)\<rparr>) }
     | _ \<Rightarrow> skip }"

datatype login_error = UnmarshalLogin | ExpectedCmdLogin int | LoginJwt jwt_error

definition handleLogin :: "jwtlib \<Rightarrow> env \<Rightarrow> gnet_handler \<Rightarrow> nat \<Rightarrow> bytes \<Rightarrow> (login_error + addr) fio" where
  "handleLogin J V h fd frame =
    (case e_unm V frame of
       None \<Rightarrow> State_Monad.return (Inl UnmarshalLogin)
     | Some msg \<Rightarrow>
         if m_cmd msg \<noteq> CmdLogin then State_Monad.return (Inl (ExpectedCmdLogin (m_cmd msg)))
         else do {
           t \<leftarrow> onWorld (now V);
           case TokenValidate J (gh_jwtMgr h) t (m_content msg) of
             Inl e \<Rightarrow> State_Monad.return (Inl (LoginJwt e))
           | Inr claims \<Rightarrow> do {
               client \<leftarrow> allocClient V (cl_UID claims) (cl_Username claims) (gh_sendBufSize h);
               onWorld (setHeartbeat V client);
               onWorld (register V client);
               modify (\<lambda>f. f\<lparr>f_connMap := AList.update fd client (f_connMap f)\<rparr>);
               onWorld (loginResponse V claims client);
               State_Monad.return (Inr client) } })"

definition processFrame :: "jwtlib \<Rightarrow> env \<Rightarrow> gnet_handler \<Rightarrow> nat \<Rightarrow> bytes \<Rightarrow> unit fio" where
  "processFrame J V h fd frame = do {
     ctx \<leftarrow> gets (\<lambda>f. gc_ctx (f_conns f fd));
     case ctx of
       NilCtx \<Rightarrow> closeConn fd
     | StrCtx s \<Rightarrow>
         if s = ''pending'' then do {
           r \<leftarrow> handleLogin J V h fd frame;
           case r of
             Inl e \<Rightarrow> closeConn fd
           | Inr client \<Rightarrow> modify (setConn fd (\<lambda>c. c\<lparr>gc_ctx := ClientCtx client\<rparr>)) }
         else closeConn fd
     | ClientCtx client \<Rightarrow>
         (case e_unm V frame of
            None \<Rightarrow> skip
          | Some msg \<Rightarrow> do {
              onWorld (setHeartbeat V client);
              m \<leftarrow> onWorld (signed V client msg);
              modify (\<lambda>f. f\<lparr>f_pool := Submit (client, m) (f_pool f)\<rparr>) }) }"

text \<open>\<open>OnTraffic\<close> on the bytes the connection has buffered.\<close>

definition onData :: "reader \<Rightarrow> jwtlib \<Rightarrow> env \<Rightarrow> gnet_handler \<Rightarrow> nat \<Rightarrow> bytes \<Rightarrow> unit fio" where
  "onData R J V h fd chunk = State (\<lambda>f.
     case OnTraffic R (gh_maxFrameSize h) (\<lambda>p. post (processFrame J V h fd p)) (gc_buf (f_conns f fd) @ chunk) f of
       None \<Rightarrow> ((), f)
     | Some (act, buf, f') \<Rightarrow>
         ((), setConn fd (\<lambda>c. c\<lparr>gc_buf := buf, gc_closing := (gc_closing c \<or> act = ActClose)\<rparr>) f'))"

text \<open>One tick of the heartbeat checker over \<open>connMap\<close>, with one reading of the clock.\<close>

definition evictStale :: "gnet_handler \<Rightarrow> gotime \<Rightarrow> nat \<times> addr \<Rightarrow> front \<Rightarrow> front" where
  "evictStale h nw = (\<lambda>(fd, client) f.
    if time_sub nw (Heartbeat (w_objs (f_world f) client)) > gh_heartbeatTimeout h
    then f\<lparr>f_world := post (dropClient client) (f_world f), f_connMap := AList.delete fd (f_connMap f)\<rparr>
    else f)"

definition heartbeatCheck :: "env \<Rightarrow> gnet_handler \<Rightarrow> unit fio" where
  "heartbeatCheck V h = do {
     nw \<leftarrow> onWorld (now V);
     modify (\<lambda>f. fold (evictStale h nw) (f_connMap f) f) }"

text \<open>\<open>err\<close> is the result of \<open>engine.Stop\<close>; after a stop without error no events arrive.\<close>

definition GnetShutdown :: "string option \<Rightarrow> string option fio" where
  "GnetShutdown err = do {
     modify (\<lambda>f. f\<lparr>f_heartbeat := False\<rparr>);
     eng \<leftarrow> gets f_engineSet;
     if eng \<and> err \<noteq> None then State_Monad.return err
     else do {
       modify (\<lambda>f. f\<lparr>f_stopped := True, f_pool := PoolClose (f_pool f)\<rparr>);
       State_Monad.return None } }"

definition runTask :: "env \<Rightarrow> nat \<Rightarrow> unit fio" where
  "runTask V i = do {
     ts \<leftarrow> gets (\<lambda>f. wp_running (f_pool f));
     if i < length ts then do {
       modify (\<lambda>f. f\<lparr>f_pool := (f_pool f)\<lparr>wp_running := take i ts @ drop (Suc i) ts\<rparr>\<rparr>);
       onWorld (Route V (fst (ts ! i)) (snd (ts ! i))) }
     else skip }"

section \<open>WebSocket\<close>

datatype ws_result = WsHttpError int string | WsUpgradeError | WsConnected addr

text \<open>\<open>upgrades\<close>: whether the upgrader accepts the request.\<close>

definition HandleWS :: "jwtlib \<Rightarrow> env \<Rightarrow> manager \<Rightarrow> nat \<Rightarrow> bool \<Rightarrow> string \<Rightarrow> ws_result fio" where
  "HandleWS J V jwtMgr sendBufSize upgrades tokenStr =
    (if tokenStr = [] then State_Monad.return (WsHttpError 401 ''missing token'')
     else do {
       t \<leftarrow> onWorld (now V);
       case TokenValidate J jwtMgr t tokenStr of
         Inl e \<Rightarrow> State_Monad.return (WsHttpError 401 (''invalid token: '' @ jwt_error_text e))
       | Inr claims \<Rightarrow>
           if \<not> upgrades then State_Monad.return WsUpgradeError
           else do {
             client \<leftarrow> allocClient V (cl_UID claims) (cl_Username claims) sendBufSize;
             onWorld (register V client);
             onWorld (loginResponse V claims client);
             modify (\<lambda>f. f\<lparr>f_ws := f_ws f @ [client]\<rparr>);
             State_Monad.return (WsConnected client) } })"

text \<open>One turn of the loop of \<open>wsReadPump\<close> that read a message, and the end of the loop.\<close>

definition wsRead :: "env \<Rightarrow> addr \<Rightarrow> bytes \<Rightarrow> unit io" where
  "wsRead V client raw = do {
     setHeartbeat V client;
     case e_unm V raw of
       None \<Rightarrow> skip
     | Some msg \<Rightarrow> do { m \<leftarrow> signed V client msg; Route V client m } }"

definition wsReadEnd :: "addr \<Rightarrow> unit fio" where
  "wsReadEnd client = do {
     onWorld (dropClient client);
     modify (\<lambda>f. f\<lparr>f_ws := removeAll client (f_ws f)\<rparr>) }"

text \<open>A tick of \<open>wsPingLoop\<close>, which has ended when the connection is closed.\<close>

definition wsPingTick :: "addr \<Rightarrow> unit io" where
  "wsPingTick client = modify (\<lambda>w.
     if c_closed (w_objs w client) then w else w\<lparr>w_objs := (w_objs w)(client := SendPing (w_objs w client))\<rparr>)"

section \<open>Events\<close>

datatype fevent =
    Boot
  | Open nat
  | Data nat bytes
  | ConnClosed nat
  | TakeTask
  | RunTask nat
  | HeartbeatTick
  | StopGateway "string option"
  | WsConnect bool string
  | WsRead addr bytes
  | WsPong addr
  | WsPing addr
  | WsEnd addr

definition on_ws :: "addr \<Rightarrow> unit fio \<Rightarrow> unit fio" where
  "on_ws a m = do { ws \<leftarrow> gets f_ws; on (a \<in> set ws) m }"

definition served :: "unit fio \<Rightarrow> unit fio" where
  "served m = do { stopped \<leftarrow> gets f_stopped; on (\<not> stopped) m }"

fun front_event :: "reader \<Rightarrow> jwtlib \<Rightarrow> env \<Rightarrow> gnet_handler \<Rightarrow> fevent \<Rightarrow> unit fio" where
  "front_event R J V h Boot = OnBoot"
| "front_event R J V h (Open fd) = served (OnOpen fd)"
| "front_event R J V h (Data fd chunk) = served (onData R J V h fd chunk)"
| "front_event R J V h (ConnClosed fd) = served (OnClose fd)"
| "front_event R J V h TakeTask = modify (\<lambda>f. f\<lparr>f_pool := takeTask (f_pool f)\<rparr>)"
| "front_event R J V h (RunTask i) = runTask V i"
| "front_event R J V h HeartbeatTick = do { r \<leftarrow> gets f_heartbeat; on r (heartbeatCheck V h) }"
| "front_event R J V h (StopGateway err) = do { _ \<leftarrow> GnetShutdown err; skip }"
| "front_event R J V h (WsConnect up tok) = do { _ \<leftarrow> HandleWS J V (gh_jwtMgr h) (gh_sendBufSize h) up tok; skip }"
| "front_event R J V h (WsRead a raw) = on_ws a (onWorld (wsRead V a raw))"
| "front_event R J V h (WsPong a) = on_ws a (onWorld (setHeartbeat V a))"
| "front_event R J V h (WsPing a) = on_ws a (onWorld (wsPingTick a))"
| "front_event R J V h (WsEnd a) = on_ws a (wsReadEnd a)"

definition front_run :: "reader \<Rightarrow> jwtlib \<Rightarrow> env \<Rightarrow> gnet_handler \<Rightarrow> fevent list \<Rightarrow> front \<Rightarrow> front" where
  "front_run R J V h es f = fold (\<lambda>e. post (front_event R J V h e)) es f"

section \<open>The router keeps the connections\<close>

definition same_clients :: "world \<Rightarrow> world \<Rightarrow> bool" where
  "same_clients w w' \<longleftrightarrow> same_uids w w' \<and> h_clients (w_hub w') = h_clients (w_hub w)"

lemma clients_quiet: "quiet \<le> same_clients"
  by (simp add: le_fun_def quiet_def same_clients_def same_uids_def)

lemma clients_groupOp: "keeps same_clients (groupOp V n mem sql)"
  by (rule keeps_groupOp) (simp add: same_clients_def same_uids_def)

lemma clients_emit: "keeps same_clients (forward V u m)" "keeps same_clients (persistAsync m)"
  by (auto intro!: keepsI simp: same_clients_def same_uids_def run_simps)

interpretation cls: world_relation same_clients V for V
proof unfold_locales
  show "keeps same_clients (now V)" "keeps same_clients (snowNext V)" by (rule keeps_quiet [OF clients_quiet])+
qed (simp_all add: same_clients_def same_uids_def)

lemma clients_groups:
  "keeps same_clients (groupCreate V name u ms)" "keeps same_clients (groupAddMember V g u)"
  "keeps same_clients (groupRemoveMember V g u)"
  by (auto intro!: cls.keeps_groupCreate cls.keeps_groupAddMember clients_groupOp simp: groupRemoveMember_def)

lemmas clients_effects = keeps_quiet [OF clients_quiet] clients_emit clients_groups

interpretation sess: router_effects "for_user a U same_clients" V a U "\<lambda>m. True" for V a U
proof unfold_locales
  show "for_user a U same_clients w w' \<Longrightarrow> for_user a U same_clients w' w'' \<Longrightarrow> for_user a U same_clients w w''" for w w' w''
    by (auto simp: for_user_def intro: cls.R_trans)
  show "for_user a U same_clients w w" "c_UID (w_objs w a) \<noteq> U \<Longrightarrow> for_user a U same_clients w w'" for w w'
    by (simp_all add: for_user_def cls.R_refl)
  show "for_user a U same_clients w (w\<lparr>w_calls := k, w_db := d\<rparr>)" "for_user a U same_clients w (w\<lparr>w_panics := k\<rparr>)" for w k d
    by (simp_all add: for_user_def same_clients_def same_uids_def)
qed (rule TrueI | (rule keeps_for_user; (rule clients_effects | rule uids_effects)))+

lemma sess_invite: "keeps (for_user a U same_clients) (inviteLocal V a U g t)"
proof -
  have "keeps (for_user a U same_clients) (groupAddMember V g t)"
    by (intro keeps_for_user clients_effects uids_effects)
  then show ?thesis
    unfolding inviteLocal_def sendGroupNotification_def Let_def
    by (intro sess.keeps_rules sess.composed sess.keeps_notification) simp_all
qed

interpretation sess: router_effects_all "for_user a U same_clients" V a U "\<lambda>m. True" for V a U
  by unfold_locales (simp_all add: sess_invite)

lemma Route_clients: "keeps same_clients (Route V a m)"
  using keepsD [OF sess.keeps_every_Route [of a _ V m]] by (auto intro!: keepsI simp: for_user_def)

lemma Route_safe: "keeps safe (Route V a m)"
  using keepsD [OF inv.keeps_every_Route [of a _ V m]] by (auto intro!: keepsI simp: for_user_def)

section \<open>Invariant of the readers\<close>

text \<open>What a step on the state of the gateway may do: drop clients, add none.\<close>

definition mild :: "world \<Rightarrow> world \<Rightarrow> bool" where
  "mild w w' \<longleftrightarrow> safe w w' \<and> same_uids w w' \<and>
    (\<forall>u b. map_of (h_clients (w_hub w')) u = Some b \<longrightarrow> map_of (h_clients (w_hub w)) u = Some b)"

lemma mild_same: "keeps safe m \<Longrightarrow> keeps same_clients m \<Longrightarrow> keeps mild m"
  by (auto simp: keeps_def mild_def same_clients_def)

interpretation mild: step_relation mild
  by unfold_locales (auto simp: mild_def safe_def same_uids_def)

lemma mild_heap:
  assumes "\<And>c. c_UID (g c) = c_UID c"
  shows "mild w (w\<lparr>w_objs := (w_objs w)(a := g (w_objs w a))\<rparr>)"
proof -
  have "hub_ok (w_hub w) ((w_objs w)(a := g (w_objs w a))) = hub_ok (w_hub w) (w_objs w)"
    by (rule hub_ok_heap) (simp add: assms)
  then show ?thesis by (simp add: mild_def safe_def world_ok_def same_uids_def assms)
qed

lemma mild_now: "keeps mild (now V)"
  by (intro mild_same safe_effects clients_effects)

lemma mild_setHeartbeat: "keeps mild (setHeartbeat V a)"
  unfolding setHeartbeat_def
  by (intro mild.keeps_bind mild_now keepsI) (simp add: run_modify mild_heap SetHeartbeat_def)

lemma mild_dropClient: "keeps mild (dropClient a)"
  unfolding dropClient_def
proof (intro mild.keeps_bind keepsI)
  show "mild w (post (modify (\<lambda>w. w\<lparr>w_hub := Unregister a (w_objs w) (w_hub w)\<rparr>)) w)" for w
    by (auto simp: mild_def safe_def world_ok_def same_uids_def run_simps hub_ok_Unregister)
      (auto simp: Unregister_def map_of_delete split: if_splits)
qed (simp add: run_modify mild_heap Close_facts)

lemma mild_loginResponse: "keeps mild (loginResponse V c a)"
  unfolding loginResponse_def nowMs_def sendTo_def
  by (intro mild.keeps_bind mild.keeps_return mild.keeps_skip mild_same safe_effects clients_effects)

lemma mild_signed: "keeps mild (signed V a m)"
  unfolding signed_def nowMs_def uid_of_def Let_def
  by (intro mild.keeps_bind mild.keeps_if mild.keeps_return mild.keeps_gets mild_now)

lemma mild_Route: "keeps mild (Route V a m)"
  by (intro mild_same Route_safe Route_clients)

lemma mild_wsPingTick: "keeps mild (wsPingTick a)"
  unfolding wsPingTick_def by (rule keepsI) (simp add: run_modify mild_heap mild.R_refl SendPing_def)

lemma mild_wsRead: "keeps mild (wsRead V a raw)"
  unfolding wsRead_def
  by (intro mild.keeps_bind mild.keeps_option mild.keeps_skip mild_setHeartbeat mild_signed mild_Route)

text \<open>Users that a token of the gateway's own key has proved.\<close>

definition proved :: "jwtlib \<Rightarrow> manager \<Rightarrow> string \<Rightarrow> bool" where
  "proved J mgr uid \<longleftrightarrow> (\<exists>nw tok c. TokenValidate J mgr nw tok = Inr c \<and> cl_UID c = uid)"

definition known :: "addr \<Rightarrow> front \<Rightarrow> addr \<Rightarrow> bool" where
  "known n0 f a \<longleftrightarrow> n0 \<le> a \<and> a < f_next f"

definition task_ok :: "addr \<Rightarrow> front \<Rightarrow> task \<Rightarrow> bool" where
  "task_ok n0 f t \<longleftrightarrow> known n0 f (fst t) \<and> m_from (snd t) = c_UID (w_objs (f_world f) (fst t))"

definition pool_ok :: "addr \<Rightarrow> front \<Rightarrow> bool" where
  "pool_ok n0 f \<longleftrightarrow> list_all (task_ok n0 f) (wp_tasks (f_pool f)) \<and> list_all (task_ok n0 f) (wp_running (f_pool f)) \<and>
    length (wp_tasks (f_pool f)) \<le> wp_size (f_pool f) * 256 \<and> length (wp_running (f_pool f)) \<le> wp_size (f_pool f)"

definition conns_ok :: "addr \<Rightarrow> front \<Rightarrow> bool" where
  "conns_ok n0 f \<longleftrightarrow> (\<forall>fd a. gc_ctx (f_conns f fd) = ClientCtx a \<longrightarrow> known n0 f a) \<and>
    list_all (known n0 f) (map snd (f_connMap f)) \<and> list_all (known n0 f) (f_ws f)"

definition front_ok :: "jwtlib \<Rightarrow> manager \<Rightarrow> addr \<Rightarrow> front \<Rightarrow> bool" where
  "front_ok J mgr n0 f \<longleftrightarrow> world_ok (f_world f) \<and> n0 \<le> f_next f \<and> conns_ok n0 f \<and> pool_ok n0 f \<and>
    (\<forall>u a. map_of (h_clients (w_hub (f_world f))) u = Some a \<longrightarrow> known n0 f a) \<and>
    (\<forall>a. known n0 f a \<longrightarrow> proved J mgr (c_UID (w_objs (f_world f) a)))"

section \<open>Triples\<close>

definition valid :: "('s \<Rightarrow> bool) \<Rightarrow> ('s, 'a) state \<Rightarrow> ('a \<Rightarrow> 's \<Rightarrow> bool) \<Rightarrow> bool" where
  "valid P m Q \<longleftrightarrow> (\<forall>s. P s \<longrightarrow> Q (res m s) (post m s))"

lemma valid_bind: "valid P m Q \<Longrightarrow> (\<And>a. valid (Q a) (f a) S) \<Longrightarrow> valid P (State_Monad.bind m f) S"
  unfolding valid_def post_bind res_bind by blast

lemma valid_return: "(\<And>s. P s \<Longrightarrow> Q a s) \<Longrightarrow> valid P (State_Monad.return a) Q"
  by (simp add: valid_def run_simps)

lemma valid_skip: "(\<And>s. P s \<Longrightarrow> Q () s) \<Longrightarrow> valid P skip Q"
  by (simp add: valid_def run_simps)

lemma valid_modify: "(\<And>s. P s \<Longrightarrow> Q () (g s)) \<Longrightarrow> valid P (modify g) Q"
  by (simp add: valid_def run_simps)

lemma valid_gets: "(\<And>x. valid (\<lambda>s. P s \<and> g s = x) (f x) Q) \<Longrightarrow> valid P (State_Monad.bind (gets g) f) Q"
  by (simp add: valid_def run_simps)

lemma valid_if: "(b \<Longrightarrow> valid P m Q) \<Longrightarrow> (\<not> b \<Longrightarrow> valid P n Q) \<Longrightarrow> valid P (if b then m else n) Q"
  by simp

lemma valid_on: "(b \<Longrightarrow> valid P m (\<lambda>_. Q)) \<Longrightarrow> (\<And>s. P s \<Longrightarrow> Q s) \<Longrightarrow> valid P (on b m) (\<lambda>_. Q)"
  by (auto simp: valid_def run_simps)

lemma valid_sum:
  "(\<And>a. x = Inl a \<Longrightarrow> valid P (f a) Q) \<Longrightarrow> (\<And>b. x = Inr b \<Longrightarrow> valid P (g b) Q) \<Longrightarrow>
    valid P (case x of Inl a \<Rightarrow> f a | Inr b \<Rightarrow> g b) Q"
  by (cases x) simp_all

lemma valid_option:
  "(x = None \<Longrightarrow> valid P m Q) \<Longrightarrow> (\<And>a. x = Some a \<Longrightarrow> valid P (f a) Q) \<Longrightarrow>
    valid P (case x of None \<Rightarrow> m | Some a \<Rightarrow> f a) Q"
  by (cases x) simp_all

lemma valid_weaken: "valid P m Q \<Longrightarrow> (\<And>s. P' s \<Longrightarrow> P s) \<Longrightarrow> (\<And>a s. Q a s \<Longrightarrow> Q' a s) \<Longrightarrow> valid P' m Q'"
  by (simp add: valid_def)

lemma validD: "valid P m Q \<Longrightarrow> P s \<Longrightarrow> Q (res m s) (post m s)"
  by (simp add: valid_def)

lemmas valid_rules = valid_return valid_skip valid_if valid_sum valid_option

section \<open>Steps keep the invariant\<close>

text \<open>The invariant together with connections known to exist.\<close>

definition fine :: "jwtlib \<Rightarrow> manager \<Rightarrow> addr \<Rightarrow> addr set \<Rightarrow> front \<Rightarrow> bool" where
  "fine J mgr n0 A f \<longleftrightarrow> front_ok J mgr n0 f \<and> (\<forall>a \<in> A. known n0 f a)"

lemma run_onWorld: "post (onWorld m) f = f\<lparr>f_world := post m (f_world f)\<rparr>" "res (onWorld m) f = res m (f_world f)"
  by (simp_all add: onWorld_def split: prod.split)

lemma known_world [simp]: "known n0 (f\<lparr>f_world := w\<rparr>) = known n0 f"
  by (simp add: known_def fun_eq_iff)

lemma fine_world:
  assumes "fine J mgr n0 A f" and "world_ok w'" and "same_uids (f_world f) w'"
    and "\<And>u b. map_of (h_clients (w_hub w')) u = Some b \<Longrightarrow> known n0 f b"
  shows "fine J mgr n0 A (f\<lparr>f_world := w'\<rparr>)"
proof -
  have "task_ok n0 (f\<lparr>f_world := w'\<rparr>) = task_ok n0 f"
    using assms(3) by (simp add: task_ok_def fun_eq_iff same_uids_def)
  with assms show ?thesis
    by (auto simp: fine_def front_ok_def conns_ok_def pool_ok_def same_uids_def)
qed

lemma fine_mild: "fine J mgr n0 A f \<Longrightarrow> mild (f_world f) w' \<Longrightarrow> fine J mgr n0 A (f\<lparr>f_world := w'\<rparr>)"
  by (rule fine_world) (auto simp: fine_def front_ok_def mild_def safe_def)

lemma fine_onWorld: "keeps mild m \<Longrightarrow> valid (fine J mgr n0 A) (onWorld m) (\<lambda>_. fine J mgr n0 A)"
  by (simp add: valid_def run_onWorld fine_mild keepsD)

lemma fine_alloc:
  assumes "proved J mgr uid"
  shows "valid (fine J mgr n0 A) (allocClient V uid un n) (\<lambda>a. fine J mgr n0 (insert a A))"
  unfolding allocClient_def
proof (rule valid_bind [OF fine_onWorld [OF mild_now]])
  fix t :: gotime
  let ?alloc = "\<lambda>f. (f_next f, f\<lparr>f_next := Suc (f_next f), f_world := (f_world f)\<lparr>w_objs := (w_objs (f_world f))(f_next f := NewClient uid un n t)\<rparr>\<rparr>)"
  show "valid (fine J mgr n0 A) (State ?alloc) (\<lambda>a. fine J mgr n0 (insert a A))"
    unfolding valid_def
  proof (intro allI impI)
    fix f
    assume f: "fine J mgr n0 A f"
    let ?f = "snd (?alloc f)"
    have k: "known n0 ?f a \<longleftrightarrow> known n0 f a \<or> a = f_next f" for a
      using f by (auto simp: known_def fine_def front_ok_def)
    have same: "w_objs (f_world ?f) a = w_objs (f_world f) a" if "a < f_next f" for a using that by simp
    have w: "hub_ok (w_hub (f_world f)) (w_objs (f_world ?f))"
      using f by (auto simp: fine_def front_ok_def world_ok_def hub_ok_def own_uids_def known_def)
    have t: "task_ok n0 f x \<Longrightarrow> task_ok n0 ?f x" for x using k by (auto simp: task_ok_def known_def)
    have "front_ok J mgr n0 ?f"
      using f w k t assms
      by (auto simp: fine_def front_ok_def world_ok_def conns_ok_def pool_ok_def list_all_iff known_def NewClient_def less_SucI)
    then show "fine J mgr n0 (insert (res (State ?alloc) f) A) (post (State ?alloc) f)"
      using f k by (simp add: fine_def)
  qed
qed

lemma fine_register:
  assumes "a \<in> A"
  shows "valid (fine J mgr n0 A) (onWorld (register V a)) (\<lambda>_. fine J mgr n0 A)"
  unfolding valid_def run_onWorld
proof (intro allI impI)
  fix f
  assume f: "fine J mgr n0 A f"
  let ?w = "f_world f" and ?p = "e_pick V (w_calls (f_world f))"
  obtain h objs where r: "Register (e_mar V) ?p a (w_hub ?w, w_objs ?w) = (h, objs)" by (metis surj_pair)
  have post: "post (register V a) ?w = ?w\<lparr>w_calls := Suc (w_calls ?w), w_hub := h, w_objs := objs\<rparr>"
    by (simp add: register_def run_simps r)
  have ok: "world_ok ?w" "known n0 f a" using f assms by (auto simp: fine_def front_ok_def)
  then have h: "hub_ok h objs" using hub_ok_Register [of "w_hub ?w" "w_objs ?w" "e_mar V" ?p a] r by (simp add: world_ok_def)
  have u: "c_UID (objs x) = c_UID (w_objs ?w x)" for x using Register_UID [of "e_mar V" ?p a "w_hub ?w" "w_objs ?w" x] r by simp
  have "h_clients h = h_clients (w_hub ?w) \<or> h_clients h = AList.update (c_UID (w_objs ?w a)) a (h_clients (w_hub ?w))"
    using r by (auto simp: Register_def Let_def split: if_splits option.splits)
  then have "map_of (h_clients h) v = Some b \<Longrightarrow> known n0 f b" for v b
    using f ok(2) by (auto simp: fine_def front_ok_def map_of_update split: if_splits)
  then show "fine J mgr n0 A (f\<lparr>f_world := post (register V a) ?w\<rparr>)"
    using f ok(1) h u by (intro fine_world) (auto simp: post world_ok_def same_uids_def)
qed

lemma fine_front: "front_ok J mgr n0 f \<longleftrightarrow> fine J mgr n0 {} f"
  by (simp add: fine_def)

lemma fine_connMap:
  assumes "a \<in> A"
  shows "fine J mgr n0 A f \<Longrightarrow> fine J mgr n0 A (f\<lparr>f_connMap := AList.update fd a (f_connMap f)\<rparr>)"
    and "fine J mgr n0 A f \<Longrightarrow> fine J mgr n0 A (f\<lparr>f_ws := f_ws f @ [a]\<rparr>)"
    and "fine J mgr n0 A f \<Longrightarrow> fine J mgr n0 A (setConn fd (\<lambda>c. c\<lparr>gc_ctx := ClientCtx a\<rparr>) f)"
proof -
  have "snd ` set (AList.update fd a m) \<subseteq> insert a (snd ` set m)" for m :: "(nat, addr) gomap"
    by (induction m) auto
  then have "x \<in> set (AList.update fd a m) \<Longrightarrow> snd x = a \<or> snd x \<in> snd ` set m" for x and m :: "(nat, addr) gomap"
    by blast
  then show "fine J mgr n0 A f \<Longrightarrow> fine J mgr n0 A (f\<lparr>f_connMap := AList.update fd a (f_connMap f)\<rparr>)"
    using assms
    by (auto simp: fine_def front_ok_def conns_ok_def pool_ok_def task_ok_def [abs_def] known_def [abs_def] list_all_iff) (metis snd_conv imageE)+
qed (use assms in \<open>auto simp: fine_def front_ok_def conns_ok_def pool_ok_def task_ok_def known_def list_all_iff setConn_def split: if_splits\<close>)

lemma fine_shrink:
  "fine J mgr n0 A f \<Longrightarrow> fine J mgr n0 A (f\<lparr>f_connMap := AList.delete fd (f_connMap f)\<rparr>)"
  "fine J mgr n0 A f \<Longrightarrow> fine J mgr n0 A (f\<lparr>f_ws := removeAll a (f_ws f)\<rparr>)"
  "fine J mgr n0 A f \<Longrightarrow> fine J mgr n0 A (setConn fd (\<lambda>c. c\<lparr>gc_buf := b, gc_closing := k\<rparr>) f)"
  "fine J mgr n0 A f \<Longrightarrow> fine J mgr n0 A (setConn fd (\<lambda>c. c\<lparr>gc_closing := k\<rparr>) f)"
  "fine J mgr n0 A f \<Longrightarrow> fine J mgr n0 A (setConn fd (\<lambda>_. \<lparr>gc_ctx = StrCtx s, gc_buf = [], gc_closing = False\<rparr>) f)"
  "fine J mgr n0 A f \<Longrightarrow> fine J mgr n0 A (f\<lparr>f_engineSet := k\<rparr>)" "fine J mgr n0 A f \<Longrightarrow> fine J mgr n0 A (f\<lparr>f_heartbeat := k\<rparr>)"
  "fine J mgr n0 A f \<Longrightarrow> fine J mgr n0 A (f\<lparr>f_stopped := k, f_pool := PoolClose (f_pool f)\<rparr>)"
  "fine J mgr n0 A f \<Longrightarrow> fine J mgr n0 A (f\<lparr>f_pool := takeTask (f_pool f)\<rparr>)"
  by (auto simp: fine_def front_ok_def conns_ok_def pool_ok_def task_ok_def known_def list_all_iff setConn_def PoolClose_def
      takeTask_def AList.delete_eq split: if_splits list.splits)

lemma fine_Submit:
  "fine J mgr n0 A f \<Longrightarrow> task_ok n0 f t \<Longrightarrow> fine J mgr n0 A (f\<lparr>f_pool := Submit t (f_pool f)\<rparr>)"
  by (auto simp: fine_def front_ok_def conns_ok_def pool_ok_def task_ok_def known_def list_all_iff Submit_def)

lemma signed_from: "m_from (res (signed V a m) w) = c_UID (w_objs (post (signed V a m) w) a)"
  by (auto simp: signed_def run_simps Let_def)

lemma valid_handleLogin:
  "valid (fine J (gh_jwtMgr h) n0 A) (handleLogin J V h fd frame)
    (\<lambda>r. fine J (gh_jwtMgr h) n0 (case r of Inl e \<Rightarrow> A | Inr a \<Rightarrow> insert a A))"
  unfolding handleLogin_def
proof (intro valid_rules valid_bind [OF fine_onWorld [OF mild_now]])
  fix msg t c
  assume "TokenValidate J (gh_jwtMgr h) t (m_content msg) = Inr c"
  then have p: "proved J (gh_jwtMgr h) (cl_UID c)" by (auto simp: proved_def)
  show "valid (fine J (gh_jwtMgr h) n0 A)
      (allocClient V (cl_UID c) (cl_Username c) (gh_sendBufSize h) \<bind>
       (\<lambda>client. onWorld (setHeartbeat V client) \<bind>
       (\<lambda>_. onWorld (register V client) \<bind>
       (\<lambda>_. modify (\<lambda>f. f\<lparr>f_connMap := AList.update fd client (f_connMap f)\<rparr>) \<bind>
       (\<lambda>_. onWorld (loginResponse V c client) \<bind> (\<lambda>_. State_Monad.return (Inr client)))))))
      (\<lambda>r. fine J (gh_jwtMgr h) n0 (case r of Inl e \<Rightarrow> A | Inr a \<Rightarrow> insert a A))"
    by (rule valid_bind [OF fine_alloc [OF p]], rule valid_bind [OF fine_onWorld [OF mild_setHeartbeat]],
        rule valid_bind [OF fine_register [OF insertI1]], rule valid_bind [OF valid_modify [where Q = "\<lambda>_. fine J (gh_jwtMgr h) n0 (insert a A)" for a]],
        erule fine_connMap(1) [OF insertI1], rule valid_bind [OF fine_onWorld [OF mild_loginResponse]], rule valid_return) simp
qed simp_all

lemma valid_processFrame:
  "valid (fine J (gh_jwtMgr h) n0 {}) (processFrame J V h fd frame) (\<lambda>_. fine J (gh_jwtMgr h) n0 {})"
  unfolding processFrame_def
proof (rule valid_gets)
  fix ctx
  let ?I = "fine J (gh_jwtMgr h) n0"
  let ?P = "\<lambda>f. ?I {} f \<and> gc_ctx (f_conns f fd) = ctx"
  have close: "valid ?P (closeConn fd) (\<lambda>_. ?I {})"
    unfolding closeConn_def by (rule valid_modify) (simp add: fine_shrink)
  have login: "valid ?P (do { r \<leftarrow> handleLogin J V h fd frame;
      case r of Inl e \<Rightarrow> closeConn fd | Inr client \<Rightarrow> modify (setConn fd (\<lambda>c. c\<lparr>gc_ctx := ClientCtx client\<rparr>)) }) (\<lambda>_. ?I {})"
  proof (rule valid_bind [OF valid_weaken [OF valid_handleLogin [of J h n0 "{}" V fd frame], where Q' =
        "\<lambda>r. ?I (case r of Inl e \<Rightarrow> {} | Inr a \<Rightarrow> insert a {})"]])
    show "valid (?I (case r of Inl e \<Rightarrow> {} | Inr a \<Rightarrow> insert a {}))
        (case r of Inl e \<Rightarrow> closeConn fd | Inr client \<Rightarrow> modify (setConn fd (\<lambda>c. c\<lparr>gc_ctx := ClientCtx client\<rparr>)))
        (\<lambda>_. ?I {})" for r
      by (cases r) (auto simp: closeConn_def fine_def [of _ _ _ "{_}"] intro!: valid_modify fine_shrink dest: fine_connMap(3) [OF singletonI]
          simp: fine_def)
  qed simp_all
  have msg: "valid ?P (do { onWorld (setHeartbeat V a); m \<leftarrow> onWorld (signed V a msg);
      modify (\<lambda>f. f\<lparr>f_pool := Submit (a, m) (f_pool f)\<rparr>) }) (\<lambda>_. ?I {})" if "ctx = ClientCtx a" for a msg
  proof -
    have "valid ?P (onWorld (setHeartbeat V a)) (\<lambda>_. ?I {a})"
      unfolding that by (intro valid_weaken [OF fine_onWorld [OF mild_setHeartbeat, of _ _ _ "{a}"]])
        (auto simp: fine_def front_ok_def conns_ok_def)
    moreover have "valid (?I {a}) (onWorld (signed V a msg)) (\<lambda>m f. ?I {a} f \<and> m_from m = c_UID (w_objs (f_world f) a))"
      using validD [OF fine_onWorld [OF mild_signed]] by (auto simp: valid_def run_onWorld signed_from)
    ultimately show ?thesis
      by (elim valid_bind) (rule valid_modify, rule fine_Submit; simp add: fine_def task_ok_def)
  qed
  show "valid ?P (case ctx of NilCtx \<Rightarrow> closeConn fd
     | StrCtx s \<Rightarrow>
         if s = ''pending'' then do {
           r \<leftarrow> handleLogin J V h fd frame;
           case r of Inl e \<Rightarrow> closeConn fd | Inr client \<Rightarrow> modify (setConn fd (\<lambda>c. c\<lparr>gc_ctx := ClientCtx client\<rparr>)) }
         else closeConn fd
     | ClientCtx client \<Rightarrow>
         (case e_unm V frame of None \<Rightarrow> skip
          | Some msg \<Rightarrow> do {
              onWorld (setHeartbeat V client);
              m \<leftarrow> onWorld (signed V client msg);
              modify (\<lambda>f. f\<lparr>f_pool := Submit (client, m) (f_pool f)\<rparr>) })) (\<lambda>_. ?I {})"
  proof (cases ctx)
    case (ClientCtx a)
    then show ?thesis using msg by (auto intro!: valid_option valid_skip)
  next
    case (StrCtx s)
    with close login show ?thesis by (cases "s = ''pending''") simp_all
  qed (use close in simp)
qed

lemma trafficLoop_invariant:
  assumes "\<And>p s. I s \<Longrightarrow> I (pf p s)"
  shows "I s \<Longrightarrow> trafficLoop n R mx pf buf s = Some (act, buf', s') \<Longrightarrow> I s'"
proof (induction n arbitrary: buf s)
  case (Suc n)
  then show ?case using assms by (auto simp: Let_def split: peeked.splits if_splits option.splits)
qed simp

lemma valid_onData:
  "valid (fine J (gh_jwtMgr h) n0 {}) (onData R J V h fd chunk) (\<lambda>_. fine J (gh_jwtMgr h) n0 {})"
  unfolding valid_def
proof (intro allI impI)
  fix f
  let ?I = "fine J (gh_jwtMgr h) n0 {}" and ?pf = "\<lambda>p. post (processFrame J V h fd p)"
  assume f: "?I f"
  have "?I f'" if "OnTraffic R (gh_maxFrameSize h) ?pf (gc_buf (f_conns f fd) @ chunk) f = Some (act, buf, f')" for act buf f'
    by (rule trafficLoop_invariant [of ?I ?pf f, OF _ f that [unfolded OnTraffic_def]]) (rule validD [OF valid_processFrame])
  then show "?I (post (onData R J V h fd chunk) f)"
    using f fine_shrink(3) unfolding onData_def setConn_def by (auto split: option.split prod.split)
qed

lemma fine_evict:
  "fine J mgr n0 {} f \<Longrightarrow> fine J mgr n0 {} (fold (evictStale h nw) ps f)"
proof (induction ps arbitrary: f)
  case (Cons p ps)
  have "fine J mgr n0 {} (evictStale h nw p f)"
    using fine_shrink(1) [OF fine_mild [OF Cons.prems keepsD [OF mild_dropClient]]] Cons.prems
    by (auto simp: evictStale_def split: prod.split)
  then show ?case using Cons.IH by simp
qed simp

lemma valid_heartbeatCheck: "valid (fine J mgr n0 {}) (heartbeatCheck V h) (\<lambda>_. fine J mgr n0 {})"
  unfolding heartbeatCheck_def
  by (rule valid_bind [OF fine_onWorld [OF mild_now]]) (rule valid_modify, erule fine_evict)

lemma valid_runTask: "valid (fine J mgr n0 {}) (runTask V i) (\<lambda>_. fine J mgr n0 {})"
  unfolding runTask_def
proof (intro valid_gets valid_if)
  fix ts :: "task list"
  have "fine J mgr n0 {} (f\<lparr>f_pool := (f_pool f)\<lparr>wp_running := take i (wp_running (f_pool f)) @ drop (Suc i) (wp_running (f_pool f))\<rparr>\<rparr>)"
    if "fine J mgr n0 {} f" for f
    using that by (auto simp: fine_def front_ok_def conns_ok_def pool_ok_def task_ok_def known_def list_all_iff
        dest: in_set_takeD in_set_dropD)
  then show "valid (\<lambda>f. fine J mgr n0 {} f \<and> wp_running (f_pool f) = ts)
      (do { modify (\<lambda>f. f\<lparr>f_pool := (f_pool f)\<lparr>wp_running := take i ts @ drop (Suc i) ts\<rparr>\<rparr>);
        onWorld (Route V (fst (ts ! i)) (snd (ts ! i))) }) (\<lambda>_. fine J mgr n0 {})"
    by (intro valid_bind [OF valid_modify fine_onWorld [OF mild_Route]]) auto
qed (rule valid_skip, simp)

lemma valid_HandleWS:
  "valid (fine J mgr n0 {}) (HandleWS J V mgr n up tok) (\<lambda>_. fine J mgr n0 {})"
  unfolding HandleWS_def
proof (intro valid_rules valid_bind [OF fine_onWorld [OF mild_now]])
  fix t c
  assume "TokenValidate J mgr t tok = Inr c"
  then have p: "proved J mgr (cl_UID c)" by (auto simp: proved_def)
  have forget: "fine J mgr n0 {a} f \<Longrightarrow> fine J mgr n0 {} f" for a f by (simp add: fine_def)
  show "valid (fine J mgr n0 {})
      (allocClient V (cl_UID c) (cl_Username c) n \<bind>
       (\<lambda>client. onWorld (register V client) \<bind>
       (\<lambda>_. onWorld (loginResponse V c client) \<bind>
       (\<lambda>_. modify (\<lambda>f. f\<lparr>f_ws := f_ws f @ [client]\<rparr>) \<bind> (\<lambda>_. State_Monad.return (WsConnected client))))))
      (\<lambda>_. fine J mgr n0 {})"
    by (rule valid_bind [OF fine_alloc [OF p]], rule valid_bind [OF fine_register [OF insertI1]],
        rule valid_bind [OF fine_onWorld [OF mild_loginResponse]],
        rule valid_bind [OF valid_modify [where Q = "\<lambda>_. fine J mgr n0 (insert a {})" for a]],
        erule fine_connMap(2) [OF insertI1], rule valid_return, erule forget)
qed simp_all

lemma valid_OnClose: "valid (fine J mgr n0 {}) (OnClose fd) (\<lambda>_. fine J mgr n0 {})"
  unfolding OnClose_def
proof (rule valid_gets)
  fix ctx
  have "valid (fine J mgr n0 {}) (do { onWorld (dropClient a);
      modify (\<lambda>f. f\<lparr>f_connMap := AList.delete fd (f_connMap f)\<rparr>) }) (\<lambda>_. fine J mgr n0 {})" for a
    by (rule valid_bind [OF fine_onWorld [OF mild_dropClient]], rule valid_modify, erule fine_shrink)
  then show "valid (\<lambda>f. fine J mgr n0 {} f \<and> gc_ctx (f_conns f fd) = ctx)
      (case ctx of ClientCtx client \<Rightarrow> do { onWorld (dropClient client);
         modify (\<lambda>f. f\<lparr>f_connMap := AList.delete fd (f_connMap f)\<rparr>) } | _ \<Rightarrow> skip) (\<lambda>_. fine J mgr n0 {})"
    unfolding valid_def by (cases ctx) (auto simp: run_skip)
qed

lemma valid_GnetShutdown: "valid (fine J mgr n0 {}) (GnetShutdown err) (\<lambda>_. fine J mgr n0 {})"
  using fine_shrink(8) [OF fine_shrink(7)] by (auto simp: valid_def GnetShutdown_def run_simps fine_shrink(7))

lemma valid_wsReadEnd: "valid (fine J mgr n0 {}) (wsReadEnd a) (\<lambda>_. fine J mgr n0 {})"
  unfolding wsReadEnd_def
  by (rule valid_bind [OF fine_onWorld [OF mild_dropClient]], rule valid_modify, erule fine_shrink)

lemma valid_guarded:
  assumes "valid P m (\<lambda>_. P)"
  shows "valid P (served m) (\<lambda>_. P)" "valid P (on_ws a m) (\<lambda>_. P)" "valid P (do { r \<leftarrow> gets g; on r m }) (\<lambda>_. P)"
  using assms by (auto simp: valid_def served_def on_ws_def run_simps)

lemma valid_ignore: "valid P m (\<lambda>_. P) \<Longrightarrow> valid P (do { _ \<leftarrow> m; skip }) (\<lambda>_. P)"
  by (elim valid_bind) (simp add: valid_skip)

lemma valid_front_event:
  "valid (fine J (gh_jwtMgr h) n0 {}) (front_event R J V h e) (\<lambda>_. fine J (gh_jwtMgr h) n0 {})"
  by (cases e)
    (auto intro!: valid_guarded valid_ignore valid_onData valid_OnClose valid_runTask valid_heartbeatCheck valid_GnetShutdown
      valid_HandleWS fine_onWorld mild_wsRead mild_setHeartbeat mild_wsPingTick valid_wsReadEnd valid_modify fine_shrink
      simp: OnBoot_def OnOpen_def)

lemma front_run_ok:
  "front_ok J (gh_jwtMgr h) n0 f \<Longrightarrow> front_ok J (gh_jwtMgr h) n0 (front_run R J V h es f)"
  unfolding front_run_def fine_front
proof (induction es arbitrary: f)
  case (Cons e es)
  then show ?case using validD [OF valid_front_event Cons.prems] by simp
qed simp

lemma front_ok_new:
  assumes "world_ok w" and "h_clients (w_hub w) = []"
  shows "front_ok J mgr n0 (new_front w n0 k)"
  using assms by (auto simp: front_ok_def new_front_def conns_ok_def pool_ok_def known_def NewWorkerPool_def)

section \<open>The heartbeat checker\<close>

definition stale :: "gnet_handler \<Rightarrow> gotime \<Rightarrow> front \<Rightarrow> addr \<Rightarrow> bool" where
  "stale h nw f a \<longleftrightarrow> time_sub nw (Heartbeat (w_objs (f_world f) a)) > gh_heartbeatTimeout h"

text \<open>What a tick leaves, as a specification over all connections at once.\<close>

definition checked :: "gnet_handler \<Rightarrow> gotime \<Rightarrow> (nat \<times> addr) list \<Rightarrow> front \<Rightarrow> front \<Rightarrow> bool" where
  "checked h nw ps f f' \<longleftrightarrow>
    (\<forall>a. w_objs (f_world f') a = (if stale h nw f a \<and> a \<in> snd ` set ps then Close (w_objs (f_world f) a) else w_objs (f_world f) a)) \<and>
    (\<forall>u. HubGet u (w_hub (f_world f')) =
      (case HubGet u (w_hub (f_world f)) of
         Some a \<Rightarrow> if stale h nw f a \<and> a \<in> snd ` set ps then None else Some a
       | None \<Rightarrow> None)) \<and>
    (\<forall>fd. map_of (f_connMap f') fd = (if \<exists>a. (fd, a) \<in> set ps \<and> stale h nw f a then None else map_of (f_connMap f) fd))"

lemma evictStale_stale:
  assumes "stale h nw f a"
  shows "evictStale h nw (fd, a) f = f\<lparr>f_world := (f_world f)\<lparr>w_hub := Unregister a (w_objs (f_world f)) (w_hub (f_world f)),
    w_objs := (w_objs (f_world f))(a := Close (w_objs (f_world f) a))\<rparr>, f_connMap := AList.delete fd (f_connMap f)\<rparr>"
  using assms by (simp add: evictStale_def stale_def dropClient_def run_simps)

lemma fold_evict:
  assumes "own_uids (w_objs (f_world f)) (h_clients (w_hub (f_world f)))"
  shows "checked h nw ps f (fold (evictStale h nw) ps f)"
  using assms
proof (induction ps arbitrary: f)
  case Nil
  then show ?case by (auto simp: checked_def split: option.split)
next
  case (Cons p ps)
  obtain fd a where p: "p = (fd, a)" by (cases p)
  let ?g = "evictStale h nw p f"
  show ?case
  proof (cases "stale h nw f a")
    case False
    then have "?g = f" by (simp add: p evictStale_def stale_def)
    with Cons False show ?thesis by (auto simp: p checked_def split: option.splits)
  next
    case True
    note g = evictStale_stale [OF True, of fd, folded p]
    have st: "stale h nw ?g x = stale h nw f x" for x
      by (simp add: g stale_def Heartbeat_def Close_def)
    have own: "own_uids (w_objs (f_world ?g)) (h_clients (w_hub (f_world ?g)))"
    proof -
      have heap: "own_uids (w_objs (f_world f)) m \<Longrightarrow> own_uids (w_objs (f_world ?g)) m" for m
        by (auto simp: g own_uids_def Close_facts)
      have "own_uids (w_objs (f_world f)) (h_clients (Unregister a (w_objs (f_world f)) (w_hub (f_world f))))"
        using Cons.prems by (simp add: Unregister_def own_uids_delete)
      from heap [OF this] show ?thesis by (simp add: g)
    qed
    have get: "HubGet u (w_hub (f_world ?g)) = (if HubGet u (w_hub (f_world f)) = Some a then None else HubGet u (w_hub (f_world f)))" for u
    proof -
      have "map_of (h_clients (w_hub (f_world f))) u = Some a \<Longrightarrow> c_UID (w_objs (f_world f) a) = u"
        using Cons.prems unfolding own_uids_def by blast
      then show ?thesis
        by (cases "u = c_UID (w_objs (f_world f) a)") (auto simp: g HubGet_def Unregister_def map_of_delete)
    qed
    have obj: "w_objs (f_world ?g) x = (if x = a then Close (w_objs (f_world f) a) else w_objs (f_world f) x)" for x
      by (simp add: g)
    have cm: "map_of (f_connMap ?g) x = (if x = fd then None else map_of (f_connMap f) x)" for x
      by (simp add: g map_of_delete)
    have set: "snd ` set (p # ps) = insert a (snd ` set ps)" by (simp add: p)
    note ih = Cons.IH [OF own, unfolded checked_def st]
    show ?thesis
      unfolding checked_def fold_Cons comp_apply set
    proof (intro conjI allI)
      fix x
      show "w_objs (f_world (fold (evictStale h nw) ps ?g)) x =
          (if stale h nw f x \<and> x \<in> insert a (snd ` set ps) then Close (w_objs (f_world f) x) else w_objs (f_world f) x)"
        using True obj [of x] ih [THEN conjunct1, rule_format, of x] by (cases "x = a") (auto simp: Close_facts)
    next
      fix u
      show "HubGet u (w_hub (f_world (fold (evictStale h nw) ps ?g))) = (case HubGet u (w_hub (f_world f)) of
          None \<Rightarrow> None | Some b \<Rightarrow> if stale h nw f b \<and> b \<in> insert a (snd ` set ps) then None else Some b)"
        using True ih [THEN conjunct2, THEN conjunct1, rule_format, of u] unfolding get by (simp split: option.split)
    next
      fix x
      show "map_of (f_connMap (fold (evictStale h nw) ps ?g)) x =
          (if \<exists>b. (x, b) \<in> set (p # ps) \<and> stale h nw f b then None else map_of (f_connMap f) x)"
        using True ih [THEN conjunct2, THEN conjunct2, rule_format, of x] unfolding cm by (auto simp: p)
    qed
  qed
qed

section \<open>Workers\<close>

text \<open>A worker that takes the next task and runs it.\<close>

lemma worker_turn:
  assumes "wp_tasks (f_pool f) = (a, m) # ts" and "wp_running (f_pool f) = []" and "0 < wp_size (f_pool f)"
  shows "front_run R J V h [TakeTask, RunTask 0] f =
    f\<lparr>f_pool := (f_pool f)\<lparr>wp_tasks := ts\<rparr>, f_world := post (Route V a m) (f_world f)\<rparr>"
  using assms by (simp add: front_run_def takeTask_def runTask_def run_simps run_onWorld)

lemma front_run_append: "front_run R J V h (es @ es') f = front_run R J V h es' (front_run R J V h es f)"
  by (simp add: front_run_def)

lemma workers_drain:
  assumes "wp_running (f_pool f) = []" and "0 < wp_size (f_pool f)"
  shows "front_run R J V h (concat (replicate (length (wp_tasks (f_pool f))) [TakeTask, RunTask 0])) f =
    f\<lparr>f_pool := (f_pool f)\<lparr>wp_tasks := []\<rparr>, f_world := fold (\<lambda>(a, m). post (Route V a m)) (wp_tasks (f_pool f)) (f_world f)\<rparr>"
  using assms
proof (induction "wp_tasks (f_pool f)" arbitrary: f)
  case Nil
  then show ?case by (simp add: front_run_def)
next
  case (Cons t ts)
  obtain a m where t: "t = (a, m)" by (cases t)
  let ?g = "f\<lparr>f_pool := (f_pool f)\<lparr>wp_tasks := ts\<rparr>, f_world := post (Route V a m) (f_world f)\<rparr>"
  have one: "front_run R J V h [TakeTask, RunTask 0] f = ?g"
    using Cons.hyps(2) Cons.prems by (intro worker_turn) (simp_all add: t)
  have "front_run R J V h (concat (replicate (length (wp_tasks (f_pool ?g))) [TakeTask, RunTask 0])) ?g =
      ?g\<lparr>f_pool := (f_pool ?g)\<lparr>wp_tasks := []\<rparr>, f_world := fold (\<lambda>(a, m). post (Route V a m)) (wp_tasks (f_pool ?g)) (f_world ?g)\<rparr>"
    using Cons.prems by (intro Cons.hyps(1)) simp_all
  moreover have ts: "wp_tasks (f_pool f) = (a, m) # ts" using Cons.hyps(2) by (simp add: t)
  moreover have "concat (replicate (length (wp_tasks (f_pool f))) [TakeTask, RunTask 0]) =
      [TakeTask, RunTask 0] @ concat (replicate (length ts) [TakeTask, RunTask 0])"
    by (simp add: ts)
  ultimately show ?case by (simp only: front_run_append one) simp
qed

lemma front_ok_tasks:
  assumes "front_ok J mgr n0 f" and "(a, m) \<in> set (wp_tasks (f_pool f) @ wp_running (f_pool f))"
  shows "m_from m = c_UID (w_objs (f_world f) a)" and "proved J mgr (m_from m)"
proof -
  have "task_ok n0 f (a, m)" using assms by (auto simp: front_ok_def pool_ok_def list_all_iff)
  then show "m_from m = c_UID (w_objs (f_world f) a)" "proved J mgr (m_from m)" using assms(1) by (simp_all add: task_ok_def front_ok_def)
qed

lemma front_ok_users:
  assumes "front_ok J mgr n0 f" and "HubGet u (w_hub (f_world f)) = Some a"
  shows "c_UID (w_objs (f_world f) a) = u" and "proved J mgr u"
proof -
  show u: "c_UID (w_objs (f_world f) a) = u"
    using assms by (auto simp: front_ok_def world_ok_def hub_ok_def own_uids_def HubGet_def)
  have "known n0 f a" using assms by (simp add: front_ok_def HubGet_def)
  then show "proved J mgr u" using assms(1) u by (auto simp: front_ok_def)
qed

section \<open>Properties\<close>


definition idle_gate :: world where
  "idle_gate = gate\<lparr>w_hub := NewHub 5\<rparr>"

lemma idle_gate_ok: "world_ok idle_gate" "h_clients (w_hub idle_gate) = []"
  using demo_groups_ok by (simp_all add: idle_gate_def world_ok_def dedup_ok_def NewDedupCache_def hub_ok_New)


text \<open>
  The heartbeat checker evicts exactly the silent connections: after a tick each connection
  of the table whose last heartbeat is older than the timeout is closed, gone from the table and
  no longer registered for its user, while every other connection keeps its state, its entry
  and its registration (also a newer connection of a user whose old one was evicted).
\<close>

theorem heartbeat_evicts:
  assumes "hub_ok (w_hub (f_world f)) (w_objs (f_world f))" and "f' = post (heartbeatCheck V h) f"
    and "nw = read_clock (e_clock V) (w_tick (f_world f))" and "(fd, a) \<in> set (f_connMap f)"
  shows "(stale h nw f a \<longrightarrow> c_closed (w_objs (f_world f') a) \<and> map_of (f_connMap f') fd = None \<and>
      (\<forall>u. HubGet u (w_hub (f_world f')) \<noteq> Some a)) \<and>
    (\<not> stale h nw f a \<longrightarrow> w_objs (f_world f') a = w_objs (f_world f) a \<and>
      (HubGet u (w_hub (f_world f)) = Some a \<longrightarrow> HubGet u (w_hub (f_world f')) = Some a) \<and>
      (gomap_ok (f_connMap f) \<longrightarrow> map_of (f_connMap f') fd = Some a))"
proof -
  let ?g = "f\<lparr>f_world := (f_world f)\<lparr>w_tick := Suc (w_tick (f_world f))\<rparr>\<rparr>"
  have f': "f' = fold (evictStale h nw) (f_connMap f) ?g"
    unfolding assms(2,3) heartbeatCheck_def by (simp add: run_simps onWorld_def)
  have c: "checked h nw (f_connMap f) ?g f'"
    unfolding f' using assms(1) by (intro fold_evict) (simp add: hub_ok_def)
  have s: "stale h nw ?g = stale h nw f" by (simp add: stale_def fun_eq_iff)
  have m: "gomap_ok (f_connMap f) \<Longrightarrow> map_of (f_connMap f) fd = Some a \<and> (\<forall>b. (fd, b) \<in> set (f_connMap f) \<longrightarrow> b = a)"
    using assms(4) by (metis map_of_eq_Some_iff option.inject)
  have i: "a \<in> snd ` set (f_connMap f)" using assms(4) by force
  note obj = c [unfolded checked_def s, THEN conjunct1, rule_format, of a]
    and get = c [unfolded checked_def s, THEN conjunct2, THEN conjunct1, rule_format]
    and cm = c [unfolded checked_def s, THEN conjunct2, THEN conjunct2, rule_format, of fd]
  show ?thesis
  proof (intro conjI impI allI)
    assume "stale h nw f a"
    then show "c_closed (w_objs (f_world f') a)" "map_of (f_connMap f') fd = None" "HubGet v (w_hub (f_world f')) \<noteq> Some a" for v
      using obj cm get [of v] i assms(4) by (auto simp: Close_facts split: option.splits if_splits)
  next
    assume "\<not> stale h nw f a"
    then show "w_objs (f_world f') a = w_objs (f_world f) a"
      "HubGet u (w_hub (f_world f)) = Some a \<Longrightarrow> HubGet u (w_hub (f_world f')) = Some a"
      "gomap_ok (f_connMap f) \<Longrightarrow> map_of (f_connMap f') fd = Some a"
      using obj cm get [of u] m by auto
  qed
qed

text \<open>Connection 3 of the demonstration gateway was last heard at time 0; the timeout is one nanosecond.\<close>

definition beat_front :: front where
  "beat_front = (new_front (gate\<lparr>w_tick := 4\<rparr>) 4 0)\<lparr>f_connMap := [(7, 3)]\<rparr>"

lemma beat_front_simps [simp]: "f_world beat_front = gate\<lparr>w_tick := 4\<rparr>" "f_connMap beat_front = [(7, 3)]"
  by (simp_all add: beat_front_def new_front_def)

theorem heartbeat_evicts_witness:
  "c_closed (w_objs (f_world (post (heartbeatCheck gate_env (NewGnetHandler (NewManager ''s'' 1) 4 100 1)) beat_front)) 3)"
proof -
  have "stale (NewGnetHandler (NewManager ''s'' 1) 4 100 1) (read_clock (e_clock gate_env) 4) beat_front 3"
    by (simp add: stale_def time_sub_def Heartbeat_def demo_heap_def NewClient_def NewGnetHandler_def gate_env_def read_pace_clock numeral_2_eq_2 [symmetric])
  then show ?thesis
    using heartbeat_evicts [of beat_front "post (heartbeatCheck gate_env (NewGnetHandler (NewManager ''s'' 1) 4 100 1)) beat_front" gate_env
        "NewGnetHandler (NewManager ''s'' 1) 4 100 1" "read_clock (e_clock gate_env) 4" 7 3] gate_hub by simp
qed


definition busy_front :: front where
  "busy_front = (new_front gate 4 0)\<lparr>f_pool := Submit (2, gate_chat) (NewWorkerPool 0)\<rparr>"


text \<open>
  The workers do not keep the order of one sender: with two workers, two messages that a
  connection handed in one after the other may reach the router in the opposite order.
\<close>

theorem workers_reorder:
  assumes "wp_tasks (f_pool f) = [(a, m1), (a, m2)]" and "wp_running (f_pool f) = []" and "2 \<le> wp_size (f_pool f)"
  shows "f_world (front_run R J V h [TakeTask, TakeTask, RunTask 1, RunTask 0] f) =
    post (Route V a m1) (post (Route V a m2) (f_world f))"
  using assms by (simp add: front_run_def takeTask_def runTask_def run_simps run_onWorld)

theorem workers_reorder_witness:
  "f_world (front_run list_reader plain_jwt gate_env (NewGnetHandler (NewManager ''s'' 1) 4 100 1) [TakeTask, TakeTask, RunTask 1, RunTask 0]
    (busy_front\<lparr>f_pool := Submit (2, gate_chat\<lparr>m_seq := 8\<rparr>) (f_pool busy_front)\<rparr>)) =
    post (Route gate_env 2 gate_chat) (post (Route gate_env 2 (gate_chat\<lparr>m_seq := 8\<rparr>)) gate)"
  using workers_reorder [of "busy_front\<lparr>f_pool := Submit (2, gate_chat\<lparr>m_seq := 8\<rparr>) (f_pool busy_front)\<rparr>" 2 gate_chat "gate_chat\<lparr>m_seq := 8\<rparr>"]
  by (simp add: busy_front_def new_front_def Submit_def NewWorkerPool_def)

end
