(* ===== verification/Server.thy ===== *)
theory Server
  imports Readers
begin

text \<open>
  The HTTP side of the gateway, \<open>internal/gateway/server.go\<close>: accounts, groups, friends, unread
  counters, search and administration. A handler is a computation on the state of the gateway that
  returns the response. Of a request, what the handlers read is kept: the method, the error of
  \<open>ParseForm\<close>, the form and query values, the origin. Guards that handlers share are functions of
  the rest of the handler (\<open>postOnly\<close>, \<open>withGroups\<close>, \<open>withAuth\<close>, \<open>withAdmin\<close>).

  The token library and bcrypt are parameters: \<open>we_compare hash pw\<close> is \<open>CompareHashAndPassword\<close>
  without an error, \<open>we_hash n pw\<close> the result of \<open>GenerateFromPassword\<close> at the \<open>n\<close>-th external event.
\<close>

section \<open>Requests and responses\<close>

record http_req =
  rq_Method :: string
  rq_formErr :: "string option"
  rq_form :: "(string, string) gomap"
  rq_query :: "(string, string) gomap"
  rq_Origin :: string

record http_resp =
  rs_Status :: int
  rs_ContentType :: string
  rs_Body :: bytes

definition FormValue :: "http_req \<Rightarrow> string \<Rightarrow> string" where
  "FormValue r k = (case map_of (rq_form r) k of None \<Rightarrow> [] | Some v \<Rightarrow> v)"

definition Query :: "http_req \<Rightarrow> string \<Rightarrow> string" where
  "Query r k = (case map_of (rq_query r) k of None \<Rightarrow> [] | Some v \<Rightarrow> v)"

definition httpError :: "string \<Rightarrow> int \<Rightarrow> http_resp" where
  "httpError msg status = \<lparr>rs_Status = status, rs_ContentType = ''text/plain; charset=utf-8'', rs_Body = msg @ [CHR 0x0A]\<rparr>"

definition writeJSON :: "json \<Rightarrow> http_resp" where
  "writeJSON j = \<lparr>rs_Status = 200, rs_ContentType = ''application/json'', rs_Body = json_marshal j\<rparr>"

definition fail :: "string \<Rightarrow> int \<Rightarrow> http_resp io" where
  "fail msg status = State_Monad.return (httpError msg status)"

definition respond :: "json \<Rightarrow> http_resp io" where
  "respond j = State_Monad.return (writeJSON j)"

text \<open>A \<open>map[string]string\<close> or \<open>map[string]interface\<close> written as JSON.\<close>

definition ok_json :: json where
  "ok_json = json_map [(''ok'', JStr ''true'')]"

definition status_ok :: json where
  "status_ok = json_map [(''status'', JStr ''ok'')]"

text \<open>\<open>strconv.ParseInt(s, 10, 64)\<close> and \<open>strconv.Atoi\<close>; \<open>None\<close> is an error.\<close>

definition is_digit :: "char \<Rightarrow> bool" where
  "is_digit c \<longleftrightarrow> 48 \<le> code c \<and> code c \<le> 57"

definition ParseInt :: "string \<Rightarrow> int option" where
  "ParseInt s =
    (let neg = (s \<noteq> [] \<and> hd s = CHR ''-'');
         ds = (if s \<noteq> [] \<and> (hd s = CHR ''-'' \<or> hd s = CHR ''+'') then tl s else s);
         v = (if neg then - int (read_nat ds) else int (read_nat ds))
     in if ds \<noteq> [] \<and> list_all is_digit ds \<and> in_i64 v then Some v else None)"

section \<open>The server\<close>

record server =
  sv_jwtMgr :: manager
  sv_userStore :: bool
  sv_msgStore :: bool
  sv_DevMode :: bool
  sv_adminUIDs :: "string list"
  sv_sendBufSize :: nat
  sv_allowedOrigins :: "string list"
  sv_objectStore :: bool
  sv_maxUpload :: int

record web_env =
  we_V :: env
  we_jwt :: jwtlib
  we_compare :: "string \<Rightarrow> string \<Rightarrow> bool"
  we_hash :: "nat \<Rightarrow> string \<Rightarrow> string + string"

definition originAllowed :: "string list \<Rightarrow> http_req \<Rightarrow> bool" where
  "originAllowed allowed r =
    (if allowed = [] then True else if rq_Origin r = [] then True else rq_Origin r \<in> set allowed)"

text \<open>\<open>Recovery\<close>: a handler that panics answers with an internal error.\<close>

definition Recovery :: "http_resp option io \<Rightarrow> http_resp io" where
  "Recovery handler = do {
     r \<leftarrow> handler;
     case r of Some x \<Rightarrow> State_Monad.return x | None \<Rightarrow> fail ''Internal Server Error'' 500 }"

definition postOnly :: "http_req \<Rightarrow> http_resp io \<Rightarrow> http_resp io" where
  "postOnly r k = (if rq_Method r \<noteq> ''POST'' then fail ''method not allowed'' 405 else k)"

definition withGroups :: "http_resp io \<Rightarrow> http_resp io" where
  "withGroups k = do {
     g \<leftarrow> hasGroups;
     if \<not> g then fail ''group store not available'' 503 else k }"

definition webNow :: "web_env \<Rightarrow> gotime io" where
  "webNow W = now (we_V W)"

section \<open>Authentication\<close>

definition authenticateRequest :: "web_env \<Rightarrow> server \<Rightarrow> http_req \<Rightarrow> (http_resp + claims) io" where
  "authenticateRequest W s r =
    (if rq_Method r = ''POST'' \<and> rq_formErr r \<noteq> None then State_Monad.return (Inl (httpError ''invalid form data'' 400))
     else
       let uid = (if rq_Method r = ''POST'' then FormValue r ''uid'' else Query r ''uid'');
           token = (if rq_Method r = ''POST'' then FormValue r ''token'' else Query r ''token'')
       in if uid = [] \<or> token = [] then State_Monad.return (Inl (httpError ''uid and token required'' 401))
          else do {
            t \<leftarrow> webNow W;
            State_Monad.return
              (case TokenValidate (we_jwt W) (sv_jwtMgr s) t token of
                 Inl e \<Rightarrow> Inl (httpError (''invalid token: '' @ jwt_error_text e) 401)
               | Inr claims \<Rightarrow>
                   if cl_UID claims \<noteq> uid then Inl (httpError ''uid does not match token'' 403) else Inr claims) })"

definition adminAuth :: "web_env \<Rightarrow> server \<Rightarrow> http_req \<Rightarrow> (http_resp + claims) io" where
  "adminAuth W s r = do {
     a \<leftarrow> authenticateRequest W s r;
     State_Monad.return
       (case a of
          Inl e \<Rightarrow> Inl e
        | Inr claims \<Rightarrow> if cl_Role claims \<noteq> ''admin'' then Inl (httpError ''admin access required'' 403) else Inr claims) }"

definition withAuth :: "web_env \<Rightarrow> server \<Rightarrow> http_req \<Rightarrow> (claims \<Rightarrow> http_resp io) \<Rightarrow> http_resp io" where
  "withAuth W s r k = do {
     a \<leftarrow> authenticateRequest W s r;
     case a of Inl e \<Rightarrow> State_Monad.return e | Inr claims \<Rightarrow> k claims }"

definition withAdmin :: "web_env \<Rightarrow> server \<Rightarrow> http_req \<Rightarrow> (claims \<Rightarrow> http_resp io) \<Rightarrow> http_resp io" where
  "withAdmin W s r k = do {
     a \<leftarrow> adminAuth W s r;
     case a of Inl e \<Rightarrow> State_Monad.return e | Inr claims \<Rightarrow> k claims }"

text \<open>The token check of the search, download and upload handlers, which read it themselves.\<close>

definition checkToken :: "web_env \<Rightarrow> server \<Rightarrow> string \<Rightarrow> string \<Rightarrow> (http_resp + claims) io" where
  "checkToken W s uid token =
    (if uid = [] \<or> token = [] then State_Monad.return (Inl (httpError ''uid and token required'' 400))
     else do {
       t \<leftarrow> webNow W;
       State_Monad.return
         (case TokenValidate (we_jwt W) (sv_jwtMgr s) t token of
            Inl e \<Rightarrow> Inl (httpError (''invalid token: '' @ jwt_error_text e) 401)
          | Inr claims \<Rightarrow>
              if cl_UID claims \<noteq> uid then Inl (httpError ''uid does not match token'' 403) else Inr claims) })"

section \<open>Accounts\<close>

definition json_token :: "string \<Rightarrow> string \<Rightarrow> string \<Rightarrow> json" where
  "json_token uid username token =
    json_map [(''uid'', JStr uid), (''username'', JStr username), (''token'', JStr token)]"

text \<open>\<open>jwtMgr.Generate\<close> reads the clock twice; the response carries the token.\<close>

definition issueToken :: "web_env \<Rightarrow> server \<Rightarrow> string \<Rightarrow> string \<Rightarrow> string \<Rightarrow> http_resp io" where
  "issueToken W s uid username role = do {
     t1 \<leftarrow> webNow W;
     t2 \<leftarrow> webNow W;
     case Generate (we_jwt W) (sv_jwtMgr s) t1 t2 uid username role of
       Inl e \<Rightarrow> fail (''generate token: '' @ e) 500
     | Inr token \<Rightarrow> respond (json_token uid username token) }"

text \<open>What follows once the credentials are settled.\<close>

definition finishLogin :: "web_env \<Rightarrow> server \<Rightarrow> http_req \<Rightarrow> string \<Rightarrow> string \<Rightarrow> string \<Rightarrow> http_resp io" where
  "finishLogin W s r uid username role =
    (let role = (if sv_DevMode s \<and> FormValue r ''role'' = ''admin'' then ''admin'' else role);
         role = (if uid \<in> set (sv_adminUIDs s) then ''admin'' else role);
         username = (if username = [] then uid else username)
     in issueToken W s uid username role)"

definition HandleLogin :: "web_env \<Rightarrow> server \<Rightarrow> http_req \<Rightarrow> http_resp io" where
  "HandleLogin W s r = postOnly r
    (case rq_formErr r of
       Some e \<Rightarrow> fail (''invalid form data: '' @ e) 400
     | None \<Rightarrow>
         let uid = FormValue r ''uid''; username = FormValue r ''username''; password = FormValue r ''password'';
             uid = (if uid = [] then username else uid)
         in if uid = [] then fail ''uid required'' 400
            else if password \<noteq> [] then
              (if \<not> sv_userStore s then fail ''user store not available'' 503
               else do {
                 u \<leftarrow> dbCall (we_V W) (\<lambda>flt. reading (GetByUID (e_sql (we_V W)) flt uid));
                 case u of
                   Inl e \<Rightarrow> fail ''internal error'' 500
                 | Inr None \<Rightarrow> fail ''user not found'' 401
                 | Inr (Some u) \<Rightarrow>
                     if \<not> we_compare W (u_PasswordHash u) password then fail ''invalid password'' 401
                     else finishLogin W s r uid (u_Username u) (u_Role u) })
            else if \<not> sv_DevMode s then fail ''password required'' 401
            else finishLogin W s r uid username ''user'')"

definition HandleRegister :: "web_env \<Rightarrow> server \<Rightarrow> http_req \<Rightarrow> http_resp io" where
  "HandleRegister W s r = postOnly r
    (case rq_formErr r of
       Some e \<Rightarrow> fail (''invalid form data: '' @ e) 400
     | None \<Rightarrow>
         let uid = FormValue r ''uid''; username = FormValue r ''username''; password = FormValue r ''password''
         in if uid = [] \<or> password = [] then fail ''uid and password required'' 400
            else let username = (if username = [] then uid else username) in
              if \<not> sv_userStore s then fail ''user store not available'' 503
              else do {
                n \<leftarrow> event;
                case we_hash W n password of
                  Inl e \<Rightarrow> fail ''internal error'' 500
                | Inr hash \<Rightarrow> do {
                    t \<leftarrow> nowMs (we_V W);
                    e \<leftarrow> dbCall (we_V W) (\<lambda>flt. UserCreate (e_sql (we_V W)) flt
                      \<lparr>u_UID = uid, u_Username = username, u_PasswordHash = hash, u_Role = [], u_IsDisabled = False, u_CreatedAt = t\<rparr>);
                    case e of
                      Some e \<Rightarrow>
                        if str_contains e ''Duplicate entry'' \<or> str_contains e ''Error 1062'' then fail ''uid already exists'' 409
                        else fail ''registration failed'' 500
                    | None \<Rightarrow> issueToken W s uid username (if uid \<in> set (sv_adminUIDs s) then ''admin'' else ''user'') } })"

definition changePassword :: "web_env \<Rightarrow> server \<Rightarrow> http_req \<Rightarrow> claims \<Rightarrow> http_resp io" where
  "changePassword W s r claims =
    (let oldPassword = FormValue r ''old_password''; newPassword = FormValue r ''new_password'' in
     if oldPassword = [] \<or> newPassword = [] then fail ''old_password and new_password required'' 400
     else if length newPassword < 6 then fail ''new password must be at least 6 characters'' 400
     else if \<not> sv_userStore s then fail ''user store not available'' 503
     else do {
       u \<leftarrow> dbCall (we_V W) (\<lambda>flt. reading (GetByUID (e_sql (we_V W)) flt (cl_UID claims)));
       case u of
         Inl e \<Rightarrow> fail ''internal error'' 500
       | Inr None \<Rightarrow> fail ''user not found'' 404
       | Inr (Some u) \<Rightarrow>
           if \<not> we_compare W (u_PasswordHash u) oldPassword then fail ''invalid current password'' 401
           else do {
             n \<leftarrow> event;
             case we_hash W n newPassword of
               Inl e \<Rightarrow> fail ''internal error'' 500
             | Inr newHash \<Rightarrow> do {
                 e \<leftarrow> dbCall (we_V W) (\<lambda>flt. UpdatePassword (e_sql (we_V W)) flt (cl_UID claims) newHash);
                 case e of
                   Some _ \<Rightarrow> fail ''failed to update password'' 500
                 | None \<Rightarrow> respond status_ok } } })"

definition HandleChangePassword :: "web_env \<Rightarrow> server \<Rightarrow> http_req \<Rightarrow> http_resp io" where
  "HandleChangePassword W s r = postOnly r (withAuth W s r (changePassword W s r))"

definition HandleOnlineUsers :: "http_resp io" where
  "HandleOnlineUsers = do {
     users \<leftarrow> gets (\<lambda>w. OnlineUsers (w_hub w));
     respond (json_map [(''count'', JInt (int (length users))), (''users'', JArr (map JStr users))]) }"

section \<open>Facts\<close>

lemma resp_simps [simp]:
  "rs_Status (httpError m c) = c" "rs_Status (writeJSON j) = 200" "writeJSON j \<noteq> httpError m c"
  by (simp_all add: httpError_def writeJSON_def)

lemma run_fail [run_simps]: "run_state (fail m c) w = (httpError m c, w)"
  by (simp add: fail_def run_simps)

lemma run_respond [run_simps]: "run_state (respond j) w = (writeJSON j, w)"
  by (simp add: respond_def run_simps)

lemma run_dbCall [run_simps]:
  "run_state (dbCall V f) w =
    (fst (f (e_flt V (w_calls w)) (w_db w)), w\<lparr>w_calls := Suc (w_calls w), w_db := snd (f (e_flt V (w_calls w)) (w_db w))\<rparr>)"
  by (simp add: dbCall_def run_simps split: prod.split)

lemma run_webNow [run_simps]: "run_state (webNow W) w = run_state (now (we_V W)) w"
  by (simp add: webNow_def)

text \<open>Where a request's user name and token come from.\<close>

definition reqParam :: "http_req \<Rightarrow> string \<Rightarrow> string" where
  "reqParam r k = (if rq_Method r = ''POST'' then FormValue r k else Query r k)"

definition proven :: "web_env \<Rightarrow> server \<Rightarrow> http_req \<Rightarrow> world \<Rightarrow> claims \<Rightarrow> bool" where
  "proven W s r w c \<longleftrightarrow>
    TokenValidate (we_jwt W) (sv_jwtMgr s) (read_clock (e_clock (we_V W)) (w_tick w)) (reqParam r ''token'') = Inr c \<and>
    cl_UID c = reqParam r ''uid'' \<and> reqParam r ''uid'' \<noteq> [] \<and> reqParam r ''token'' \<noteq> [] \<and>
    (rq_Method r = ''POST'' \<longrightarrow> rq_formErr r = None)"

lemma run_authenticate:
  "(\<exists>c. res (authenticateRequest W s r) w = Inr c \<and> proven W s r w c \<and>
      post (authenticateRequest W s r) w = w\<lparr>w_tick := Suc (w_tick w)\<rparr>) \<or>
    (\<exists>e. (\<forall>c. \<not> proven W s r w c) \<and> res (authenticateRequest W s r) w = Inl e \<and> rs_Status e \<noteq> 200 \<and>
      (post (authenticateRequest W s r) w = w \<or> post (authenticateRequest W s r) w = w\<lparr>w_tick := Suc (w_tick w)\<rparr>))"
  by (auto simp: authenticateRequest_def proven_def reqParam_def Let_def run_simps split: sum.split)

text \<open>A guarded handler either refuses, with nothing but the clock read, or goes on with proven claims.\<close>

lemma withAuth_cases:
  obtains (refused) "\<And>c. \<not> proven W s r w c" and "rs_Status (res (withAuth W s r k) w) \<noteq> 200"
      and "post (withAuth W s r k) w = w \<or> post (withAuth W s r k) w = w\<lparr>w_tick := Suc (w_tick w)\<rparr>"
    | (accepted) c where "proven W s r w c" and "run_state (withAuth W s r k) w = run_state (k c) (w\<lparr>w_tick := Suc (w_tick w)\<rparr>)"
proof -
  from run_authenticate [of W s r w] show thesis
  proof (elim disjE exE conjE)
    fix c
    assume "res (authenticateRequest W s r) w = Inr c" "proven W s r w c"
      "post (authenticateRequest W s r) w = w\<lparr>w_tick := Suc (w_tick w)\<rparr>"
    then show thesis by (intro accepted [of c]) (simp_all add: withAuth_def run_bind prod_eq_iff split: prod.split)
  next
    fix e
    assume "\<forall>c. \<not> proven W s r w c" "res (authenticateRequest W s r) w = Inl e" "rs_Status e \<noteq> 200"
    moreover assume "post (authenticateRequest W s r) w = w"
    ultimately show thesis by (intro refused) (simp_all add: withAuth_def run_bind run_return split_beta)
  next
    fix e
    assume "\<forall>c. \<not> proven W s r w c" "res (authenticateRequest W s r) w = Inl e" "rs_Status e \<noteq> 200"
    moreover assume "post (authenticateRequest W s r) w = w\<lparr>w_tick := Suc (w_tick w)\<rparr>"
    ultimately show thesis by (intro refused) (simp_all add: withAuth_def run_bind run_return split_beta)
  qed
qed

lemma withAdmin_withAuth:
  "withAdmin W s r k = withAuth W s r (\<lambda>c. if cl_Role c \<noteq> ''admin'' then fail ''admin access required'' 403 else k c)"
  unfolding withAdmin_def withAuth_def adminAuth_def State_Monad.bind_assoc
  by (rule arg_cong [where f = "State_Monad.bind (authenticateRequest W s r)"]) (auto simp: fun_eq_iff fail_def split: sum.split)

lemma run_issueToken:
  "run_state (issueToken W s uid un role) w =
    (case Generate (we_jwt W) (sv_jwtMgr s) (read_clock (e_clock (we_V W)) (w_tick w)) (read_clock (e_clock (we_V W)) (Suc (w_tick w))) uid un role of
       Inl e \<Rightarrow> httpError (''generate token: '' @ e) 500
     | Inr tok \<Rightarrow> writeJSON (json_token uid un tok), w\<lparr>w_tick := Suc (Suc (w_tick w))\<rparr>)"
  by (simp add: issueToken_def run_simps split: sum.split)

lemma withAuth_proven:
  assumes "proven W s r w c"
  shows "run_state (withAuth W s r k) w = run_state (k c) (w\<lparr>w_tick := Suc (w_tick w)\<rparr>)"
proof (cases rule: withAuth_cases [of W s r w k])
  case (accepted d)
  with assms have "d = c" by (simp add: proven_def)
  with accepted show ?thesis by simp
qed (use assms in blast)

section \<open>Properties\<close>

text \<open>The account a login request names.\<close>

definition loginUID :: "http_req \<Rightarrow> string" where
  "loginUID r = (if FormValue r ''uid'' = [] then FormValue r ''username'' else FormValue r ''uid'')"

text \<open>
  C17. Outside development mode nobody gets a token without the password: a login that succeeds
  found the account in the user store and its stored hash matches the password given; the token
  carries the name asked for, the stored user name and the stored role, or the role of an
  administrator for the configured ones. The tables are left alone.
\<close>

theorem login_needs_password:
  assumes "\<not> sv_DevMode s" and "rs_Status (res (HandleLogin W s r) w) = 200"
  shows "\<exists>u t1 t2 tok. GetByUID (e_sql (we_V W)) (e_flt (we_V W) (w_calls w)) (loginUID r) (w_db w) = Inr (Some u) \<and>
    we_compare W (u_PasswordHash u) (FormValue r ''password'') \<and>
    Generate (we_jwt W) (sv_jwtMgr s) t1 t2 (loginUID r) (if u_Username u = [] then loginUID r else u_Username u)
      (if loginUID r \<in> set (sv_adminUIDs s) then ''admin'' else u_Role u) = Inr tok \<and>
    res (HandleLogin W s r) w = writeJSON (json_token (loginUID r) (if u_Username u = [] then loginUID r else u_Username u) tok) \<and>
    w_db (post (HandleLogin W s r) w) = w_db w"
proof -
  let ?uid = "loginUID r" and ?pw = "FormValue r ''password''"
  have uid: "(if FormValue r ''uid'' = [] then FormValue r ''username'' else FormValue r ''uid'') = ?uid" by (simp add: loginUID_def)
  have g: "rq_Method r = ''POST''" "rq_formErr r = None" "?uid \<noteq> []" "?pw \<noteq> []" "sv_userStore s"
    using assms unfolding HandleLogin_def postOnly_def Let_def uid
    by (auto simp: run_simps split: if_splits option.splits)
  let ?w = "w\<lparr>w_calls := Suc (w_calls w), w_db := w_db w\<rparr>"
  let ?q = "GetByUID (e_sql (we_V W)) (e_flt (we_V W) (w_calls w)) ?uid (w_db w)"
  have run: "run_state (HandleLogin W s r) w =
      run_state (case ?q of Inl e \<Rightarrow> fail ''internal error'' 500 | Inr None \<Rightarrow> fail ''user not found'' 401
         | Inr (Some u) \<Rightarrow> if \<not> we_compare W (u_PasswordHash u) ?pw then fail ''invalid password'' 401
             else finishLogin W s r ?uid (u_Username u) (u_Role u)) ?w"
    unfolding HandleLogin_def postOnly_def Let_def uid using g by (simp add: run_bind run_dbCall)
  obtain u where u: "?q = Inr (Some u)" "we_compare W (u_PasswordHash u) ?pw"
    using assms(2) unfolding run by (auto simp: run_simps split: sum.splits option.splits if_splits)
  let ?un = "if u_Username u = [] then ?uid else u_Username u"
    and ?role = "if ?uid \<in> set (sv_adminUIDs s) then ''admin'' else u_Role u"
  have fin: "run_state (HandleLogin W s r) w = run_state (issueToken W s ?uid ?un ?role) ?w"
    unfolding run using u assms(1) by (simp add: finishLogin_def Let_def)
  with assms(2) show ?thesis
    unfolding fin run_issueToken using u by (auto split: sum.splits)
qed

text \<open>A server in production mode with one account, and a hash that marks the password.\<close>

definition demo_web :: web_env where
  "demo_web = \<lparr>we_V = gate_env, we_jwt = plain_jwt, we_compare = (\<lambda>h p. h = CHR ''#'' # p), we_hash = (\<lambda>_ p. Inr (CHR ''#'' # p))\<rparr>"

definition demo_server :: server where
  "demo_server = \<lparr>sv_jwtMgr = NewManager ''s'' 2000000000, sv_userStore = True, sv_msgStore = True, sv_DevMode = False,
     sv_adminUIDs = [''root''], sv_sendBufSize = 4, sv_allowedOrigins = [], sv_objectStore = True, sv_maxUpload = 100\<rparr>"

definition demo_user :: user where
  "demo_user = \<lparr>u_UID = ''alice'', u_Username = ''Alice'', u_PasswordHash = ''#secret'', u_Role = ''user'', u_IsDisabled = True, u_CreatedAt = 1\<rparr>"

definition user_gate :: world where
  "user_gate = gate\<lparr>w_db := migrate\<lparr>t_users := [demo_user]\<rparr>\<rparr>"

definition post_form :: "(string, string) gomap \<Rightarrow> http_req" where
  "post_form kvs = \<lparr>rq_Method = ''POST'', rq_formErr = None, rq_form = kvs, rq_query = [], rq_Origin = []\<rparr>"

lemma demo_web_simps [simp]:
  "we_V demo_web = gate_env" "we_jwt demo_web = plain_jwt" "we_compare demo_web h p = (h = CHR ''#'' # p)" "we_hash demo_web n p = Inr (CHR ''#'' # p)"
  "sv_userStore demo_server" "sv_msgStore demo_server" "\<not> sv_DevMode demo_server" "sv_adminUIDs demo_server = [''root'']"
  "sv_jwtMgr demo_server = NewManager ''s'' 2000000000"
  by (simp_all add: demo_web_def demo_server_def)

lemma post_form_simps [simp]:
  "rq_Method (post_form kvs) = ''POST''" "rq_formErr (post_form kvs) = None" "FormValue (post_form kvs) k = (case map_of kvs k of None \<Rightarrow> [] | Some v \<Rightarrow> v)"
  by (simp_all add: post_form_def FormValue_def)

lemma gate_env_simps [simp]: "e_sql gate_env = demo_env" "e_flt gate_env n = no_faults"
  by (simp_all add: gate_env_def)

lemma user_gate_db [simp]: "w_db user_gate = migrate\<lparr>t_users := [demo_user]\<rparr>"
  by (simp add: user_gate_def)

lemma demo_GetByUID: "GetByUID demo_env no_faults ''alice'' (migrate\<lparr>t_users := [demo_user]\<rparr>) = Inr (Some demo_user)"
  by (simp add: GetByUID_def query_def no_faults_def demo_user_def)

lemma demo_login: "rs_Status (res (HandleLogin demo_web demo_server (post_form [(''uid'', ''alice''), (''password'', ''secret'')])) user_gate) = 200"
  by (simp add: HandleLogin_def postOnly_def Let_def run_bind run_dbCall demo_GetByUID finishLogin_def run_issueToken)
    (simp add: demo_user_def finishLogin_def run_issueToken Let_def Generate_def plain_jwt_def)

theorem login_needs_password_witness:
  "\<exists>u. GetByUID demo_env no_faults ''alice'' (w_db user_gate) = Inr (Some u) \<and> u_PasswordHash u = ''#secret''"
  using login_needs_password [OF _ demo_login] by (auto simp: loginUID_def)

text \<open>The flag is all that changes of a user.\<close>

lemma GetByUID_disabled:
  "map_sum id (map_option (\<lambda>u. u\<lparr>u_IsDisabled := False\<rparr>)) (GetByUID E flt' v (snd (UpdateUserDisabled E flt uid b d))) =
    map_sum id (map_option (\<lambda>u. u\<lparr>u_IsDisabled := False\<rparr>)) (GetByUID E flt' v d)"
proof -
  define f where "f = (\<lambda>x :: user. if sql_eq E (u_UID x) uid \<and> u_IsDisabled x \<noteq> b then x\<lparr>u_IsDisabled := b\<rparr> else x)"
  have "t_users (snd (UpdateUserDisabled E flt uid b d)) \<in> {t_users d, map f (t_users d)}"
    by (auto simp: UpdateUserDisabled_def update_user_def exec_stmt_def sql_update_def f_def Let_def split: option.split sum.split prod.split)
  moreover have "find P (map f xs) = map_option f (find (P \<circ> f) xs)" for P xs by (induction xs) auto
  moreover have "(\<lambda>x. sql_eq E (u_UID x) v) \<circ> f = (\<lambda>x. sql_eq E (u_UID x) v)" "(f x)\<lparr>u_IsDisabled := False\<rparr> = x\<lparr>u_IsDisabled := False\<rparr>" for x
    by (auto simp: f_def fun_eq_iff)
  ultimately show ?thesis
    by (auto simp: GetByUID_def query_def option.map_comp comp_def split: option.split)
qed

text \<open>
  A login is answered the same whether the account is disabled or not: setting the flag in the
  user store changes neither the response nor the token.
\<close>

theorem disabled_can_login:
  assumes "w' = w\<lparr>w_db := snd (UpdateUserDisabled (e_sql (we_V W)) flt uid b (w_db w))\<rparr>"
  shows "res (HandleLogin W s r) w' = res (HandleLogin W s r) w"
proof -
  let ?E = "e_sql (we_V W)" and ?flt = "e_flt (we_V W) (w_calls w)" and ?pw = "FormValue r ''password''"
  have uid: "(if FormValue r ''uid'' = [] then FormValue r ''username'' else FormValue r ''uid'') = loginUID r" by (simp add: loginUID_def)
  let ?k = "\<lambda>q. case q of Inl e \<Rightarrow> fail ''internal error'' 500 | Inr None \<Rightarrow> fail ''user not found'' 401
         | Inr (Some u) \<Rightarrow> if \<not> we_compare W (u_PasswordHash u) ?pw then fail ''invalid password'' 401
             else finishLogin W s r (loginUID r) (u_Username u) (u_Role u)"
  let ?n = "map_sum id (map_option (\<lambda>u. u\<lparr>u_IsDisabled := False\<rparr>))"
  have k: "?k (?n q) = ?k q" for q by (simp split: sum.split option.split)
  have tick: "res (finishLogin W s r u n role) x = res (finishLogin W s r u n role) y" if "w_tick x = w_tick y" for u n role x y
    using that by (simp add: finishLogin_def Let_def run_issueToken)
  have t: "res (?k q) x = res (?k q) y" if "w_tick x = w_tick y" for q x y
    using tick [OF that] by (simp add: run_fail split: sum.split option.split)
  have same: "?k (GetByUID ?E ?flt (loginUID r) (w_db w')) = ?k (GetByUID ?E ?flt (loginUID r) (w_db w))"
    using arg_cong [where f = ?k, OF GetByUID_disabled [of ?E ?flt "loginUID r" flt uid b "w_db w"]] unfolding k assms by simp
  let ?B = "\<lambda>c. if rq_Method r \<noteq> ''POST'' then fail ''method not allowed'' 405
      else case rq_formErr r of Some e \<Rightarrow> fail (''invalid form data: '' @ e) 400
      | None \<Rightarrow> if loginUID r = [] then fail ''uid required'' 400
          else if ?pw \<noteq> [] then (if \<not> sv_userStore s then fail ''user store not available'' 503 else c)
          else if \<not> sv_DevMode s then fail ''password required'' 401
          else finishLogin W s r (loginUID r) (FormValue r ''username'') ''user''"
  have run: "res (HandleLogin W s r) x = res (?B (?k (GetByUID ?E (e_flt (we_V W) (w_calls x)) (loginUID r) (w_db x)))) x" for x
    unfolding HandleLogin_def postOnly_def Let_def uid
    using t [of "x\<lparr>w_calls := Suc (w_calls x)\<rparr>" x "GetByUID ?E (e_flt (we_V W) (w_calls x)) (loginUID r) (w_db x)"]
    by (simp add: run_bind run_dbCall split: option.split)
  have calls: "w_calls w' = w_calls w" "w_tick w' = w_tick w" by (simp_all add: assms)
  have move: "res (?B (?k q)) w' = res (?B (?k q)) w" for q
    using t [OF calls(2), of q] tick [OF calls(2)] by (simp add: run_fail split: option.split)
  show ?thesis unfolding run calls same by (rule move)
qed

theorem disabled_can_login_witness:
  "rs_Status (res (HandleLogin demo_web demo_server (post_form [(''uid'', ''alice''), (''password'', ''secret'')]))
    (user_gate\<lparr>w_db := snd (UpdateUserDisabled demo_env no_faults ''alice'' True (w_db user_gate))\<rparr>)) = 200"
  using disabled_can_login [OF refl, where W = demo_web and s = demo_server and r = "post_form [(''uid'', ''alice''), (''password'', ''secret'')]"
      and w = user_gate and flt = no_faults and uid = "''alice''" and b = True] demo_login by simp


lemma demo_hash: "\<forall>n p h. we_hash demo_web n p = Inr h \<longrightarrow> we_compare demo_web h p"
  by simp

lemma demo_sign: "\<forall>c. \<exists>tok. j_sign (we_jwt demo_web) c k = Inr tok"
  by (simp add: plain_jwt_def)

abbreviation demo_signup :: http_req where
  "demo_signup \<equiv> post_form [(''uid'', ''carol''), (''password'', ''pass99'')]"

lemma demo_register: "rs_Status (res (HandleRegister demo_web demo_server demo_signup) user_gate) = 200"
  by (simp add: HandleRegister_def postOnly_def Let_def run_bind run_event run_dbCall run_nowMs UserCreate_def exec_stmt_def no_faults_def
      sql_insert_def demo_user_def run_issueToken Generate_def plain_jwt_def demo_env_def)


text \<open>
  A password changes only at the hands of its owner: whenever the request touches the user
  table, the token is valid and names the account, the old password matches its stored hash and
  the new one has at least six characters; and if the answer is a success, the account is found
  with the hash of the new password and otherwise as it was.
\<close>

theorem password_change_guard:
  assumes "w' = post (HandleChangePassword W s r) w" and "w_db w' \<noteq> w_db w"
  shows "\<exists>c u h. proven W s r w c \<and> GetByUID (e_sql (we_V W)) (e_flt (we_V W) (w_calls w)) (cl_UID c) (w_db w) = Inr (Some u) \<and>
    we_compare W (u_PasswordHash u) (FormValue r ''old_password'') \<and> 6 \<le> length (FormValue r ''new_password'') \<and>
    we_hash W (Suc (w_calls w)) (FormValue r ''new_password'') = Inr h \<and>
    (rs_Status (res (HandleChangePassword W s r) w) = 200 \<longrightarrow>
      GetByUID (e_sql (we_V W)) no_faults (cl_UID c) (w_db w') = Inr (Some (u\<lparr>u_PasswordHash := h\<rparr>)))"
proof -
  let ?E = "e_sql (we_V W)" and ?old = "FormValue r ''old_password''" and ?new = "FormValue r ''new_password''"
  let ?k = "changePassword W s r"
  note H = HandleChangePassword_def [of W s r] and k_def = changePassword_def [of W s r] Let_def
  have P: "rq_Method r = ''POST''" using assms by (auto simp: H postOnly_def run_fail split: if_splits)
  from assms have ch: "w_db (post (withAuth W s r ?k) w) \<noteq> w_db w" by (simp add: H postOnly_def P)
  show ?thesis
  proof (cases rule: withAuth_cases [of W s r w ?k])
    case refused
    then show ?thesis using ch by auto
  next
    case (accepted c)
    let ?w = "w\<lparr>w_tick := Suc (w_tick w)\<rparr>"
    let ?q = "GetByUID ?E (e_flt (we_V W) (w_calls w)) (cl_UID c) (w_db w)"
    from ch have ck: "w_db (post (?k c) ?w) \<noteq> w_db ?w" by (simp add: accepted(2))
    then have g: "?old \<noteq> []" "6 \<le> length ?new" "sv_userStore s"
      by (auto simp: k_def run_fail split: if_splits)
    then have n: "?new \<noteq> []" by auto
    obtain u where u: "?q = Inr (Some u)" "we_compare W (u_PasswordHash u) ?old"
      using ck g n by (auto simp: k_def run_bind run_dbCall run_fail split: sum.splits option.splits if_splits)
    obtain h where h: "we_hash W (Suc (w_calls w)) ?new = Inr h"
      using ck g n u by (auto simp: k_def run_bind run_dbCall run_fail run_event split: sum.splits)
    let ?c = "UpdatePassword ?E (e_flt (we_V W) (Suc (Suc (w_calls w)))) (cl_UID c) h (w_db w)"
    have run: "run_state (?k c) ?w = run_state (case fst ?c of Some _ \<Rightarrow> fail ''failed to update password'' 500 | None \<Rightarrow> respond status_ok)
        (w\<lparr>w_tick := Suc (w_tick w), w_calls := Suc (Suc (Suc (w_calls w))), w_db := snd ?c\<rparr>)"
      using g n u h by (simp add: k_def run_bind run_dbCall run_event)
    have w': "w_db w' = snd ?c" unfolding assms(1) H postOnly_def using P accepted(2) run by (simp add: run_fail run_respond split: option.split)
    have "GetByUID ?E no_faults (cl_UID c) (snd ?c) = Inr (Some (u\<lparr>u_PasswordHash := h\<rparr>))" if "fst ?c = None"
    proof -
      define f where "f = (\<lambda>x :: user. if sql_eq ?E (u_UID x) (cl_UID c) then x\<lparr>u_PasswordHash := h\<rparr> else x)"
      have "t_users (snd ?c) = map f (t_users (w_db w))"
        using that by (auto simp: UpdatePassword_def exec_stmt_def sql_update_def affected_or_def f_def Let_def split: option.splits prod.splits)
      moreover have "find (\<lambda>x. sql_eq ?E (u_UID x) (cl_UID c)) (t_users (w_db w)) = Some u"
        using u(1) by (auto simp: GetByUID_def query_def split: option.splits sum.splits)
      moreover have "find P (map f xs) = map_option f (find (P \<circ> f) xs)" for P xs by (induction xs) auto
      moreover have "(\<lambda>x. sql_eq ?E (u_UID x) (cl_UID c)) \<circ> f = (\<lambda>x. sql_eq ?E (u_UID x) (cl_UID c))"
        by (auto simp: f_def fun_eq_iff)
      moreover have "f u = u\<lparr>u_PasswordHash := h\<rparr>"
        using \<open>find _ _ = Some u\<close> by (auto simp: f_def find_Some_iff)
      ultimately show ?thesis by (simp add: GetByUID_def query_def no_faults_def)
    qed
    moreover have "rs_Status (res (HandleChangePassword W s r) w) = 200 \<Longrightarrow> fst ?c = None"
      unfolding H postOnly_def using P accepted(2) run by (auto simp: run_fail split: option.splits)
    ultimately show ?thesis
      by (intro exI [of _ c] exI [of _ u] exI [of _ h] conjI impI) (use accepted(1) u g h in \<open>simp_all add: w'\<close>)
  qed
qed

text \<open>A token of the demo server that is good until the year 2100.\<close>

definition demo_token :: "string \<Rightarrow> string \<Rightarrow> string" where
  "demo_token uid role = enc_str ''s'' @ enc_claims
    \<lparr>cl_UID = uid, cl_Username = uid, cl_Role = role, cl_ExpiresAt = \<lparr>wall = 4102444800000000000, mono = 4102444800000000000\<rparr>,
     cl_IssuedAt = \<lparr>wall = 0, mono = 0\<rparr>, cl_Issuer = ''im-server''\<rparr>"

lemma demo_token_valid:
  assumes "wall nw < 4102444800000000000"
  obtains c where "TokenValidate plain_jwt (NewManager ''s'' e) nw (demo_token uid role) = Inr c" "cl_UID c = uid" "cl_Role c = role"
  using plain_jwt_valid [of nw "\<lparr>cl_UID = uid, cl_Username = uid, cl_Role = role, cl_ExpiresAt = \<lparr>wall = 4102444800000000000, mono = 4102444800000000000\<rparr>,
     cl_IssuedAt = \<lparr>wall = 0, mono = 0\<rparr>, cl_Issuer = ''im-server''\<rparr>" "NewManager ''s'' e"] assms
  by (simp add: demo_token_def NewManager_def dec_enc_claims)

text \<open>Where the time is before that, the token lets its owner in.\<close>

lemma demo_withAuth:
  assumes "wall (read_clock (e_clock (we_V W)) (w_tick w)) < 4102444800000000000" "we_jwt W = plain_jwt" "sv_jwtMgr s = NewManager ''s'' e"
    and "reqParam r ''uid'' = uid" "reqParam r ''token'' = demo_token uid role" "uid \<noteq> []" "rq_formErr r = None"
  obtains c where "proven W s r w c" "cl_UID c = uid" "cl_Role c = role"
    "run_state (withAuth W s r k) w = run_state (k c) (w\<lparr>w_tick := Suc (w_tick w)\<rparr>)"
proof -
  obtain c where c: "TokenValidate plain_jwt (NewManager ''s'' e) (read_clock (e_clock (we_V W)) (w_tick w)) (demo_token uid role) = Inr c"
    "cl_UID c = uid" "cl_Role c = role" by (rule demo_token_valid [OF assms(1)])
  have "demo_token uid role \<noteq> []" by (simp add: demo_token_def enc_str_def)
  with assms c show thesis
    by (intro that [of c]) (auto simp: proven_def withAuth_def authenticateRequest_def reqParam_def Let_def run_simps split: if_splits)
qed

lemma user_gate_time: "w_tick user_gate = 0" "wall (read_clock (e_clock gate_env) 0) < 4102444800000000000"
  by (simp_all add: user_gate_def gate_def NewRouter_def gate_env_def read_pace_clock)

abbreviation demo_change :: http_req where
  "demo_change \<equiv> post_form [(''uid'', ''alice''), (''token'', demo_token ''alice'' ''user''), (''old_password'', ''secret''), (''new_password'', ''secret2'')]"

theorem password_change_guard_witness:
  "\<exists>c. cl_UID c = ''alice'' \<and> proven demo_web demo_server demo_change user_gate c \<and> rs_Status (res (HandleChangePassword demo_web demo_server demo_change) user_gate) = 200 \<and>
    GetByUID demo_env no_faults ''alice'' (w_db (post (HandleChangePassword demo_web demo_server demo_change) user_gate)) =
      Inr (Some (demo_user\<lparr>u_PasswordHash := ''#secret2''\<rparr>))"
proof -
  let ?H = "HandleChangePassword demo_web demo_server demo_change"
  obtain c where c: "proven demo_web demo_server demo_change user_gate c" "cl_UID c = ''alice''"
    and run: "run_state (withAuth demo_web demo_server demo_change (changePassword demo_web demo_server demo_change)) user_gate =
      run_state (changePassword demo_web demo_server demo_change c) (user_gate\<lparr>w_tick := Suc (w_tick user_gate)\<rparr>)"
    by (rule demo_withAuth [of demo_web user_gate demo_server 2000000000 demo_change "''alice''" "''user''"])
      (simp_all add: reqParam_def user_gate_time)
  have "UpdatePassword demo_env no_faults ''alice'' ''#secret2'' (migrate\<lparr>t_users := [demo_user]\<rparr>) =
      (None, migrate\<lparr>t_users := [demo_user\<lparr>u_PasswordHash := ''#secret2''\<rparr>]\<rparr>)"
    by (simp add: UpdatePassword_def exec_stmt_def sql_update_def affected_or_def no_faults_def demo_user_def demo_env_def migrate_def)
  with run c(2) have st: "rs_Status (res ?H user_gate) = 200"
      "w_db (post ?H user_gate) = migrate\<lparr>t_users := [demo_user\<lparr>u_PasswordHash := ''#secret2''\<rparr>]\<rparr>"
    by (simp_all add: HandleChangePassword_def postOnly_def changePassword_def run_bind run_dbCall run_event run_respond demo_GetByUID)
      (simp_all add: demo_user_def run_bind run_dbCall run_event run_respond)
  then have "w_db (post ?H user_gate) \<noteq> w_db user_gate" by (simp add: migrate_def demo_user_def)
  from password_change_guard [OF refl this] st(1) c show ?thesis by (auto simp: proven_def demo_GetByUID)
qed

end
