(* ===== verification/Server_Groups.thy ===== *)
theory Server_Groups
  imports Server
begin

text \<open>
  The group endpoints of \<open>internal/gateway/server.go\<close>, on the same group store as the router. They
  are the only way to kick a member, to rename a group and to hand it over.
\<close>

section \<open>Handlers\<close>

definition groupUpdateName :: "env \<Rightarrow> string \<Rightarrow> string \<Rightarrow> group_error option io" where
  "groupUpdateName V groupID name =
     groupOp V (Some nil_groups) (UpdateName groupID name) (\<lambda>flt. SqlUpdateName (e_sql V) flt groupID name)"

definition groupTransferOwnership :: "env \<Rightarrow> string \<Rightarrow> string \<Rightarrow> string \<Rightarrow> group_error option io" where
  "groupTransferOwnership V groupID fromUID toUID =
     groupOp V (Some nil_groups) (TransferOwnership groupID fromUID toUID)
       (\<lambda>flt. SqlTransferOwnership (e_sql V) flt groupID fromUID toUID)"

text \<open>\<open>strings.Split(s, ",")\<close>, and the list of initial members.\<close>

fun split_comma :: "string \<Rightarrow> string list" where
  "split_comma [] = [[]]"
| "split_comma (c # s) =
    (if c = CHR '','' then [] # split_comma s
     else case split_comma s of [] \<Rightarrow> [[c]] | x # xs \<Rightarrow> (c # x) # xs)"

definition parseMembers :: "string \<Rightarrow> string list" where
  "parseMembers s = (if s = [] then [] else filter (\<lambda>u. u \<noteq> []) (map TrimSpace (split_comma s)))"

definition HandleGroupCreate :: "web_env \<Rightarrow> server \<Rightarrow> http_req \<Rightarrow> http_resp io" where
  "HandleGroupCreate W s r = postOnly r (withGroups (withAuth W s r (\<lambda>claims.
    let name = FormValue r ''name'' in
    if name = [] then fail ''name required'' 400
    else do {
      let members = parseMembers (FormValue r ''members'');
      g \<leftarrow> groupCreate (we_V W) name (cl_UID claims) members;
      case g of
        Inl e \<Rightarrow> fail ''internal error'' 500
      | Inr g \<Rightarrow> do {
          let memberList = map fst (g_Members g);
          on (members \<noteq> []) (sendGroupNotificationWithMembers (we_V W) (cl_UID claims) (g_ID g) ''member_joined'' (Some memberList));
          respond (json_map [(''group_id'', JStr (g_ID g)), (''name'', JStr (g_Name g)), (''owner_uid'', JStr (g_OwnerUID g)),
            (''members'', JArr (map JStr memberList)), (''created_at'', JInt (g_CreatedAt g))]) } })))"

text \<open>The switch on the error of a change of membership; \<open>conflict\<close> answers the case named by \<open>c\<close>.\<close>

definition memberError :: "group_error \<Rightarrow> string \<Rightarrow> group_error \<Rightarrow> http_resp io" where
  "memberError c conflict e =
    (if e = ErrGroupNotFound then fail ''group not found'' 404
     else if e = c then fail conflict 409
     else fail ''internal error'' 500)"

definition HandleGroupJoin :: "web_env \<Rightarrow> server \<Rightarrow> http_req \<Rightarrow> http_resp io" where
  "HandleGroupJoin W s r = postOnly r (withGroups (withAuth W s r (\<lambda>claims.
    let groupID = FormValue r ''group_id'' in
    if groupID = [] then fail ''group_id required'' 400
    else do {
      e \<leftarrow> groupAddMember (we_V W) groupID (cl_UID claims);
      case e of
        Some e \<Rightarrow> memberError ErrAlreadyMember ''already a member'' e
      | None \<Rightarrow> do {
          sendGroupNotification (we_V W) (cl_UID claims) groupID ''member_joined'';
          respond ok_json } })))"

definition HandleGroupInvite :: "web_env \<Rightarrow> server \<Rightarrow> http_req \<Rightarrow> http_resp io" where
  "HandleGroupInvite W s r = postOnly r (withGroups (withAuth W s r (\<lambda>claims.
    let groupID = FormValue r ''group_id''; targetUID = FormValue r ''target_uid'' in
    if groupID = [] then fail ''group_id required'' 400
    else if targetUID = [] then fail ''target_uid required'' 400
    else if targetUID = cl_UID claims then fail ''cannot invite yourself'' 400
    else do {
      g \<leftarrow> groupGet (we_V W) groupID;
      case g of
        Inl _ \<Rightarrow> fail ''group not found'' 404
      | Inr g \<Rightarrow>
          if g_OwnerUID g \<noteq> cl_UID claims then fail ''only the group owner can invite members'' 403
          else do {
            e \<leftarrow> groupAddMember (we_V W) groupID targetUID;
            case e of
              Some e \<Rightarrow> memberError ErrAlreadyMember ''user is already a member'' e
            | None \<Rightarrow> do {
                sendGroupNotification (we_V W) targetUID groupID ''member_joined'';
                respond ok_json } } })))"

definition HandleGroupLeave :: "web_env \<Rightarrow> server \<Rightarrow> http_req \<Rightarrow> http_resp io" where
  "HandleGroupLeave W s r = postOnly r (withGroups (withAuth W s r (\<lambda>claims.
    let groupID = FormValue r ''group_id'' in
    if groupID = [] then fail ''group_id required'' 400
    else do {
      e \<leftarrow> groupRemoveMember (we_V W) groupID (cl_UID claims);
      case e of
        Some e \<Rightarrow> memberError ErrNotMember ''not a member'' e
      | None \<Rightarrow> do {
          sendGroupNotification (we_V W) (cl_UID claims) groupID ''member_left'';
          respond ok_json } })))"

definition HandleGroupKick :: "web_env \<Rightarrow> server \<Rightarrow> http_req \<Rightarrow> http_resp io" where
  "HandleGroupKick W s r = postOnly r (withGroups (withAuth W s r (\<lambda>claims.
    let groupID = FormValue r ''group_id''; targetUID = FormValue r ''target_uid'' in
    if groupID = [] \<or> targetUID = [] then fail ''group_id and target_uid required'' 400
    else do {
      g \<leftarrow> groupGet (we_V W) groupID;
      case g of
        Inl _ \<Rightarrow> fail ''group not found'' 404
      | Inr g \<Rightarrow>
          if g_OwnerUID g \<noteq> cl_UID claims then fail ''only the group owner can kick members'' 403
          else do {
            e \<leftarrow> groupRemoveMember (we_V W) groupID targetUID;
            case e of
              Some e \<Rightarrow> memberError ErrNotMember ''target user is not a member'' e
            | None \<Rightarrow> do {
                sendGroupNotification (we_V W) (cl_UID claims) groupID ''member_kicked'';
                respond ok_json } } })))"

definition HandleGroupRename :: "web_env \<Rightarrow> server \<Rightarrow> http_req \<Rightarrow> http_resp io" where
  "HandleGroupRename W s r = postOnly r (withGroups (withAuth W s r (\<lambda>claims.
    let groupID = FormValue r ''group_id''; newName = FormValue r ''name'' in
    if groupID = [] \<or> newName = [] then fail ''group_id and name required'' 400
    else do {
      g \<leftarrow> groupGet (we_V W) groupID;
      case g of
        Inl _ \<Rightarrow> fail ''group not found'' 404
      | Inr g \<Rightarrow>
          if g_OwnerUID g \<noteq> cl_UID claims then fail ''only the group owner can rename the group'' 403
          else do {
            e \<leftarrow> groupUpdateName (we_V W) groupID newName;
            case e of
              Some _ \<Rightarrow> fail ''internal error'' 500
            | None \<Rightarrow> do {
                sendGroupNotification (we_V W) (cl_UID claims) groupID ''group_renamed'';
                respond (json_map [(''ok'', JStr ''true''), (''name'', JStr newName)]) } } })))"

definition HandleGroupTransfer :: "web_env \<Rightarrow> server \<Rightarrow> http_req \<Rightarrow> http_resp io" where
  "HandleGroupTransfer W s r = postOnly r (withGroups (withAuth W s r (\<lambda>claims.
    let groupID = FormValue r ''group_id''; toUID = FormValue r ''to_uid'' in
    if groupID = [] \<or> toUID = [] then fail ''group_id and to_uid required'' 400
    else if cl_UID claims = toUID then fail ''cannot transfer ownership to yourself'' 400
    else do {
      e \<leftarrow> groupTransferOwnership (we_V W) groupID (cl_UID claims) toUID;
      case e of
        Some e \<Rightarrow>
          if e = ErrGroupNotFound then fail ''group not found'' 404
          else if e = ErrNotOwner then fail ''only the group owner can transfer ownership'' 403
          else if e = ErrNotMember then fail ''target user is not a member of this group'' 409
          else fail ''internal error'' 500
      | None \<Rightarrow> do {
          sendGroupNotification (we_V W) (cl_UID claims) groupID ''owner_transferred'';
          respond (json_map [(''ok'', JStr ''true''), (''owner_uid'', JStr toUID)]) } })))"

definition HandleGroupMembers :: "web_env \<Rightarrow> server \<Rightarrow> http_req \<Rightarrow> http_resp io" where
  "HandleGroupMembers W s r = withGroups (withAuth W s r (\<lambda>claims.
    let groupID = Query r ''group_id'' in
    if groupID = [] then fail ''group_id required'' 400
    else do {
      members \<leftarrow> groupGetMembers (we_V W) groupID;
      case members of
        Inl e \<Rightarrow> if e = ErrGroupNotFound then fail ''group not found'' 404 else fail ''internal error'' 500
      | Inr members \<Rightarrow> respond (json_map [(''group_id'', JStr groupID), (''members'', JArr (map JStr members))]) }))"

definition HandleGroupList :: "web_env \<Rightarrow> server \<Rightarrow> http_req \<Rightarrow> http_resp io" where
  "HandleGroupList W s r = withGroups (withAuth W s r (\<lambda>claims. do {
    groups \<leftarrow> groupGetUserGroups (we_V W) (cl_UID claims);
    case groups of
      Inl e \<Rightarrow> fail ''internal error'' 500
    | Inr gs \<Rightarrow> respond (json_map [(''groups'',
        JArr (map (\<lambda>g. json_summary (g_ID g) (g_Name g) (g_OwnerUID g) (length (g_Members g)) (g_CreatedAt g)) gs))]) }))"

section \<open>What the endpoints promise\<close>

text \<open>
  The answer and the group table after a request of the user \<open>U\<close>, who has proved who he is, for the
  group \<open>g\<close> with the other user (or new name) \<open>x\<close>.
\<close>

datatype group_endpoint = GJoin | GLeave | GInvite | GKick | GRename | GTransfer

fun group_handler :: "group_endpoint \<Rightarrow> web_env \<Rightarrow> server \<Rightarrow> http_req \<Rightarrow> http_resp io" where
  "group_handler GJoin = HandleGroupJoin"
| "group_handler GLeave = HandleGroupLeave"
| "group_handler GInvite = HandleGroupInvite"
| "group_handler GKick = HandleGroupKick"
| "group_handler GRename = HandleGroupRename"
| "group_handler GTransfer = HandleGroupTransfer"

fun endpoint_arg :: "group_endpoint \<Rightarrow> string" where
  "endpoint_arg GRename = ''name''"
| "endpoint_arg GTransfer = ''to_uid''"
| "endpoint_arg _ = ''target_uid''"

fun answer :: "group_error option \<times> string group_table \<Rightarrow> int \<times> string group_table" where
  "answer (None, T) = (200, T)"
| "answer (Some ErrGroupNotFound, T) = (404, T)"
| "answer (Some ErrNotOwner, T) = (403, T)"
| "answer (Some ErrAlreadyMember, T) = (409, T)"
| "answer (Some ErrNotMember, T) = (409, T)"
| "answer (_, T) = (500, T)"

definition spec_owned :: "string \<Rightarrow> string \<Rightarrow> string group_table \<Rightarrow> int \<times> string group_table \<Rightarrow> int \<times> string group_table" where
  "spec_owned U g T k = (case T g of None \<Rightarrow> (404, T) | Some (ms, own) \<Rightarrow> if own \<noteq> U then (403, T) else k)"

fun spec_endpoint :: "group_endpoint \<Rightarrow> string \<Rightarrow> string \<Rightarrow> string \<Rightarrow> string group_table \<Rightarrow> int \<times> string group_table" where
  "spec_endpoint GJoin U g x T = (if g = [] then (400, T) else answer (spec_add g U T))"
| "spec_endpoint GLeave U g x T = (if g = [] then (400, T) else answer (spec_remove g U T))"
| "spec_endpoint GInvite U g x T =
    (if g = [] \<or> x = [] \<or> x = U then (400, T) else spec_owned U g T (answer (spec_add g x T)))"
| "spec_endpoint GKick U g x T =
    (if g = [] \<or> x = [] then (400, T) else spec_owned U g T (answer (spec_remove g x T)))"
| "spec_endpoint GRename U g x T = (if g = [] \<or> x = [] then (400, T) else spec_owned U g T (200, T))"
| "spec_endpoint GTransfer U g x T =
    (if g = [] \<or> x = [] \<or> U = x then (400, T) else answer (spec_transfer g U x x T))"

section \<open>Refinement\<close>

text \<open>A notification leaves the groups alone.\<close>

definition same_groups :: "world \<Rightarrow> world \<Rightarrow> bool" where
  "same_groups w w' \<longleftrightarrow> w_groupStore w' = w_groupStore w"

lemma quiet_same_groups: "quiet \<le> same_groups"
  by (simp add: le_fun_def quiet_def same_groups_def)

interpretation notice: message_effects same_groups V "\<lambda>m. True" for V
proof unfold_locales
  show "keeps same_groups (forward V u m)" "keeps same_groups (persistAsync m)" for u m
    by (auto intro!: keepsI simp: same_groups_def run_simps)
qed (auto simp: same_groups_def intro: keeps_quiet [OF quiet_same_groups])

lemma notification_groups:
  "w_groupStore (post (sendGroupNotification V u g n) w) = w_groupStore w"
  using keepsD [OF notice.keeps_notification [of u V g n None], of w] by (simp add: sendGroupNotification_def same_groups_def)

text \<open>How a call on the groups kept in memory runs.\<close>

lemma run_groupOp_mem:
  "w_groupStore w = Some (MemGroups gs) \<Longrightarrow>
    run_state (groupOp V n mem sql) w = (fst (mem gs), w\<lparr>w_groupStore := Some (MemGroups (snd (mem gs)))\<rparr>)"
  by (simp add: groupOp_def run_simps set_mem_def split_beta)

text \<open>A handler that refuses, and one that notifies the members and is done.\<close>

definition refusal :: "http_resp io \<Rightarrow> int \<Rightarrow> bool" where
  "refusal k c \<longleftrightarrow> (\<exists>m. k = fail m c)"

definition notified :: "http_resp io \<Rightarrow> bool" where
  "notified k \<longleftrightarrow> (\<exists>V u g n j. k = do { sendGroupNotification V u g n; respond j })"

lemma refusal_fail [simp]: "refusal (fail m c) c"
  by (auto simp: refusal_def)

lemma notified_respond [simp]: "notified (do { sendGroupNotification V u g n; respond j })"
  unfolding notified_def by blast

text \<open>The state in which a change of the group \<open>g\<close> ends, and the answer.\<close>

definition settles :: "world \<Rightarrow> http_resp io \<Rightarrow> int \<times> string group_table \<Rightarrow> bool" where
  "settles w k p \<longleftrightarrow> (\<exists>gs'. w_groupStore (post k w) = Some (MemGroups gs') \<and> groups_ok gs' \<and> (rs_Status (res k w), group_view gs') = p)"

lemma settles_fail: "w_groupStore w = Some (MemGroups gs) \<Longrightarrow> groups_ok gs \<Longrightarrow> settles w (fail m c) (c, group_view gs)"
  by (simp add: settles_def run_fail)

lemma settles_op:
  assumes gs: "w_groupStore w = Some (MemGroups gs)" and ok: "groups_ok (snd (mem gs))"
    and spec: "(fst (mem gs), group_view (snd (mem gs))) = (e, T)"
    and err: "\<And>x. e = Some x \<Longrightarrow> refusal (k (Some x)) (fst (answer (Some x, T)))"
    and fine: "notified (k None)"
  shows "settles w (State_Monad.bind (groupOp V (Some nil_groups) mem sql) k) (answer (e, T))"
proof -
  let ?w = "w\<lparr>w_groupStore := Some (MemGroups (snd (mem gs)))\<rparr>"
  have run: "run_state (State_Monad.bind (groupOp V (Some nil_groups) mem sql) k) w = run_state (k e) ?w"
    using run_groupOp_mem [OF gs, of V "Some nil_groups" mem sql] spec by (simp add: run_bind)
  have T: "snd (answer (e, T)) = group_view (snd (mem gs))" using spec by (cases "(e, T)" rule: answer.cases) auto
  show ?thesis
  proof (cases e)
    case None
    with fine show ?thesis using ok spec
      unfolding settles_def run notified_def by (auto simp: run_bind run_respond notification_groups split_beta)
  next
    case (Some x)
    with err obtain m where "k e = fail m (fst (answer (e, T)))" by (auto simp: refusal_def)
    with T ok show ?thesis unfolding settles_def run by (simp add: run_fail prod_eq_iff)
  qed
qed

lemma settles_add:
  assumes "w_groupStore w = Some (MemGroups gs)" and "groups_ok gs"
    and "\<And>x. x \<in> {ErrGroupNotFound, ErrAlreadyMember} \<Longrightarrow> refusal (k (Some x)) (fst (answer (Some x, group_view gs)))"
    and "notified (k None)"
  shows "settles w (State_Monad.bind (groupAddMember V g u) k) (answer (spec_add g u (group_view gs)))"
proof -
  let ?w = "w\<lparr>w_tick := Suc (w_tick w)\<rparr>" and ?t = "now_ms (e_clock V) (w_tick w)"
  note r = AddMember_refines [OF assms(2), of g u]
  obtain e T where eT: "spec_add g u (group_view gs) = (e, T)" by fastforce
  have "settles ?w (State_Monad.bind (groupOp V (Some nil_groups) (AddMember g u) (\<lambda>flt. SqlAddMember (e_sql V) flt ?t g u)) k) (answer (e, T))"
  proof (rule settles_op [of _ gs])
    fix x assume "e = Some x"
    with eT have "x \<in> {ErrGroupNotFound, ErrAlreadyMember}" "T = group_view gs"
      by (auto simp: spec_add_def split: option.splits if_splits)
    with assms(3) show "refusal (k (Some x)) (fst (answer (Some x, T)))" by blast
  qed (use assms r eT in auto)
  then show ?thesis unfolding eT by (simp add: settles_def groupAddMember_def State_Monad.bind_assoc run_bind run_nowMs)
qed

lemma settles_remove:
  assumes "w_groupStore w = Some (MemGroups gs)" and "groups_ok gs"
    and "\<And>x. x \<in> {ErrGroupNotFound, ErrNotMember} \<Longrightarrow> refusal (k (Some x)) (fst (answer (Some x, group_view gs)))"
    and "notified (k None)"
  shows "settles w (State_Monad.bind (groupRemoveMember V g u) k) (answer (spec_remove g u (group_view gs)))"
proof -
  note r = RemoveMember_refines [OF assms(2), of g u]
  obtain e T where eT: "spec_remove g u (group_view gs) = (e, T)" by fastforce
  show ?thesis
    unfolding eT groupRemoveMember_def
  proof (rule settles_op [of _ gs])
    fix x assume "e = Some x"
    with eT have "x \<in> {ErrGroupNotFound, ErrNotMember}" "T = group_view gs"
      by (auto simp: spec_remove_def split: option.splits if_splits)
    with assms(3) show "refusal (k (Some x)) (fst (answer (Some x, T)))" by blast
  qed (use assms r eT in auto)
qed

lemma settles_transfer:
  assumes "w_groupStore w = Some (MemGroups gs)" and "groups_ok gs"
    and "\<And>x. x \<in> {ErrGroupNotFound, ErrNotOwner, ErrNotMember} \<Longrightarrow> refusal (k (Some x)) (fst (answer (Some x, group_view gs)))"
    and "notified (k None)"
  shows "settles w (State_Monad.bind (groupTransferOwnership V g u v) k) (answer (spec_transfer g u v v (group_view gs)))"
proof -
  note r = TransferOwnership_refines [OF assms(2), of g u v]
  obtain e T where eT: "spec_transfer g u v v (group_view gs) = (e, T)" by fastforce
  show ?thesis
    unfolding eT groupTransferOwnership_def
  proof (rule settles_op [of _ gs])
    fix x assume "e = Some x"
    with eT have "x \<in> {ErrGroupNotFound, ErrNotOwner, ErrNotMember}" "T = group_view gs"
      by (auto simp: spec_transfer_def split: option.splits if_splits)
    with assms(3) show "refusal (k (Some x)) (fst (answer (Some x, T)))" by blast
  qed (use assms r eT in auto)
qed

text \<open>The guard on the owner.\<close>

lemma settles_owned:
  assumes "w_groupStore w = Some (MemGroups gs)" and "groups_ok gs"
    and "\<And>x. map_of gs g = Some x \<Longrightarrow> g_OwnerUID x = U \<Longrightarrow> settles w k p"
  shows "settles w (State_Monad.bind (groupGet V g) (\<lambda>y. case y of Inl _ \<Rightarrow> fail m 404
      | Inr y \<Rightarrow> if g_OwnerUID y \<noteq> U then fail m' 403 else k)) (spec_owned U g (group_view gs) p)"
proof -
  have same: "w\<lparr>w_groupStore := Some (MemGroups gs)\<rparr> = w" by (simp flip: assms(1))
  have "run_state (groupGet V g) w = (GroupGet g gs, w)"
    unfolding groupGet_def using run_groupOp_mem [OF assms(1), of V _ "reading (GroupGet g)"] same by simp
  then show ?thesis
    using assms settles_fail [OF assms(1,2)]
    by (cases "map_of gs g") (auto simp: settles_def run_bind run_fail GroupGet_def group_view_def spec_owned_def)
qed

lemma settles_rename:
  assumes "w_groupStore w = Some (MemGroups gs)" and "groups_ok gs" and "map_of gs g = Some x"
    and "notified (k None)"
  shows "settles w (State_Monad.bind (groupUpdateName V g v) k) (200, group_view gs)"
proof -
  have x: "group_ok x" "g_ID x = g" using groups_okD [OF assms(2,3)] by simp_all
  have "UpdateName g v gs = (None, AList.update g (x\<lparr>g_Name := v\<rparr>) gs)" by (simp add: UpdateName_def assms(3))
  moreover have "groups_ok (AList.update g (x\<lparr>g_Name := v\<rparr>) gs)"
    using x by (intro groups_ok_update [OF assms(2)]) (simp_all add: group_ok_def)
  moreover have "group_view (AList.update g (x\<lparr>g_Name := v\<rparr>) gs) = group_view gs"
    using assms(3) by (auto simp: group_view_update fun_eq_iff) (simp_all add: group_view_def)
  ultimately have "settles w (State_Monad.bind (groupUpdateName V g v) k) (answer (None, group_view gs))"
    unfolding groupUpdateName_def by (intro settles_op [of _ gs]) (use assms in auto)
  then show ?thesis by simp
qed

lemma memberError_answer [simp]:
  "refusal (memberError c m ErrGroupNotFound) 404" "c \<noteq> ErrGroupNotFound \<Longrightarrow> refusal (memberError c m c) 409"
  by (simp_all add: memberError_def)

lemma endpoint_body:
  assumes "w_groupStore w = Some (MemGroups gs)" and "groups_ok gs"
  shows "\<exists>k. group_handler p W s r = postOnly r (withGroups (withAuth W s r k)) \<and>
    (\<forall>c. settles w (k c) (spec_endpoint p (cl_UID c) (FormValue r ''group_id'') (FormValue r (endpoint_arg p)) (group_view gs)))"
proof -
  note fails = settles_fail [OF assms] and owned = settles_owned [OF assms]
  note handlers = HandleGroupJoin_def HandleGroupLeave_def HandleGroupInvite_def HandleGroupKick_def HandleGroupRename_def
    HandleGroupTransfer_def Let_def
  note changes = settles_add [OF assms] settles_remove [OF assms] settles_transfer [OF assms] settles_rename [OF assms]
  show ?thesis
    by (cases p; simp only: group_handler.simps handlers; intro exI conjI allI; (rule refl)?;
        auto intro!: fails owned changes)
qed

text \<open>
  C7. The group endpoints implement the group table: a request by a user who proves who he is
  answers with the status and makes the change that the specification of the endpoint gives for him
  (join and leave act on himself, inviting, kicking and renaming are for the owner, ownership goes
  from the owner to a member), on every branch; any other request is refused and changes no group.
\<close>

theorem web_groups_refine:
  assumes gs: "w_groupStore w = Some (MemGroups gs)" and ok: "groups_ok gs"
  shows "(rq_Method r = ''POST'' \<and> proven W s r w c \<longrightarrow>
      (\<exists>gs'. w_groupStore (post (group_handler p W s r) w) = Some (MemGroups gs') \<and> groups_ok gs' \<and>
        (rs_Status (res (group_handler p W s r) w), group_view gs') =
          spec_endpoint p (cl_UID c) (FormValue r ''group_id'') (FormValue r (endpoint_arg p)) (group_view gs))) \<and>
    (rq_Method r \<noteq> ''POST'' \<or> (\<forall>c. \<not> proven W s r w c) \<longrightarrow>
      rs_Status (res (group_handler p W s r) w) \<noteq> 200 \<and> w_groupStore (post (group_handler p W s r) w) = w_groupStore w)"
proof -
  let ?g = "FormValue r ''group_id''" and ?x = "FormValue r (endpoint_arg p)" and ?T = "group_view gs"
  let ?w = "w\<lparr>w_tick := Suc (w_tick w)\<rparr>"
  obtain k where H: "group_handler p W s r = postOnly r (withGroups (withAuth W s r k))"
    and k: "\<And>c. settles ?w (k c) (spec_endpoint p (cl_UID c) ?g ?x ?T)"
    using endpoint_body [of ?w gs p W s r] gs ok by auto
  have run: "run_state (group_handler p W s r) w =
      (if rq_Method r \<noteq> ''POST'' then (httpError ''method not allowed'' 405, w) else run_state (withAuth W s r k) w)"
    by (simp add: H postOnly_def withGroups_def run_bind run_fail run_hasGroups gs)
  show ?thesis
  proof (intro conjI impI; (elim conjE)?)
    assume "rq_Method r = ''POST''" and "proven W s r w c"
    then have "run_state (group_handler p W s r) w = run_state (k c) ?w" unfolding run by (simp add: withAuth_proven)
    with k [of c] show "\<exists>gs'. w_groupStore (post (group_handler p W s r) w) = Some (MemGroups gs') \<and> groups_ok gs' \<and>
        (rs_Status (res (group_handler p W s r) w), group_view gs') = spec_endpoint p (cl_UID c) ?g ?x ?T"
      unfolding settles_def by simp
  next
    assume a: "rq_Method r \<noteq> ''POST'' \<or> (\<forall>c. \<not> proven W s r w c)"
    show "rs_Status (res (group_handler p W s r) w) \<noteq> 200" "w_groupStore (post (group_handler p W s r) w) = w_groupStore w"
      by (cases rule: withAuth_cases [of W s r w k]; use a in \<open>auto simp: run\<close>)+
  qed
qed

text \<open>The owner of the demo group kicks its other member.\<close>

abbreviation demo_kick :: http_req where
  "demo_kick \<equiv> post_form [(''uid'', ''alice''), (''token'', demo_token ''alice'' ''user''), (''group_id'', ''g_1''), (''target_uid'', ''bob'')]"

theorem web_groups_refine_witness:
  "rs_Status (res (HandleGroupKick demo_web demo_server demo_kick) user_gate) = 200 \<and>
   (\<exists>gs'. w_groupStore (post (HandleGroupKick demo_web demo_server demo_kick) user_gate) = Some (MemGroups gs') \<and>
     group_view gs' ''g_1'' = Some ({''alice''}, ''alice''))"
proof -
  have gs: "w_groupStore user_gate = Some (MemGroups demo_groups)" by (simp add: user_gate_def gate_def)
  have v: "group_view demo_groups ''g_1'' = Some ({''alice'', ''bob''}, ''alice'')" by (simp add: group_view_def demo_groups_eq)
  obtain c where c: "proven demo_web demo_server demo_kick user_gate c" "cl_UID c = ''alice''"
    by (rule demo_withAuth [of demo_web user_gate demo_server 2000000000 demo_kick "''alice''" "''user''"])
      (simp_all add: reqParam_def user_gate_time)
  have "spec_endpoint GKick ''alice'' ''g_1'' ''bob'' (group_view demo_groups) =
      (200, (group_view demo_groups)(''g_1'' \<mapsto> ({''alice''}, ''alice'')))"
    by (simp add: spec_owned_def spec_remove_def v insert_Diff_if doubleton_eq_iff)
  with web_groups_refine [OF gs demo_groups_ok, of demo_kick demo_web demo_server c GKick] c show ?thesis by auto
qed

end
