(* ===== verification/Server_Admin.thy ===== *)
theory Server_Admin
  imports Server
begin

text \<open>
  The remaining endpoints of \<open>internal/gateway/server.go\<close>: unread counters, friends, search, health
  and administration. The figures the Go runtime gives about itself (\<open>rt\<close>: allocated bytes and
  goroutines) and the results of the registered health checks are arguments.
\<close>

section \<open>Unread counters and friends\<close>

text \<open>\<open>HandleUnreadCount\<close> of the server, not the command of the same name.\<close>

definition HttpUnreadCount :: "web_env \<Rightarrow> server \<Rightarrow> http_req \<Rightarrow> http_resp io" where
  "HttpUnreadCount W s r = withAuth W s r (\<lambda>claims. do {
     t \<leftarrow> gets w_unreadTracker;
     respond (json_counts (cl_UID claims) (case t of None \<Rightarrow> [] | Some t \<Rightarrow> GetCounts (cl_UID claims) t)) })"

definition withFriends :: "http_resp io \<Rightarrow> http_resp io" where
  "withFriends k = do {
     f \<leftarrow> gets w_friendStore;
     if \<not> f then fail ''friend system not available'' 503 else k }"

text \<open>The error of the store is the text of the response.\<close>

definition friendResult :: "int \<Rightarrow> string option \<Rightarrow> http_resp io" where
  "friendResult status e = (case e of Some e \<Rightarrow> fail e status | None \<Rightarrow> respond status_ok)"

definition HttpFriendRequest :: "web_env \<Rightarrow> server \<Rightarrow> http_req \<Rightarrow> http_resp io" where
  "HttpFriendRequest W s r = postOnly r (withAuth W s r (\<lambda>claims.
    let toUID = FormValue r ''to_uid'' in
    if toUID = [] then fail ''to_uid required'' 400
    else if cl_UID claims = toUID then fail ''cannot friend yourself'' 400
    else withFriends (do {
      nw \<leftarrow> nowMs (we_V W);
      e \<leftarrow> dbCall (we_V W) (\<lambda>flt. SendRequest (e_sql (we_V W)) flt nw (cl_UID claims) toUID);
      friendResult 409 e })))"

definition HandleFriendAccept :: "web_env \<Rightarrow> server \<Rightarrow> http_req \<Rightarrow> http_resp io" where
  "HandleFriendAccept W s r = postOnly r (withAuth W s r (\<lambda>claims.
    let fromUID = FormValue r ''from_uid'' in
    if fromUID = [] then fail ''from_uid required'' 400
    else withFriends (do {
      nw \<leftarrow> nowMs (we_V W);
      e \<leftarrow> dbCall (we_V W) (\<lambda>flt. AcceptRequest (e_sql (we_V W)) flt nw (cl_UID claims) fromUID);
      friendResult 404 e })))"

definition HandleFriendReject :: "web_env \<Rightarrow> server \<Rightarrow> http_req \<Rightarrow> http_resp io" where
  "HandleFriendReject W s r = postOnly r (withAuth W s r (\<lambda>claims.
    let fromUID = FormValue r ''from_uid'' in
    if fromUID = [] then fail ''from_uid required'' 400
    else withFriends (do {
      nw \<leftarrow> nowMs (we_V W);
      e \<leftarrow> dbCall (we_V W) (\<lambda>flt. RejectRequest (e_sql (we_V W)) flt nw (cl_UID claims) fromUID);
      friendResult 404 e })))"

definition HandleFriendRemove :: "web_env \<Rightarrow> server \<Rightarrow> http_req \<Rightarrow> http_resp io" where
  "HandleFriendRemove W s r = postOnly r (withAuth W s r (\<lambda>claims.
    let friendUID = FormValue r ''friend_uid'' in
    if friendUID = [] then fail ''friend_uid required'' 400
    else withFriends (do {
      e \<leftarrow> dbCall (we_V W) (\<lambda>flt. RemoveFriend (e_sql (we_V W)) flt (cl_UID claims) friendUID);
      friendResult 404 e })))"

definition json_friend :: "friend \<Rightarrow> json" where
  "json_friend f = JObj [(''uid'', JStr (fd_UID f)), (''friend_uid'', JStr (fd_FriendUID f)), (''status'', JInt (fd_Status f)),
     (''created_at'', JInt (fd_CreatedAt f))]"

definition json_request :: "friend_request \<Rightarrow> json" where
  "json_request q = JObj [(''from_uid'', JStr (fq_FromUID q)), (''username'', JStr (fq_Username q)), (''created_at'', JInt (fq_CreatedAt q))]"

definition HandleFriendList :: "web_env \<Rightarrow> server \<Rightarrow> http_req \<Rightarrow> http_resp io" where
  "HandleFriendList W s r = withAuth W s r (\<lambda>claims. withFriends (do {
     fs \<leftarrow> dbCall (we_V W) (\<lambda>flt. reading (GetFriends (e_sql (we_V W)) flt (cl_UID claims)));
     case fs of
       Inl e \<Rightarrow> fail ''internal error'' 500
     | Inr fs \<Rightarrow> do {
         qs \<leftarrow> dbCall (we_V W) (\<lambda>flt. reading (GetPendingRequests (e_sql (we_V W)) flt (cl_UID claims)));
         case qs of
           Inl e \<Rightarrow> fail ''internal error'' 500
         | Inr qs \<Rightarrow> respond (json_map [(''uid'', JStr (cl_UID claims)), (''friends'', JArr (map json_friend fs)),
             (''pending_requests'', JArr (map json_request qs))]) } }))"

section \<open>Search\<close>

text \<open>\<open>omitempty\<close>: zero values are left out.\<close>

definition json_message :: "message \<Rightarrow> json" where
  "json_message m = JObj (filter (\<lambda>(k, v). v \<noteq> JInt 0 \<and> v \<noteq> JStr [] \<and> v \<noteq> JBool False)
    [(''seq'', JInt (m_seq m)), (''msg_id'', JInt (m_msgId m)), (''cmd'', JInt (m_cmd m)), (''from'', JStr (m_from m)),
     (''to'', JStr (m_to m)), (''chat_type'', JInt (m_chatType m)), (''msg_type'', JInt (m_msgType m)),
     (''content'', JStr (m_content m)), (''timestamp'', JInt (m_timestamp m)), (''need_ack'', JBool (m_needAck m))])"

definition intParam :: "http_req \<Rightarrow> string \<Rightarrow> (int \<Rightarrow> bool) \<Rightarrow> int \<Rightarrow> int" where
  "intParam r k acceptable dflt =
    (case ParseInt (Query r k) of Some v \<Rightarrow> if acceptable v then v else dflt | None \<Rightarrow> dflt)"

definition searchQuery :: "http_req \<Rightarrow> string \<Rightarrow> search_params" where
  "searchQuery r uid = \<lparr>s_UID = uid, s_Query = Query r ''q'', s_Peer = Query r ''peer'',
     s_ChatType = i32 (intParam r ''chat_type'' (\<lambda>_. True) 0), s_MsgType = i32 (intParam r ''msg_type'' (\<lambda>_. True) 0),
     s_Before = intParam r ''before'' (\<lambda>_. True) 0, s_After = intParam r ''after'' (\<lambda>_. True) 0,
     s_Limit = intParam r ''limit'' (\<lambda>v. v > 0 \<and> v \<le> 50) 20, s_Cursor = intParam r ''cursor'' (\<lambda>_. True) 0\<rparr>"

text \<open>A result without rows of a blank query has a nil slice, written as \<open>null\<close>.\<close>

definition HandleSearch :: "web_env \<Rightarrow> server \<Rightarrow> http_req \<Rightarrow> http_resp io" where
  "HandleSearch W s r = do {
     let uid = Query r ''uid'';
     a \<leftarrow> checkToken W s uid (Query r ''token'');
     case a of
       Inl e \<Rightarrow> State_Monad.return e
     | Inr _ \<Rightarrow> do {
         rl \<leftarrow> checkRateLimit (we_V W) uid;
         if rl then fail ''rate limited'' 429
         else if Query r ''q'' = [] then fail ''q (query) required'' 400
         else do {
           result \<leftarrow> routerSearch (we_V W) (searchQuery r uid);
           case result of
             Inl e \<Rightarrow> fail ''search failed'' 500
           | Inr found \<Rightarrow>
               (let (msgs, n, cursor) = (case found of None \<Rightarrow> (JNull, 0, 0)
                  | Some x \<Rightarrow> (if TrimSpace (Query r ''q'') = [] then JNull else JArr (map json_message (sr_Messages x)),
                      sr_Count x, sr_NextCursor x))
                in respond (json_map [(''query'', JStr (Query r ''q'')), (''messages'', msgs), (''total'', JInt n),
                     (''next_cursor'', JInt cursor)])) } } }"

section \<open>Health and administration\<close>

type_synonym checks = "(string, string option) gomap"

definition json_deps :: "checks \<Rightarrow> json" where
  "json_deps checks = json_map (map (\<lambda>(name, e). (name, JStr (case e of None \<Rightarrow> ''ok'' | Some e \<Rightarrow> ''unhealthy: '' @ e))) checks)"

definition healthStatus :: "checks \<Rightarrow> string" where
  "healthStatus checks = (if \<exists>(name, e) \<in> set checks. e \<noteq> None then ''degraded'' else ''ok'')"

definition json_memory :: "int \<times> int \<Rightarrow> json" where
  "json_memory rt = json_map [(''alloc_mb'', JInt (fst rt div 1024 div 1024)), (''goroutines'', JInt (snd rt))]"

definition HandleHealth :: "checks \<Rightarrow> int \<times> int \<Rightarrow> http_resp io" where
  "HandleHealth checks rt = do {
     n \<leftarrow> gets (\<lambda>w. Count (w_hub w));
     respond (json_map [(''status'', JStr (healthStatus checks)), (''connections'', JInt (int n)),
       (''dependencies'', json_deps checks), (''memory'', json_memory rt)]) }"

definition countOr0 :: "string + int \<Rightarrow> int" where
  "countOr0 r = (case r of Inl _ \<Rightarrow> 0 | Inr n \<Rightarrow> n)"

definition HandleAdminStats :: "checks \<Rightarrow> int \<times> int \<Rightarrow> web_env \<Rightarrow> server \<Rightarrow> http_req \<Rightarrow> http_resp io" where
  "HandleAdminStats checks rt W s r = withAdmin W s r (\<lambda>_. do {
     onlineUsers \<leftarrow> gets (\<lambda>w. Count (w_hub w));
     totalUsers \<leftarrow> (if sv_userStore s then do { n \<leftarrow> dbCall (we_V W) (\<lambda>flt. reading (CountUsers flt)); State_Monad.return (countOr0 n) }
       else State_Monad.return 0);
     totalMessages \<leftarrow> (if sv_msgStore s then do { n \<leftarrow> dbCall (we_V W) (\<lambda>flt. reading (CountMessages flt)); State_Monad.return (countOr0 n) }
       else State_Monad.return 0);
     respond (json_map [(''status'', JStr (healthStatus checks)), (''online_users'', JInt (int onlineUsers)),
       (''total_users'', JInt totalUsers), (''total_messages'', JInt totalMessages),
       (''dependencies'', json_deps checks), (''memory'', json_memory rt)]) })"

definition json_user :: "user \<Rightarrow> json" where
  "json_user u = JObj [(''uid'', JStr (u_UID u)), (''username'', JStr (u_Username u)), (''role'', JStr (u_Role u)),
     (''is_disabled'', JBool (u_IsDisabled u)), (''created_at'', JInt (u_CreatedAt u))]"

definition HandleAdminUsers :: "web_env \<Rightarrow> server \<Rightarrow> http_req \<Rightarrow> http_resp io" where
  "HandleAdminUsers W s r = withAdmin W s r (\<lambda>_.
    if \<not> sv_userStore s then fail ''user store not available'' 503
    else do {
      let offset = intParam r ''offset'' (\<lambda>v. v \<ge> 0) 0;
      let limit = intParam r ''limit'' (\<lambda>v. v > 0 \<and> v \<le> 200) 50;
      users \<leftarrow> dbCall (we_V W) (\<lambda>flt. reading (ListUsers flt offset limit));
      case users of
        Inl e \<Rightarrow> fail ''internal error'' 500
      | Inr (users, n) \<Rightarrow> respond (json_map [(''users'', JArr (map json_user users)), (''total'', JInt n),
          (''offset'', JInt offset), (''limit'', JInt limit)]) })"

definition HandleAdminUserDelete :: "web_env \<Rightarrow> server \<Rightarrow> http_req \<Rightarrow> http_resp io" where
  "HandleAdminUserDelete W s r = postOnly r (withAdmin W s r (\<lambda>claims.
    if \<not> sv_userStore s then fail ''user store not available'' 503
    else let targetUID = FormValue r ''target_uid'' in
    if targetUID = [] then fail ''target_uid required'' 400
    else if targetUID = cl_UID claims then fail ''cannot delete yourself'' 400
    else do {
      e \<leftarrow> dbCall (we_V W) (\<lambda>flt. DeleteUser (e_sql (we_V W)) flt targetUID);
      case e of
        Some e \<Rightarrow> fail (''delete failed: '' @ e) 500
      | None \<Rightarrow> respond status_ok }))"

definition HandleAdminMessages :: "web_env \<Rightarrow> server \<Rightarrow> http_req \<Rightarrow> http_resp io" where
  "HandleAdminMessages W s r = withAdmin W s r (\<lambda>_.
    if \<not> sv_msgStore s then fail ''message store not available'' 503
    else do {
      let before = intParam r ''before'' (\<lambda>_. True) 0;
      let limit = intParam r ''limit'' (\<lambda>v. v > 0 \<and> v \<le> 100) 50;
      nw \<leftarrow> (if before \<le> 0 then nowMs (we_V W) else State_Monad.return 0);
      msgs \<leftarrow> dbCall (we_V W) (\<lambda>flt. reading (BrowseMessages flt nw before limit));
      case msgs of
        Inl e \<Rightarrow> fail ''internal error'' 500
      | Inr msgs \<Rightarrow> respond (json_map [(''messages'', JArr (map json_message msgs)), (''limit'', JInt limit)]) })"

definition HandleAdminMessageDelete :: "web_env \<Rightarrow> server \<Rightarrow> http_req \<Rightarrow> http_resp io" where
  "HandleAdminMessageDelete W s r = postOnly r (withAdmin W s r (\<lambda>_.
    if \<not> sv_msgStore s then fail ''message store not available'' 503
    else if FormValue r ''msg_id'' = [] then fail ''msg_id required'' 400
    else case ParseInt (FormValue r ''msg_id'') of
      None \<Rightarrow> fail ''invalid msg_id'' 400
    | Some msgID \<Rightarrow> do {
        e \<leftarrow> dbCall (we_V W) (\<lambda>flt. DeleteMessage flt msgID);
        case e of
          Some e \<Rightarrow> fail (''delete failed: '' @ e) 500
        | None \<Rightarrow> respond status_ok }))"

section \<open>Properties\<close>

datatype admin_endpoint = AStats | AUsers | AUserDelete | AMessages | AMessageDelete

fun admin_handler :: "admin_endpoint \<Rightarrow> checks \<Rightarrow> int \<times> int \<Rightarrow> web_env \<Rightarrow> server \<Rightarrow> http_req \<Rightarrow> http_resp io" where
  "admin_handler AStats checks rt = HandleAdminStats checks rt"
| "admin_handler AUsers checks rt = HandleAdminUsers"
| "admin_handler AUserDelete checks rt = HandleAdminUserDelete"
| "admin_handler AMessages checks rt = HandleAdminMessages"
| "admin_handler AMessageDelete checks rt = HandleAdminMessageDelete"

lemma admin_body:
  "\<exists>k. admin_handler p checks rt W s r = withAdmin W s r k \<or> admin_handler p checks rt W s r = postOnly r (withAdmin W s r k)"
proof (cases p)
  case AStats
  show ?thesis unfolding AStats admin_handler.simps HandleAdminStats_def by blast
next
  case AUsers
  show ?thesis unfolding AUsers admin_handler.simps HandleAdminUsers_def by blast
next
  case AUserDelete
  show ?thesis unfolding AUserDelete admin_handler.simps HandleAdminUserDelete_def by blast
next
  case AMessages
  show ?thesis unfolding AMessages admin_handler.simps HandleAdminMessages_def by blast
next
  case AMessageDelete
  show ?thesis unfolding AMessageDelete admin_handler.simps HandleAdminMessageDelete_def by blast
qed

lemma withAdmin_refuses:
  assumes "\<forall>c. proven W s r w c \<longrightarrow> cl_Role c \<noteq> ''admin''"
  shows "rs_Status (res (withAdmin W s r k) w) \<noteq> 200 \<and> post (withAdmin W s r k) w \<in> {w, w\<lparr>w_tick := Suc (w_tick w)\<rparr>}"
  unfolding withAdmin_withAuth
  by (cases rule: withAuth_cases [of W s r w "\<lambda>c. if cl_Role c \<noteq> ''admin'' then fail ''admin access required'' 403 else k c"])
    (use assms in \<open>auto simp: run_fail\<close>)

text \<open>
  C24. The administration endpoints answer nobody but an administrator: unless the request proves
  claims with that role, the response is an error, so that neither statistics nor users nor
  messages are shown, and at most the clock was read: no table is touched.
\<close>

theorem admin_guard:
  assumes "\<forall>c. proven W s r w c \<longrightarrow> cl_Role c \<noteq> ''admin''"
  shows "rs_Status (res (admin_handler p checks rt W s r) w) \<noteq> 200 \<and>
    post (admin_handler p checks rt W s r) w \<in> {w, w\<lparr>w_tick := Suc (w_tick w)\<rparr>}"
proof -
  obtain k where "admin_handler p checks rt W s r = withAdmin W s r k \<or> admin_handler p checks rt W s r = postOnly r (withAdmin W s r k)"
    using admin_body by blast
  then show ?thesis using withAdmin_refuses [OF assms, of k] by (cases "rq_Method r = ''POST''") (auto simp: postOnly_def run_fail)
qed

abbreviation demo_purge :: "string \<Rightarrow> http_req" where
  "demo_purge role \<equiv> post_form [(''uid'', ''root''), (''token'', demo_token ''root'' role), (''target_uid'', ''alice'')]"

lemma demo_proven:
  obtains c where "proven demo_web demo_server (demo_purge role) user_gate c" "cl_Role c = role" "cl_UID c = ''root''"
  by (rule demo_withAuth [of demo_web user_gate demo_server 2000000000 "demo_purge role" "''root''" role])
    (simp_all add: reqParam_def user_gate_time)

theorem admin_guard_witness:
  "w_db (post (HandleAdminUserDelete demo_web demo_server (demo_purge ''user'')) user_gate) = w_db user_gate"
proof -
  obtain d where "proven demo_web demo_server (demo_purge ''user'') user_gate d" "cl_Role d = ''user''" by (rule demo_proven)
  then have "\<forall>c. proven demo_web demo_server (demo_purge ''user'') user_gate c \<longrightarrow> cl_Role c \<noteq> ''admin''" by (auto simp: proven_def)
  from admin_guard [OF this, of AUserDelete] show ?thesis by auto
qed

lemma run_withAdmin:
  assumes "rs_Status (res (withAdmin W s r k) w) = 200"
  obtains c where "proven W s r w c" "cl_Role c = ''admin''"
    "run_state (withAdmin W s r k) w = run_state (k c) (w\<lparr>w_tick := Suc (w_tick w)\<rparr>)"
  using assms unfolding withAdmin_withAuth
  by (cases rule: withAuth_cases [of W s r w "\<lambda>c. if cl_Role c \<noteq> ''admin'' then fail ''admin access required'' 403 else k c"])
    (auto simp: run_fail split: if_splits)

text \<open>
  A deleted account cannot log in any more, under no spelling the user table takes for the same
  name and with no password; and an administrator does not delete the account he acts as.
\<close>

theorem deleted_cannot_login:
  assumes "rs_Status (res (HandleAdminUserDelete W s r) w) = 200" and "w' = post (HandleAdminUserDelete W s r) w"
    and "\<not> sv_DevMode s" and "sql_eq (e_sql (we_V W)) (loginUID r') (FormValue r ''target_uid'')"
  shows "rs_Status (res (HandleLogin W s r') w') \<noteq> 200 \<and>
    (\<exists>c. proven W s r w c \<and> cl_Role c = ''admin'' \<and> cl_UID c \<noteq> FormValue r ''target_uid'')"
proof -
  let ?E = "e_sql (we_V W)" and ?t = "FormValue r ''target_uid''" and ?pw = "FormValue r' ''password''"
  note H = HandleAdminUserDelete_def [of W s r]
  have P: "rq_Method r = ''POST''" using assms(1) by (auto simp: H postOnly_def run_fail split: if_splits)
  obtain c where c: "proven W s r w c" "cl_Role c = ''admin''"
    and run: "run_state (HandleAdminUserDelete W s r) w = run_state (if \<not> sv_userStore s then fail ''user store not available'' 503
      else let targetUID = ?t in
      if targetUID = [] then fail ''target_uid required'' 400
      else if targetUID = cl_UID c then fail ''cannot delete yourself'' 400
      else do {
        e \<leftarrow> dbCall (we_V W) (\<lambda>flt. DeleteUser ?E flt targetUID);
        case e of Some e \<Rightarrow> fail (''delete failed: '' @ e) 500 | None \<Rightarrow> respond status_ok }) (w\<lparr>w_tick := Suc (w_tick w)\<rparr>)"
    using assms(1) P unfolding H postOnly_def by (auto elim: run_withAdmin)
  let ?d = "DeleteUser ?E (e_flt (we_V W) (w_calls w)) ?t (w_db w)"
  have g: "sv_userStore s" "?t \<noteq> []" "?t \<noteq> cl_UID c" "fst ?d = None"
    using assms(1) unfolding run Let_def by (auto simp: run_fail run_bind run_dbCall split: if_splits option.splits)
  have "w_db w' = snd ?d" using g unfolding assms(2) run by (simp add: run_bind run_dbCall run_respond)
  then have "t_users (w_db w') = filter (\<lambda>x. \<not> sql_eq ?E (u_UID x) ?t) (t_users (w_db w))"
    using g(4) by (auto simp: DeleteUser_def exec_stmt_def sql_delete_def affected_or_def split: option.splits prod.splits)
  then have none: "find (\<lambda>x. sql_eq ?E (u_UID x) (loginUID r')) (t_users (w_db w')) = None"
    using assms(4) by (auto simp: find_None_iff)
  have uid: "(if FormValue r' ''uid'' = [] then FormValue r' ''username'' else FormValue r' ''uid'') = loginUID r'" by (simp add: loginUID_def)
  have "rs_Status (res (HandleLogin W s r') w') \<noteq> 200"
    unfolding HandleLogin_def postOnly_def Let_def uid using assms(3)
    by (simp add: run_bind run_dbCall run_fail GetByUID_def query_def none split: option.split)
  with c g(3) show ?thesis by metis
qed

theorem deleted_cannot_login_witness:
  "rs_Status (res (HandleLogin demo_web demo_server (post_form [(''uid'', ''alice''), (''password'', ''secret'')]))
    (post (HandleAdminUserDelete demo_web demo_server (demo_purge ''admin'')) user_gate)) \<noteq> 200"
proof -
  let ?r = "demo_purge ''admin''"
  obtain c where c: "proven demo_web demo_server ?r user_gate c" "cl_Role c = ''admin''" "cl_UID c = ''root''" by (rule demo_proven)
  have "fst (DeleteUser demo_env no_faults ''alice'' (migrate\<lparr>t_users := [demo_user]\<rparr>)) = None"
    by (simp add: DeleteUser_def sql_delete_def affected_or_def demo_user_def)
  then have "rs_Status (res (HandleAdminUserDelete demo_web demo_server ?r) user_gate) = 200"
    unfolding HandleAdminUserDelete_def postOnly_def withAdmin_withAuth
    using c by (simp add: withAuth_proven [OF c(1)] run_bind run_dbCall run_respond)
  from deleted_cannot_login [OF this refl] show ?thesis by (simp add: loginUID_def)
qed

end
