(* ===== verification/Files.thy ===== *)
theory Files
  imports Server
begin

text \<open>
  Files: the object stores of \<open>internal/gateway/object_store.go\<close>, the thumbnails of
  \<open>internal/gateway/thumbnail.go\<close> and the handlers \<open>HandleUpload\<close> and \<open>HandleDownload\<close> of
  \<open>internal/gateway/server.go\<close>. The interface \<open>ObjectStore\<close> is a record of operations on the state
  behind it, its contract the locale \<open>object_store\<close>. The MinIO client is a parameter, and so are the
  image codecs with the sniffing of the content type (\<open>imaging\<close>). Every floating-point operation ends
  in the rounding function \<open>im_rnd\<close>.
\<close>

section \<open>Object stores\<close>

datatype object_error = KeyNotFound string | MinioError string string string | MinioSetup string string

record 'o ostore =
  os_Put :: "string \<Rightarrow> bytes \<Rightarrow> string \<Rightarrow> 'o \<Rightarrow> object_error option \<times> 'o"
  os_Get :: "string \<Rightarrow> 'o \<Rightarrow> object_error + bytes \<times> string"
  os_Delete :: "string \<Rightarrow> 'o \<Rightarrow> object_error option \<times> 'o"

record storedObject =
  so_data :: bytes
  so_contentType :: string

type_synonym mem_objects = "(string, storedObject) gomap"

definition NewInMemoryObjectStore :: mem_objects where
  "NewInMemoryObjectStore = []"

definition ObjPut :: "string \<Rightarrow> bytes \<Rightarrow> string \<Rightarrow> mem_objects \<Rightarrow> object_error option \<times> mem_objects" where
  "ObjPut key data contentType items = (None, AList.update key \<lparr>so_data = data, so_contentType = contentType\<rparr> items)"

definition ObjGet :: "string \<Rightarrow> mem_objects \<Rightarrow> object_error + bytes \<times> string" where
  "ObjGet key items =
    (case map_of items key of None \<Rightarrow> Inl (KeyNotFound key) | Some obj \<Rightarrow> Inr (so_data obj, so_contentType obj))"

definition ObjDelete :: "string \<Rightarrow> mem_objects \<Rightarrow> object_error option \<times> mem_objects" where
  "ObjDelete key items = (None, AList.delete key items)"

definition mem_ostore :: "mem_objects ostore" where
  "mem_ostore = \<lparr>os_Put = ObjPut, os_Get = ObjGet, os_Delete = ObjDelete\<rparr>"

text \<open>The calls of the MinIO client the code makes, on the state of the service.\<close>

record 'm minio =
  mc_New :: "string option"
  mc_BucketExists :: "string \<Rightarrow> 'm \<Rightarrow> string + bool"
  mc_MakeBucket :: "string \<Rightarrow> 'm \<Rightarrow> string option \<times> 'm"
  mc_PutObject :: "string \<Rightarrow> string \<Rightarrow> bytes \<Rightarrow> string \<Rightarrow> 'm \<Rightarrow> string option \<times> 'm"
  mc_GetObject :: "string \<Rightarrow> string \<Rightarrow> 'm \<Rightarrow> string option"
  mc_Stat :: "string \<Rightarrow> string \<Rightarrow> 'm \<Rightarrow> string + string"
  mc_ReadAll :: "string \<Rightarrow> string \<Rightarrow> 'm \<Rightarrow> string + bytes"
  mc_RemoveObject :: "string \<Rightarrow> string \<Rightarrow> 'm \<Rightarrow> string option \<times> 'm"

definition NewMinioStore :: "'m minio \<Rightarrow> string \<Rightarrow> 'm \<Rightarrow> (object_error + string) \<times> 'm" where
  "NewMinioStore C cfgBucket m =
    (case mc_New C of
       Some e \<Rightarrow> (Inl (MinioSetup ''minio client'' e), m)
     | None \<Rightarrow>
         let bucket = (if cfgBucket = [] then ''im-files'' else cfgBucket) in
         case mc_BucketExists C bucket m of
           Inl e \<Rightarrow> (Inl (MinioSetup ''minio bucket check'' e), m)
         | Inr exists \<Rightarrow>
             if \<not> exists then
               (case mc_MakeBucket C bucket m of
                  (Some e, m) \<Rightarrow> (Inl (MinioSetup ''minio make bucket'' e), m)
                | (None, m) \<Rightarrow> (Inr bucket, m))
             else (Inr bucket, m))"

definition MinioPut :: "'m minio \<Rightarrow> string \<Rightarrow> string \<Rightarrow> bytes \<Rightarrow> string \<Rightarrow> 'm \<Rightarrow> object_error option \<times> 'm" where
  "MinioPut C bucket key data contentType m =
    (case mc_PutObject C bucket key data contentType m of
       (Some e, m) \<Rightarrow> (Some (MinioError ''minio put'' key e), m)
     | (None, m) \<Rightarrow> (None, m))"

definition MinioGet :: "'m minio \<Rightarrow> string \<Rightarrow> string \<Rightarrow> 'm \<Rightarrow> object_error + bytes \<times> string" where
  "MinioGet C bucket key m =
    (case mc_GetObject C bucket key m of
       Some e \<Rightarrow> Inl (MinioError ''minio get'' key e)
     | None \<Rightarrow>
         (case mc_Stat C bucket key m of
            Inl e \<Rightarrow> Inl (MinioError ''minio stat'' key e)
          | Inr contentType \<Rightarrow>
              (case mc_ReadAll C bucket key m of
                 Inl e \<Rightarrow> Inl (MinioError ''minio read'' key e)
               | Inr data \<Rightarrow> Inr (data, contentType))))"

definition MinioPing :: "'m minio \<Rightarrow> string \<Rightarrow> 'm \<Rightarrow> string option" where
  "MinioPing C bucket m = (case mc_BucketExists C bucket m of Inl e \<Rightarrow> Some e | Inr _ \<Rightarrow> None)"

definition MinioDelete :: "'m minio \<Rightarrow> string \<Rightarrow> string \<Rightarrow> 'm \<Rightarrow> object_error option \<times> 'm" where
  "MinioDelete C bucket key m =
    (case mc_RemoveObject C bucket key m of
       (Some e, m) \<Rightarrow> (Some (MinioError ''minio delete'' key e), m)
     | (None, m) \<Rightarrow> (None, m))"

definition minio_ostore :: "'m minio \<Rightarrow> string \<Rightarrow> 'm ostore" where
  "minio_ostore C bucket = \<lparr>os_Put = MinioPut C bucket, os_Get = MinioGet C bucket, os_Delete = MinioDelete C bucket\<rparr>"

section \<open>Images\<close>

record 'i imaging =
  im_rnd :: "real \<Rightarrow> real"
  im_Decode :: "bytes \<Rightarrow> string + 'i"
  im_Size :: "'i \<Rightarrow> int \<times> int"
  im_Scale :: "int \<Rightarrow> int \<Rightarrow> 'i \<Rightarrow> 'i"
  im_Jpeg :: "'i \<Rightarrow> string + bytes"
  im_DecodeConfig :: "bytes \<Rightarrow> string + int \<times> int"
  im_DetectContentType :: "bytes \<Rightarrow> string"

definition ThumbnailMaxDim :: int where
  "ThumbnailMaxDim = 200"

text \<open>Conversion of a floating-point number to an integer drops the fraction.\<close>

definition go_trunc :: "real \<Rightarrow> int" where
  "go_trunc x = (if x < 0 then \<lceil>x\<rceil> else \<lfloor>x\<rfloor>)"

definition thumbSize :: "(real \<Rightarrow> real) \<Rightarrow> int \<Rightarrow> int \<Rightarrow> int \<times> int" where
  "thumbSize rnd srcW srcH =
    (if srcW > ThumbnailMaxDim \<or> srcH > ThumbnailMaxDim then
       let scale = rnd (of_int ThumbnailMaxDim / rnd (of_int (max srcW srcH)));
           dstW = go_trunc (rnd (rnd (of_int srcW) * scale));
           dstH = go_trunc (rnd (rnd (of_int srcH) * scale))
       in (if dstW < 1 then 1 else dstW, if dstH < 1 then 1 else dstH)
     else (srcW, srcH))"

definition Thumbnail :: "'i imaging \<Rightarrow> bytes \<Rightarrow> string + bytes" where
  "Thumbnail I data =
    (case im_Decode I data of
       Inl e \<Rightarrow> Inl (''decode: '' @ e)
     | Inr src \<Rightarrow>
         let (srcW, srcH) = im_Size I src in
         if srcW \<le> 0 \<or> srcH \<le> 0 then Inl (''invalid image dimensions: '' @ show_int srcW @ ''x'' @ show_int srcH)
         else let (dstW, dstH) = thumbSize (im_rnd I) srcW srcH in
           (case im_Jpeg I (im_Scale I dstW dstH src) of
              Inl e \<Rightarrow> Inl (''encode jpeg: '' @ e)
            | Inr buf \<Rightarrow> Inr buf))"

definition ImageDimensions :: "'i imaging \<Rightarrow> bytes \<Rightarrow> int \<times> int" where
  "ImageDimensions I data = (case im_DecodeConfig I data of Inl _ \<Rightarrow> (0, 0) | Inr cfg \<Rightarrow> cfg)"

definition IsImageMIME :: "string \<Rightarrow> bool" where
  "IsImageMIME mime \<longleftrightarrow> take 6 mime = ''image/'' \<and> mime \<noteq> ''image/svg+xml''"

section \<open>Handlers\<close>

text \<open>
  Of an upload: the form, the outcome of \<open>ParseMultipartForm\<close>, and the part \<open>file\<close> with its name and
  what reading it gives.
\<close>

record upload_req =
  up_req :: http_req
  up_multipartErr :: "string option"
  up_file :: "string + string \<times> (string + bytes)"

definition maxImageDim :: int where
  "maxImageDim = 4096"

text \<open>The thumbnail of an upload, stored if there is one: its size, or zero.\<close>

definition storeThumb :: "'i imaging \<Rightarrow> 'o ostore \<Rightarrow> string \<Rightarrow> bytes \<Rightarrow> 'o \<Rightarrow> (int \<times> int) \<times> 'o" where
  "storeThumb I S fileID data obs =
    (let (width, height) = ImageDimensions I data in
     if IsImageMIME (im_DetectContentType I data) then
       (if width > maxImageDim \<or> height > maxImageDim then ((0, 0), obs)
        else case Thumbnail I data of
          Inl _ \<Rightarrow> ((0, 0), obs)
        | Inr thumb \<Rightarrow>
            (case os_Put S (fileID @ ''_thumb'') thumb ''image/jpeg'' obs of
               (Some _, obs) \<Rightarrow> ((0, 0), obs)
             | (None, obs) \<Rightarrow> (ImageDimensions I thumb, obs)))
     else ((0, 0), obs))"

definition json_upload :: "string \<Rightarrow> string \<Rightarrow> nat \<Rightarrow> string \<Rightarrow> int \<times> int \<Rightarrow> int \<times> int \<Rightarrow> json" where
  "json_upload fileID name n mime dims thumb =
    json_map [(''file_id'', JStr fileID), (''name'', JStr name), (''size'', JInt (int n)), (''mime'', JStr mime),
      (''width'', JInt (fst dims)), (''height'', JInt (snd dims)), (''thumb_width'', JInt (fst thumb)), (''thumb_height'', JInt (snd thumb))]"

definition storeUpload :: "'i imaging \<Rightarrow> 'o ostore \<Rightarrow> string \<Rightarrow> string \<Rightarrow> bytes \<Rightarrow> 'o \<Rightarrow> http_resp \<times> 'o" where
  "storeUpload I S fileID fileName data obs =
    (let mime = im_DetectContentType I data;
         (thumb, obs) = storeThumb I S fileID data obs in
     case os_Put S fileID data mime obs of
       (Some _, obs) \<Rightarrow>
         (httpError ''upload failed'' 500, if IsImageMIME mime then snd (os_Delete S (fileID @ ''_thumb'') obs) else obs)
     | (None, obs) \<Rightarrow> (writeJSON (json_upload fileID fileName (length data) mime (ImageDimensions I data) thumb), obs))"

definition HandleUpload :: "web_env \<Rightarrow> server \<Rightarrow> 'i imaging \<Rightarrow> 'o ostore \<Rightarrow> upload_req \<Rightarrow> 'o \<Rightarrow> (http_resp \<times> 'o) io" where
  "HandleUpload W s I S u obs =
    (let r = up_req u; refuse = (\<lambda>msg status. State_Monad.return (httpError msg status, obs)) in
     if rq_Method r \<noteq> ''POST'' then refuse ''method not allowed'' 405
     else if \<not> sv_objectStore s then refuse ''object store not available'' 503
     else do {
       a \<leftarrow> checkToken W s (FormValue r ''uid'') (FormValue r ''token'');
       case a of
         Inl e \<Rightarrow> State_Monad.return (e, obs)
       | Inr _ \<Rightarrow>
           (case up_multipartErr u of
              Some e \<Rightarrow> refuse (''file too large or invalid form: '' @ e) 413
            | None \<Rightarrow>
                (case up_file u of
                   Inl e \<Rightarrow> refuse (''file field required: '' @ e) 400
                 | Inr (fileName, Inl e) \<Rightarrow> refuse ''read error'' 500
                 | Inr (fileName, Inr data) \<Rightarrow>
                     if data = [] then refuse ''file is empty'' 400
                     else do {
                       i \<leftarrow> snowNext (we_V W);
                       State_Monad.return (storeUpload I S (show_int i) fileName data obs) })) })"

definition HandleDownload :: "web_env \<Rightarrow> server \<Rightarrow> 'o ostore \<Rightarrow> http_req \<Rightarrow> 'o \<Rightarrow> http_resp io" where
  "HandleDownload W s S r obs =
    (if \<not> sv_objectStore s then fail ''object store not available'' 503
     else if Query r ''id'' = [] then fail ''id required'' 400
     else do {
       a \<leftarrow> checkToken W s (Query r ''uid'') (Query r ''token'');
       case a of
         Inl e \<Rightarrow> State_Monad.return e
       | Inr _ \<Rightarrow>
           let key = (if Query r ''thumb'' = ''1'' then Query r ''id'' @ ''_thumb'' else Query r ''id'') in
           (case os_Get S key obs of
              Inl _ \<Rightarrow> fail ''file not found'' 404
            | Inr (data, contentType) \<Rightarrow>
                State_Monad.return \<lparr>rs_Status = 200, rs_ContentType = contentType, rs_Body = data\<rparr>) })"

section \<open>Contract of the store\<close>

locale object_store =
  fixes S :: "'o ostore"
  assumes put_get: "fst (os_Put S k d t obs) = None \<Longrightarrow> os_Get S k (snd (os_Put S k d t obs)) = Inr (d, t)"
    and put_other: "k' \<noteq> k \<Longrightarrow> os_Get S k' (snd (os_Put S k d t obs)) = os_Get S k' obs"
    and delete_get: "fst (os_Delete S k obs) = None \<Longrightarrow> \<exists>e. os_Get S k (snd (os_Delete S k obs)) = Inl e"
    and delete_other: "k' \<noteq> k \<Longrightarrow> os_Get S k' (snd (os_Delete S k obs)) = os_Get S k' obs"
begin

lemma storeThumb_other: "k \<noteq> i @ ''_thumb'' \<Longrightarrow> os_Get S k (snd (storeThumb I S i data obs)) = os_Get S k obs"
  using put_other [of k "i @ ''_thumb''" _ "''image/jpeg''" obs]
  by (auto simp: storeThumb_def Let_def split: prod.split sum.split option.split) (metis snd_conv)+

text \<open>An upload answered as stored is there under its name, with its thumbnail, beside the older files.\<close>

lemma storeUpload_stored:
  assumes "storeUpload I S i name data obs = (resp, obs')" and "rs_Status resp = 200"
  shows "os_Get S i obs' = Inr (data, im_DetectContentType I data)"
    and "fst (storeThumb I S i data obs) \<noteq> (0, 0) \<Longrightarrow>
      \<exists>thumb. Thumbnail I data = Inr thumb \<and> os_Get S (i @ ''_thumb'') obs' = Inr (thumb, ''image/jpeg'')"
    and "k \<notin> {i, i @ ''_thumb''} \<Longrightarrow> os_Get S k obs' = os_Get S k obs"
    and "resp = writeJSON (json_upload i name (length data) (im_DetectContentType I data) (ImageDimensions I data)
      (fst (storeThumb I S i data obs)))"
proof -
  let ?o = "snd (storeThumb I S i data obs)" and ?p = "os_Put S i data (im_DetectContentType I data)"
  have p: "fst (?p ?o) = None" and o: "obs' = snd (?p ?o)"
    and r: "resp = writeJSON (json_upload i name (length data) (im_DetectContentType I data) (ImageDimensions I data) (fst (storeThumb I S i data obs)))"
    using assms by (auto simp: storeUpload_def Let_def split: prod.splits option.splits)
  show "os_Get S i obs' = Inr (data, im_DetectContentType I data)" unfolding o by (rule put_get [OF p])
  show "k \<notin> {i, i @ ''_thumb''} \<Longrightarrow> os_Get S k obs' = os_Get S k obs"
    unfolding o by (simp add: put_other storeThumb_other)
  show "\<exists>thumb. Thumbnail I data = Inr thumb \<and> os_Get S (i @ ''_thumb'') obs' = Inr (thumb, ''image/jpeg'')"
    if "fst (storeThumb I S i data obs) \<noteq> (0, 0)"
  proof -
    from that obtain thumb where t: "Thumbnail I data = Inr thumb" "fst (os_Put S (i @ ''_thumb'') thumb ''image/jpeg'' obs) = None"
        "?o = snd (os_Put S (i @ ''_thumb'') thumb ''image/jpeg'' obs)"
      by (auto simp: storeThumb_def Let_def split: prod.splits sum.splits option.splits if_splits)
    then show ?thesis using put_get [OF t(2)] by (simp add: o put_other)
  qed
qed (use assms in \<open>auto simp: storeUpload_def Let_def split: prod.splits option.splits\<close>)

end

interpretation memo: object_store mem_ostore
  by unfold_locales (auto simp: mem_ostore_def ObjPut_def ObjGet_def ObjDelete_def map_of_update map_of_delete)

text \<open>
  What the code relies on of the service: a successful put makes the object readable, under its
  key and no other; a successful removal makes it unreadable.
\<close>

definition minio_law :: "'m minio \<Rightarrow> string \<Rightarrow> bool" where
  "minio_law C b \<longleftrightarrow>
    (\<forall>k d t m. fst (mc_PutObject C b k d t m) = None \<longrightarrow> mc_GetObject C b k (snd (mc_PutObject C b k d t m)) = None \<and>
      mc_Stat C b k (snd (mc_PutObject C b k d t m)) = Inr t \<and> mc_ReadAll C b k (snd (mc_PutObject C b k d t m)) = Inr d) \<and>
    (\<forall>k k' d t m. k' \<noteq> k \<longrightarrow> (\<forall>m' \<in> {snd (mc_PutObject C b k d t m), snd (mc_RemoveObject C b k m)}.
      mc_GetObject C b k' m' = mc_GetObject C b k' m \<and> mc_Stat C b k' m' = mc_Stat C b k' m \<and> mc_ReadAll C b k' m' = mc_ReadAll C b k' m)) \<and>
    (\<forall>k m. fst (mc_RemoveObject C b k m) = None \<longrightarrow> (\<exists>e. mc_Stat C b k (snd (mc_RemoveObject C b k m)) = Inl e))"

lemma minio_object_store:
  assumes "minio_law C b"
  shows "object_store (minio_ostore C b)"
proof -
  have p: "fst (MinioPut C b k d t m) = None \<longleftrightarrow> fst (mc_PutObject C b k d t m) = None"
    "snd (MinioPut C b k d t m) = snd (mc_PutObject C b k d t m)" for k d t m
    by (auto simp: MinioPut_def split: prod.split option.split)
  have d: "fst (MinioDelete C b k m) = None \<longleftrightarrow> fst (mc_RemoveObject C b k m) = None"
    "snd (MinioDelete C b k m) = snd (mc_RemoveObject C b k m)" for k m
    by (auto simp: MinioDelete_def split: prod.split option.split)
  show ?thesis
  proof unfold_locales
    show "\<exists>e. os_Get (minio_ostore C b) k (snd (os_Delete (minio_ostore C b) k m)) = Inl e" if "fst (os_Delete (minio_ostore C b) k m) = None" for k m
    proof -
      from that have "fst (mc_RemoveObject C b k m) = None" by (simp add: minio_ostore_def d)
      with assms obtain e where "mc_Stat C b k (snd (mc_RemoveObject C b k m)) = Inl e" unfolding minio_law_def by blast
      then show ?thesis by (simp add: minio_ostore_def d MinioGet_def split: option.split)
    qed
  qed (use assms in \<open>auto simp: minio_ostore_def p d MinioGet_def minio_law_def split: option.split sum.split\<close>)
qed

section \<open>Properties\<close>

lemma run_checkToken:
  "(\<exists>c. res (checkToken W s uid token) w = Inr c \<and> cl_UID c = uid \<and> post (checkToken W s uid token) w = w\<lparr>w_tick := Suc (w_tick w)\<rparr>) \<or>
    (\<exists>e. res (checkToken W s uid token) w = Inl e \<and> rs_Status e \<noteq> 200)"
  by (auto simp: checkToken_def run_simps split: sum.split)

lemma HandleUpload_ok:
  assumes "run_state (HandleUpload W s I S u obs) w = ((resp, obs'), w')" and "rs_Status resp = 200"
  obtains name data i where "up_file u = Inr (name, Inr data)" "sv_objectStore s"
    "i = show_int (res (snowNext (we_V W)) (w\<lparr>w_tick := Suc (w_tick w)\<rparr>))" "storeUpload I S i name data obs = (resp, obs')"
proof -
  have g: "rq_Method (up_req u) = ''POST''" "sv_objectStore s"
    using assms by (auto simp: HandleUpload_def run_simps Let_def split: if_splits)
  from run_checkToken [of W s "FormValue (up_req u) ''uid''" "FormValue (up_req u) ''token''" w] show thesis
  proof (elim disjE exE conjE)
    fix c
    assume "res (checkToken W s (FormValue (up_req u) ''uid'') (FormValue (up_req u) ''token'')) w = Inr c"
      and "post (checkToken W s (FormValue (up_req u) ''uid'') (FormValue (up_req u) ''token'')) w = w\<lparr>w_tick := Suc (w_tick w)\<rparr>"
    with g assms show thesis
      by (auto simp: HandleUpload_def run_bind run_return Let_def split_beta split: option.splits sum.splits if_splits intro!: that)
  next
    fix e
    assume "res (checkToken W s (FormValue (up_req u) ''uid'') (FormValue (up_req u) ''token'')) w = Inl e" "rs_Status e \<noteq> 200"
    with g assms show thesis by (auto simp: HandleUpload_def run_bind run_return Let_def split_beta)
  qed
qed

lemma HandleDownload_eq:
  assumes "sv_objectStore s" "Query r ''id'' \<noteq> []" "res (checkToken W s (Query r ''uid'') (Query r ''token'')) w = Inr c"
  shows "res (HandleDownload W s S r obs) w =
    (case os_Get S (if Query r ''thumb'' = ''1'' then Query r ''id'' @ ''_thumb'' else Query r ''id'') obs of
       Inl _ \<Rightarrow> httpError ''file not found'' 404
     | Inr (data, contentType) \<Rightarrow> \<lparr>rs_Status = 200, rs_ContentType = contentType, rs_Body = data\<rparr>)"
  using assms by (simp add: HandleDownload_def run_bind run_return run_fail Let_def split_beta split: sum.split prod.split)

text \<open>
  C18. What was uploaded can be downloaded: after an upload that was answered with success, a
  download with the name in the answer and a valid token gives exactly the bytes of the file and
  its content type, and where the answer gives the size of a thumbnail, asking for it gives the
  thumbnail as JPEG; every other file is still as it was.
\<close>

theorem upload_download:
  assumes "run_state (HandleUpload W s I mem_ostore u obs) w = ((resp, obs'), w')" and "rs_Status resp = 200"
  shows "\<exists>name data i thumbDims. up_file u = Inr (name, Inr data) \<and>
    i = show_int (res (snowNext (we_V W)) (w\<lparr>w_tick := Suc (w_tick w)\<rparr>)) \<and>
    resp = writeJSON (json_upload i name (length data) (im_DetectContentType I data) (ImageDimensions I data) thumbDims) \<and>
    (\<forall>r w1 c. res (checkToken W s (Query r ''uid'') (Query r ''token'')) w1 = Inr c \<and> Query r ''id'' = i \<longrightarrow>
      (Query r ''thumb'' \<noteq> ''1'' \<longrightarrow> res (HandleDownload W s mem_ostore r obs') w1 =
        \<lparr>rs_Status = 200, rs_ContentType = im_DetectContentType I data, rs_Body = data\<rparr>) \<and>
      (Query r ''thumb'' = ''1'' \<and> thumbDims \<noteq> (0, 0) \<longrightarrow> (\<exists>thumb. Thumbnail I data = Inr thumb \<and>
        res (HandleDownload W s mem_ostore r obs') w1 = \<lparr>rs_Status = 200, rs_ContentType = ''image/jpeg'', rs_Body = thumb\<rparr>))) \<and>
    (\<forall>k. k \<notin> {i, i @ ''_thumb''} \<longrightarrow> ObjGet k obs' = ObjGet k obs)"
proof -
  obtain name data i where f: "up_file u = Inr (name, Inr data)" and s: "sv_objectStore s"
    and i: "i = show_int (res (snowNext (we_V W)) (w\<lparr>w_tick := Suc (w_tick w)\<rparr>))"
    and st: "storeUpload I mem_ostore i name data obs = (resp, obs')" by (rule HandleUpload_ok [OF assms])
  note stored = memo.storeUpload_stored [OF st assms(2)]
  let ?t = "fst (storeThumb I mem_ostore i data obs)"
  have ne: "i \<noteq> []" by (simp add: i show_int_def show_nat_not_Nil)
  have get: "ObjGet k obs' = os_Get mem_ostore k obs'" "ObjGet k obs = os_Get mem_ostore k obs" for k by (simp_all add: mem_ostore_def)
  have other: "\<forall>k. k \<notin> {i, i @ ''_thumb''} \<longrightarrow> ObjGet k obs' = ObjGet k obs" using stored(3) unfolding get by blast
  have down: "(Query r ''thumb'' \<noteq> ''1'' \<longrightarrow> res (HandleDownload W s mem_ostore r obs') w1 =
        \<lparr>rs_Status = 200, rs_ContentType = im_DetectContentType I data, rs_Body = data\<rparr>) \<and>
      (Query r ''thumb'' = ''1'' \<and> ?t \<noteq> (0, 0) \<longrightarrow> (\<exists>thumb. Thumbnail I data = Inr thumb \<and>
        res (HandleDownload W s mem_ostore r obs') w1 = \<lparr>rs_Status = 200, rs_ContentType = ''image/jpeg'', rs_Body = thumb\<rparr>))"
    if "res (checkToken W s (Query r ''uid'') (Query r ''token'')) w1 = Inr c \<and> Query r ''id'' = i" for r w1 c
    using HandleDownload_eq [of s r W w1 c mem_ostore obs'] that s ne stored(1,2) by auto
  show ?thesis
    by (intro exI [of _ name] exI [of _ data] exI [of _ i] exI [of _ ?t] conjI f i stored(4) other) (use down in blast)
qed

text \<open>Codecs that know no image, and a text file.\<close>

definition no_images :: "unit imaging" where
  "no_images = \<lparr>im_rnd = (\<lambda>x. x), im_Decode = (\<lambda>_. Inl ''unknown format''), im_Size = (\<lambda>_. (0, 0)), im_Scale = (\<lambda>_ _ i. i),
     im_Jpeg = (\<lambda>_. Inl ''no image''), im_DecodeConfig = (\<lambda>_. Inl ''unknown format''), im_DetectContentType = (\<lambda>_. ''text/plain'')\<rparr>"

definition demo_upload :: upload_req where
  "demo_upload = \<lparr>up_req = post_form [(''uid'', ''alice''), (''token'', demo_token ''alice'' ''user'')],
     up_multipartErr = None, up_file = Inr (''a.txt'', Inr ''hello'')\<rparr>"

lemma demo_checkToken:
  obtains c where "run_state (checkToken demo_web demo_server ''alice'' (demo_token ''alice'' ''user'')) user_gate =
    (Inr c, user_gate\<lparr>w_tick := Suc (w_tick user_gate)\<rparr>)"
proof -
  obtain c where "TokenValidate plain_jwt (NewManager ''s'' 2000000000) (read_clock (e_clock gate_env) 0) (demo_token ''alice'' ''user'') = Inr c" "cl_UID c = ''alice''"
    by (rule demo_token_valid [OF user_gate_time(2)])
  moreover have "demo_token ''alice'' ''user'' \<noteq> []" by (simp add: demo_token_def enc_str_def)
  ultimately show thesis by (intro that [of c]) (simp add: checkToken_def run_simps user_gate_time)
qed

theorem upload_download_witness:
  "\<exists>resp obs' w' i r. run_state (HandleUpload demo_web demo_server no_images mem_ostore demo_upload NewInMemoryObjectStore) user_gate = ((resp, obs'), w') \<and>
    Query r ''id'' = i \<and> rs_Body (res (HandleDownload demo_web demo_server mem_ostore r obs') user_gate) = ''hello''"
proof -
  obtain c where c: "run_state (checkToken demo_web demo_server ''alice'' (demo_token ''alice'' ''user'')) user_gate =
    (Inr c, user_gate\<lparr>w_tick := Suc (w_tick user_gate)\<rparr>)" by (rule demo_checkToken)
  obtain resp obs' w' where run: "run_state (HandleUpload demo_web demo_server no_images mem_ostore demo_upload NewInMemoryObjectStore) user_gate = ((resp, obs'), w')"
    by (metis prod.exhaust)
  have "\<exists>i w1. run_state (HandleUpload demo_web demo_server no_images mem_ostore demo_upload NewInMemoryObjectStore) user_gate =
      (storeUpload no_images mem_ostore i ''a.txt'' ''hello'' NewInMemoryObjectStore, w1)"
    using c by (simp add: HandleUpload_def demo_upload_def Let_def run_bind run_return demo_server_def split_beta) blast
  moreover have "rs_Status (fst (storeUpload no_images mem_ostore i ''a.txt'' ''hello'' NewInMemoryObjectStore)) = 200" for i
    by (simp add: storeUpload_def storeThumb_def no_images_def ImageDimensions_def IsImageMIME_def mem_ostore_def ObjPut_def Let_def)
  ultimately have "rs_Status resp = 200" using run by (metis fst_conv)
  from upload_download [OF run this] obtain name data i where f: "up_file demo_upload = Inr (name, Inr data)"
    and down: "\<And>r w1 c. res (checkToken demo_web demo_server (Query r ''uid'') (Query r ''token'')) w1 = Inr c \<and> Query r ''id'' = i \<Longrightarrow>
      Query r ''thumb'' \<noteq> ''1'' \<Longrightarrow> res (HandleDownload demo_web demo_server mem_ostore r obs') w1 =
        \<lparr>rs_Status = 200, rs_ContentType = im_DetectContentType no_images data, rs_Body = data\<rparr>"
    by metis
  let ?r = "\<lparr>rq_Method = ''GET'', rq_formErr = None, rq_form = [], rq_query = [(''id'', i), (''uid'', ''alice''), (''token'', demo_token ''alice'' ''user'')], rq_Origin = []\<rparr>"
  have q: "Query ?r ''uid'' = ''alice''" "Query ?r ''token'' = demo_token ''alice'' ''user''" "Query ?r ''id'' = i" "Query ?r ''thumb'' \<noteq> ''1''"
    by (simp_all add: Query_def)
  have "rs_Body (res (HandleDownload demo_web demo_server mem_ostore ?r obs') user_gate) = ''hello''"
    using down [of ?r user_gate c] c q f by (simp add: demo_upload_def)
  with run q(3) show ?thesis by blast
qed

section \<open>The size of a thumbnail\<close>

text \<open>Rounding to the nearest double: a relative error of at most \<open>2 ^ -52\<close>.\<close>

definition rounds :: "(real \<Rightarrow> real) \<Rightarrow> bool" where
  "rounds rnd \<longleftrightarrow> (\<forall>x. \<bar>rnd x - x\<bar> \<le> \<bar>x\<bar> / 2 ^ 52)"

definition near :: "real \<Rightarrow> real \<Rightarrow> real \<Rightarrow> bool" where
  "near k x y \<longleftrightarrow> (\<exists>e. \<bar>e\<bar> \<le> k / 2 ^ 52 \<and> y = x * (1 + e))"

lemma near_rnd: "rounds rnd \<Longrightarrow> near 1 x (rnd x)"
proof (cases "x = 0")
  case True
  assume "rounds rnd"
  then have "\<bar>rnd 0 - 0\<bar> \<le> \<bar>0 :: real\<bar> / 2 ^ 52" unfolding rounds_def by blast
  then show ?thesis unfolding near_def by (intro exI [of _ 0]) (simp add: True)
next
  case False
  assume "rounds rnd"
  then have "\<bar>rnd x - x\<bar> \<le> \<bar>x\<bar> / 2 ^ 52" unfolding rounds_def by blast
  then have "\<bar>(rnd x - x) / x\<bar> \<le> 1 / 2 ^ 52" using False by (simp add: abs_divide field_simps)
  then show ?thesis unfolding near_def by (intro exI [of _ "(rnd x - x) / x"]) (use False in \<open>simp add: field_simps\<close>)
qed

lemma near_times:
  assumes "near j x y" "near k y z" "0 \<le> j" "j \<le> 8" "0 \<le> k" "k \<le> 8"
  shows "near (j + k + 1) x z"
proof -
  obtain e f where e: "\<bar>e\<bar> \<le> j / 2 ^ 52" "y = x * (1 + e)" and f: "\<bar>f\<bar> \<le> k / 2 ^ 52" "z = y * (1 + f)"
    using assms(1,2) by (auto simp: near_def)
  have "\<bar>e * f\<bar> \<le> (j / 2 ^ 52) * (k / 2 ^ 52)" unfolding abs_mult by (rule mult_mono) (use e f assms in auto)
  also have "\<dots> \<le> (8 / 2 ^ 52) * (8 / 2 ^ 52)" by (rule mult_mono) (use assms in \<open>auto simp: field_simps\<close>)
  also have "\<dots> \<le> 1 / 2 ^ 52" by simp
  finally have "\<bar>e + f + e * f\<bar> \<le> (j + k + 1) / 2 ^ 52" using e f by (simp add: add_divide_distrib)
  then show ?thesis unfolding near_def using e f by (intro exI [of _ "e + f + e * f"]) (simp add: algebra_simps)
qed

lemma near_inverse: "near 1 m m' \<Longrightarrow> 0 < m \<Longrightarrow> near 2 (c / m) (c / m')"
proof -
  assume "near 1 m m'" "0 < m"
  then obtain e where e: "\<bar>e\<bar> \<le> 1 / 2 ^ 52" "m' = m * (1 + e)" by (auto simp: near_def)
  have half: "1 / 2 \<le> 1 + e" using e(1) by (simp add: abs_le_iff)
  have "\<bar>e / (1 + e)\<bar> \<le> \<bar>e\<bar> / (1 / 2)" unfolding abs_divide by (rule divide_left_mono) (use half in auto)
  then have "\<bar>- e / (1 + e)\<bar> \<le> 2 / 2 ^ 52" using e(1) by simp
  moreover have "c / m' = c / m * (1 + - e / (1 + e))" using half \<open>0 < m\<close> by (simp add: e(2) field_simps)
  ultimately show ?thesis unfolding near_def by blast
qed

lemma thumb_scale:
  assumes r: "rounds rnd" and w: "0 < w" "w \<le> m"
  shows "\<bar>rnd (rnd (of_int w) * rnd (200 / rnd (of_int m))) - 200 * of_int w / of_int m\<bar> \<le> 1 / 2 ^ 40 \<and>
    0 \<le> rnd (rnd (of_int w) * rnd (200 / rnd (of_int m)))"
proof -
  let ?m = "real_of_int m" and ?w = "real_of_int w"
  note rnd = near_rnd [OF r]
  have s: "near 4 (200 / ?m) (rnd (200 / rnd ?m))"
    using near_times [OF near_inverse [OF rnd, of ?m 200] rnd] w by simp
  obtain a where a: "\<bar>a\<bar> \<le> 1 / 2 ^ 52" "rnd ?w = ?w * (1 + a)" using rnd [of ?w] by (auto simp: near_def)
  have "near 1 (?w * rnd (200 / rnd ?m)) (rnd ?w * rnd (200 / rnd ?m))"
    unfolding near_def by (intro exI [of _ a]) (use a in simp)
  moreover have "near 4 (200 * ?w / ?m) (?w * rnd (200 / rnd ?m))" using s unfolding near_def by (auto simp: field_simps)
  ultimately have "near 6 (200 * ?w / ?m) (rnd ?w * rnd (200 / rnd ?m))" using near_times [of 4 _ _ 1] by simp
  from near_times [OF this rnd] have "near 8 (200 * ?w / ?m) (rnd (rnd ?w * rnd (200 / rnd ?m)))" by simp
  then obtain e where e: "\<bar>e\<bar> \<le> 8 / 2 ^ 52" "rnd (rnd ?w * rnd (200 / rnd ?m)) = 200 * ?w / ?m * (1 + e)" by (auto simp: near_def)
  have x: "0 \<le> 200 * ?w / ?m" "200 * ?w / ?m \<le> 200" using w by (simp_all add: field_simps)
  have "\<bar>200 * ?w / ?m * e\<bar> \<le> 200 * (8 / 2 ^ 52)" unfolding abs_mult by (rule mult_mono) (use x e in auto)
  also have "\<dots> \<le> 1 / 2 ^ 40" by simp
  finally have "\<bar>200 * ?w / ?m * (1 + e) - 200 * ?w / ?m\<bar> \<le> 1 / 2 ^ 40" unfolding distrib_left mult_1_right by simp
  moreover have "0 \<le> 200 * ?w / ?m * (1 + e)" by (rule mult_nonneg_nonneg) (use x(1) e(1) in \<open>simp_all add: abs_le_iff\<close>)
  ultimately show ?thesis unfolding e(2) by simp
qed

text \<open>
  What the code relies on of the image packages: the destination has the size asked for, and the
  encoded image the size of the image.
\<close>

definition imaging_law :: "'i imaging \<Rightarrow> bool" where
  "imaging_law I \<longleftrightarrow> rounds (im_rnd I) \<and> (\<forall>w h i. 0 < w \<and> 0 < h \<longrightarrow> im_Size I (im_Scale I w h i) = (w, h)) \<and>
    (\<forall>i b. im_Jpeg I i = Inr b \<longrightarrow> im_DecodeConfig I b = Inr (im_Size I i))"

lemma thumb_side:
  assumes "rounds rnd" and "0 < w" "w \<le> m"
  defines "d \<equiv> go_trunc (rnd (rnd (of_int w) * rnd (of_int ThumbnailMaxDim / rnd (of_int m))))"
  shows "d \<le> 200" and "200 * of_int w / of_int m - 1 - 1 / 2 ^ 40 \<le> real_of_int d" and "real_of_int d \<le> 200 * of_int w / of_int m + 1 / 2 ^ 40"
proof -
  let ?v = "rnd (rnd (of_int w) * rnd (of_int ThumbnailMaxDim / rnd (of_int m)))" and ?x = "200 * real_of_int w / of_int m"
  have v: "\<bar>?v - ?x\<bar> \<le> 1 / 2 ^ 40" "0 \<le> ?v" using thumb_scale [OF assms(1-3)] by (simp_all add: ThumbnailMaxDim_def)
  then have d: "d = \<lfloor>?v\<rfloor>" by (simp add: d_def go_trunc_def)
  have "?x \<le> 200" using assms(2,3) by (simp add: field_simps)
  moreover have "?x - 1 / 2 ^ 40 \<le> ?v" "?v \<le> ?x + 1 / 2 ^ 40" using v(1) unfolding abs_le_iff by linarith+
  ultimately have "?v < 201" "?x - 1 - 1 / 2 ^ 40 \<le> \<lfloor>?v\<rfloor>" "\<lfloor>?v\<rfloor> \<le> ?x + 1 / 2 ^ 40" by (simp; linarith)+
  then show "d \<le> 200" "?x - 1 - 1 / 2 ^ 40 \<le> real_of_int d" "real_of_int d \<le> ?x + 1 / 2 ^ 40"
    unfolding d by (simp_all add: floor_le_iff)
qed

text \<open>
  C25. A thumbnail fits into the box of 200 by 200 pixels and is never empty; an image that fits
  already keeps its size, and each side of a larger one is the side of the image scaled by 200 to
  its longer side, short of it by little more than a pixel at most (and one pixel at least), whatever
  the floating-point arithmetic rounds.
\<close>

theorem thumbnail_bounds:
  assumes "imaging_law I" and "im_Decode I data = Inr src" and "im_Size I src = (w, h)" and "Thumbnail I data = Inr thumb"
  shows "\<exists>tw th. ImageDimensions I thumb = (tw, th) \<and> 1 \<le> tw \<and> tw \<le> 200 \<and> 1 \<le> th \<and> th \<le> 200 \<and>
    (if w \<le> 200 \<and> h \<le> 200 then (tw, th) = (w, h)
     else (\<forall>(t, s) \<in> {(tw, w), (th, h)}. 200 * of_int s / of_int (max w h) - 1 - 1 / 2 ^ 40 \<le> real_of_int t \<and>
       real_of_int t \<le> max 1 (200 * of_int s / of_int (max w h) + 1 / 2 ^ 40)))"
proof -
  let ?s = "thumbSize (im_rnd I) w h"
  have pos: "0 < w" "0 < h" and j: "im_Jpeg I (im_Scale I (fst ?s) (snd ?s) src) = Inr thumb"
    using assms(2-4) by (auto simp: Thumbnail_def Let_def split: if_splits prod.splits sum.splits)
  have r: "rounds (im_rnd I)" using assms(1) by (simp add: imaging_law_def)
  note side = thumb_side [OF r, of _ "max w h"]
  have s: "1 \<le> fst ?s" "1 \<le> snd ?s" using pos by (simp_all add: thumbSize_def Let_def)
  have dims: "ImageDimensions I thumb = (fst ?s, snd ?s)" using assms(1) j s by (simp add: imaging_law_def ImageDimensions_def)
  show ?thesis
  proof (cases "w \<le> 200 \<and> h \<le> 200")
    case True
    then have "?s = (w, h)" by (simp add: thumbSize_def ThumbnailMaxDim_def)
    with True pos dims show ?thesis by simp
  next
    case False
    then have t: "fst ?s = max 1 (go_trunc (im_rnd I (im_rnd I (of_int w) * im_rnd I (of_int ThumbnailMaxDim / im_rnd I (of_int (max w h))))))"
      "snd ?s = max 1 (go_trunc (im_rnd I (im_rnd I (of_int h) * im_rnd I (of_int ThumbnailMaxDim / im_rnd I (of_int (max w h))))))"
      by (auto simp: thumbSize_def ThumbnailMaxDim_def Let_def)
    have b: "1 \<le> max 1 d \<and> max 1 d \<le> 200 \<and> x - 1 - 1 / 2 ^ 40 \<le> real_of_int (max 1 d) \<and> real_of_int (max 1 d) \<le> max 1 (x + 1 / 2 ^ 40)"
      if "d \<le> 200" "x - 1 - 1 / 2 ^ 40 \<le> real_of_int d" "real_of_int d \<le> x + 1 / 2 ^ 40" for d x
      using that by (auto simp: max_def)
    note bw = b [OF side [of w]] and bh = b [OF side [of h]]
    show ?thesis
      using False pos bw bh unfolding dims t by auto
  qed
qed

text \<open>Codecs for one picture of 400 by 100 pixels and its thumbnail.\<close>

definition one_picture :: "(int \<times> int) imaging" where
  "one_picture = \<lparr>im_rnd = (\<lambda>x. x), im_Decode = (\<lambda>_. Inr (400, 100)), im_Size = (\<lambda>i. i), im_Scale = (\<lambda>w h i. (w, h)),
     im_Jpeg = (\<lambda>i. if i = (200, 50) then Inr ''J'' else Inl ''not supported''), im_DecodeConfig = (\<lambda>_. Inr (200, 50)),
     im_DetectContentType = (\<lambda>_. ''image/png'')\<rparr>"

theorem thumbnail_bounds_witness: "Thumbnail one_picture ''P'' = Inr ''J'' \<and> ImageDimensions one_picture ''J'' = (200, 50)"
proof -
  have l: "imaging_law one_picture" by (simp add: imaging_law_def one_picture_def rounds_def)
  have t: "Thumbnail one_picture ''P'' = Inr ''J''"
    by (simp add: Thumbnail_def one_picture_def thumbSize_def ThumbnailMaxDim_def go_trunc_def)
  have d: "im_Decode one_picture ''P'' = Inr (400, 100)" and s: "im_Size one_picture (400, 100) = (400, 100)" by (simp_all add: one_picture_def)
  from thumbnail_bounds [OF l d s t] obtain tw th where "ImageDimensions one_picture ''J'' = (tw, th)" "tw \<le> 200" by blast
  with t show ?thesis by (simp add: ImageDimensions_def one_picture_def)
qed

end
