(* ===== verification/App.thy ===== *)
theory App
  imports Config Cluster Server_Groups Server_Admin Files
begin

text \<open>
  The gateway process, \<open>cmd/gateway/main.go\<close>: how \<open>NewApp\<close> builds the components from the
  configuration, the table of HTTP paths in \<open>Run\<close>, and \<open>Close\<close>. What the outside answers while the
  process starts (\<open>boot\<close>) is an argument: the contents of Redis and of the database, which connection
  attempts fail, and the state of the logic service behind its address. Sizes in the configuration
  that become lengths of queues are taken as natural numbers.
\<close>

section \<open>Start-up\<close>

record boot =
  bt_redisPing :: "string option"
  bt_redisLists :: "(string, bytes list) gomap"
  bt_mysql :: "string + db"
  bt_kafka :: "string option"
  bt_logic :: "string + logic_server"
  bt_minio :: "(object_error + string)"
  bt_grpc :: "string option"
  bt_registered :: bool
  bt_keys :: "string list option"
  bt_get :: "string \<Rightarrow> string option"

datatype objects_kind = MemoryObjects | MinioObjects string

record app =
  ap_world :: world
  ap_server :: server
  ap_objects :: objects_kind
  ap_cluster :: "cluster option"
  ap_clusterRunning :: bool
  ap_checks :: "string list"

text \<open>\<open>NewServer\<close> of \<open>server.go\<close>; hub, router, generator and group store are parts of the state.\<close>

definition NewGatewayServer :: "manager \<Rightarrow> bool \<Rightarrow> bool \<Rightarrow> bool \<Rightarrow> nat \<Rightarrow> string list \<Rightarrow> int \<Rightarrow> string list \<Rightarrow> server" where
  "NewGatewayServer mgr userStore msgStore devMode sendBufSize origins maxUpload adminUIDs =
    \<lparr>sv_jwtMgr = mgr, sv_userStore = userStore, sv_msgStore = msgStore, sv_DevMode = devMode, sv_adminUIDs = adminUIDs,
     sv_sendBufSize = sendBufSize, sv_allowedOrigins = origins, sv_objectStore = True, sv_maxUpload = maxUpload\<rparr>"

text \<open>The administrators of the configuration are promoted, each with a fault plan of its own.\<close>

fun promoteAdmins :: "sql_env \<Rightarrow> (nat \<Rightarrow> faults) \<Rightarrow> nat \<Rightarrow> string list \<Rightarrow> db \<Rightarrow> db" where
  "promoteAdmins E flt i [] d = d"
| "promoteAdmins E flt i (u # us) d = promoteAdmins E flt (Suc i) us (snd (UpdateUserRole E (flt i) u ''admin'' d))"

definition redisUp :: "config \<Rightarrow> boot \<Rightarrow> bool" where
  "redisUp cfg b \<longleftrightarrow> rd_Addr (gw_Redis (cf_Gateway cfg)) \<noteq> [] \<and> bt_redisPing b = None"

definition bootOffline :: "config \<Rightarrow> boot \<Rightarrow> offline" where
  "bootOffline cfg b =
    (if redisUp cfg b
     then RedisOffline (WithFallback ((NewRedisStore (cn_OfflineMaxSize (gw_Conn (cf_Gateway cfg))))\<lparr>rs_lists := bt_redisLists b\<rparr>))
     else HubOffline)"

definition bootMySQL :: "sql_env \<Rightarrow> (nat \<Rightarrow> faults) \<Rightarrow> config \<Rightarrow> boot \<Rightarrow> db option" where
  "bootMySQL E flt cfg b =
    (if \<not> my_Enabled (gw_MySQL (cf_Gateway cfg)) then None
     else case bt_mysql b of Inl _ \<Rightarrow> None | Inr d \<Rightarrow> Some (promoteAdmins E flt 0 (cf_AdminUIDs cfg) d))"

definition bootKafka :: "config \<Rightarrow> boot \<Rightarrow> bool" where
  "bootKafka cfg b \<longleftrightarrow> kc_Enabled (gw_Kafka (cf_Gateway cfg)) \<and> kc_Brokers (gw_Kafka (cf_Gateway cfg)) \<noteq> [] \<and> bt_kafka b = None"

definition bootLogic :: "config \<Rightarrow> boot \<Rightarrow> logic_server option" where
  "bootLogic cfg b =
    (if lo_Addr (gw_Logic (cf_Gateway cfg)) = [] then None
     else case bt_logic b of Inl _ \<Rightarrow> None | Inr s \<Rightarrow> Some s)"

definition routerConfig :: "config \<Rightarrow> router_config" where
  "routerConfig cfg =
    \<lparr>rc_DedupTTL = gw_DedupTTL (cf_Gateway cfg), rc_PersistConcurrency = gw_PersistConcurrency (cf_Gateway cfg),
     rc_RecallWindowMs = gw_RecallWindowMs (cf_Gateway cfg), rc_HistoryDefaultLimit = gw_HistoryDefaultLimit (cf_Gateway cfg),
     rc_SearchDefaultLimit = gw_SearchDefaultLimit (cf_Gateway cfg), rc_RateLimitCleanup = rt_CleanupInterval (gw_RateLimit (cf_Gateway cfg))\<rparr>"

definition clusterConfig :: "config \<Rightarrow> boot \<Rightarrow> cluster_config" where
  "clusterConfig cfg b =
    (let g = gw_Grpc (cf_Gateway cfg); dsc = gc_Discovery g; viaRedis = (dc_Mode dsc = ''redis'' \<and> redisUp cfg b) in
     \<lparr>cc_ThisNodeID = gc_NodeID g, cc_ThisAddr = gc_Addr g, cc_HealthInterval = (if dc_HealthInterval dsc > 0 then dc_HealthInterval dsc else 0),
      cc_ProbeTimeout = 0, cc_Redis = viaRedis, cc_RedisPrefix = (if viaRedis then dc_RedisKey dsc else []),
      cc_TTL = (if viaRedis \<and> dc_TTL dsc > 0 then dc_TTL dsc else 0)\<rparr>)"

text \<open>
  The ring, the forwarder and the cluster manager, with the manager started if the own gRPC server
  came up; the router is given the ring and the forwarder in any case.
\<close>

definition startCluster :: "config \<Rightarrow> boot \<Rightarrow> cluster option" where
  "startCluster cfg b =
    (let g = gw_Grpc (cf_Gateway cfg) in
     if gc_Addr g = [] \<or> gc_NodeID g = [] then None
     else
       let s = bootCluster (gc_PeerAddrs g) (gc_ForwardDialTimeout g) (gc_ForwardRPCTimeout g) (clusterConfig cfg b)
       in Some (if bt_grpc b = None then ClusterStart (bt_registered b) (bt_keys b) (bt_get b) s else s))"

definition joinCluster :: "config \<Rightarrow> cluster option \<Rightarrow> world \<Rightarrow> world" where
  "joinCluster cfg cl w =
    (case cl of
       None \<Rightarrow> w
     | Some s \<Rightarrow> SetThisNodeID (gc_NodeID (gw_Grpc (cf_Gateway cfg))) (SetForwarder True (SetHashRing (Some (cs_ring s)) w)))"

definition bootObjects :: "config \<Rightarrow> boot \<Rightarrow> objects_kind" where
  "bootObjects cfg b =
    (if oc_Enabled (gw_ObjectStorage (cf_Gateway cfg))
     then (case bt_minio b of Inl _ \<Rightarrow> MemoryObjects | Inr bucket \<Rightarrow> MinioObjects bucket)
     else MemoryObjects)"

definition healthChecks :: "config \<Rightarrow> boot \<Rightarrow> bool \<Rightarrow> string list" where
  "healthChecks cfg b mysql =
    (if redisUp cfg b then [''redis''] else []) @ (if mysql then [''mysql''] else []) @
    (if bootKafka cfg b then [''kafka''] else []) @ (if bootObjects cfg b = MemoryObjects then [] else [''minio''])"

definition bootRouter :: "env \<Rightarrow> config \<Rightarrow> boot \<Rightarrow> heap \<Rightarrow> generator \<Rightarrow> db option \<Rightarrow> world" where
  "bootRouter V cfg b objs snow mysql =
    (let gw = cf_Gateway cfg;
         w = NewRouter objs (NewHub (nat (cn_OfflineMaxSize (gw_Conn gw)))) (bootOffline cfg b) snow
           (case mysql of None \<Rightarrow> migrate | Some d \<Rightarrow> d) (mysql \<noteq> None) (routerConfig cfg);
         w = (if bootKafka cfg b then SetKafkaProducer True w else w);
         w = (case bootLogic cfg b of None \<Rightarrow> w | Some s \<Rightarrow> SetLogicClient (Some s) w);
         w = (if rt_Enabled (gw_RateLimit gw) then SetRateLimit V (rt_Rate (gw_RateLimit gw)) (rt_Burst (gw_RateLimit gw)) w else w);
         n = st_MaxConnections (cf_Stability cfg);
         w = (if n > 0 then w\<lparr>w_hub := SetMaxConnections n (w_hub w)\<rparr> else w);
         w = joinCluster cfg (startCluster cfg b) w;
         w = SetGroupStore (Some (if mysql = None then MemGroups [] else SqlGroups)) w;
         w = (if redisUp cfg b then SetDedupRedis w else w);
         w = (if mysql = None then w else SetFriendStore True w)
     in SetUnreadTracker (Some NewInMemoryUnreadTracker) w)"

definition NewApp :: "env \<Rightarrow> (nat \<Rightarrow> faults) \<Rightarrow> config \<Rightarrow> boot \<Rightarrow> heap \<Rightarrow> snow_error + app" where
  "NewApp V flt cfg b objs =
    (case New (cf_SnowWorkerID cfg) of
       Inl e \<Rightarrow> Inl e
     | Inr snow \<Rightarrow>
         let gw = cf_Gateway cfg; mysql = bootMySQL (e_sql V) flt cfg b in
         Inr \<lparr>ap_world = bootRouter V cfg b objs snow mysql,
           ap_server = NewGatewayServer (NewManager (jc_Secret (cf_JWT cfg)) (jc_Expiration (cf_JWT cfg))) (mysql \<noteq> None) (mysql \<noteq> None)
             (gw_DevMode gw) (nat (cn_SendBufSize (gw_Conn gw))) (gw_CheckOrigin gw) (oc_MaxUpload (gw_ObjectStorage gw)) (cf_AdminUIDs cfg),
           ap_objects = bootObjects cfg b, ap_cluster = startCluster cfg b,
           ap_clusterRunning = (startCluster cfg b \<noteq> None \<and> bt_grpc b = None), ap_checks = healthChecks cfg b (mysql \<noteq> None)\<rparr>)"

text \<open>\<open>StartGNet\<close>: the TCP handler and its front end, on the first free address \<open>n\<close>.\<close>

definition StartGNet :: "config \<Rightarrow> app \<Rightarrow> addr \<Rightarrow> gnet_handler \<times> front" where
  "StartGNet cfg ap n =
    (let gw = cf_Gateway cfg; k = gn_WorkerPoolSize (gw_GNet gw) in
     (NewGnetHandler (sv_jwtMgr (ap_server ap)) (nat (cn_SendBufSize (gw_Conn gw))) (cn_MaxMsgSize (gw_Conn gw))
        (i64 (gw_Heartbeat gw * gw_HeartbeatFail gw)),
      new_front (ap_world ap) n (if k \<le> 0 then 0 else k)))"

text \<open>\<open>Close\<close>, as far as it changes the modelled state; \<open>cl\<close> are the errors of closing connections.\<close>

definition AppClose :: "bool \<Rightarrow> (string \<Rightarrow> string option) \<Rightarrow> app \<Rightarrow> app" where
  "AppClose redisOk cl ap =
    (let ap = ap\<lparr>ap_world := Stop (ap_world ap)\<rparr>;
         ap = (if ap_clusterRunning ap then ap\<lparr>ap_cluster := map_option (ClusterStop redisOk) (ap_cluster ap)\<rparr> else ap)
     in ap\<lparr>ap_cluster := map_option (\<lambda>s. s\<lparr>cs_fwd := snd (ForwarderClose cl (cs_fwd s))\<rparr>) (ap_cluster ap)\<rparr>)"

section \<open>Run\<close>

text \<open>What \<open>Run\<close> reads from the configuration before it serves: transports, optional endpoints and timeouts.\<close>

record run_settings =
  rn_Transport :: string
  rn_WS :: bool
  rn_GNet :: bool
  rn_Metrics :: bool
  rn_Pprof :: "string option"
  rn_Shutdown :: int
  rn_ReadTimeout :: int
  rn_WriteTimeout :: int
  rn_IdleTimeout :: int

definition positive_or :: "int \<Rightarrow> int \<Rightarrow> int" where
  "positive_or d x = (if x \<le> 0 then d else x)"

definition runSettings :: "config \<Rightarrow> run_settings" where
  "runSettings cfg =
    (let st = cf_Stability cfg; tr = (if gw_Transport (cf_Gateway cfg) = [] then ''websocket'' else gw_Transport (cf_Gateway cfg)) in
     \<lparr>rn_Transport = tr, rn_WS = (tr = ''websocket'' \<or> tr = ''both''), rn_GNet = (tr = ''gnet'' \<or> tr = ''both''),
      rn_Metrics = st_MetricsEnabled st,
      rn_Pprof = (if st_PprofEnabled st \<and> st_PprofAddr st \<noteq> [] then Some (st_PprofAddr st) else None),
      rn_Shutdown = positive_or (seconds_of 30) (st_ShutdownTimeout st), rn_ReadTimeout = positive_or (seconds_of 10) (st_HTTPReadTimeout st),
      rn_WriteTimeout = positive_or (seconds_of 10) (st_HTTPWriteTimeout st), rn_IdleTimeout = positive_or (seconds_of 120) (st_HTTPIdleTimeout st)\<rparr>)"

section \<open>Paths\<close>

text \<open>The handlers that need neither the object store nor an upgrade of the connection.\<close>

definition plainRoutes :: "checks \<Rightarrow> int \<times> int \<Rightarrow> web_env \<Rightarrow> server \<Rightarrow> http_req \<Rightarrow> (string, http_resp io) gomap" where
  "plainRoutes checks rt W s r =
    [(''/login'', HandleLogin W s r), (''/register'', HandleRegister W s r), (''/online'', HandleOnlineUsers),
     (''/group/create'', HandleGroupCreate W s r), (''/group/join'', HandleGroupJoin W s r), (''/group/invite'', HandleGroupInvite W s r),
     (''/group/leave'', HandleGroupLeave W s r), (''/group/kick'', HandleGroupKick W s r), (''/group/rename'', HandleGroupRename W s r),
     (''/group/transfer'', HandleGroupTransfer W s r), (''/group/members'', HandleGroupMembers W s r), (''/group/list'', HandleGroupList W s r),
     (''/unread'', HttpUnreadCount W s r), (''/search'', HandleSearch W s r), (''/change-password'', HandleChangePassword W s r),
     (''/friend/request'', HttpFriendRequest W s r), (''/friend/accept'', HandleFriendAccept W s r), (''/friend/reject'', HandleFriendReject W s r),
     (''/friend/remove'', HandleFriendRemove W s r), (''/friend/list'', HandleFriendList W s r), (''/health'', HandleHealth checks rt),
     (''/admin/stats'', HandleAdminStats checks rt W s r), (''/admin/users'', HandleAdminUsers W s r), (''/admin/users/delete'', HandleAdminUserDelete W s r),
     (''/admin/messages'', HandleAdminMessages W s r), (''/admin/messages/delete'', HandleAdminMessageDelete W s r)]"

text \<open>
  The multiplexer, behind \<open>Recovery\<close>: the handler of the path, or a 404. The paths \<open>/ws\<close> (a long-lived
  connection, \<open>HandleWS\<close>) and \<open>/metrics\<close> (the metrics library) are not served here.
\<close>

definition serve :: "checks \<Rightarrow> int \<times> int \<Rightarrow> web_env \<Rightarrow> server \<Rightarrow> 'i imaging \<Rightarrow> 'o ostore \<Rightarrow> string \<Rightarrow> upload_req \<Rightarrow> 'o \<Rightarrow> (http_resp \<times> 'o) io" where
  "serve checks rt W s I S path u obs =
    (if path = ''/upload'' then HandleUpload W s I S u obs
     else do {
       x \<leftarrow> Recovery (do {
         y \<leftarrow> (if path = ''/file'' then HandleDownload W s S (up_req u) obs
              else case map_of (plainRoutes checks rt W s (up_req u)) path of
                None \<Rightarrow> fail ''404 page not found'' 404
              | Some h \<Rightarrow> h);
         State_Monad.return (Some y) });
       State_Monad.return (x, obs) })"

section \<open>Requests without a token\<close>

definition locked :: "http_resp io \<Rightarrow> bool" where
  "locked h \<longleftrightarrow> (\<forall>w. rs_Status (res h w) \<noteq> 200 \<and> post h w \<in> {w, w\<lparr>w_tick := Suc (w_tick w)\<rparr>})"

definition anonymous :: "web_env \<Rightarrow> server \<Rightarrow> http_req \<Rightarrow> bool" where
  "anonymous W s r \<longleftrightarrow> (\<forall>f \<in> {FormValue r, Query r}. \<forall>t c. TokenValidate (we_jwt W) (sv_jwtMgr s) t (f ''token'') = Inr c \<longrightarrow> cl_UID c \<noteq> f ''uid'')"

lemma anonymous_not_proven: "anonymous W s r \<Longrightarrow> \<not> proven W s r w c"
  by (auto simp: anonymous_def proven_def reqParam_def)

lemma locked_withAuth: "anonymous W s r \<Longrightarrow> locked (withAuth W s r k)"
  unfolding locked_def
proof
  fix w assume "anonymous W s r"
  then show "rs_Status (res (withAuth W s r k) w) \<noteq> 200 \<and> post (withAuth W s r k) w \<in> {w, w\<lparr>w_tick := Suc (w_tick w)\<rparr>}"
    by (cases rule: withAuth_cases [of W s r w k]) (auto dest: anonymous_not_proven)
qed

lemma locked_withAdmin: "anonymous W s r \<Longrightarrow> locked (withAdmin W s r k)"
  unfolding withAdmin_withAuth by (rule locked_withAuth)

lemma locked_postOnly: "locked k \<Longrightarrow> locked (postOnly r k)"
  by (simp add: locked_def postOnly_def run_fail)

lemma locked_withGroups: "locked k \<Longrightarrow> locked (withGroups k)"
  by (simp add: locked_def withGroups_def run_bind run_hasGroups run_fail)

lemmas locked_rules = locked_postOnly locked_withGroups locked_withAdmin locked_withAuth

lemma locked_groups:
  assumes "anonymous W s r"
  shows "locked (HandleGroupCreate W s r)" "locked (HandleGroupJoin W s r)" "locked (HandleGroupInvite W s r)" "locked (HandleGroupLeave W s r)"
    "locked (HandleGroupKick W s r)" "locked (HandleGroupRename W s r)" "locked (HandleGroupTransfer W s r)" "locked (HandleGroupMembers W s r)"
    "locked (HandleGroupList W s r)"
  unfolding HandleGroupCreate_def HandleGroupJoin_def HandleGroupInvite_def HandleGroupLeave_def HandleGroupKick_def HandleGroupRename_def
    HandleGroupTransfer_def HandleGroupMembers_def HandleGroupList_def
  by (intro locked_rules assms)+

lemma locked_users:
  assumes "anonymous W s r"
  shows "locked (HttpUnreadCount W s r)" "locked (HandleChangePassword W s r)" "locked (HttpFriendRequest W s r)" "locked (HandleFriendAccept W s r)"
    "locked (HandleFriendReject W s r)" "locked (HandleFriendRemove W s r)" "locked (HandleFriendList W s r)" "locked (HandleAdminStats checks rt W s r)"
    "locked (HandleAdminUsers W s r)" "locked (HandleAdminUserDelete W s r)" "locked (HandleAdminMessages W s r)" "locked (HandleAdminMessageDelete W s r)"
  unfolding HttpUnreadCount_def HandleChangePassword_def HttpFriendRequest_def HandleFriendAccept_def HandleFriendReject_def HandleFriendRemove_def
    HandleFriendList_def HandleAdminStats_def HandleAdminUsers_def HandleAdminUserDelete_def HandleAdminMessages_def HandleAdminMessageDelete_def
  by (intro locked_rules assms)+

text \<open>The handlers that check the token themselves.\<close>

lemma anonymous_checkToken:
  assumes "anonymous W s r" and "f \<in> {FormValue r, Query r}"
  obtains e where "res (checkToken W s (f ''uid'') (f ''token'')) w = Inl e" "rs_Status e \<noteq> 200"
    "post (checkToken W s (f ''uid'') (f ''token'')) w \<in> {w, w\<lparr>w_tick := Suc (w_tick w)\<rparr>}"
proof -
  have "TokenValidate (we_jwt W) (sv_jwtMgr s) t (f ''token'') = Inr c \<Longrightarrow> cl_UID c \<noteq> f ''uid''" for t c
    using assms unfolding anonymous_def by blast
  then have "(\<exists>e. res (checkToken W s (f ''uid'') (f ''token'')) w = Inl e \<and> rs_Status e \<noteq> 200) \<and>
      post (checkToken W s (f ''uid'') (f ''token'')) w \<in> {w, w\<lparr>w_tick := Suc (w_tick w)\<rparr>}"
    by (auto simp: checkToken_def run_simps split: sum.split)
  then show thesis using that by blast
qed

lemma locked_search: "anonymous W s r \<Longrightarrow> locked (HandleSearch W s r)"
  unfolding locked_def
proof
  fix w assume a: "anonymous W s r"
  obtain e where "res (checkToken W s (Query r ''uid'') (Query r ''token'')) w = Inl e" "rs_Status e \<noteq> 200"
    "post (checkToken W s (Query r ''uid'') (Query r ''token'')) w \<in> {w, w\<lparr>w_tick := Suc (w_tick w)\<rparr>}"
    by (rule anonymous_checkToken [OF a, of "Query r" w]) auto
  then show "rs_Status (res (HandleSearch W s r) w) \<noteq> 200 \<and> post (HandleSearch W s r) w \<in> {w, w\<lparr>w_tick := Suc (w_tick w)\<rparr>}"
    unfolding HandleSearch_def Let_def by (simp add: run_bind run_return split_beta)
qed

lemma locked_download: "anonymous W s r \<Longrightarrow> locked (HandleDownload W s S r obs)"
  unfolding locked_def
proof
  fix w assume a: "anonymous W s r"
  obtain e where "res (checkToken W s (Query r ''uid'') (Query r ''token'')) w = Inl e" "rs_Status e \<noteq> 200"
    "post (checkToken W s (Query r ''uid'') (Query r ''token'')) w \<in> {w, w\<lparr>w_tick := Suc (w_tick w)\<rparr>}"
    by (rule anonymous_checkToken [OF a, of "Query r" w]) auto
  then show "rs_Status (res (HandleDownload W s S r obs) w) \<noteq> 200 \<and> post (HandleDownload W s S r obs) w \<in> {w, w\<lparr>w_tick := Suc (w_tick w)\<rparr>}"
    unfolding HandleDownload_def by (simp add: run_bind run_return run_fail split_beta)
qed

lemma locked_upload:
  assumes "anonymous W s (up_req u)"
  shows "rs_Status (fst (res (HandleUpload W s I S u obs) w)) \<noteq> 200 \<and> snd (res (HandleUpload W s I S u obs) w) = obs \<and>
    post (HandleUpload W s I S u obs) w \<in> {w, w\<lparr>w_tick := Suc (w_tick w)\<rparr>}"
proof -
  obtain e where "res (checkToken W s (FormValue (up_req u) ''uid'') (FormValue (up_req u) ''token'')) w = Inl e" "rs_Status e \<noteq> 200"
    "post (checkToken W s (FormValue (up_req u) ''uid'') (FormValue (up_req u) ''token'')) w \<in> {w, w\<lparr>w_tick := Suc (w_tick w)\<rparr>}"
    by (rule anonymous_checkToken [OF assms, of "FormValue (up_req u)" w]) auto
  then show ?thesis unfolding HandleUpload_def Let_def by (simp add: run_bind run_return split_beta)
qed

section \<open>Properties\<close>

text \<open>
  C23. Five paths are open to everybody (login, registration, the list of users online, the health
  report and the metrics), and \<open>/ws\<close> checks the token while the connection is upgraded. On every
  other path a request that carries no token the gateway accepts for the user it names gets an error,
  whatever else it contains, and changes nothing: no table, group, queue or stored file, at most the
  clock was read.
\<close>

theorem http_surface:
  assumes "anonymous W s (up_req u)" and "path \<notin> {''/login'', ''/register'', ''/online'', ''/health'', ''/metrics'', ''/ws''}"
  shows "rs_Status (fst (res (serve checks rt W s I S path u obs) w)) \<noteq> 200 \<and> snd (res (serve checks rt W s I S path u obs) w) = obs \<and>
    post (serve checks rt W s I S path u obs) w \<in> {w, w\<lparr>w_tick := Suc (w_tick w)\<rparr>}"
proof (cases "path = ''/upload''")
  case True
  then show ?thesis using locked_upload [OF assms(1)] by (simp add: serve_def)
next
  case False
  let ?h = "if path = ''/file'' then HandleDownload W s S (up_req u) obs
    else case map_of (plainRoutes checks rt W s (up_req u)) path of None \<Rightarrow> fail ''404 page not found'' 404 | Some h \<Rightarrow> h"
  have none: "locked (fail ''404 page not found'' 404)" by (simp add: locked_def run_fail)
  have "locked h" if "map_of (plainRoutes checks rt W s (up_req u)) path = Some h" for h
    using that assms(2) locked_groups [OF assms(1)] locked_users(1-7,9-12) [OF assms(1)] locked_users(8) [OF assms(1), of checks rt] locked_search [OF assms(1)]
    unfolding plainRoutes_def by (auto split: if_splits)
  then have "locked ?h" using locked_download [OF assms(1), of S obs] none by (auto split: option.split)
  then have "rs_Status (res ?h w) \<noteq> 200 \<and> post ?h w \<in> {w, w\<lparr>w_tick := Suc (w_tick w)\<rparr>}" unfolding locked_def by blast
  moreover have "run_state (serve checks rt W s I S path u obs) w = ((res ?h w, obs), post ?h w)"
    unfolding serve_def Recovery_def if_not_P [OF False] by (simp only: run_bind run_return State_Monad.bind_assoc split_beta option.case fst_conv snd_conv)
  ultimately show ?thesis by simp
qed

lemma demo_anonymous: "anonymous demo_web demo_server (post_form [(''uid'', ''alice''), (''token'', demo_token ''bob'' ''admin''), (''target_uid'', ''alice'')])"
proof -
  let ?r = "post_form [(''uid'', ''alice''), (''token'', demo_token ''bob'' ''admin''), (''target_uid'', ''alice'')]"
  let ?c = "\<lparr>cl_UID = ''bob'', cl_Username = ''bob'', cl_Role = ''admin'', cl_ExpiresAt = \<lparr>wall = 4102444800000000000, mono = 4102444800000000000\<rparr>,
     cl_IssuedAt = \<lparr>wall = 0, mono = 0\<rparr>, cl_Issuer = ''im-server''\<rparr>"
  have "cl_UID c \<noteq> ''alice''" if "TokenValidate plain_jwt (NewManager ''s'' e) t (demo_token ''bob'' ''admin'') = Inr c" for e t c
    using that plain_jwt_parse [of "tokenKey (NewManager ''s'' e)" t "''s''" ?c]
    by (auto simp: TokenValidate_def demo_token_def tokenKey_def NewManager_def dec_enc_claims split: if_splits)
  moreover have "TokenValidate plain_jwt (NewManager ''s'' e) t [] = Inr c \<Longrightarrow> cl_UID c \<noteq> []" for e t c
    by (auto simp: TokenValidate_def plain_jwt_def dec_str_def tokenKey_def NewManager_def Let_def split: if_splits)
  ultimately show ?thesis by (auto simp: anonymous_def Query_def post_form_def FormValue_def)
qed

theorem http_surface_witness:
  "rs_Status (fst (res (serve [] (0, 0) demo_web demo_server no_images mem_ostore ''/admin/users/delete''
    \<lparr>up_req = post_form [(''uid'', ''alice''), (''token'', demo_token ''bob'' ''admin''), (''target_uid'', ''alice'')], up_multipartErr = None,
     up_file = Inl ''none''\<rparr> NewInMemoryObjectStore) user_gate)) \<noteq> 200"
  by (rule http_surface [THEN conjunct1]) (simp_all add: demo_anonymous)

text \<open>The state \<open>NewApp\<close> starts from.\<close>

lemma joinCluster_parts [simp]:
  "w_hub (joinCluster cfg cl w) = w_hub w" "w_objs (joinCluster cfg cl w) = w_objs w" "w_dedup (joinCluster cfg cl w) = w_dedup w"
  "w_persistTasks (joinCluster cfg cl w) = w_persistTasks w" "w_offline (joinCluster cfg cl w) = w_offline w"
  by (simp_all add: joinCluster_def SetHashRing_def SetForwarder_def SetThisNodeID_def split: option.split)

lemmas setters = SetKafkaProducer_def SetLogicClient_def SetHashRing_def SetForwarder_def SetThisNodeID_def SetGroupStore_def
  SetUnreadTracker_def SetDedupRedis_def SetFriendStore_def SetRateLimit_def

lemma bootRouter_parts:
  "w_objs (bootRouter V cfg b objs snow my) = objs" "w_persistTasks (bootRouter V cfg b objs snow my) = []"
  "w_offline (bootRouter V cfg b objs snow my) = bootOffline cfg b"
  "w_groupStore (bootRouter V cfg b objs snow my) = Some (if my = None then MemGroups [] else SqlGroups)"
  "h_clients (w_hub (bootRouter V cfg b objs snow my)) = []" "h_offline (w_hub (bootRouter V cfg b objs snow my)) = []"
  by (simp_all add: bootRouter_def NewRouter_def setters Let_def SetMaxConnections_def NewHub_def split: option.split)

lemma bootRouter_dedup: "d_seen (w_dedup (bootRouter V cfg b objs snow my)) = []" "d_redisTasks (w_dedup (bootRouter V cfg b objs snow my)) = []"
  by (simp_all add: bootRouter_def NewRouter_def setters Let_def NewDedupCache_def SetRedis_def split: option.split)

lemma bootRouter_ok:
  assumes "0 < cn_OfflineMaxSize (gw_Conn (cf_Gateway cfg))"
    and "\<forall>k xs. map_of (bt_redisLists b) k = Some xs \<longrightarrow> int (length xs) \<le> cn_OfflineMaxSize (gw_Conn (cf_Gateway cfg))"
  shows "world_ok (bootRouter V cfg b objs snow my)"
proof -
  have "hub_ok (w_hub (bootRouter V cfg b objs snow my)) objs"
    by (simp add: hub_ok_def bootRouter_parts own_uids_def offline_queue_def)
  moreover have "redis_bounded rs" if "bootOffline cfg b = RedisOffline rs" for rs
    using that assms by (auto simp: bootOffline_def redis_bounded_def redis_list_def WithFallback_def NewRedisStore_def split: if_splits option.split)
  moreover have "groups_ok []" by (simp add: groups_ok_def)
  ultimately show ?thesis by (simp add: world_ok_def bootRouter_parts bootRouter_dedup dedup_ok_def)
qed


text \<open>A process with the default configuration, nothing around it reachable.\<close>

definition alone :: boot where
  "alone = \<lparr>bt_redisPing = Some ''refused'', bt_redisLists = [], bt_mysql = Inl ''refused'', bt_kafka = Some ''refused'', bt_logic = Inl ''refused'',
     bt_minio = Inl (MinioSetup ''minio client'' ''refused''), bt_grpc = Some ''refused'', bt_registered = False, bt_keys = None, bt_get = (\<lambda>_. None)\<rparr>"


end
