(* ===== verification/Metrics.thy ===== *)
theory Metrics
  imports Router
begin

text \<open>
  The business metrics, \<open>internal/observability/metrics.go\<close>. The state of the router keeps the list of
  what was recorded (\<open>w_metrics\<close>); here are the counters the recording methods maintain. A counter
  vector is a map from labels, the histogram the list of its observations in nanoseconds. Recording on
  a nil pointer (\<open>None\<close>) does nothing. The registry and its text format belong to the Prometheus library.
\<close>

type_synonym counter_vec = "(string, nat) gomap"

record metrics =
  mt_Commands :: counter_vec
  mt_MessagesReceived :: counter_vec
  mt_MessagesDelivered :: counter_vec
  mt_DeliveryFailures :: nat
  mt_DuplicateDropped :: nat
  mt_GroupFanoutSends :: nat
  mt_PersistSuccess :: nat
  mt_PersistFail :: nat
  mt_PersistQueueDrop :: nat
  mt_DeliveryDuration :: "(string \<times> int) list"

definition NewMetrics :: metrics where
  "NewMetrics = \<lparr>mt_Commands = [], mt_MessagesReceived = [], mt_MessagesDelivered = [], mt_DeliveryFailures = 0, mt_DuplicateDropped = 0,
     mt_GroupFanoutSends = 0, mt_PersistSuccess = 0, mt_PersistFail = 0, mt_PersistQueueDrop = 0, mt_DeliveryDuration = []\<rparr>"

definition counter :: "string \<Rightarrow> counter_vec \<Rightarrow> nat" where
  "counter l v = (case map_of v l of None \<Rightarrow> 0 | Some n \<Rightarrow> n)"

definition Inc :: "string \<Rightarrow> counter_vec \<Rightarrow> counter_vec" where
  "Inc l v = AList.update l (Suc (counter l v)) v"

definition cmdNames :: "(int, string) gomap" where
  "cmdNames =
    [(CmdNone, ''CmdNone''), (CmdChat, ''CmdChat''), (CmdAck, ''CmdAck''), (CmdLogin, ''CmdLogin''), (CmdLoginResp, ''CmdLoginResp''),
     (CmdOffline, ''CmdOffline''), (CmdHeartbeat, ''CmdHeartbeat''), (CmdKick, ''CmdKick''), (CmdHistory, ''CmdHistory''),
     (CmdReadReceipt, ''CmdReadReceipt''), (CmdUnreadCount, ''CmdUnreadCount''), (CmdSearch, ''CmdSearch''),
     (CmdGroupCreate, ''CmdGroupCreate''), (CmdGroupJoin, ''CmdGroupJoin''), (CmdGroupLeave, ''CmdGroupLeave''),
     (CmdGroupInfo, ''CmdGroupInfo''), (CmdGroupList, ''CmdGroupList''), (CmdFile, ''CmdFile''),
     (CmdGroupInviteMember, ''CmdGroupInviteMember''), (CmdRecall, ''CmdRecall''), (CmdFriendRequest, ''CmdFriendRequest''),
     (CmdFriendResponse, ''CmdFriendResponse''), (CmdTyping, ''CmdTyping''), (CmdForward, ''CmdForward''), (CmdEdit, ''CmdEdit'')]"

definition cmdName :: "int \<Rightarrow> string" where
  "cmdName cmd = (case map_of cmdNames cmd of Some n \<Rightarrow> n | None \<Rightarrow> show_int cmd)"

fun recordOn :: "metric \<Rightarrow> metrics \<Rightarrow> metrics" where
  "recordOn (MCommand cmd) m = m\<lparr>mt_Commands := Inc (cmdName cmd) (mt_Commands m)\<rparr>"
| "recordOn (MReceived t) m = m\<lparr>mt_MessagesReceived := Inc t (mt_MessagesReceived m)\<rparr>"
| "recordOn (MDelivered t) m = m\<lparr>mt_MessagesDelivered := Inc t (mt_MessagesDelivered m)\<rparr>"
| "recordOn MDeliveryFailure m = m\<lparr>mt_DeliveryFailures := Suc (mt_DeliveryFailures m)\<rparr>"
| "recordOn MDuplicateDropped m = m\<lparr>mt_DuplicateDropped := Suc (mt_DuplicateDropped m)\<rparr>"
| "recordOn MGroupFanoutSend m = m\<lparr>mt_GroupFanoutSends := Suc (mt_GroupFanoutSends m)\<rparr>"
| "recordOn MPersistSuccess m = m\<lparr>mt_PersistSuccess := Suc (mt_PersistSuccess m)\<rparr>"
| "recordOn MPersistFail m = m\<lparr>mt_PersistFail := Suc (mt_PersistFail m)\<rparr>"
| "recordOn MPersistQueueDrop m = m\<lparr>mt_PersistQueueDrop := Suc (mt_PersistQueueDrop m)\<rparr>"
| "recordOn (MDeliveredDuration t d) m = m\<lparr>mt_DeliveryDuration := mt_DeliveryDuration m @ [(t, d)]\<rparr>"

definition Record :: "metric \<Rightarrow> metrics option \<Rightarrow> metrics option" where
  "Record x m = (case m of None \<Rightarrow> None | Some m \<Rightarrow> Some (recordOn x m))"

text \<open>The gauges, from callbacks that may be missing: connections, limiter, duplicate filter, pool.\<close>

record gauges =
  ga_online :: int
  ga_allowed :: int
  ga_rejected :: int
  ga_marks :: int
  ga_drops :: int

definition or_zero :: "int option \<Rightarrow> int" where
  "or_zero x = (case x of None \<Rightarrow> 0 | Some n \<Rightarrow> n)"

definition readGauges :: "int option \<Rightarrow> (int \<times> int) option \<Rightarrow> int option \<Rightarrow> int option \<Rightarrow> gauges" where
  "readGauges online limits marks drops =
    \<lparr>ga_online = or_zero online, ga_allowed = or_zero (map_option fst limits), ga_rejected = or_zero (map_option snd limits),
     ga_marks = or_zero marks, ga_drops = or_zero drops\<rparr>"

section \<open>Counting\<close>

lemma counter_Inc: "counter l (Inc k v) = (if l = k then Suc (counter l v) else counter l v)"
  by (simp add: counter_def Inc_def map_of_update)

lemma show_int_no_letter: "CHR ''C'' \<notin> set (show_int x)"
proof -
  have "CHR ''C'' \<notin> set (show_nat n)" for n using set_show_nat [of "CHR ''C''" n] by force
  then show ?thesis by (simp add: show_int_def)
qed

lemma cmdName_inject: "cmdName c = cmdName d \<longleftrightarrow> c = d"
proof
  assume eq: "cmdName c = cmdName d"
  have names: "CHR ''C'' \<in> set n" if "map_of cmdNames x = Some n" for x n
    using map_of_SomeD [OF that] by (auto simp: cmdNames_def)
  have "distinct (map snd cmdNames)" by (simp add: cmdNames_def)
  then have inj: "inj_on snd (set cmdNames)" by (simp add: distinct_map)
  show "c = d"
  proof (cases "map_of cmdNames c"; cases "map_of cmdNames d")
    fix n m assume "map_of cmdNames c = Some n" "map_of cmdNames d = Some m"
    then have "(c, n) \<in> set cmdNames" "(d, m) \<in> set cmdNames" "n = m" using eq by (auto simp: cmdName_def dest: map_of_SomeD)
    then show ?thesis using inj_onD [OF inj, of "(c, n)" "(d, m)"] by simp
  qed (use eq names show_int_no_letter in \<open>auto simp: cmdName_def show_int_inject\<close>)
qed simp

text \<open>
  The counters are the counts of what was recorded: each command and each kind of chat is
  counted under its own label, no two commands share one, and nothing recorded is missed.
\<close>

theorem metrics_count:
  assumes "M = fold recordOn xs NewMetrics"
  shows "counter (cmdName c) (mt_Commands M) = length (filter (\<lambda>x. x = MCommand c) xs) \<and>
    counter t (mt_MessagesReceived M) = length (filter (\<lambda>x. x = MReceived t) xs) \<and>
    counter t (mt_MessagesDelivered M) = length (filter (\<lambda>x. x = MDelivered t) xs) \<and>
    mt_DeliveryFailures M = length (filter (\<lambda>x. x = MDeliveryFailure) xs) \<and>
    mt_PersistSuccess M = length (filter (\<lambda>x. x = MPersistSuccess) xs) \<and>
    mt_PersistFail M = length (filter (\<lambda>x. x = MPersistFail) xs) \<and>
    mt_PersistQueueDrop M = length (filter (\<lambda>x. x = MPersistQueueDrop) xs) \<and>
    fold Record xs None = None \<and> fold Record xs (Some NewMetrics) = Some M"
proof -
  have "fold Record xs (Some m) = Some (fold recordOn xs m)" for m
    by (induction xs arbitrary: m) (simp_all add: Record_def)
  moreover have "fold Record xs None = None" by (induction xs) (simp_all add: Record_def)
  moreover have count: "P (fold recordOn xs m) = P m + length (filter (\<lambda>x. x = y) xs)"
    if "\<And>x m. P (recordOn x m) = P m + (if x = y then 1 else 0)" for P :: "metrics \<Rightarrow> nat" and y m
    by (induction xs arbitrary: m) (simp_all add: that)
  have "P (fold recordOn xs NewMetrics) = length (filter (\<lambda>x. x = y) xs)"
    if "(P, y) \<in> {(\<lambda>m. counter (cmdName c) (mt_Commands m), MCommand c), (\<lambda>m. counter t (mt_MessagesReceived m), MReceived t),
      (\<lambda>m. counter t (mt_MessagesDelivered m), MDelivered t), (mt_DeliveryFailures, MDeliveryFailure), (mt_PersistSuccess, MPersistSuccess),
      (mt_PersistFail, MPersistFail), (mt_PersistQueueDrop, MPersistQueueDrop)}" for P :: "metrics \<Rightarrow> nat" and y
  proof -
    have "P (recordOn x m) = P m + (if x = y then 1 else 0)" for x m
      using that by (cases x) (auto simp: counter_Inc cmdName_inject split: if_splits)
    moreover have "P NewMetrics = 0" using that by (auto simp: NewMetrics_def counter_def)
    ultimately show ?thesis using count [of P y NewMetrics] by simp
  qed
  ultimately show ?thesis unfolding assms by (intro conjI) blast+
qed

theorem metrics_count_witness:
  "counter ''CmdChat'' (mt_Commands (fold recordOn [MCommand 1, MReceived ''single'', MCommand 1, MCommand 99] NewMetrics)) = 2"
  using metrics_count [OF refl, where xs = "[MCommand 1, MReceived ''single'', MCommand 1, MCommand 99]" and c = 1]
  by (simp add: cmdName_def cmdNames_def cmd_defs)

end
