(* ===== verification/Router_Commands.thy ===== *)
theory Router_Commands
  imports Router_Delivery
begin

text \<open>
  What single commands of the router do: fetching offline messages, typing notices, editing,
  recalling, friend requests, and the persistence workers behind them.
\<close>

section \<open>Sending in a row\<close>

definition pushed :: "bytes list \<Rightarrow> client \<Rightarrow> client" where
  "pushed ds c = c\<lparr>c_send := c_send c @ ds\<rparr>"

lemma pushed_simps [simp]:
  "pushed [] c = c" "c_send (pushed ds c) = c_send c @ ds" "c_sendCap (pushed ds c) = c_sendCap c"
  "c_closed (pushed ds c) = c_closed c" "c_UID (pushed ds c) = c_UID c" "pushed es (pushed ds c) = pushed (ds @ es) c"
  by (simp_all add: pushed_def)

lemma Send_pushed: "snd (Send mar p m c) = (if fst (Send mar p m c) = None then pushed [the (mar m)] c else c)"
  by (simp add: Send_def pushed_def split: option.split)

lemma Send_refused: "fst (Send mar p m c) \<noteq> None \<longleftrightarrow> mar m = None \<or> \<not> has_room c \<or> c_closed c \<and> p"
  using Send_None_iff [of mar p m c] by auto

text \<open>A run of sends on one connection: the first \<open>n\<close> messages are queued, the next one is refused.\<close>

lemma sendUntilError_runs:
  "\<exists>n k. run_state (sendUntilError V a ms) w =
      (n, w\<lparr>w_calls := k, w_objs := (w_objs w)(a := pushed (map (\<lambda>m. the (e_mar V m)) (take n ms)) (w_objs w a))\<rparr>) \<and>
    n \<le> length ms \<and> (\<forall>m \<in> set (take n ms). e_mar V m \<noteq> None) \<and>
    (n < length ms \<longrightarrow> refuses V (ms ! n) (length (c_send (w_objs w a)) + n) (w_objs w a))"
proof (induction ms arbitrary: w)
  case Nil
  have "w\<lparr>w_calls := w_calls w, w_objs := (w_objs w)(a := w_objs w a)\<rparr> = w" by simp
  then show ?case by (auto simp: run_simps intro!: exI [of _ "w_calls w"])
next
  case (Cons m ms)
  let ?p = "e_pick V (w_calls w)"
  let ?w1 = "w\<lparr>w_calls := Suc (w_calls w), w_objs := (w_objs w)(a := pushed [the (e_mar V m)] (w_objs w a))\<rparr>"
  show ?case
  proof (cases "fst (Send (e_mar V) ?p m (w_objs w a))")
    case None
    obtain n k where ih: "run_state (sendUntilError V a ms) ?w1 =
        (n, ?w1\<lparr>w_calls := k, w_objs := (w_objs ?w1)(a := pushed (map (\<lambda>m. the (e_mar V m)) (take n ms)) (w_objs ?w1 a))\<rparr>)"
      "n \<le> length ms" "\<forall>m \<in> set (take n ms). e_mar V m \<noteq> None"
      "n < length ms \<longrightarrow> refuses V (ms ! n) (length (c_send (w_objs ?w1 a)) + n) (w_objs ?w1 a)"
      using Cons.IH [of ?w1] by blast
    have "e_mar V m \<noteq> None" using None Send_None_iff [of "e_mar V" ?p m "w_objs w a"] by simp
    moreover have r: "run_state (sendUntilError V a (m # ms)) w = (Suc n, w\<lparr>w_calls := k,
        w_objs := (w_objs w)(a := pushed (map (\<lambda>m. the (e_mar V m)) (take (Suc n) (m # ms))) (w_objs w a))\<rparr>)"
      using None ih(1) by (simp add: run_simps split_beta Let_def Send_pushed)
    ultimately show ?thesis
      using ih(2-4) by (intro exI [of _ "Suc n"] exI [of _ k] conjI r) (simp_all add: refuses_def)
  next
    case (Some e)
    then have "refuses V m (length (c_send (w_objs w a))) (w_objs w a)"
      using Send_refused [of "e_mar V" ?p m "w_objs w a"] by (auto simp: refuses_def has_room_def)
    moreover have "run_state (sendUntilError V a (m # ms)) w =
        (0, w\<lparr>w_calls := Suc (w_calls w), w_objs := (w_objs w)(a := w_objs w a)\<rparr>)"
      using Some by (simp add: run_simps split_beta Let_def Send_pushed)
    ultimately show ?thesis by (intro exI [of _ 0] exI [of _ "Suc (w_calls w)"] conjI) simp_all
  qed
qed

lemma storeAll_hub:
  assumes "w_offline w = HubOffline" and "length (offline_queue (w_hub w) u) + length ms \<le> h_offlineMaxSize (w_hub w)"
  shows "\<exists>k h. post (for_each ms (storeOffline V u)) w = w\<lparr>w_calls := k, w_hub := h\<rparr> \<and>
    offline_queue h v = (if v = u then offline_queue (w_hub w) u @ ms else offline_queue (w_hub w) v)"
  using assms
proof (induction ms arbitrary: w)
  case Nil
  show ?case by (intro exI [of _ "w_calls w"] exI [of _ "w_hub w"] conjI) (simp_all add: run_simps)
next
  case (Cons m ms)
  let ?w1 = "w\<lparr>w_calls := Suc (w_calls w), w_hub := StoreOffline u m (w_hub w)\<rparr>"
  have q: "offline_queue (w_hub ?w1) x = (if x = u then offline_queue (w_hub w) u @ [m] else offline_queue (w_hub w) x)" for x
    using Cons.prems(2) by (simp add: offline_queue_keep keep_last_short)
  obtain k h where "post (for_each ms (storeOffline V u)) ?w1 = ?w1\<lparr>w_calls := k, w_hub := h\<rparr>"
      "offline_queue h v = (if v = u then offline_queue (w_hub ?w1) u @ ms else offline_queue (w_hub ?w1) v)"
    using Cons.IH [of ?w1] Cons.prems q by (auto simp: StoreOffline_max)
  then show ?case
    using Cons.prems(1) q by (intro exI [of _ k] exI [of _ h] conjI) (simp_all add: run_simps)
qed

section \<open>Typing notices\<close>

text \<open>Only send queues of connections of others change, by frames of the message \<open>m\<close>.\<close>

definition ephemeral :: "env \<Rightarrow> string \<Rightarrow> message \<Rightarrow> world \<Rightarrow> world \<Rightarrow> bool" where
  "ephemeral V u m w w' \<longleftrightarrow> (\<exists>k objs. w' = w\<lparr>w_calls := k, w_objs := objs\<rparr> \<and>
    (\<forall>x. \<exists>j. objs x = pushed (replicate j (the (e_mar V m))) (w_objs w x) \<and>
      (j \<noteq> 0 \<longrightarrow> e_mar V m \<noteq> None \<and> (\<exists>v. v \<noteq> u \<and> HubGet v (w_hub w) = Some x))))"

lemma ephemeral_refl: "ephemeral V u m w w"
  unfolding ephemeral_def
  by (intro exI [of _ "w_calls w"] exI [of _ "w_objs w"] conjI allI exI [of _ "0 :: nat"]) simp_all

lemma ephemeral_trans:
  assumes "ephemeral V u m w w1" and "ephemeral V u m w1 w2"
  shows "ephemeral V u m w w2"
proof -
  obtain k o1 where 1: "w1 = w\<lparr>w_calls := k, w_objs := o1\<rparr>"
      "\<And>x. \<exists>j. o1 x = pushed (replicate j (the (e_mar V m))) (w_objs w x) \<and>
        (j \<noteq> 0 \<longrightarrow> e_mar V m \<noteq> None \<and> (\<exists>v. v \<noteq> u \<and> HubGet v (w_hub w) = Some x))"
    using assms(1) by (auto simp: ephemeral_def)
  obtain k' o2 where 2: "w2 = w1\<lparr>w_calls := k', w_objs := o2\<rparr>"
      "\<And>x. \<exists>j. o2 x = pushed (replicate j (the (e_mar V m))) (o1 x) \<and>
        (j \<noteq> 0 \<longrightarrow> e_mar V m \<noteq> None \<and> (\<exists>v. v \<noteq> u \<and> HubGet v (w_hub w) = Some x))"
    using assms(2) 1(1) by (auto simp: ephemeral_def)
  have "\<exists>j. o2 x = pushed (replicate j (the (e_mar V m))) (w_objs w x) \<and>
      (j \<noteq> 0 \<longrightarrow> e_mar V m \<noteq> None \<and> (\<exists>v. v \<noteq> u \<and> HubGet v (w_hub w) = Some x))" for x
  proof -
    obtain j j' where "o1 x = pushed (replicate j (the (e_mar V m))) (w_objs w x)"
        "o2 x = pushed (replicate j' (the (e_mar V m))) (o1 x)"
        "j \<noteq> 0 \<or> j' \<noteq> 0 \<longrightarrow> e_mar V m \<noteq> None \<and> (\<exists>v. v \<noteq> u \<and> HubGet v (w_hub w) = Some x)"
      using 1(2) [of x] 2(2) [of x] by blast
    then show ?thesis by (intro exI [of _ "j + j'"]) (simp add: replicate_add)
  qed
  then show ?thesis using 1(1) 2(1) unfolding ephemeral_def by (intro exI [of _ k'] exI [of _ o2]) simp
qed

interpretation ephemeral: step_relation "ephemeral V u m" for V u m
  by unfold_locales (auto intro: ephemeral_refl ephemeral_trans)

lemma ephemeral_to: "v \<noteq> u \<Longrightarrow> keeps (ephemeral V u m) (typingTo V m v)"
proof (rule keepsI)
  fix w :: world assume v: "v \<noteq> u"
  show "ephemeral V u m w (post (typingTo V m v) w)"
  proof (cases "HubGet v (w_hub w)")
    case None
    then show ?thesis by (simp add: typingTo_def run_simps ephemeral_refl)
  next
    case (Some t)
    let ?p = "e_pick V (w_calls w)" and ?d = "the (e_mar V m)"
    let ?j = "if fst (Send (e_mar V) ?p m (w_objs w t)) = None then 1 else 0 :: nat"
    let ?objs = "(w_objs w)(t := pushed (replicate ?j ?d) (w_objs w t))"
    have "post (typingTo V m v) w = w\<lparr>w_calls := Suc (w_calls w), w_objs := ?objs\<rparr>"
      using Some by (simp add: typingTo_def sendTo_def run_simps split_beta Let_def Send_pushed)
    moreover have "\<exists>j. ?objs x = pushed (replicate j ?d) (w_objs w x) \<and>
        (j \<noteq> 0 \<longrightarrow> e_mar V m \<noteq> None \<and> (\<exists>v. v \<noteq> u \<and> HubGet v (w_hub w) = Some x))" for x
      using v Some Send_None_iff [of "e_mar V" ?p m "w_objs w t"]
      by (intro exI [of _ "if x = t then ?j else 0"]) auto
    ultimately show ?thesis unfolding ephemeral_def by blast
  qed
qed

lemma members_read:
  assumes "w_groupStore w \<noteq> None"
  shows "\<exists>k. post (groupGetMembers V g) w = w\<lparr>w_calls := k\<rparr>"
proof (cases "w_groupStore w")
  case (Some gs)
  show ?thesis
  proof (cases gs)
    case (MemGroups t)
    have "w\<lparr>w_groupStore := Some (MemGroups t)\<rparr> = w\<lparr>w_calls := w_calls w\<rparr>" by (simp flip: Some MemGroups)
    moreover have "post (groupGetMembers V g) w = w\<lparr>w_groupStore := Some (MemGroups t)\<rparr>"
      using Some MemGroups by (simp add: groupGetMembers_def groupOp_def run_simps set_mem_def)
    ultimately show ?thesis by (intro exI [of _ "w_calls w"]) (rule trans)
  next
    case SqlGroups
    have "w\<lparr>w_calls := Suc (w_calls w), w_db := w_db w\<rparr> = w\<lparr>w_calls := Suc (w_calls w)\<rparr>" by simp
    then show ?thesis
      using Some SqlGroups by (simp add: groupGetMembers_def groupOp_def dbCall_def run_simps) blast
  qed
qed (use assms in simp)

section \<open>Delivery by other commands\<close>

lemma skip_bind: "State_Monad.bind skip (\<lambda>_. m) = m"
  by (simp add: skip_def)

lemma deliver_single:
  assumes "ready w" and "m_chatType m \<noteq> ChatTypeGroup \<or> w_groupStore w = None"
  shows "delivered_to V (m_to m) m w (post (deliver V u m) w)"
proof (cases "HubGet (m_to m) (w_hub w)")
  case None
  then have "post (deliver V u m) w = post (routeOrStoreOffline V (m_to m) m) w"
    using assms(2) by (auto simp: deliver_def run_simps)
  with route_delivers None assms(1) show ?thesis by (simp add: ready_def)
next
  case (Some t)
  have "post (deliver V u m) w = post (do { e \<leftarrow> send V t m; case e of Some x \<Rightarrow> storeOffline V (m_to m) m | None \<Rightarrow> skip }) w"
    using Some assms(2) by (auto simp: deliver_def run_simps)
  moreover have "delivered_to V (m_to m) m w
      (post (do { e \<leftarrow> send V t m; case e of Some x \<Rightarrow> storeOffline V (m_to m) m | None \<Rightarrow> skip }) w)"
    using send_delivers [where A = skip and B = skip] Some assms(1)
    unfolding skip_bind by (simp add: ready_def same_mail.keeps_skip run_skip)
  ultimately show ?thesis by simp
qed

text \<open>What a command answers on its own connection changes nobody else's mail.\<close>

lemma own_send:
  assumes "ready w" and "c_UID (w_objs w a) = u"
  shows "fixed w (post (sendTo V a m) w)" and "v \<noteq> u \<Longrightarrow> mail (post (sendTo V a m) w) v = mail w v"
proof -
  have "HubGet v (w_hub w) \<noteq> Some a" if "v \<noteq> u" for v
    using that assms by (auto simp: ready_def own_uids_def HubGet_def)
  then show "v \<noteq> u \<Longrightarrow> mail (post (sendTo V a m) w) v = mail w v"
    by (simp add: mail_def sendTo_def send_queue_def run_simps split_beta Let_def split: option.split)
  show "fixed w (post (sendTo V a m) w)"
    by (simp add: fixed_def same_conns_def sendTo_def run_simps split_beta Let_def Send_conn)
qed

lemma same_mail_stamped: "keeps same_mail (stamped V m)"
  unfolding stamped_def by (intro same_mail.keeps_rules same_mail_plain same_mail_nowMs)

lemma own_reply:
  assumes "ready w" and "c_UID (w_objs w a) = u" and "v \<noteq> u"
  shows "mail (post (reply V a m) w) v = mail w v"
proof -
  let ?w1 = "post (stamped V m) w"
  have s: "same_mail w ?w1" by (rule keepsD [OF same_mail_stamped])
  then have "c_UID (w_objs ?w1 a) = u" using assms(2) by (simp add: same_mail_def fixed_def same_conns_def)
  from own_send(2) [OF same_mail_ready [OF s assms(1)] this assms(3), of V "res (stamped V m) w"] s
  show ?thesis unfolding reply_def post_bind by (simp add: same_mail_def)
qed

lemma same_mail_db: "keeps same_mail (dbCall V f)"
  by (auto intro!: keepsI simp: dbCall_def same_mail_def fixed_def same_conns_def mail_def run_simps split: prod.split)

text \<open>Delivery does not touch the database.\<close>

interpretation same_db: step_relation "\<lambda>w w'. w_db w' = w_db w"
  by unfold_locales simp_all

lemma db_effects:
  "keeps (\<lambda>w w'. w_db w' = w_db w) (metric x)" "keeps (\<lambda>w w'. w_db w' = w_db w) (send V b m)"
  "keeps (\<lambda>w w'. w_db w' = w_db w) (forward V u m)" "keeps (\<lambda>w w'. w_db w' = w_db w) (clientsGet u)"
  "keeps (\<lambda>w w'. w_db w' = w_db w) (ringGet u)" "keeps (\<lambda>w w'. w_db w' = w_db w) hasGroups"
  by (auto intro!: keepsI simp: run_simps split_beta Let_def)

lemma db_store: "keeps (\<lambda>w w'. w_db w' = w_db w) (storeOffline V u m)"
  by (rule keepsI) (simp add: storeOffline_def run_simps split: offline.split prod.split)

lemma db_members: "keeps (\<lambda>w w'. w_db w' = w_db w) (groupGetMembers V g)"
  by (rule keepsI)
    (simp add: groupGetMembers_def groupOp_def dbCall_def set_mem_def run_simps split: option.split groups.split)

lemma db_deliver: "keeps (\<lambda>w w'. w_db w' = w_db w) (deliver V u m)"
  unfolding deliver_def fanoutGroup_def fanoutMember_def routeOrStoreOffline_def
  by (intro same_db.keeps_rules db_effects db_store db_members)

lemma route_stores:
  assumes "w_offline w = HubOffline" and "\<not> elsewhere w u"
  shows "fixed w (post (routeOrStoreOffline V u m) w)"
    and "mail (post (routeOrStoreOffline V u m) w) v = (if v = u then stored w m (mail w u) else mail w v)"
proof -
  have "post (routeOrStoreOffline V u m) w = post (storeOffline V u m) w"
    using assms(2) by (auto simp: routeOrStoreOffline_def elsewhere_def run_simps split: option.splits)
  then show "fixed w (post (routeOrStoreOffline V u m) w)"
    "mail (post (routeOrStoreOffline V u m) w) v = (if v = u then stored w m (mail w u) else mail w v)"
    using store_mail [OF assms(1), of V u m] by simp_all
qed

section \<open>Recalling\<close>

lemma same_mail_recallStored: "keeps same_mail (recallStored V u i)"
  unfolding recallStored_def by (intro same_mail.keeps_rules same_mail_nowMs same_mail_db)

text \<open>The store lets a recall pass only for a message of the user inside the window.\<close>

lemma recallStored_None:
  assumes "run_state (recallStored V u i) w = (None, w')" and "w_msgStore w"
  shows "\<exists>r \<in> set (t_messages (w_db w)). m_msgId (r_msg r) = i \<and> sql_eq (e_sql V) (m_from (r_msg r)) u \<and>
    i64 (now_ms (e_clock V) (w_tick w) - w_recallWindow w) \<le> row_time r"
proof (rule ccontr)
  assume no: "\<not> ?thesis"
  let ?P = "\<lambda>r. m_msgId (r_msg r) = i \<and> sql_eq (e_sql V) (m_from (r_msg r)) u \<and>
    i64 (now_ms (e_clock V) (w_tick w) - w_recallWindow w) \<le> row_time r"
  have "sql_update ?P recall_row (t_messages (w_db w)) = (Inr 0, t_messages (w_db w))"
    using no by (intro sql_update_none) blast
  then have no: "affected_or x y (fst (exec_stmt flt 0 (sql_update ?P recall_row) (t_messages (w_db w)))) = None \<longleftrightarrow> False" for x y flt
    by (simp add: exec_stmt_def affected_or_def split: option.split prod.split)
  show False
    using assms by (simp add: no recallStored_def run_simps dbCall_def RecallMessage_def split_beta Let_def)
qed

lemma recall_delivers:
  assumes "ready w" and "c_UID (w_objs w a) = u" and "Validate m = None" and "m_to m \<noteq> u" and "m_seq m \<noteq> 0"
    and "run_state (recallStored V u (m_seq m)) w = (None, w1)"
  shows "\<exists>i t. delivered_to V (m_to m) (m\<lparr>m_from := u, m_content := recall_notice (m_seq m), m_msgId := i, m_timestamp := t\<rparr>)
    w (post (handleRecall V a m) w)"
proof -
  let ?n = "m\<lparr>m_from := u, m_content := recall_notice (m_seq m)\<rparr>"
  have s1: "same_mail w w1" using keepsD [OF same_mail_recallStored [of V u "m_seq m"], of w] assms(6) by simp
  obtain n w2 where s: "run_state (stamped V ?n) w1 = (n, w2)" by (metis surj_pair)
  then obtain i t where n: "n = ?n\<lparr>m_msgId := i, m_timestamp := t\<rparr>"
    by (auto simp: stamped_def run_simps split: prod.splits)
  have s2: "same_mail w w2" using same_mail.R_trans [OF s1 keepsD [OF same_mail_stamped [of V ?n]]] s by simp
  then have r: "ready w2" using assms(1) by (rule same_mail_ready)
  let ?last = "do { target \<leftarrow> clientsGet (m_to m); case target of
      Some t \<Rightarrow> do { e \<leftarrow> send V t n; case e of Some x \<Rightarrow> do { metric MDeliveryFailure; storeOffline V (m_to m) n } | None \<Rightarrow> skip }
    | None \<Rightarrow> routeOrStoreOffline V (m_to m) n }"
  have d: "delivered_to V (m_to m) n w2 (post ?last w2)"
  proof (cases "HubGet (m_to m) (w_hub w2)")
    case None
    then have "post ?last w2 = post (routeOrStoreOffline V (m_to m) n) w2" by (simp add: run_simps)
    with route_delivers None r show ?thesis by (simp add: ready_def)
  next
    case (Some t)
    have "delivered_to V (m_to m) n w2 (post (do { e \<leftarrow> send V t n;
        case e of Some x \<Rightarrow> do { metric MDeliveryFailure; storeOffline V (m_to m) n } | None \<Rightarrow> skip }) w2)"
      using r Some by (intro send_delivers same_mail_plain same_mail.keeps_skip metric_offline) (simp_all add: ready_def)
    with Some show ?thesis by (simp add: run_simps)
  qed
  have "post (handleRecall V a m) w = post ?last w2"
    using s assms(2-6) by (simp add: handleRecall_def run_simps)
  then have "delivered_to V (m_to m) n w (post (handleRecall V a m) w)" using same_mail_delivered [OF s2 d] by (rule ssubst)
  then show ?thesis unfolding n by blast
qed

section \<open>Persistence workers\<close>

text \<open>The row \<open>Save\<close> inserts.\<close>

definition saved_row :: "message \<Rightarrow> msg_row" where
  "saved_row m = \<lparr>r_msg = m, r_recalled = False\<rparr>"

lemma Save_new:
  assumes "flt 0 = None" and "m_msgId m \<notin> (\<lambda>r. m_msgId (r_msg r)) ` set (t_messages d)"
  shows "Save flt m d = (None, d\<lparr>t_messages := t_messages d @ [saved_row m]\<rparr>)"
  using assms by (auto simp: Save_def sql_insert_ignore_def saved_row_def list_ex_iff image_iff)

lemma persistWorker_saves:
  assumes "w_persistTasks w = m # ms" and "w_msgStore w" and "\<And>n. e_flt V n = no_faults"
    and "m_msgId m \<notin> (\<lambda>r. m_msgId (r_msg r)) ` set (t_messages (w_db w))"
  shows "w_persistTasks (post (persistWorker V) w) = ms" and "w_msgStore (post (persistWorker V) w)"
    and "w_db (post (persistWorker V) w) = (w_db w)\<lparr>t_messages := t_messages (w_db w) @ [saved_row m]\<rparr>"
  using assms Save_new [of no_faults m "w_db w"]
  by (simp_all add: persistWorker_def doPersist_def Publish_def dbCall_def run_simps split: option.split)

section \<open>Properties\<close>

text \<open>
  C12. Fetching offline messages neither loses nor doubles nor reorders any: a first part of the
  queue goes into the connection's send queue, the rest is queued offline again in its order,
  and there is a rest only if the connection refused its first message (its send queue is full,
  it is closed, or the message cannot be encoded). Other users and connections are untouched.
\<close>

theorem offline_flush:
  assumes "w_offline w = HubOffline" and "hub_ok (w_hub w) (w_objs w)" and "c_UID (w_objs w a) = u"
    and "offline_queue (w_hub w) u = q" and "q \<noteq> []"
  shows "\<exists>n w'. w' = post (handleOffline V a) w \<and> n \<le> length q \<and>
    c_send (w_objs w' a) = c_send (w_objs w a) @ map (\<lambda>m. the (e_mar V m)) (take n q) \<and>
    (\<forall>m \<in> set (take n q). e_mar V m \<noteq> None) \<and>
    offline_queue (w_hub w') u = drop n q \<and>
    (n < length q \<longrightarrow> refuses V (q ! n) (length (c_send (w_objs w a)) + n) (w_objs w a)) \<and>
    (\<forall>x. x \<noteq> a \<longrightarrow> w_objs w' x = w_objs w x) \<and> (\<forall>v. v \<noteq> u \<longrightarrow> offline_queue (w_hub w') v = offline_queue (w_hub w) v)"
proof -
  let ?h1 = "snd (DrainOffline u (w_hub w))"
  let ?w1 = "w\<lparr>w_calls := Suc (w_calls w), w_hub := ?h1\<rparr>"
  have d: "run_state (drainOffline V u) w = (q, ?w1)"
    using assms(1,4) by (simp add: run_simps DrainOffline_def)
  obtain n k where s: "run_state (sendUntilError V a q) ?w1 =
      (n, ?w1\<lparr>w_calls := k, w_objs := (w_objs w)(a := pushed (map (\<lambda>m. the (e_mar V m)) (take n q)) (w_objs w a))\<rparr>)"
    and n: "n \<le> length q" "\<forall>m \<in> set (take n q). e_mar V m \<noteq> None"
      "n < length q \<longrightarrow> refuses V (q ! n) (length (c_send (w_objs w a)) + n) (w_objs w a)"
    using sendUntilError_runs [of V a q ?w1] by auto
  let ?w2 = "post (sendUntilError V a q) ?w1" and ?w' = "post (handleOffline V a) w"
  have fits: "length (offline_queue (w_hub ?w2) u) + length (drop n q) \<le> h_offlineMaxSize (w_hub ?w2)"
    using assms(2,4) s by (auto simp: hub_ok_def offline_queue_drain DrainOffline_facts intro: le_trans [OF diff_le_self])
  have run: "?w' = post (for_each (drop n q) (storeOffline V u)) ?w2"
    using d s assms(3,5) by (simp only: handleOffline_def post_bind run_uid_of fst_conv snd_conv if_False)
  have q: "offline_queue (w_hub ?w') v = (if v = u then drop n q else offline_queue (w_hub w) v)"
    and o: "w_objs ?w' = w_objs ?w2" for v
    using storeAll_hub [OF _ fits, of V v] s assms(1) unfolding run by (auto simp: offline_queue_drain)
  show ?thesis
    using n s by (intro exI [of _ n] exI [of _ ?w']) (simp add: q o)
qed

text \<open>Bob has room for four of his five offline messages.\<close>

definition five :: "message list" where
  "five = map (\<lambda>c. msg0\<lparr>m_to := ''bob'', m_content := [c]\<rparr>) ''abcde''"

theorem offline_flush_witness:
  "\<exists>n w'. w' = post (handleOffline gate_env 3) (gate\<lparr>w_hub := (w_hub gate)\<lparr>h_offline := [(''bob'', five)]\<rparr>\<rparr>) \<and>
    c_send (w_objs w' 3) = map (\<lambda>m. the (demo_mar m)) (take n five) \<and> offline_queue (w_hub w') ''bob'' = drop n five \<and>
    (n < length five \<longrightarrow> refuses gate_env (five ! n) n (demo_heap 3))"
proof -
  let ?w = "gate\<lparr>w_hub := (w_hub gate)\<lparr>h_offline := [(''bob'', five)]\<rparr>\<rparr>"
  have h: "hub_ok (w_hub ?w) (w_objs ?w)" "offline_queue (w_hub ?w) (''bob'') = five" "five \<noteq> []"
    by (simp_all add: hub_ok_def own_uids_def offline_queue_def NewHub_def five_def)
  have c: "c_send (demo_heap 3) = []" "e_mar gate_env = demo_mar" by (simp_all add: demo_heap_def NewClient_def gate_env_def)
  from offline_flush [of ?w 3 "''bob''" five gate_env] h c show ?thesis by simp blast
qed

text \<open>
  A typing notice leaves no trace: it is not stored, forwarded, counted or persisted. All it
  may change, besides the run's event counter, is the send queue of connections of users other
  than the sender, by frames of that very notice, signed by him.
\<close>

theorem typing_ephemeral:
  "\<exists>k objs. post (handleTyping V a m) w = w\<lparr>w_calls := k, w_objs := objs\<rparr> \<and>
    (\<forall>x. \<exists>j. objs x = pushed (replicate j (the (e_mar V (m\<lparr>m_from := c_UID (w_objs w a)\<rparr>)))) (w_objs w x) \<and>
      (j \<noteq> 0 \<longrightarrow> e_mar V (m\<lparr>m_from := c_UID (w_objs w a)\<rparr>) \<noteq> None \<and>
        (\<exists>v. v \<noteq> c_UID (w_objs w a) \<and> HubGet v (w_hub w) = Some x)))"
proof -
  let ?u = "c_UID (w_objs w a)" and ?g = "m_chatType m \<noteq> ChatTypeGroup \<or> w_groupStore w = None"
  let ?m = "m\<lparr>m_from := ?u\<rparr>"
  let ?each = "\<lambda>r. case r of Inl _ \<Rightarrow> skip | Inr members \<Rightarrow> for_each members (\<lambda>x. on (x \<noteq> ?u) (typingTo V ?m x))"
  have "ephemeral V ?u ?m w (post (handleTyping V a m) w)"
  proof (cases "m_to m = [] \<or> m_to m = ?u")
    case True
    then show ?thesis by (auto simp: handleTyping_def run_simps ephemeral_refl)
  next
    case False
    show ?thesis
    proof (cases ?g)
      case True
      then have "post (handleTyping V a m) w = post (typingTo V ?m (m_to m)) w"
        using False by (auto simp: handleTyping_def run_simps Let_def)
      then show ?thesis using keepsD [OF ephemeral_to, of "m_to m" ?u V ?m w] False by simp
    next
      case g: False
      obtain k r y where k: "run_state (groupGetMembers V (m_to m)) w = (r, w\<lparr>w_calls := k\<rparr>)" and y: "w_groupStore w = Some y"
        using members_read [of w V "m_to m"] g by (metis prod.collapse option.exhaust)
      have e: "ephemeral V ?u ?m w (w\<lparr>w_calls := k\<rparr>)"
        unfolding ephemeral_def
        by (intro exI [of _ k] exI [of _ "w_objs w"] conjI allI exI [of _ "0 :: nat"]) simp_all
      moreover have e': "keeps (ephemeral V ?u ?m) (?each r)"
        by (intro ephemeral.keeps_rules ephemeral_to)
      moreover have "post (handleTyping V a m) w = post (?each r) (w\<lparr>w_calls := k\<rparr>)"
        using False g k y by (simp add: handleTyping_def run_simps Let_def)
      ultimately show ?thesis using ephemeral_trans [OF e keepsD [OF e']] by simp
    qed
  qed
  then show ?thesis unfolding ephemeral_def .
qed

theorem typing_ephemeral_witness:
  "w_hub (post (handleTyping gate_env 2 gate_chat) gate) = w_hub gate \<and>
    w_persistTasks (post (handleTyping gate_env 2 gate_chat) gate) = [] \<and>
    (\<exists>j. c_send (w_objs (post (handleTyping gate_env 2 gate_chat) gate) 3) = replicate j ''hello'')"
proof -
  have m: "the (e_mar gate_env (gate_chat\<lparr>m_from := ''alice''\<rparr>)) = ''hello''" "c_send (demo_heap 3) = []"
    by (simp_all add: gate_env_def demo_mar_def demo_heap_def NewClient_def)
  obtain k objs where p: "post (handleTyping gate_env 2 gate_chat) gate = gate\<lparr>w_calls := k, w_objs := objs\<rparr>"
      "\<exists>j. objs 3 = pushed (replicate j ''hello'') (demo_heap 3)"
    using typing_ephemeral [of gate_env 2 gate_chat gate] m(1) by fastforce
  then show ?thesis using m(2) by auto
qed

text \<open>
  An edit is delivered whether or not it is allowed: the receiver gets the edit notice exactly
  once, like any message, on whatever message ID the sender names; only the database checks that
  the message is the sender's, and leaves the tables as they are when it is not.
\<close>

theorem edit_unowned:
  assumes "ready w" and "c_UID (w_objs w a) = u" and "Validate m = None" and "m_to m \<noteq> u" and "m_seq m \<noteq> 0" and "m_content m \<noteq> []"
    and "m_chatType m \<noteq> ChatTypeGroup \<or> w_groupStore w = None"
  shows "\<exists>i t w'. w' = post (handleEdit V a m) w \<and>
    delivered_to V (m_to m) (m\<lparr>m_from := u, m_msgId := i, m_timestamp := t,
      m_content := json_marshal (json_edited (m_seq m) (m_content m))\<rparr>) w w' \<and>
    ((\<forall>r \<in> set (t_messages (w_db w)). m_msgId (r_msg r) = m_seq m \<longrightarrow> \<not> sql_eq (e_sql V) (m_from (r_msg r)) u) \<longrightarrow> w_db w' = w_db w)"
proof -
  obtain m' w1 where s: "run_state (stamped V (m\<lparr>m_from := u\<rparr>)) w = (m', w1)" by (metis surj_pair)
  then obtain i t where m': "m' = m\<lparr>m_from := u, m_msgId := i, m_timestamp := t\<rparr>"
    and w1: "w_groupStore w1 = w_groupStore w" "w_db w1 = w_db w"
    by (auto simp: stamped_def run_simps split: prod.splits)
  have sm: "same_mail w w1" using keepsD [OF same_mail_stamped [of V "m\<lparr>m_from := u\<rparr>"], of w] s by simp
  let ?c = "json_marshal (json_edited (m_seq m) (m_content m))"
  let ?m = "m'\<lparr>m_content := ?c\<rparr>"
  let ?w2 = "post (deliver V u ?m) w1"
  let ?upd = "do { ms \<leftarrow> gets w_msgStore; on ms (do {
    _ \<leftarrow> dbCall V (\<lambda>flt. UpdateMessageContent (e_sql V) flt (m_seq m) u ?c); skip }) }"
  have run: "post (handleEdit V a m) w = post ?upd ?w2"
    using s assms(2-6) by (simp add: handleEdit_def run_simps split_beta Let_def)
  have d2: "delivered_to V (m_to ?m) ?m w1 ?w2"
    using same_mail_ready [OF sm assms(1)] assms(7) w1 by (intro deliver_single) (auto simp: m')
  have u: "keeps same_mail ?upd" by (intro same_mail.keeps_rules same_mail_db)
  have d: "delivered_to V (m_to m) ?m w (post ?upd ?w2)"
    using same_mail_delivered [OF sm delivered_same_mail [OF d2 keepsD [OF u]]] by (simp add: m')
  have "w_db ?w2 = w_db w1" using keepsD [OF db_deliver] .
  moreover have "sql_update (\<lambda>r. m_msgId (r_msg r) = m_seq m \<and> sql_eq (e_sql V) (m_from (r_msg r)) u) (edit_row ?c)
      (t_messages (w_db w)) = (Inr 0, t_messages (w_db w))"
    if "\<forall>r \<in> set (t_messages (w_db w)). m_msgId (r_msg r) = m_seq m \<longrightarrow> \<not> sql_eq (e_sql V) (m_from (r_msg r)) u"
    using that by (intro sql_update_none) blast
  ultimately have "w_db (post ?upd ?w2) = w_db w"
    if "\<forall>r \<in> set (t_messages (w_db w)). m_msgId (r_msg r) = m_seq m \<longrightarrow> \<not> sql_eq (e_sql V) (m_from (r_msg r)) u"
    using that w1 by (simp add: run_simps dbCall_def UpdateMessageContent_def exec_stmt_def split_beta Let_def split: option.split)
  with d show ?thesis unfolding run by (intro exI [of _ i] exI [of _ t] exI [of _ "post ?upd ?w2"]) (simp add: m')
qed

theorem edit_unowned_witness:
  "\<exists>i t. delivered_to gate_env ''bob'' (gate_chat\<lparr>m_msgId := i, m_timestamp := t,
      m_content := json_marshal (json_edited 7 ''hello'')\<rparr>) gate (post (handleEdit gate_env 2 gate_chat) gate) \<and>
    w_db (post (handleEdit gate_env 2 gate_chat) gate) = migrate"
proof -
  have m: "gate_chat\<lparr>m_from := ''alice''\<rparr> = gate_chat" "w_db gate = migrate" "t_messages migrate = []"
    by (simp_all add: gate_chat_def gate_def NewRouter_def migrate_def)
  show ?thesis
    using edit_unowned [OF gate_ready(1,2), of gate_chat gate_env] m gate_ready(5) by (simp only: gate_chat_simps) auto
qed

text \<open>
  The notice of a friend request never enters the send queue of its addressee, even when he
  is connected to this gateway: it is queued offline for him (unless he belongs to another
  gateway), where it stays until he asks for his offline messages.
\<close>

theorem friend_notice_waits:
  assumes "ready w" and "c_UID (w_objs w a) = u" and "w_friendStore w" and "m_to m \<noteq> []" and "m_to m \<noteq> u"
    and "fst (SendRequest (e_sql V) (e_flt V (w_calls w)) (now_ms (e_clock V) (w_tick w)) u (m_to m) (w_db w)) = None"
    and "\<not> elsewhere w (m_to m)"
  shows "\<exists>i t. mail (post (handleFriendRequest V a m) w) (m_to m) =
    stored w (msg0\<lparr>m_cmd := CmdFriendRequest, m_from := u, m_to := m_to m, m_content := friend_notice u,
      m_msgId := i, m_timestamp := t\<rparr>) (mail w (m_to m))"
proof -
  let ?n = "msg0\<lparr>m_cmd := CmdFriendRequest, m_from := u, m_to := m_to m, m_content := friend_notice u\<rparr>"
  let ?done = "msg0\<lparr>m_cmd := CmdFriendRequest, m_from := m_to m, m_to := u, m_content := ''{\"status\":\"sent\"}''\<rparr>"
  let ?pre = "do { nw \<leftarrow> nowMs V; dbCall V (\<lambda>flt. SendRequest (e_sql V) flt nw u (m_to m)) }"
  have k: "keeps same_mail ?pre" by (intro same_mail.keeps_rules same_mail_nowMs same_mail_db)
  obtain w1 where w1: "run_state (dbCall V (\<lambda>flt. SendRequest (e_sql V) flt (now_ms (e_clock V) (w_tick w)) u (m_to m)))
      (w\<lparr>w_tick := Suc (w_tick w)\<rparr>) = (None, w1)"
    using assms(6) by (simp add: run_simps dbCall_def split_beta Let_def)
  have s1: "same_mail w w1" using keepsD [OF k, of w] w1 by (simp add: run_simps)
  obtain n w2 where s: "run_state (stamped V ?n) w1 = (n, w2)" by (metis surj_pair)
  then obtain i t where n: "n = ?n\<lparr>m_msgId := i, m_timestamp := t\<rparr>"
    by (auto simp: stamped_def run_simps split: prod.splits)
  have s2: "same_mail w w2" using same_mail.R_trans [OF s1 keepsD [OF same_mail_stamped [of V ?n]]] s by simp
  let ?w3 = "post (routeOrStoreOffline V (m_to m) n) w2"
  have e: "\<not> elsewhere w2 (m_to m)" "stored w2 = stored w" "w_offline w2 = HubOffline"
    using s2 assms(1,7) by (simp_all add: same_mail_def fixed_def elsewhere_def stored_def ready_def fun_eq_iff)
  have f: "fixed w ?w3" using s2 route_stores(1) [OF e(3,1)] by (auto simp: same_mail_def intro: fixed_trans)
  have "post (handleFriendRequest V a m) w = post (reply V a ?done) ?w3"
    using w1 s assms(2-5) by (simp add: handleFriendRequest_def run_simps split_beta Let_def)
  moreover have "mail (post (reply V a ?done) ?w3) (m_to m) = mail ?w3 (m_to m)"
    using own_reply [OF ready_fixed [OF f assms(1)] _ assms(5), of a V ?done] f assms(2) by (simp add: fixed_def same_conns_def)
  moreover have "mail ?w3 (m_to m) = stored w n (mail w (m_to m))"
    using route_stores(2) [OF e(3,1)] s2 e(2) by (simp add: same_mail_def)
  ultimately show ?thesis using n by auto
qed

theorem friend_notice_waits_witness:
  "\<exists>x. buffered (mail (post (handleFriendRequest gate_env 2 gate_chat) (gate\<lparr>w_friendStore := True\<rparr>)) ''bob'') = [] \<and>
    waiting (mail (post (handleFriendRequest gate_env 2 gate_chat) (gate\<lparr>w_friendStore := True\<rparr>)) ''bob'') = [x]"
proof -
  let ?w = "gate\<lparr>w_friendStore := True\<rparr>"
  have r: "ready ?w" "c_UID (w_objs ?w 2) = ''alice''" "\<not> elsewhere ?w (m_to gate_chat)"
    "waiting (mail ?w ''bob'') = []" "buffered (mail ?w ''bob'') = []"
    using gate_ready(1)
    by (simp_all add: ready_def elsewhere_def gate_def NewRouter_def mail_def send_queue_def HubGet_def demo_heap_def NewClient_def
        offline_queue_def NewHub_def)
  have s: "fst (SendRequest (e_sql gate_env) (e_flt gate_env (w_calls ?w)) (now_ms (e_clock gate_env) (w_tick ?w)) ''alice''
      (m_to gate_chat) (w_db ?w)) = None"
    by (simp add: gate_env_def gate_def NewRouter_def SendRequest_def sql_insert_def migrate_def)
  from friend_notice_waits [OF r(1,2) _ _ _ s r(3)] r(4,5) show ?thesis
    by (auto simp: stored_def keep_last_def NewHub_def)
qed

text \<open>
  With a message store, a recall notice goes out only if the store authorised it: either
  nobody but the sender, who may get an error, sees anything, or the message named is the
  sender's own and inside the recall window, and the receiver gets the notice exactly once.
\<close>

theorem recall_authorised:
  assumes "ready w" and "c_UID (w_objs w a) = u" and "w_msgStore w"
  shows "(\<forall>v. v \<noteq> u \<longrightarrow> mail (post (handleRecall V a m) w) v = mail w v) \<or>
    (\<exists>r \<in> set (t_messages (w_db w)). m_msgId (r_msg r) = m_seq m \<and> sql_eq (e_sql V) (m_from (r_msg r)) u \<and>
      i64 (now_ms (e_clock V) (w_tick w) - w_recallWindow w) \<le> row_time r) \<and>
    (\<exists>i t. delivered_to V (m_to m) (m\<lparr>m_from := u, m_content := recall_notice (m_seq m), m_msgId := i, m_timestamp := t\<rparr>)
      w (post (handleRecall V a m) w))"
proof -
  obtain e w1 where e: "run_state (recallStored V u (m_seq m)) w = (e, w1)" by (metis surj_pair)
  have s: "same_mail w w1" using keepsD [OF same_mail_recallStored [of V u "m_seq m"], of w] e by simp
  have err: "mail (post (sendRecallError V a u x) w') v = mail w v" if "same_mail w w'" "v \<noteq> u" for x w' v
    unfolding sendRecallError_def
    using own_reply [OF same_mail_ready [OF that(1) assms(1)] _ that(2)] that(1) assms(2)
    by (simp add: same_mail_def fixed_def same_conns_def)
  show ?thesis
  proof (cases "e = None \<and> Validate m = None \<and> m_to m \<noteq> u \<and> m_seq m \<noteq> 0")
    case True
    obtain i t where "delivered_to V (m_to m) (m\<lparr>m_from := u, m_content := recall_notice (m_seq m), m_msgId := i, m_timestamp := t\<rparr>)
        w (post (handleRecall V a m) w)"
      using recall_delivers [OF assms(1,2) _ _ _ e [unfolded conjunct1 [OF True]]] True by auto
    with recallStored_None [OF e [unfolded conjunct1 [OF True]] assms(3)] show ?thesis by blast
  next
    case False
    have "mail (post (handleRecall V a m) w) v = mail w v" if "v \<noteq> u" for v
      using False e s err [OF s that] err [OF same_mail.R_refl that] assms(2)
      by (auto simp: handleRecall_def run_simps split_beta Let_def)
    then show ?thesis by blast
  qed
qed

theorem recall_authorised_witness:
  "mail (post (handleRecall gate_env 2 (gate_chat\<lparr>m_cmd := CmdRecall\<rparr>)) gate) ''bob'' = mail gate ''bob''"
proof -
  have "t_messages (w_db gate) = []" by (simp add: gate_def NewRouter_def migrate_def)
  then show ?thesis using recall_authorised [OF gate_ready(1,2), of gate_env "gate_chat\<lparr>m_cmd := CmdRecall\<rparr>"] by simp
qed



end
