(* ===== verification/Consumer.thy ===== *)
theory Consumer
  imports MySQL_Messages
begin

text \<open>
  The Kafka consumer of \<open>internal/mq/consumer.go\<close>, which writes the messages of the persistence
  topic to the message store in batches. What is kept is the consumer's buffer and its signal
  channel, the fetch positions of its reader, the offsets committed at the broker, and the
  database. The broker is a parameter: \<open>cmt ks c\<close> are the committed offsets after
  \<open>CommitMessages\<close> was called for \<open>ks\<close>; Kafka keeps one offset per partition, which
  \<open>commits_highest\<close> states. The run loop, the flush loop, the goroutines that commit dropped
  messages and a crash are the events of a run.
\<close>

section \<open>State\<close>

record kafka_msg =
  km_Partition :: nat
  km_Offset :: nat
  km_Value :: bytes

record bufferedMsg =
  bm_msg :: message
  bm_km :: kafka_msg

definition defaultBatchSize :: nat where "defaultBatchSize = 100"

definition maxBufferSize :: nat where "maxBufferSize = 10000"

record consumer =
  k_store :: bool
  k_buffer :: "bufferedMsg list"
  k_flushCh :: bool
  k_done :: bool
  k_dropped :: "kafka_msg list"
  k_position :: "nat \<Rightarrow> nat"
  k_committed :: "nat \<Rightarrow> nat"
  k_db :: db

definition NewConsumer :: "bool \<Rightarrow> (nat \<Rightarrow> nat) \<Rightarrow> db \<Rightarrow> consumer" where
  "NewConsumer store committed d = \<lparr>k_store = store, k_buffer = [], k_flushCh = False, k_done = False, k_dropped = [],
     k_position = committed, k_committed = committed, k_db = d\<rparr>"

type_synonym commits = "kafka_msg list \<Rightarrow> (nat \<Rightarrow> nat) \<Rightarrow> nat \<Rightarrow> nat"

text \<open>Kafka's documented commit: the next offset to read, the highest of those committed.\<close>

definition commits_highest :: "commits \<Rightarrow> bool" where
  "commits_highest cmt \<longleftrightarrow> (\<forall>ks c p. cmt ks c p =
    foldr (\<lambda>k n. if km_Partition k = p then max (Suc (km_Offset k)) n else n) ks (c p))"

section \<open>Operations\<close>

text \<open>\<open>CommitMessages\<close>; an error is only logged.\<close>

definition commitMessages :: "commits \<Rightarrow> bool \<Rightarrow> kafka_msg list \<Rightarrow> consumer \<Rightarrow> consumer" where
  "commitMessages cmt ok ks s = (if ok then s\<lparr>k_committed := cmt ks (k_committed s)\<rparr> else s)"

text \<open>Adding a message to the batch: at capacity the oldest one is given up.\<close>

definition bufferMsg :: "bufferedMsg \<Rightarrow> consumer \<Rightarrow> consumer" where
  "bufferMsg bm s =
    (let full = length (k_buffer s) \<ge> maxBufferSize;
         buf = (if full then tl (k_buffer s) else k_buffer s) @ [bm]
     in s\<lparr>k_dropped := k_dropped s @ (if full then [bm_km (hd (k_buffer s))] else []),
          k_buffer := buf, k_flushCh := (k_flushCh s \<or> length buf \<ge> defaultBatchSize)\<rparr>)"

text \<open>One turn of the run loop that got a message from the reader.\<close>

definition handleFetched :: "(bytes \<Rightarrow> message option) \<Rightarrow> commits \<Rightarrow> bool \<Rightarrow> kafka_msg \<Rightarrow> consumer \<Rightarrow> consumer" where
  "handleFetched unm cmt ok km s =
    (case unm (km_Value km) of
       None \<Rightarrow> commitMessages cmt ok [km] s
     | Some pm \<Rightarrow> bufferMsg \<lparr>bm_msg = pm, bm_km = km\<rparr> s)"

text \<open>Saving a batch message by message; \<open>flt i\<close> is the fault plan of the \<open>i\<close>-th call.\<close>

fun saveBatch :: "(nat \<Rightarrow> faults) \<Rightarrow> nat \<Rightarrow> bufferedMsg list \<Rightarrow> db \<Rightarrow> kafka_msg list \<times> db" where
  "saveBatch flt i [] d = ([], d)"
| "saveBatch flt i (bm # bms) d =
    (let (e, d1) = Save (flt i) (bm_msg bm) d; (ks, d2) = saveBatch flt (Suc i) bms d1
     in (if e = None then bm_km bm # ks else ks, d2))"

definition flushAll :: "commits \<Rightarrow> (nat \<Rightarrow> faults) \<Rightarrow> bool \<Rightarrow> consumer \<Rightarrow> consumer" where
  "flushAll cmt flt ok s =
    (if k_buffer s = [] then s
     else
       let batch = k_buffer s; s = s\<lparr>k_buffer := []\<rparr>;
           (succeeded, d) = (if k_store s then saveBatch flt 0 batch (k_db s) else (map bm_km batch, k_db s));
           s = s\<lparr>k_db := d\<rparr>
       in if succeeded = [] then s else commitMessages cmt ok succeeded s)"

text \<open>
  The events. \<open>Fetch p ok\<close>: the reader hands out the next message of partition \<open>p\<close>, if there is
  one. \<open>Tick\<close> and \<open>Signal\<close> wake the flush loop. \<open>Shutdown\<close> is the cancelled context. \<open>Crash i\<close>
  ends the process while a flush has saved \<open>i\<close> messages, and a new one starts at the committed
  offsets.
\<close>

datatype cevent =
    Fetch nat bool
  | FetchError
  | CommitDropped bool
  | Tick "nat \<Rightarrow> faults" bool
  | Signal "nat \<Rightarrow> faults" bool
  | Shutdown "nat \<Rightarrow> faults" bool
  | Crash nat "nat \<Rightarrow> faults"

definition fetched :: "(nat \<Rightarrow> bytes list) \<Rightarrow> nat \<Rightarrow> consumer \<Rightarrow> kafka_msg" where
  "fetched topic p s = \<lparr>km_Partition = p, km_Offset = k_position s p, km_Value = topic p ! k_position s p\<rparr>"

fun consumer_step :: "(bytes \<Rightarrow> message option) \<Rightarrow> commits \<Rightarrow> (nat \<Rightarrow> bytes list) \<Rightarrow> cevent \<Rightarrow> consumer \<Rightarrow> consumer" where
  "consumer_step unm cmt topic (Fetch p ok) s =
    (if k_done s \<or> k_position s p \<ge> length (topic p) then s
     else handleFetched unm cmt ok (fetched topic p s) (s\<lparr>k_position := (k_position s)(p := Suc (k_position s p))\<rparr>))"
| "consumer_step unm cmt topic FetchError s = s"
| "consumer_step unm cmt topic (CommitDropped ok) s =
    (case k_dropped s of [] \<Rightarrow> s | k # ks \<Rightarrow> commitMessages cmt ok [k] (s\<lparr>k_dropped := ks\<rparr>))"
| "consumer_step unm cmt topic (Tick flt ok) s = (if k_done s then s else flushAll cmt flt ok s)"
| "consumer_step unm cmt topic (Signal flt ok) s =
    (if k_done s \<or> \<not> k_flushCh s then s else flushAll cmt flt ok (s\<lparr>k_flushCh := False\<rparr>))"
| "consumer_step unm cmt topic (Shutdown flt ok) s = (if k_done s then s else (flushAll cmt flt ok s)\<lparr>k_done := True\<rparr>)"
| "consumer_step unm cmt topic (Crash i flt) s =
    NewConsumer (k_store s) (k_committed s)
      (if k_store s then snd (saveBatch flt 0 (take i (k_buffer s)) (k_db s)) else k_db s)"

definition consumer_run ::
  "(bytes \<Rightarrow> message option) \<Rightarrow> commits \<Rightarrow> (nat \<Rightarrow> bytes list) \<Rightarrow> cevent list \<Rightarrow> consumer \<Rightarrow> consumer" where
  "consumer_run unm cmt topic es s = fold (consumer_step unm cmt topic) es s"

section \<open>Saved, pending and lost messages\<close>

definition saved :: "db \<Rightarrow> message \<Rightarrow> bool" where
  "saved d m \<longleftrightarrow> (\<exists>r \<in> set (t_messages d). m_msgId (r_msg r) = m_msgId m)"

text \<open>The record at \<open>(p, o)\<close> of the topic needs nothing more: it is in the database.\<close>

definition settled :: "(bytes \<Rightarrow> message option) \<Rightarrow> (nat \<Rightarrow> bytes list) \<Rightarrow> db \<Rightarrow> nat \<Rightarrow> nat \<Rightarrow> bool" where
  "settled unm topic d p i \<longleftrightarrow> (\<exists>m. unm (topic p ! i) = Some m \<and> saved d m)"

text \<open>At least once: whatever lies behind the committed offset has been saved.\<close>

definition covered :: "(bytes \<Rightarrow> message option) \<Rightarrow> (nat \<Rightarrow> bytes list) \<Rightarrow> (nat \<Rightarrow> nat) \<Rightarrow> consumer \<Rightarrow> bool" where
  "covered unm topic start s \<longleftrightarrow> (\<forall>p i. start p \<le> i \<and> i < k_committed s p \<longrightarrow> settled unm topic (k_db s) p i)"

text \<open>
  Runs without a failed save, without a malformed record and with room in the buffer; a crash may
  come at any point.
\<close>

fun clean_event :: "consumer \<Rightarrow> cevent \<Rightarrow> bool" where
  "clean_event s (Fetch p ok) = (length (k_buffer s) < maxBufferSize)"
| "clean_event s FetchError = True"
| "clean_event s (CommitDropped ok) = True"
| "clean_event s (Tick flt ok) = (\<forall>i. flt i 0 = None)"
| "clean_event s (Signal flt ok) = (\<forall>i. flt i 0 = None)"
| "clean_event s (Shutdown flt ok) = (\<forall>i. flt i 0 = None)"
| "clean_event s (Crash i flt) = True"

fun clean_run ::
  "(bytes \<Rightarrow> message option) \<Rightarrow> commits \<Rightarrow> (nat \<Rightarrow> bytes list) \<Rightarrow> cevent list \<Rightarrow> consumer \<Rightarrow> bool" where
  "clean_run unm cmt topic [] s = True"
| "clean_run unm cmt topic (e # es) s = (clean_event s e \<and> clean_run unm cmt topic es (consumer_step unm cmt topic e s))"

definition well_formed :: "(bytes \<Rightarrow> message option) \<Rightarrow> (nat \<Rightarrow> bytes list) \<Rightarrow> bool" where
  "well_formed unm topic \<longleftrightarrow> (\<forall>p. \<forall>v \<in> set (topic p). unm v \<noteq> None)"

text \<open>
  What such a run keeps: each buffered message is the record it claims to be, and the records
  handed out so far are in the database or in the buffer.
\<close>

definition batch_ok :: "(bytes \<Rightarrow> message option) \<Rightarrow> (nat \<Rightarrow> bytes list) \<Rightarrow> consumer \<Rightarrow> bool" where
  "batch_ok unm topic s \<longleftrightarrow> (\<forall>b \<in> set (k_buffer s). km_Offset (bm_km b) < k_position s (km_Partition (bm_km b)) \<and>
     unm (topic (km_Partition (bm_km b)) ! km_Offset (bm_km b)) = Some (bm_msg b))"

definition tracked :: "(bytes \<Rightarrow> message option) \<Rightarrow> (nat \<Rightarrow> bytes list) \<Rightarrow> (nat \<Rightarrow> nat) \<Rightarrow> consumer \<Rightarrow> bool" where
  "tracked unm topic start s \<longleftrightarrow> (\<forall>p i. start p \<le> i \<and> i < k_position s p \<longrightarrow>
     settled unm topic (k_db s) p i \<or> (\<exists>b \<in> set (k_buffer s). km_Partition (bm_km b) = p \<and> km_Offset (bm_km b) = i))"

definition consumer_inv :: "(bytes \<Rightarrow> message option) \<Rightarrow> (nat \<Rightarrow> bytes list) \<Rightarrow> (nat \<Rightarrow> nat) \<Rightarrow> consumer \<Rightarrow> bool" where
  "consumer_inv unm topic start s \<longleftrightarrow> k_store s \<and> k_dropped s = [] \<and> batch_ok unm topic s \<and> tracked unm topic start s \<and>
     covered unm topic start s \<and> (\<forall>p. start p \<le> k_committed s p \<and> k_committed s p \<le> k_position s p)"

section \<open>Facts\<close>

lemma Save_mono: "saved d m \<Longrightarrow> saved (snd (Save flt x d)) m"
  by (auto simp: Save_def saved_def exec_stmt_def sql_insert_ignore_def split_beta Let_def split: option.split)

lemma Save_saves: "flt 0 = None \<Longrightarrow> fst (Save flt m d) = None \<and> saved (snd (Save flt m d)) m"
  by (auto simp: Save_def saved_def sql_insert_ignore_def split_beta Let_def list_ex_iff)

lemma saveBatch_mono: "saved d m \<Longrightarrow> saved (snd (saveBatch flt i bs d)) m"
proof (induction bs arbitrary: i d)
  case (Cons b bs)
  then show ?case using Save_mono [of d m "flt i" "bm_msg b"] by (simp add: split_beta Let_def)
qed simp

lemma saveBatch_all:
  "(\<And>i. flt i 0 = None) \<Longrightarrow> fst (saveBatch flt i bs d) = map bm_km bs \<and> (\<forall>b \<in> set bs. saved (snd (saveBatch flt i bs d)) (bm_msg b))"
proof (induction bs arbitrary: i d)
  case (Cons b bs)
  then show ?case using Save_saves [of "flt i" "bm_msg b" d] saveBatch_mono by (auto simp: split_beta Let_def)
qed simp

lemma settled_mono: "settled unm topic d p i \<Longrightarrow> (\<And>m. saved d m \<Longrightarrow> saved d' m) \<Longrightarrow> settled unm topic d' p i"
  by (auto simp: settled_def)

lemma commit_bounds:
  assumes "commits_highest cmt"
  shows "c p \<le> cmt ks c p" and "c p \<le> n \<Longrightarrow> (\<And>k. k \<in> set ks \<Longrightarrow> km_Partition k = p \<Longrightarrow> km_Offset k < n) \<Longrightarrow> cmt ks c p \<le> n"
    and "k \<in> set ks \<Longrightarrow> km_Offset k < cmt ks c (km_Partition k)"
proof -
  have e: "cmt ks c p = foldr (\<lambda>k n. if km_Partition k = p then max (Suc (km_Offset k)) n else n) ks (c p)" for ks p
    using assms by (simp add: commits_highest_def)
  show "c p \<le> cmt ks c p" unfolding e by (induction ks) (auto simp: le_max_iff_disj)
  show "c p \<le> n \<Longrightarrow> (\<And>k. k \<in> set ks \<Longrightarrow> km_Partition k = p \<Longrightarrow> km_Offset k < n) \<Longrightarrow> cmt ks c p \<le> n"
    unfolding e by (induction ks) (auto simp: Suc_le_eq)
  show "k \<in> set ks \<Longrightarrow> km_Offset k < cmt ks c (km_Partition k)"
    unfolding e by (induction ks) (auto simp: less_max_iff_disj)
qed

lemma covered_all:
  assumes "tracked unm topic start s" and "k_buffer s = []" and "\<And>p. k_committed s p \<le> k_position s p"
  shows "covered unm topic start s"
  using assms by (auto simp: covered_def tracked_def intro: less_le_trans)

lemma inv_flush:
  assumes "commits_highest cmt" and "\<And>i. flt i 0 = None" and "consumer_inv unm topic start s"
  shows "consumer_inv unm topic start (flushAll cmt flt ok s)"
proof (cases "k_buffer s = []")
  case False
  let ?b = "k_buffer s" and ?d = "snd (saveBatch flt 0 (k_buffer s) (k_db s))"
  let ?c = "if ok then cmt (map bm_km ?b) (k_committed s) else k_committed s"
  have all: "fst (saveBatch flt 0 ?b (k_db s)) = map bm_km ?b" "\<forall>b \<in> set ?b. saved ?d (bm_msg b)"
    using saveBatch_all [of flt 0 ?b "k_db s"] assms(2) by simp_all
  have i: "k_store s" "k_dropped s = []" "batch_ok unm topic s" "tracked unm topic start s" "\<And>p. start p \<le> k_committed s p"
      "\<And>p. k_committed s p \<le> k_position s p"
    using assms(3) by (simp_all add: consumer_inv_def)
  have f: "flushAll cmt flt ok s = s\<lparr>k_buffer := [], k_db := ?d, k_committed := ?c\<rparr>"
    using False i(1) all by (simp add: flushAll_def commitMessages_def Let_def split_beta)
  have c: "start p \<le> ?c p \<and> ?c p \<le> k_position s p" for p
    using i(3) i(5,6) [of p] commit_bounds(1) [OF assms(1), of "k_committed s" p "map bm_km ?b"]
      commit_bounds(2) [OF assms(1), of "k_committed s" p "k_position s p" "map bm_km ?b"]
    by (auto simp: batch_ok_def)
  have t: "tracked unm topic start (flushAll cmt flt ok s)"
    unfolding tracked_def
  proof (intro allI impI disjI1)
    fix p n assume n: "start p \<le> n \<and> n < k_position (flushAll cmt flt ok s) p"
    then consider "settled unm topic (k_db s) p n" | b where "b \<in> set ?b" "km_Partition (bm_km b) = p" "km_Offset (bm_km b) = n"
      using i(4) by (auto simp: tracked_def f)
    then show "settled unm topic (k_db (flushAll cmt flt ok s)) p n"
    proof cases
      case 1
      then show ?thesis using settled_mono [of unm topic "k_db s" p n ?d] saveBatch_mono by (simp add: f)
    next
      case 2
      then show ?thesis using i(3) all(2) by (auto simp: settled_def batch_ok_def f)
    qed
  qed
  moreover have "covered unm topic start (flushAll cmt flt ok s)"
    using t c by (intro covered_all) (simp_all add: f)
  ultimately show ?thesis using i c by (simp add: consumer_inv_def batch_ok_def f)
qed (use assms in \<open>simp add: flushAll_def\<close>)

lemma inv_fetch:
  assumes "well_formed unm topic" and "length (k_buffer s) < maxBufferSize" and "consumer_inv unm topic start s"
  shows "consumer_inv unm topic start (consumer_step unm cmt topic (Fetch p ok) s)"
proof (cases "k_done s \<or> k_position s p \<ge> length (topic p)")
  case False
  let ?o = "k_position s p"
  obtain m where m: "unm (topic p ! ?o) = Some m" 
    using False assms(1) nth_mem [of ?o "topic p"] unfolding well_formed_def by fastforce
  let ?b = "\<lparr>bm_msg = m, bm_km = fetched topic p s\<rparr>"
  have km: "km_Partition (fetched topic p s) = p" "km_Offset (fetched topic p s) = ?o" "unm (km_Value (fetched topic p s)) = Some m"
    using m by (simp_all add: fetched_def)
  have st: "consumer_step unm cmt topic (Fetch p ok) s = s\<lparr>k_position := (k_position s)(p := Suc ?o), k_buffer := k_buffer s @ [?b],
      k_flushCh := (k_flushCh s \<or> length (k_buffer s @ [?b]) \<ge> defaultBatchSize)\<rparr>"
    using False assms(2,3) km(3) by (simp add: handleFetched_def bufferMsg_def Let_def consumer_inv_def not_le)
  have i: "batch_ok unm topic s" "tracked unm topic start s" using assms(3) by (simp_all add: consumer_inv_def)
  have "batch_ok unm topic (consumer_step unm cmt topic (Fetch p ok) s)"
    using i(1) km m unfolding st batch_ok_def by (auto simp: less_Suc_eq)
  moreover have "tracked unm topic start (consumer_step unm cmt topic (Fetch p ok) s)"
    using i(2) km unfolding st tracked_def by (auto simp: less_Suc_eq)
  moreover have "covered unm topic start (consumer_step unm cmt topic (Fetch p ok) s)"
    using assms(3) unfolding st by (simp add: consumer_inv_def covered_def)
  ultimately show ?thesis using assms(3) unfolding consumer_inv_def st by (auto simp: le_Suc_eq)
qed (use assms in simp)

lemma inv_crash:
  assumes "consumer_inv unm topic start s"
  shows "consumer_inv unm topic start (consumer_step unm cmt topic (Crash i flt) s)"
proof -
  let ?d = "snd (saveBatch flt 0 (take i (k_buffer s)) (k_db s))"
  have "settled unm topic ?d p n" if "start p \<le> n" "n < k_committed s p" for p n
  proof (rule settled_mono)
    show "settled unm topic (k_db s) p n" using assms that by (simp add: consumer_inv_def covered_def)
  qed (rule saveBatch_mono)
  then show ?thesis
    using assms by (simp add: consumer_inv_def NewConsumer_def batch_ok_def tracked_def covered_def)
qed

lemma consumer_inv_done [simp]: "consumer_inv unm topic start (s\<lparr>k_done := b\<rparr>) = consumer_inv unm topic start s"
  "consumer_inv unm topic start (s\<lparr>k_flushCh := b\<rparr>) = consumer_inv unm topic start s"
  by (simp_all add: consumer_inv_def batch_ok_def tracked_def covered_def)

lemma inv_step:
  assumes "commits_highest cmt" and "well_formed unm topic" and "clean_event s e" and "consumer_inv unm topic start s"
  shows "consumer_inv unm topic start (consumer_step unm cmt topic e s)"
proof (cases e)
  case (Fetch p ok)
  then show ?thesis using inv_fetch [OF assms(2) _ assms(4)] assms(3) by simp
next
  case (Crash i flt)
  then show ?thesis using inv_crash [OF assms(4)] by simp
next
  case (Signal flt ok)
  then show ?thesis using inv_flush [OF assms(1), of flt unm topic start "s\<lparr>k_flushCh := False\<rparr>"] assms(3,4) by simp
next
  case (Tick flt ok)
  then show ?thesis using inv_flush [OF assms(1) _ assms(4), of flt] assms(3,4) by simp
next
  case (Shutdown flt ok)
  then show ?thesis using inv_flush [OF assms(1) _ assms(4), of flt] assms(3,4) by simp
qed (use assms(4) in \<open>simp_all add: consumer_inv_def\<close>)

lemma inv_run:
  "commits_highest cmt \<Longrightarrow> well_formed unm topic \<Longrightarrow> clean_run unm cmt topic es s \<Longrightarrow> consumer_inv unm topic start s \<Longrightarrow>
    consumer_inv unm topic start (consumer_run unm cmt topic es s)"
  by (induction es arbitrary: s) (simp_all add: consumer_run_def inv_step)

lemma inv_New: "consumer_inv unm topic c (NewConsumer True c d)"
  by (auto simp: consumer_inv_def NewConsumer_def batch_ok_def tracked_def covered_def)

text \<open>A save that fails without effect leaves the table without the message.\<close>

lemma Save_other: "m_msgId x \<noteq> m_msgId m \<Longrightarrow> saved (snd (Save flt x d)) m = saved d m"
  by (auto simp: Save_def saved_def exec_stmt_def sql_insert_ignore_def split_beta Let_def split: option.split)

lemma saveBatch_other:
  "(\<And>b. b \<in> set bs \<Longrightarrow> m_msgId (bm_msg b) \<noteq> m_msgId m) \<Longrightarrow> saved (snd (saveBatch flt i bs d)) m = saved d m"
proof (induction bs arbitrary: i d)
  case (Cons b bs)
  then show ?case by (simp add: split_beta Let_def Save_other)
qed simp

lemma saveBatch_append: "saveBatch flt i (xs @ ys) d =
    (let (k1, d1) = saveBatch flt i xs d; (k2, d2) = saveBatch flt (i + length xs) ys d1 in (k1 @ k2, d2))"
  by (induction xs arbitrary: i d) (simp_all add: split_beta Let_def)

section \<open>Properties\<close>


definition demo_commit :: commits where
  "demo_commit ks c p = foldr (\<lambda>k n. if km_Partition k = p then max (Suc (km_Offset k)) n else n) ks (c p)"

definition demo_unm :: "bytes \<Rightarrow> message option" where
  "demo_unm v = (if v = [] then None else Some (msg0\<lparr>m_msgId := int (length v), m_content := v\<rparr>))"

definition demo_topic :: "nat \<Rightarrow> bytes list" where
  "demo_topic p = (if p = 0 then [''a'', ''bb'', ''ccc''] else [])"

lemma demo_commits: "commits_highest demo_commit"
  by (simp add: commits_highest_def demo_commit_def)


text \<open>
  A failed save in the middle of a batch is lost: its offset is not committed itself, but the
  commit of a later message of the same partition moves the committed offset past it. The message
  has left the buffer, is not in the database, and no restart delivers it again.
\<close>

theorem failed_save_skipped:
  assumes "commits_highest cmt" and "k_store s" and "k_buffer s = xs @ b # ys" and "flt (length xs) 0 = Some (e, False)"
    and "\<forall>i. i \<noteq> length xs \<longrightarrow> flt i 0 = None" and "y \<in> set ys" and "km_Partition (bm_km y) = km_Partition (bm_km b)"
    and "km_Offset (bm_km b) < km_Offset (bm_km y)" and "\<not> saved (k_db s) (bm_msg b)"
    and "\<forall>x \<in> set (xs @ ys). m_msgId (bm_msg x) \<noteq> m_msgId (bm_msg b)"
  shows "\<exists>s'. s' = flushAll cmt flt True s \<and> k_buffer s' = [] \<and> \<not> saved (k_db s') (bm_msg b) \<and>
    km_Offset (bm_km b) < k_committed s' (km_Partition (bm_km b)) \<and>
    km_Offset (bm_km b) < k_position (consumer_step unm cmt topic (Crash i f) s') (km_Partition (bm_km b))"
proof -
  let ?r = "saveBatch flt 0 (k_buffer s) (k_db s)" and ?d1 = "snd (saveBatch flt 0 xs (k_db s))"
  have sb: "Save (flt (length xs)) (bm_msg b) ?d1 = (Some (wrap_err ''insert message'' e), ?d1)"
    using assms(4) by (simp add: Save_def exec_stmt_def)
  have "fst (saveBatch flt j zs d) = map bm_km zs" if "length xs < j" for j zs d
    using that
  proof (induction zs arbitrary: j d)
    case (Cons z zs)
    then show ?case using assms(5) Save_saves [of "flt j" "bm_msg z" d] by (simp add: split_beta Let_def)
  qed simp
  then have "bm_km y \<in> set (fst ?r)"
    using assms(3,6) sb by (simp add: saveBatch_append split_beta Let_def)
  moreover from this have ne: "fst ?r \<noteq> []" by auto
  ultimately have "km_Offset (bm_km y) < cmt (fst ?r) (k_committed s) (km_Partition (bm_km b))"
    using commit_bounds(3) [OF assms(1)] assms(7) by metis
  moreover have "\<not> saved (snd ?r) (bm_msg b)"
    using assms(3,9,10) sb by (simp add: saveBatch_append split_beta Let_def saveBatch_other)
  moreover have "flushAll cmt flt True s = s\<lparr>k_buffer := [], k_db := snd ?r, k_committed := cmt (fst ?r) (k_committed s)\<rparr>"
    using assms(2,3) ne by (simp add: flushAll_def commitMessages_def Let_def split_beta)
  ultimately show ?thesis using assms(8) by (simp add: NewConsumer_def)
qed

definition demo_rec :: "nat \<Rightarrow> bufferedMsg" where
  "demo_rec n = \<lparr>bm_msg = msg0\<lparr>m_msgId := int n\<rparr>, bm_km = \<lparr>km_Partition = 0, km_Offset = n, km_Value = []\<rparr>\<rparr>"

theorem failed_save_skipped_witness:
  "\<exists>s'. s' = flushAll demo_commit (\<lambda>i _. if i = 0 then Some (''deadlock'', False) else None) True
      ((NewConsumer True (\<lambda>_. 0) migrate)\<lparr>k_buffer := [demo_rec 0, demo_rec 1]\<rparr>) \<and>
    \<not> saved (k_db s') (bm_msg (demo_rec 0)) \<and> 0 < k_committed s' 0"
  using failed_save_skipped [OF demo_commits, of "(NewConsumer True (\<lambda>_. 0) migrate)\<lparr>k_buffer := [demo_rec 0, demo_rec 1]\<rparr>" "[]"
      "demo_rec 0" "[demo_rec 1]" "\<lambda>i _. if i = 0 then Some (''deadlock'', False) else None" "''deadlock''" "demo_rec 1"]
  by (simp add: demo_rec_def NewConsumer_def saved_def migrate_def)

text \<open>
  A malformed record commits what was never saved: skipping it moves the committed offset past
  the records of its partition that still wait in the buffer, and a crash at that moment loses
  them, although every save would have succeeded.
\<close>

theorem malformed_commit_skips:
  assumes "commits_highest cmt" and "\<not> k_done s" and "k_position s p < length (topic p)" and "unm (topic p ! k_position s p) = None"
    and "b \<in> set (k_buffer s)" and "km_Partition (bm_km b) = p" and "km_Offset (bm_km b) < k_position s p"
    and "\<not> saved (k_db s) (bm_msg b)"
  shows "\<exists>s'. s' = consumer_run unm cmt topic [Fetch p True, Crash 0 flt] s \<and> k_buffer s' = [] \<and>
    km_Offset (bm_km b) < k_position s' p \<and> \<not> saved (k_db s') (bm_msg b)"
proof -
  let ?k = "fetched topic p s"
  have "?k \<in> set [?k]" by simp
  from commit_bounds(3) [OF assms(1) this, of "k_committed s"]
  have "k_position s p < cmt [?k] (k_committed s) p" by (simp add: fetched_def)
  moreover have "consumer_step unm cmt topic (Fetch p True) s =
      s\<lparr>k_position := (k_position s)(p := Suc (k_position s p)), k_committed := cmt [?k] (k_committed s)\<rparr>"
    using assms(2-4) by (simp add: handleFetched_def commitMessages_def fetched_def)
  ultimately show ?thesis using assms(7,8) by (simp add: consumer_run_def NewConsumer_def)
qed

theorem malformed_commit_skips_witness:
  "\<exists>s'. s' = consumer_run demo_unm demo_commit (\<lambda>p. [''a'', []]) [Fetch 0 True, Crash 0 (\<lambda>_ _. None)]
      ((NewConsumer True (\<lambda>_. 0) migrate)\<lparr>k_buffer := [demo_rec 0], k_position := \<lambda>_. 1\<rparr>) \<and>
    0 < k_position s' 0 \<and> \<not> saved (k_db s') (bm_msg (demo_rec 0))"
  using malformed_commit_skips [OF demo_commits, of "(NewConsumer True (\<lambda>_. 0) migrate)\<lparr>k_buffer := [demo_rec 0], k_position := \<lambda>_. 1\<rparr>"
      0 "\<lambda>p. [''a'', []]" demo_unm "demo_rec 0" "\<lambda>_ _. None"]
  by (simp add: demo_rec_def NewConsumer_def saved_def migrate_def demo_unm_def)

end
