(* ===== verification/Pipeline.thy ===== *)
theory Pipeline
  imports Router_Commands Consumer Config
begin

text \<open>
  The way of a message from a gateway to the history: the persistence workers of the router publish
  it (\<open>Producer.Publish\<close>), Kafka puts the record into the partition of its key, and the consumer of the
  logic service saves it. The function from keys to partitions is Kafka's. Both sides take their
  brokers and topic from the configuration.
\<close>

section \<open>The two ends\<close>

text \<open>The settings of the writer.\<close>

record kafka_writer =
  kw_Addr :: "string list"
  kw_Topic :: string
  kw_HashBalancer :: bool
  kw_BatchSize :: int
  kw_BatchTimeout :: int
  kw_WriteTimeout :: int
  kw_ReadTimeout :: int
  kw_RequireOne :: bool
  kw_Async :: bool
  kw_AllowAutoTopicCreation :: bool

definition NewProducer :: "string list \<Rightarrow> string \<Rightarrow> kafka_writer" where
  "NewProducer brokers topic =
    \<lparr>kw_Addr = brokers, kw_Topic = topic, kw_HashBalancer = True, kw_BatchSize = 1, kw_BatchTimeout = 10000000, kw_WriteTimeout = 2000000000,
     kw_ReadTimeout = 2000000000, kw_RequireOne = True, kw_Async = False, kw_AllowAutoTopicCreation = True\<rparr>"

definition gatewayProducer :: "config \<Rightarrow> kafka_writer option" where
  "gatewayProducer cfg =
    (let k = gw_Kafka (cf_Gateway cfg)
     in if kc_Enabled k \<and> kc_Brokers k \<noteq> []
        then Some (NewProducer (kc_Brokers k) (if kc_Topic k = [] then ''im.message.persist'' else kc_Topic k)) else None)"

text \<open>
  With one configuration file and no brokers of its own, the logic service consumes what the gateway
  produces: it runs a consumer exactly when the gateway has a producer, on the same brokers and topic.
\<close>

lemma same_topic:
  assumes "kc_Brokers (lo_Kafka (cf_Logic cfg)) = []" and "logicSettings cfg = Inr ls"
  shows "ls_Consumer ls = map_option (\<lambda>w. (kw_Addr w, kw_Topic w)) (gatewayProducer cfg)"
  using assms by (auto simp: logicSettings_def gatewayProducer_def NewProducer_def Let_def split: if_splits)

section \<open>Partitions\<close>

definition partitioned :: "(bytes \<Rightarrow> nat) \<Rightarrow> (bytes \<times> bytes) list \<Rightarrow> nat \<Rightarrow> bytes list" where
  "partitioned part recs p = map snd (filter (\<lambda>(k, _). part k = p) recs)"

text \<open>The record \<open>Publish\<close> writes for a message.\<close>

definition kafka_record :: "env \<Rightarrow> message \<Rightarrow> bytes \<times> bytes" where
  "kafka_record V m = (PutUint64 (word_of_int (m_msgId m)), the (e_mar V m))"

section \<open>Publishing\<close>

lemma persistWorker_publishes:
  assumes "w_persistTasks w = m # ms" and "w_kafka w" and "\<And>n. e_pub V n" and "e_mar V m \<noteq> None"
  shows "w_persistTasks (post (persistWorker V) w) = ms" and "w_kafka (post (persistWorker V) w)"
    and "w_kafkaLog (post (persistWorker V) w) = w_kafkaLog w @ [kafka_record V m]"
  using assms
  by (auto simp: persistWorker_def doPersist_def Publish_def dbCall_def kafka_record_def run_simps split_beta split: option.split)

lemma workers_publish:
  assumes "\<And>n. e_pub V n"
  shows "w_persistTasks w = ms \<Longrightarrow> w_kafka w \<Longrightarrow> \<forall>m \<in> set ms. e_mar V m \<noteq> None \<Longrightarrow>
    w_persistTasks (post (for_each ms (\<lambda>_. persistWorker V)) w) = [] \<and>
    w_kafkaLog (post (for_each ms (\<lambda>_. persistWorker V)) w) = w_kafkaLog w @ map (kafka_record V) ms"
proof (induction ms arbitrary: w)
  case (Cons m ms)
  note p = persistWorker_publishes [OF Cons.prems(1,2) assms]
  show ?case
    using Cons.IH [of "post (persistWorker V) w"] p Cons.prems(3) unfolding for_each.simps post_bind by simp
qed (simp add: run_simps)

section \<open>What the consumer writes\<close>

definition on_topic :: "(bytes \<Rightarrow> message option) \<Rightarrow> (nat \<Rightarrow> bytes list) \<Rightarrow> message \<Rightarrow> bool" where
  "on_topic unm topic m \<longleftrightarrow> (\<exists>p. \<exists>v \<in> set (topic p). unm v = Some m)"

text \<open>A table that grew out of \<open>d\<close> by messages of the topic, each ID in it once.\<close>

definition grown :: "(bytes \<Rightarrow> message option) \<Rightarrow> (nat \<Rightarrow> bytes list) \<Rightarrow> db \<Rightarrow> db \<Rightarrow> bool" where
  "grown unm topic d d' \<longleftrightarrow> distinct (map (\<lambda>r. m_msgId (r_msg r)) (t_messages d')) \<and>
    (\<forall>r \<in> set (t_messages d'). r \<in> set (t_messages d) \<or> on_topic unm topic (r_msg r) \<and> r = saved_row (r_msg r))"

definition writes_ok :: "(bytes \<Rightarrow> message option) \<Rightarrow> (nat \<Rightarrow> bytes list) \<Rightarrow> db \<Rightarrow> consumer \<Rightarrow> bool" where
  "writes_ok unm topic d s \<longleftrightarrow> grown unm topic d (k_db s) \<and> (\<forall>b \<in> set (k_buffer s). on_topic unm topic (bm_msg b))"

lemma grown_Save: "grown unm topic d d' \<Longrightarrow> on_topic unm topic m \<Longrightarrow> grown unm topic d (snd (Save flt m d'))"
  by (auto simp: grown_def Save_def saved_row_def exec_stmt_def sql_insert_ignore_def list_ex_iff split_beta Let_def split: option.split)

lemma grown_saveBatch:
  "grown unm topic d d' \<Longrightarrow> \<forall>b \<in> set bms. on_topic unm topic (bm_msg b) \<Longrightarrow> grown unm topic d (snd (saveBatch flt i bms d'))"
proof (induction bms arbitrary: i d')
  case (Cons b bms)
  then show ?case using grown_Save [of unm topic d d' "bm_msg b" "flt i"] by (simp add: split_beta Let_def)
qed simp

lemma writes_flush: "writes_ok unm topic d s \<Longrightarrow> writes_ok unm topic d (flushAll cmt flt ok s)"
  using grown_saveBatch [of unm topic d "k_db s" "k_buffer s" flt 0]
  by (auto simp: writes_ok_def flushAll_def commitMessages_def Let_def split_beta)

lemma writes_parts [simp]:
  "writes_ok unm topic d (s\<lparr>k_done := b\<rparr>) = writes_ok unm topic d s" "writes_ok unm topic d (s\<lparr>k_flushCh := b\<rparr>) = writes_ok unm topic d s"
  "writes_ok unm topic d (s\<lparr>k_position := f\<rparr>) = writes_ok unm topic d s" "writes_ok unm topic d (s\<lparr>k_dropped := ks\<rparr>) = writes_ok unm topic d s"
  "writes_ok unm topic d (commitMessages cmt ok ks s) = writes_ok unm topic d s"
  by (simp_all add: writes_ok_def commitMessages_def)

lemma writes_fetched:
  assumes "writes_ok unm topic d s" and "km_Value km \<in> set (topic p)"
  shows "writes_ok unm topic d (handleFetched unm cmt ok km s)"
proof (cases "unm (km_Value km)")
  case (Some m)
  then have "on_topic unm topic m" using assms(2) by (auto simp: on_topic_def)
  then show ?thesis using assms(1) Some list.set_sel(2) [of "k_buffer s"]
    by (cases "k_buffer s") (auto simp: handleFetched_def bufferMsg_def writes_ok_def Let_def)
qed (use assms in \<open>simp add: handleFetched_def\<close>)

lemma writes_step: "writes_ok unm topic d s \<Longrightarrow> writes_ok unm topic d (consumer_step unm cmt topic e s)"
proof (induction e)
  case (Fetch p ok)
  then show ?case by (auto intro!: writes_fetched [where p = p] simp: fetched_def)
next
  case (Crash i flt)
  then show ?case using grown_saveBatch [of unm topic d "k_db s" "take i (k_buffer s)" flt 0] set_take_subset [of i "k_buffer s"]
    by (auto simp: writes_ok_def NewConsumer_def)
qed (auto simp: writes_flush split: list.split)

lemma writes_run: "writes_ok unm topic d s \<Longrightarrow> writes_ok unm topic d (consumer_run unm cmt topic es s)"
  by (induction es arbitrary: s) (simp_all add: consumer_run_def writes_step)

lemma writes_New: "distinct (map (\<lambda>r. m_msgId (r_msg r)) (t_messages d)) \<Longrightarrow> writes_ok unm topic d (NewConsumer st c d)"
  by (simp add: writes_ok_def NewConsumer_def grown_def)

lemma filter_key_unique: "distinct (map f xs) \<Longrightarrow> x \<in> set xs \<Longrightarrow> filter (\<lambda>y. f y = f x) xs = [x]"
  by (induction xs) (auto simp: filter_empty_conv, metis imageI)

text \<open>A message that is saved and belongs to the topic is there once, as it was published.\<close>

lemma grown_row:
  assumes "grown unm topic d d'" and "saved d' m"
    and "\<And>r. r \<in> set (t_messages d) \<Longrightarrow> m_msgId (r_msg r) \<noteq> m_msgId m"
    and "\<And>x. on_topic unm topic x \<Longrightarrow> m_msgId x = m_msgId m \<Longrightarrow> x = m"
  shows "filter (\<lambda>r. m_msgId (r_msg r) = m_msgId m) (t_messages d') = [saved_row m]"
proof -
  obtain r where r: "r \<in> set (t_messages d')" "m_msgId (r_msg r) = m_msgId m" using assms(2) by (auto simp: saved_def)
  then have "r = saved_row m" using assms(1,3,4) by (metis grown_def)
  moreover have "filter (\<lambda>x. m_msgId (r_msg x) = m_msgId (r_msg r)) (t_messages d') = [r]"
    using assms(1) r(1) unfolding grown_def by (intro filter_key_unique [where f = "\<lambda>r. m_msgId (r_msg r)"]) simp_all
  ultimately show ?thesis using r(2) by simp
qed

lemma on_partitioned: "on_topic unm (partitioned part recs) m \<longleftrightarrow> (\<exists>(k, v) \<in> set recs. unm v = Some m)"
  by (auto simp: on_topic_def partitioned_def)

lemma settled_all:
  assumes "consumer_inv unm topic (\<lambda>_. 0) s" and "k_buffer s = []" and "\<And>p. k_position s p = length (topic p)" and "on_topic unm topic m"
  shows "saved (k_db s) m"
proof -
  obtain p v where "v \<in> set (topic p)" "unm v = Some m" using assms(4) unfolding on_topic_def by blast
  then obtain i where "i < length (topic p)" "unm (topic p ! i) = Some m" by (metis in_set_conv_nth)
  with assms(1-3) have "settled unm topic (k_db s) p i" by (simp add: consumer_inv_def tracked_def)
  with \<open>unm (topic p ! i) = Some m\<close> show ?thesis by (simp add: settled_def)
qed

section \<open>Properties\<close>


definition tagged_env :: env where
  "tagged_env = gate_env\<lparr>e_unm := (\<lambda>v. if v = ''hello'' then Some gate_chat else None)\<rparr>"


end
