(* ===== verification/JSON_Codec.thy ===== *)
theory JSON_Codec
  imports Go_JSON
begin

text \<open>
  What is encoded as JSON is read back: the round trip of the encoder and the parser of \<open>Go_JSON\<close> for
  values whose strings are valid UTF-8. The gateway writes JSON responses that its clients decode.
\<close>

section \<open>Strings\<close>

function valid_utf8 :: "string \<Rightarrow> bool" where
  "valid_utf8 [] = True"
| "valid_utf8 (c # s) = (rune_size (c # s) \<noteq> 0 \<and> valid_utf8 (drop (rune_size (c # s) - 1) s))"
  by pat_completeness auto
termination by (relation "measure length") auto

lemma rune_size_ascii [simp]: "code c < 128 \<Longrightarrow> rune_size (c # s) = 1"
  by (simp add: rune_size_def)

lemma rune_size_le: "rune_size s \<le> length s"
  by (auto simp: rune_size_def Let_def split: list.split)

lemma rune_size_prefix:
  assumes "rune_size (c # s) \<noteq> 0"
  shows "rune_size (c # take (rune_size (c # s) - 1) s @ r) = rune_size (c # s)"
proof (cases "code c < 128")
  case False
  consider "s = []" | x where "s = [x]" | x y where "s = [x, y]" | x y z u where "s = x # y # z # u"
    by (metis list.exhaust)
  then show ?thesis using assms False by cases (simp_all add: rune_size_def Let_def split: if_splits)
qed simp

lemma hex_val_digit: "n < 16 \<Longrightarrow> hex_val (hex_digit n) = Some n"
  by (simp add: hex_val_def hex_digit_def Let_def)

lemma escape_ascii_parse:
  assumes "code c < 128"
  shows "parse_string (escape_ascii c @ t) = map_option (apfst ((#) c)) (parse_string t)"
proof -
  let ?b = "code c"
  have self: "char_of ?b = c" by simp
  have u: "parse_string (bs # CHR ''u'' # CHR ''0'' # CHR ''0'' # hex_digit (?b div 16) # hex_digit (?b mod 16) # t) =
      map_option (apfst ((#) c)) (parse_string t)"
  proof -
    have "hex_val (CHR ''0'') = Some 0" by (simp add: hex_val_def Let_def)
    then have "getu4 (CHR ''0'' # CHR ''0'' # hex_digit (?b div 16) # hex_digit (?b mod 16) # t) = Some (?b, t)"
      using assms hex_val_digit [of "?b div 16"] hex_val_digit [of "?b mod 16"] by (simp add: getu4_def)
    moreover have "unicode_escape ?b t = ([c], t)" using assms by (simp add: unicode_escape_def utf8_encode_def)
    moreover have "(@) [c] = (#) c" by (rule ext) simp
    ultimately show ?thesis by (simp add: bs_def)
  qed
  have e: "parse_string (bs # x # t) = map_option (apfst ((#) d)) (parse_string t)" if "simple_escape x = Some d" "x \<noteq> CHR ''u''" for x d
    using that by (simp add: bs_def)
  show ?thesis
  proof (cases "c = bs \<or> c = CHR 0x22")
    case True
    then have "escape_ascii c = [bs, c]" "simple_escape c = Some c" "c \<noteq> CHR ''u''" by (auto simp: escape_ascii_def simple_escape_def bs_def)
    then show ?thesis using e by (simp del: parse_string.simps)
  next
    case quote: False
    show ?thesis
    proof (cases "?b \<in> {8, 12, 10, 13, 9}")
      case True
      then have "c \<in> char_of ` {8, 12, 10, 13, 9 :: nat}" by (metis self imageI)
      then have "c \<in> {CHR 0x08, CHR 0x0C, CHR 0x0A, CHR 0x0D, CHR 0x09}" by (auto simp: char_of_def bit_Suc_0_iff)
      then obtain x where "escape_ascii c = [bs, x]" "simple_escape x = Some c" "x \<noteq> CHR ''u''"
        by (elim insertE emptyE) (simp_all add: escape_ascii_def simple_escape_def bs_def)
      then show ?thesis using e by (simp del: parse_string.simps)
    next
      case False
      then have "escape_ascii c = (if ?b < 32 \<or> c = CHR ''<'' \<or> c = CHR ''>'' \<or> c = CHR ''&''
          then [bs, CHR ''u'', CHR ''0'', CHR ''0'', hex_digit (?b div 16), hex_digit (?b mod 16)] else [c])"
        using quote by (simp add: escape_ascii_def Let_def)
      moreover have "parse_string (c # t) = map_option (apfst ((#) c)) (parse_string t)" if "\<not> ?b < 32"
      proof -
        have "(@) [c] = (#) c" by (rule ext) simp
        then show ?thesis using that quote assms by (simp add: Let_def)
      qed
      ultimately show ?thesis using u by (simp del: parse_string.simps)
    qed
  qed
qed

lemma drop_append_rune:
  assumes "rune_size (c # s) \<noteq> 0"
  shows "take (rune_size (c # s) - 1) s @ drop (rune_size (c # s) - 1) s = s" and "length (take (rune_size (c # s) - 1) s) = rune_size (c # s) - 1"
  using assms rune_size_le [of "c # s"] by simp_all

lemma rune_line_separator:
  assumes "rune_size (c # s) = 3" and "c = CHR 0xE2" and "hd s = CHR 0x80" and "hd (tl s) = CHR 0xA8 \<or> hd (tl s) = CHR 0xA9"
  shows "parse_string (bs # ''u202'' @ hex_digit (code (hd (tl s)) - 160) # t) = map_option (apfst ((@) (c # take 2 s))) (parse_string t)"
proof -
  obtain x y u where s: "s = x # y # u" using rune_size_le [of "c # s"] assms(1) by (cases s; cases "tl s") auto
  have "hex_val (CHR ''2'') = Some 2" "hex_val (CHR ''0'') = Some 0" by (simp_all add: hex_val_def Let_def)
  then have "getu4 (''202'' @ hex_digit (code y - 160) # t) = Some (8192 + 32 + (code y - 160), t)"
    using assms(4) s hex_val_digit [of "code y - 160"] by (auto simp: getu4_def)
  moreover have "unicode_escape (8192 + 32 + (code y - 160)) t = ([c, x, y], t)"
    using assms(2-4) s by (auto simp: unicode_escape_def utf8_encode_def char_of_def bit_Suc_0_iff)
  ultimately show ?thesis using s by (simp add: bs_def)
qed

lemma parse_escape: "valid_utf8 s \<Longrightarrow> parse_string (escape_body s @ CHR 0x22 # r) = Some (s, r)"
proof (induction s rule: escape_body.induct)
  case (2 c s)
  let ?n = "rune_size (c # s)"
  have n: "?n \<noteq> 0" and v: "valid_utf8 (drop (?n - 1) s)" using "2.prems" by simp_all
  show ?case
  proof (cases "code c < 128")
    case True
    then show ?thesis using "2.IH"(1) v by (simp add: escape_ascii_parse)
  next
    case False
    note d = drop_append_rune [OF n]
    let ?sep = "?n = 3 \<and> c = CHR 0xE2 \<and> hd s = CHR 0x80 \<and> (hd (tl s) = CHR 0xA8 \<or> hd (tl s) = CHR 0xA9)"
    show ?thesis
    proof (cases ?sep)
      case True
      then have "parse_string (escape_body (drop (?n - 1) s) @ CHR 0x22 # r) = Some (drop (?n - 1) s, r)"
        using "2.IH"(3) [OF False refl n] v by blast
      moreover have "escape_body (c # s) = bs # ''u202'' @ hex_digit (code (hd (tl s)) - 160) # escape_body (drop 2 s)"
        using False True by (auto simp: Let_def)
      moreover have "parse_string (bs # ''u202'' @ hex_digit (code (hd (tl s)) - 160) # escape_body (drop 2 s) @ CHR 0x22 # r) =
          map_option (apfst ((@) (c # take 2 s))) (parse_string (escape_body (drop 2 s) @ CHR 0x22 # r))"
        using rune_line_separator [of c s] True by blast
      moreover have "?n - 1 = 2" using conjunct1 [OF True] by simp
      ultimately show ?thesis using d(1) by (simp only: append_Cons append_assoc append.simps apfst_conv option.map)
    next
      case sep: False
      then have "parse_string (escape_body (drop (?n - 1) s) @ CHR 0x22 # r) = Some (drop (?n - 1) s, r)"
        using "2.IH"(4) [OF False refl n] v by blast
      moreover have "escape_body (c # s) = c # take (?n - 1) s @ escape_body (drop (?n - 1) s)"
        unfolding escape_body.simps if_not_P [OF False] Let_def if_not_P [OF n] if_not_P [OF sep] ..
      moreover have "c \<noteq> CHR 0x22" "c \<noteq> bs" "\<not> code c < 32" using False by (auto simp: bs_def)
      ultimately show ?thesis using rune_size_prefix [OF n] d n by (simp add: Let_def)
    qed
  qed
qed simp

section \<open>Values\<close>

definition ends :: "string \<Rightarrow> bool" where
  "ends r \<longleftrightarrow> r = [] \<or> hd r \<in> {CHR '','', CHR '']'', CHR ''}''}"

text \<open>Values the encoder produces: valid strings, number literals, at most \<open>n\<close> levels of nesting.\<close>

definition number_ok :: "string \<Rightarrow> bool" where
  "number_ok l \<longleftrightarrow> l \<noteq> [] \<and> (is_digit (hd l) \<or> hd l = CHR ''-'') \<and>
    (\<forall>r. ends r \<longrightarrow> parse_number (l @ r) = Some (l, r))"

fun json_ok :: "nat \<Rightarrow> json \<Rightarrow> bool" where
  "json_ok n JNull = True"
| "json_ok n (JBool b) = True"
| "json_ok n (JNum l) = number_ok l"
| "json_ok n (JStr s) = valid_utf8 s"
| "json_ok n (JArr xs) = (0 < n \<and> (\<forall>x \<in> set xs. json_ok (n - 1) x))"
| "json_ok n (JObj kvs) = (0 < n \<and> (\<forall>(k, v) \<in> set kvs. valid_utf8 k \<and> json_ok (n - 1) v))"

definition parses :: "nat \<Rightarrow> json \<Rightarrow> bool" where
  "parses depth j \<longleftrightarrow> (\<forall>n r. 2 * length (json_marshal j) < n \<longrightarrow> ends r \<longrightarrow> parse_value n depth (json_marshal j @ r) = Some (j, r))"

lemma json_marshal_head: "json_ok n j \<Longrightarrow> \<exists>c t. json_marshal j = c # t \<and> (\<forall>u. skip_ws (c # u) = c # u) \<and> c \<noteq> CHR '']''"
proof (cases j)
  case (JNum l)
  moreover assume "json_ok n j"
  ultimately show ?thesis by (cases l) (auto simp: number_ok_def is_digit_def)
qed (auto simp: json_string_def)

lemma parse_members_marshal:
  assumes "\<And>k v. (k, v) \<in> set kvs \<Longrightarrow> valid_utf8 k \<and> json_ok m v \<and> parses depth v" and "kvs \<noteq> []"
    and "2 * length (join_comma (map (\<lambda>(k, v). json_string k @ CHR '':'' # json_marshal v) kvs)) < n"
  shows "parse_members n depth (join_comma (map (\<lambda>(k, v). json_string k @ CHR '':'' # json_marshal v) kvs) @ CHR ''}'' # r) = Some (kvs, r)"
  using assms
proof (induction kvs arbitrary: n)
  case (Cons kv kvs)
  obtain k v where kv: "kv = (k, v)" by fastforce
  obtain n' where n: "n = Suc n'" using Cons.prems(3) by (cases n) auto
  have ok: "valid_utf8 k" "json_ok m v" "parses depth v" using Cons.prems(1) [of k v] kv by simp_all
  have s: "skip_ws (json_string k @ t) = CHR 0x22 # escape_body k @ CHR 0x22 # t" for t by (simp add: json_string_def)
  have v: "parse_value n' depth (json_marshal v @ t) = Some (v, t)" if "ends t" "2 * length (json_marshal v) < n'" for t
    using ok(3) that by (simp add: parses_def)
  show ?case
  proof (cases kvs)
    case Nil
    then show ?thesis using Cons.prems(3) v [of "CHR ''}'' # r"] parse_escape [OF ok(1), of "CHR '':'' # json_marshal v @ CHR ''}'' # r"]
      by (simp add: kv n s ends_def json_string_def del: parse_string.simps)
  next
    case kvs: (Cons kv2 kvs2)
    let ?rest = "join_comma (map (\<lambda>(k, v). json_string k @ CHR '':'' # json_marshal v) kvs)"
    have "parse_members n' depth (?rest @ CHR ''}'' # r) = Some (kvs, r)"
    proof (rule Cons.IH)
      show "valid_utf8 x \<and> json_ok m y \<and> parses depth y" if "(x, y) \<in> set kvs" for x y using Cons.prems(1) [of x y] that by simp
    qed (use Cons.prems(3) kvs in \<open>simp_all add: kv n\<close>)
    then show ?thesis
      using Cons.prems(3) v [of "CHR '','' # ?rest @ CHR ''}'' # r"] parse_escape [OF ok(1)] kvs
      by (simp add: kv n s ends_def json_string_def del: parse_string.simps)
  qed
qed simp

lemma parse_elems_marshal:
  assumes "\<And>v. v \<in> set vs \<Longrightarrow> parses depth v" and "vs \<noteq> []" and "2 * length (join_comma (map json_marshal vs)) + 1 < n"
  shows "parse_elems n depth (join_comma (map json_marshal vs) @ CHR '']'' # r) = Some (vs, r)"
  using assms
proof (induction vs arbitrary: n)
  case (Cons v vs)
  obtain n' where n: "n = Suc n'" using Cons.prems(3) by (cases n) auto
  have v: "parse_value n' depth (json_marshal v @ t) = Some (v, t)" if "ends t" "2 * length (json_marshal v) < n'" for t
    using Cons.prems(1) [of v] that by (simp add: parses_def)
  show ?case
  proof (cases vs)
    case Nil
    then show ?thesis using Cons.prems(3) v [of "CHR '']'' # r"] by (simp add: n ends_def)
  next
    case vs: (Cons v2 vs2)
    have "parse_elems n' depth (join_comma (map json_marshal vs) @ CHR '']'' # r) = Some (vs, r)"
    proof (rule Cons.IH)
      show "parses depth x" if "x \<in> set vs" for x using Cons.prems(1) that by simp
    qed (use Cons.prems(3) vs in \<open>simp_all add: n\<close>)
    then show ?thesis using Cons.prems(3) v [of "CHR '','' # join_comma (map json_marshal vs) @ CHR '']'' # r"] vs by (simp add: n ends_def)
  qed
qed simp

lemma join_comma_head: "\<exists>u. join_comma ((c # t) # xs) = c # u"
  by (cases xs) auto

lemma parses_Arr:
  assumes "\<And>x. x \<in> set xs \<Longrightarrow> json_ok k x \<and> parses (Suc depth) x" and "\<not> maxNestingDepth \<le> depth"
  shows "parses depth (JArr xs)"
  unfolding parses_def
proof (intro allI impI)
  fix n r assume n: "2 * length (json_marshal (JArr xs)) < n"
  then obtain n' where n': "n = Suc n'" by (cases n) auto
  show "parse_value n depth (json_marshal (JArr xs) @ r) = Some (JArr xs, r)"
  proof (cases xs)
    case (Cons x ys)
    obtain c t where c: "json_marshal x = c # t" "\<forall>u. skip_ws (c # u) = c # u" "c \<noteq> CHR '']''"
      using json_marshal_head [of k x] assms(1) [of x] Cons by auto
    obtain u where u: "join_comma (map json_marshal xs) = c # u"
      using join_comma_head [of c t "map json_marshal ys"] Cons c(1) by auto
    have "parse_elems n' (Suc depth) (join_comma (map json_marshal xs) @ CHR '']'' # r) = Some (xs, r)"
      using assms(1) Cons n n' by (intro parse_elems_marshal) simp_all
    then show ?thesis using assms(2) c(2,3) by (simp add: n' u)
  qed (use n' assms(2) in simp)
qed

lemma parses_Obj:
  assumes "\<And>x v. (x, v) \<in> set kvs \<Longrightarrow> valid_utf8 x \<and> json_ok k v \<and> parses (Suc depth) v" and "\<not> maxNestingDepth \<le> depth"
  shows "parses depth (JObj kvs)"
  unfolding parses_def
proof (intro allI impI)
  fix n r assume n: "2 * length (json_marshal (JObj kvs)) < n"
  then obtain n' where n': "n = Suc n'" by (cases n) auto
  let ?f = "\<lambda>(k, v). json_string k @ CHR '':'' # json_marshal v"
  show "parse_value n depth (json_marshal (JObj kvs) @ r) = Some (JObj kvs, r)"
  proof (cases kvs)
    case (Cons kv ys)
    obtain u where u: "join_comma (map ?f kvs) = CHR 0x22 # u"
      using join_comma_head [of "CHR 0x22" "tl (?f kv)" "map ?f ys"] Cons by (cases kv) (auto simp: json_string_def)
    have "parse_members n' (Suc depth) (join_comma (map ?f kvs) @ CHR ''}'' # r) = Some (kvs, r)"
      using assms(1) Cons n n' by (intro parse_members_marshal [where m = k]) simp_all
    then show ?thesis using assms(2) by (simp add: n' u)
  qed (use n' assms(2) in simp)
qed

lemma parses_json: "json_ok k j \<Longrightarrow> depth + k \<le> maxNestingDepth \<Longrightarrow> parses depth j"
proof (induction j arbitrary: k depth)
  case (JNum l)
  then obtain c t where l: "l = c # t" by (cases l) (auto simp: number_ok_def)
  have c: "skip_ws (c # x) = c # x" "c \<noteq> CHR 0x22" "c \<noteq> CHR ''[''" "c \<noteq> CHR ''{''" "c \<noteq> CHR ''n''" "c \<noteq> CHR ''t''" "c \<noteq> CHR ''f''" for x
    using JNum l by (auto simp: number_ok_def is_digit_def)
  show ?case
    unfolding parses_def
  proof (intro allI impI)
    fix n r assume n: "2 * length (json_marshal (JNum l)) < n" and r: "ends r"
    then obtain n' where "n = Suc n'" by (cases n) auto
    moreover have "parse_number (c # t @ r) = Some (l, r)" using JNum(1) r l by (metis json_ok.simps(3) number_ok_def append_Cons)
    ultimately show "parse_value n depth (json_marshal (JNum l) @ r) = Some (JNum l, r)" using c l by simp
  qed
next
  case (JStr s)
  show ?case unfolding parses_def
  proof (intro allI impI)
    fix n r assume "2 * length (json_marshal (JStr s)) < n"
    then obtain n' where "n = Suc n'" by (cases n) auto
    then show "parse_value n depth (json_marshal (JStr s) @ r) = Some (JStr s, r)"
      using JStr(1) parse_escape [of s r] by (simp add: json_string_def del: parse_string.simps)
  qed
next
  case (JArr xs)
  then have "json_ok (k - 1) x \<and> parses (Suc depth) x" if "x \<in> set xs" for x using JArr.IH [OF that, of "k - 1" "Suc depth"] that by auto
  then show ?case by (rule parses_Arr) (use JArr.prems in auto)
next
  case (JObj kvs)
  have "valid_utf8 x \<and> json_ok (k - 1) v \<and> parses (Suc depth) v" if "(x, v) \<in> set kvs" for x v
    using JObj.IH [OF that, of v "k - 1" "Suc depth"] JObj.prems that by fastforce
  then show ?case by (rule parses_Obj) (use JObj.prems in auto)
next
  case JNull
  have "parse_value n depth (''null'' @ r) = Some (JNull, r)" if "0 < n" for n r using that by (cases n) simp_all
  then show ?case by (simp add: parses_def)
next
  case (JBool b)
  have "parse_value n depth ((if b then ''true'' else ''false'') @ r) = Some (JBool b, r)" if "0 < n" for n r using that by (cases n) simp_all
  then show ?case by (cases b) (simp_all add: parses_def)
qed

text \<open>The round trip: what is encoded is decoded again.\<close>

theorem json_roundtrip: "json_ok maxNestingDepth j \<Longrightarrow> json_parse (json_marshal j) = Some j"
proof -
  assume "json_ok maxNestingDepth j"
  then have "parses 0 j" by (rule parses_json) simp
  then have "parse_value (2 * length (json_marshal j) + 1) 0 (json_marshal j @ []) = Some (j, [])"
    unfolding parses_def by (simp add: ends_def del: parse_value.simps append_Nil2)
  then have *: "parse_value (2 * length (json_marshal j) + 1) 0 (json_marshal j) = Some (j, [])" by (simp only: append_Nil2)
  show ?thesis unfolding json_parse_def * by simp
qed

text \<open>Integers are number literals.\<close>

lemma digits_number:
  assumes "list_all is_digit l" and "l \<noteq> []" and "hd l = CHR ''0'' \<Longrightarrow> l = [CHR ''0'']"
  shows "number_ok l" and "number_ok (CHR ''-'' # l)"
proof -
  have r: "takeWhile is_digit r = []" "dropWhile is_digit r = r" "frac_part r = Some ([], r)" "exp_part r = Some ([], r)" if "ends r" for r
    using that by (cases r; force simp: ends_def is_digit_def frac_part_def exp_part_def)+
  have all: "\<forall>c \<in> set l. is_digit c" using assms(1) by (simp add: list_all_iff)
  have i: "int_part (l @ r) = Some (l, r)" if "ends r" for r
  proof (cases l)
    case (Cons c t)
    then show ?thesis
      using assms(3) all r(1,2) [OF that] takeWhile_append2 [of l is_digit r] dropWhile_append2 [of l is_digit r]
      by (auto simp: int_part_def digits1_def)
  qed (use assms(2) in simp)
  have h: "is_digit (hd l)" using all assms(2) by (cases l) auto
  then have n: "hd l \<noteq> CHR ''-''" by (auto simp: is_digit_def)
  have p: "parse_number (l @ r) = Some (l, r)" if "ends r" for r
    using i [OF that] r(3,4) [OF that] n assms(2) by (cases l) (auto simp: parse_number_def)
  have q: "parse_number (CHR ''-'' # l @ r) = Some (CHR ''-'' # l, r)" if "ends r" for r
    using i [OF that] r(3,4) [OF that] by (auto simp: parse_number_def)
  show "number_ok l" using p h assms(2) by (simp add: number_ok_def)
  show "number_ok (CHR ''-'' # l)" using q by (simp add: number_ok_def)
qed

lemma show_nat_zero: "hd (show_nat n) = CHR ''0'' \<Longrightarrow> show_nat n = [CHR ''0'']"
proof (induction n rule: show_nat.induct)
  case (1 n)
  show ?case
  proof (cases "n < 10")
    case True
    then show ?thesis using 1(2) by (subst show_nat.simps) (subst (asm) show_nat.simps, simp)
  next
    case False
    then have s: "show_nat n = show_nat (n div 10) @ [digit (n mod 10)]" by (subst show_nat.simps) simp
    with 1 False have "show_nat (n div 10) = [CHR ''0'']" using show_nat_not_Nil [of "n div 10"] by simp
    then have "n div 10 = 0" using read_show_nat [of "n div 10"] by (simp add: read_nat_def undigit_def)
    with False show ?thesis by simp
  qed
qed

lemma number_ok_int: "json_ok k (JInt x)"
proof -
  have "list_all is_digit (show_nat n)" for n using set_show_nat [of _ n] by (auto simp: list_all_iff is_digit_def)
  then have "number_ok (show_nat n)" "number_ok (CHR ''-'' # show_nat n)" for n
    using digits_number [of "show_nat n"] show_nat_not_Nil [of n] show_nat_zero [of n] by blast+
  then show ?thesis by (simp add: JInt_def show_int_def)
qed

end
