(* ===== verification/Kit.thy ===== *)
theory Kit
  imports Server JSON_Codec
begin

text \<open>
  The client side of the protocol, \<open>bench/kit/kit.go\<close>: connections over WebSocket and framed TCP and
  the HTTP helpers of the load generator. What the network delivers is part of a connection: a list of
  arrivals for TCP, of results of \<open>ReadMessage\<close> for WebSocket. A deadline is set before every read, so
  the end of the list is a timeout. The write after \<open>i\<close> successful ones fails with \<open>_werr i\<close>. An \<open>error\<close> value is known by
  whether it implements \<open>net.Error\<close>, which an error wrapped by \<open>fmt.Errorf\<close> does not.
\<close>

section \<open>Errors and connections\<close>

datatype go_error = NetError bool string | EOF | UnexpectedEOF | ErrorText string | Wrapped string go_error

definition defaultTimeout :: int where "defaultTimeout = 5 * 1000000000"

definition timeoutOr :: "int \<Rightarrow> int" where
  "timeoutOr t = (if t \<le> 0 then defaultTimeout else t)"

definition deadline :: go_error where "deadline = NetError True ''i/o timeout''"

datatype arrival = Bytes bytes | ReadFails go_error

record tcp_client =
  tc_in :: "arrival list"
  tc_out :: "bytes list"
  tc_werr :: "nat \<Rightarrow> go_error option"
  tc_readTimeout :: int
  tc_closed :: bool

record ws_client =
  wc_in :: "(go_error + bytes) list"
  wc_out :: "bytes list"
  wc_werr :: "nat \<Rightarrow> go_error option"
  wc_readTimeout :: int
  wc_closed :: bool

text \<open>\<open>io.ReadFull\<close> for \<open>n\<close> bytes; bytes read before an error are gone.\<close>

fun readFull :: "nat \<Rightarrow> arrival list \<Rightarrow> (go_error + bytes) \<times> arrival list" where
  "readFull n [] = (if n = 0 then Inr [] else Inl deadline, [])"
| "readFull n (Bytes b # s) =
    (if n = 0 then (Inr [], Bytes b # s)
     else if n \<le> length b then (Inr (take n b), Bytes (drop n b) # s)
     else case readFull (n - length b) s of
       (Inl e, s') \<Rightarrow> (Inl (if e = EOF \<and> b \<noteq> [] then UnexpectedEOF else e), s')
     | (Inr r, s') \<Rightarrow> (Inr (b @ r), s'))"
| "readFull n (ReadFails e # s) = (if n = 0 then (Inr [], ReadFails e # s) else (Inl e, s))"

section \<open>TCP\<close>

definition ConnectTCP :: "(string \<Rightarrow> go_error + tcp_client) \<Rightarrow> string \<Rightarrow> go_error + tcp_client" where
  "ConnectTCP dial address = (case dial address of Inl e \<Rightarrow> Inl (Wrapped (''tcp dial to '' @ address) e) | Inr c \<Rightarrow> Inr c)"

definition ReadFrame :: "(bytes \<Rightarrow> message option) \<Rightarrow> int \<Rightarrow> tcp_client \<Rightarrow> (go_error + message) \<times> tcp_client" where
  "ReadFrame unm timeout c =
    (let c = c\<lparr>tc_readTimeout := timeoutOr timeout\<rparr> in
     case readFull 4 (tc_in c) of
       (Inl e, s) \<Rightarrow> (Inl (Wrapped ''read tcp header'' e), c\<lparr>tc_in := s\<rparr>)
     | (Inr header, s) \<Rightarrow>
         let len = Uint32 header in
         if len > 65536 then (Inl (ErrorText (''tcp frame too large: '' @ show_nat (unat len))), c\<lparr>tc_in := s\<rparr>)
         else
           case readFull (unat len) s of
             (Inl e, s) \<Rightarrow> (Inl (Wrapped (''read tcp payload ('' @ show_nat (unat len) @ '' bytes)'') e), c\<lparr>tc_in := s\<rparr>)
           | (Inr payload, s) \<Rightarrow>
               (case unm payload of
                  None \<Rightarrow> (Inl (Wrapped ''unmarshal tcp frame'' (ErrorText ''proto'')), c\<lparr>tc_in := s\<rparr>)
                | Some msg \<Rightarrow> (Inr msg, c\<lparr>tc_in := s\<rparr>)))"

definition WriteFrame :: "(message \<Rightarrow> bytes option) \<Rightarrow> message \<Rightarrow> tcp_client \<Rightarrow> go_error option \<times> tcp_client" where
  "WriteFrame mar msg c =
    (case mar msg of
       None \<Rightarrow> (Some (Wrapped ''marshal tcp message'' (ErrorText ''proto'')), c)
     | Some data \<Rightarrow>
         let frame = PutUint32 (word_of_nat (length data)) @ data in
         case tc_werr c (length (tc_out c)) of
           Some e \<Rightarrow> (Some (Wrapped ''write tcp frame'' e), c)
         | None \<Rightarrow> (None, c\<lparr>tc_out := tc_out c @ [frame]\<rparr>))"

definition TcpClose :: "tcp_client \<Rightarrow> tcp_client" where
  "TcpClose c = c\<lparr>tc_closed := True\<rparr>"

definition TcpLogin :: "(message \<Rightarrow> bytes option) \<Rightarrow> (bytes \<Rightarrow> message option) \<Rightarrow> string \<Rightarrow> int \<Rightarrow> tcp_client \<Rightarrow> (go_error + message) \<times> tcp_client" where
  "TcpLogin mar unm token timeout c =
    (case WriteFrame mar (msg0\<lparr>m_cmd := CmdLogin, m_content := token\<rparr>) c of
       (Some e, c) \<Rightarrow> (Inl e, c)
     | (None, c) \<Rightarrow> ReadFrame unm timeout c)"

definition TcpHeartbeat :: "(message \<Rightarrow> bytes option) \<Rightarrow> (bytes \<Rightarrow> message option) \<Rightarrow> int \<Rightarrow> tcp_client \<Rightarrow> go_error option \<times> tcp_client" where
  "TcpHeartbeat mar unm timeout c =
    (case WriteFrame mar (msg0\<lparr>m_cmd := CmdHeartbeat\<rparr>) c of
       (Some e, c) \<Rightarrow> (Some e, c)
     | (None, c) \<Rightarrow> (case ReadFrame unm timeout c of (Inl e, c) \<Rightarrow> (Some e, c) | (Inr _, c) \<Rightarrow> (None, c)))"

section \<open>WebSocket\<close>

text \<open>\<open>dial\<close> connects to the URL with the token in its query; \<open>parse\<close> is the error of \<open>url.Parse\<close>.\<close>

definition ConnectWS :: "(string \<Rightarrow> go_error option) \<Rightarrow> (string \<Rightarrow> string \<Rightarrow> go_error + ws_client) \<Rightarrow> string \<Rightarrow> string \<Rightarrow> go_error + ws_client" where
  "ConnectWS parse dial wsURL token =
    (case parse wsURL of
       Some e \<Rightarrow> Inl (Wrapped ''parse ws url'' e)
     | None \<Rightarrow> (case dial wsURL token of Inl e \<Rightarrow> Inl (Wrapped ''ws connect'' e) | Inr c \<Rightarrow> Inr c))"

definition ReadRaw :: "int \<Rightarrow> ws_client \<Rightarrow> (go_error + bytes) \<times> ws_client" where
  "ReadRaw timeout c =
    (let c = c\<lparr>wc_readTimeout := timeoutOr timeout\<rparr> in
     case wc_in c of [] \<Rightarrow> (Inl deadline, c) | r # rs \<Rightarrow> (r, c\<lparr>wc_in := rs\<rparr>))"

definition WsReadMessage :: "(bytes \<Rightarrow> message option) \<Rightarrow> int \<Rightarrow> ws_client \<Rightarrow> (go_error + message) \<times> ws_client" where
  "WsReadMessage unm timeout c =
    (case ReadRaw timeout c of
       (Inl e, c) \<Rightarrow> (Inl (Wrapped ''read ws'' e), c)
     | (Inr raw, c) \<Rightarrow>
         (case unm raw of
            None \<Rightarrow> (Inl (Wrapped ''unmarshal ws message'' (ErrorText ''proto'')), c)
          | Some msg \<Rightarrow> (Inr msg, c)))"

definition WsWriteMessage :: "(message \<Rightarrow> bytes option) \<Rightarrow> message \<Rightarrow> ws_client \<Rightarrow> go_error option \<times> ws_client" where
  "WsWriteMessage mar msg c =
    (case mar msg of
       None \<Rightarrow> (Some (Wrapped ''marshal message'' (ErrorText ''proto'')), c)
     | Some data \<Rightarrow>
         case wc_werr c (length (wc_out c)) of
           Some e \<Rightarrow> (Some (Wrapped ''write ws message'' e), c)
         | None \<Rightarrow> (None, c\<lparr>wc_out := wc_out c @ [data]\<rparr>))"

definition WsClose :: "ws_client \<Rightarrow> ws_client" where
  "WsClose c = c\<lparr>wc_closed := True\<rparr>"

definition DrainLoginResp :: "(bytes \<Rightarrow> message option) \<Rightarrow> int \<Rightarrow> ws_client \<Rightarrow> (go_error + message) \<times> ws_client" where
  "DrainLoginResp unm timeout c =
    (case WsReadMessage unm timeout c of
       (Inl e, c) \<Rightarrow> (Inl e, c)
     | (Inr msg, c) \<Rightarrow>
         if m_cmd msg \<noteq> CmdLoginResp then (Inl (ErrorText (''expected login response, got cmd='' @ show_int (m_cmd msg))), c)
         else (Inr msg, c))"

definition WsHeartbeat :: "(message \<Rightarrow> bytes option) \<Rightarrow> (bytes \<Rightarrow> message option) \<Rightarrow> int \<Rightarrow> ws_client \<Rightarrow> go_error option \<times> ws_client" where
  "WsHeartbeat mar unm timeout c =
    (case WsWriteMessage mar (msg0\<lparr>m_cmd := CmdHeartbeat\<rparr>) c of
       (Some e, c) \<Rightarrow> (Some e, c)
     | (None, c) \<Rightarrow> (case WsReadMessage unm timeout c of (Inl e, c) \<Rightarrow> (Some e, c) | (Inr _, c) \<Rightarrow> (None, c)))"

section \<open>HTTP\<close>

text \<open>
  The answer to a request: an error of the transport, or a status and the result of reading the body.
  A form is given as its values; \<open>url.Values.Encode\<close> and the decoding by the server are left out.
\<close>

type_synonym http_answer = "go_error + int \<times> (go_error + bytes)"

definition Login :: "(string \<Rightarrow> (string, string) gomap \<Rightarrow> http_answer) \<Rightarrow> string \<Rightarrow> string \<Rightarrow> string \<Rightarrow> string \<Rightarrow> go_error + string \<times> string" where
  "Login httpPost baseURL uid username password =
    (let form = (''uid'', uid) # (if username \<noteq> [] then [(''username'', username)] else []) @
           (if password \<noteq> [] then [(''password'', password)] else []) in
     case httpPost baseURL form of
       Inl e \<Rightarrow> Inl (Wrapped ''login http'' e)
     | Inr (status, Inl e) \<Rightarrow> Inl (Wrapped ''login read body'' e)
     | Inr (status, Inr body) \<Rightarrow>
         if status \<noteq> 200 then Inl (ErrorText (''login returned '' @ show_int status @ '': '' @ body))
         else
           case struct_members body of
             None \<Rightarrow> Inl (Wrapped ''decode login response'' (ErrorText ''json''))
           | Some kvs \<Rightarrow>
               let (u, bad1) = fill_string ''uid'' kvs; (_, bad2) = fill_string ''username'' kvs; (token, bad3) = fill_string ''token'' kvs
               in if bad1 \<or> bad2 \<or> bad3 then Inl (Wrapped ''decode login response'' (ErrorText ''json'')) else Inr (token, u))"

definition LoginDev :: "(string \<Rightarrow> (string, string) gomap \<Rightarrow> http_answer) \<Rightarrow> string \<Rightarrow> string \<Rightarrow> string \<Rightarrow> go_error + string \<times> string" where
  "LoginDev httpPost baseURL uid username = Login httpPost baseURL uid username []"

text \<open>
  \<open>WaitHealthy\<close>: the polling loop. \<open>t k\<close> is the \<open>k\<close>-th reading of the monotonic clock and \<open>get i\<close> the answer
  to the \<open>i\<close>-th request; between two rounds the loop sleeps. \<open>None\<close> is a loop that does not end.
\<close>

partial_function (option) waitLoop :: "(nat \<Rightarrow> int) \<Rightarrow> (nat \<Rightarrow> http_answer) \<Rightarrow> int \<Rightarrow> nat \<Rightarrow> bool option" where
  "waitLoop t get until i =
    (if \<not> t (Suc i) < until then Some False
     else case get i of
       Inr (status, _) \<Rightarrow> if status = 200 then Some True else waitLoop t get until (Suc i)
     | Inl _ \<Rightarrow> waitLoop t get until (Suc i))"

definition WaitHealthy :: "(nat \<Rightarrow> int) \<Rightarrow> (nat \<Rightarrow> http_answer) \<Rightarrow> int \<Rightarrow> bool option" where
  "WaitHealthy t get timeout = waitLoop t get (t 0 + timeout) 0"

record health_status =
  hs_Status :: string
  hs_Connections :: int
  hs_Dependencies :: "(string, string) gomap"
  hs_AllocMB :: int
  hs_Goroutines :: int

text \<open>A field of struct type and a field of type \<open>map[string]string\<close>: the members stored, in order, and type errors.\<close>

definition fill_struct :: "string \<Rightarrow> (string \<times> json) list \<Rightarrow> (string \<times> json) list \<times> bool" where
  "fill_struct name kvs =
    (concat (map (\<lambda>v. case v of JObj ms \<Rightarrow> ms | _ \<Rightarrow> []) (field_values name kvs)),
     list_ex (\<lambda>v. case v of JObj _ \<Rightarrow> False | JNull \<Rightarrow> False | _ \<Rightarrow> True) (field_values name kvs))"

definition fill_map :: "string \<Rightarrow> (string \<times> json) list \<Rightarrow> (string, string) gomap \<times> bool" where
  "fill_map name kvs =
    (let (ms, bad) = fill_struct name kvs in
     fold (\<lambda>(k, v) (m, bad). case v of JStr s \<Rightarrow> (AList.update k s m, bad) | JNull \<Rightarrow> (AList.update k [] m, bad) | _ \<Rightarrow> (m, True)) ms ([], bad))"

definition GetHealth :: "http_answer \<Rightarrow> go_error + health_status" where
  "GetHealth answer =
    (case answer of
       Inl e \<Rightarrow> Inl e
     | Inr (status, b) \<Rightarrow>
         let body = (case b of Inr x \<Rightarrow> x | Inl _ \<Rightarrow> []) in
         case struct_members body of
           None \<Rightarrow> Inl (Wrapped ''decode health'' (ErrorText ''json''))
         | Some kvs \<Rightarrow>
             let (st, bad1) = fill_string ''status'' kvs; (conns, bad2) = fill_int 64 ''connections'' kvs;
                 (deps, bad3) = fill_map ''dependencies'' kvs; (mem, bad4) = fill_struct ''memory'' kvs;
                 (alloc, bad5) = fill_int 64 ''alloc_mb'' mem; (gor, bad6) = fill_int 64 ''goroutines'' mem
             in if bad1 \<or> bad2 \<or> bad3 \<or> bad4 \<or> bad5 \<or> bad6 then Inl (Wrapped ''decode health'' (ErrorText ''json''))
                else Inr \<lparr>hs_Status = st, hs_Connections = conns, hs_Dependencies = deps, hs_AllocMB = alloc, hs_Goroutines = gor\<rparr>)"

definition HTTPGetJSON :: "(string \<Rightarrow> go_error option) \<Rightarrow> (string \<Rightarrow> (string, string) gomap \<Rightarrow> http_answer) \<Rightarrow> string \<Rightarrow> string \<Rightarrow>
    (string, string) gomap \<Rightarrow> go_error + bytes" where
  "HTTPGetJSON parse get baseURL path params =
    (case parse (baseURL @ path) of
       Some e \<Rightarrow> Inl e
     | None \<Rightarrow>
         case get (baseURL @ path) params of
           Inl e \<Rightarrow> Inl (Wrapped (''GET '' @ path) e)
         | Inr (status, Inl e) \<Rightarrow> Inl e
         | Inr (status, Inr body) \<Rightarrow>
             if status \<noteq> 200 then Inl (ErrorText (''GET '' @ path @ '' returned '' @ show_int status @ '': '' @ body))
             else Inr body)"

section \<open>Polling\<close>

text \<open>
  The wait for a healthy gateway ends: since a round sleeps for a tenth of a second, there are at
  most as many rounds as tenths in the timeout, and the result is whether one of the requests that
  were made in time was answered with status 200.
\<close>

definition answered :: "http_answer \<Rightarrow> bool" where
  "answered a \<longleftrightarrow> (case a of Inr (status, _) \<Rightarrow> status = 200 | Inl _ \<Rightarrow> False)"

lemma waitLoop_unfold:
  "waitLoop t get until i = (if \<not> t (Suc i) < until then Some False else if answered (get i) then Some True else waitLoop t get until (Suc i))"
  by (subst waitLoop.simps) (auto simp: answered_def split: sum.split prod.split)

lemma waitLoop_ends:
  assumes "\<And>k. t k + 100000000 \<le> t (Suc k)"
  shows "until \<le> t (Suc i) + 100000000 * int n \<Longrightarrow>
    \<exists>b. waitLoop t get until i = Some b \<and> (b \<longleftrightarrow> (\<exists>j < n. answered (get (i + j)) \<and> t (Suc (i + j)) < until))"
proof (induction n arbitrary: i)
  case 0
  then show ?case by (subst waitLoop_unfold) auto
next
  case (Suc n)
  have mono: "t k \<le> t (k + j)" for k j
  proof (induction j)
    case (Suc j)
    then show ?case using assms [of "k + j"] by simp
  qed simp
  have le: "until \<le> t (Suc (Suc i)) + 100000000 * int n" using Suc.prems assms [of "Suc i"] by simp
  show ?case
  proof (cases "t (Suc i) < until")
    case True
    show ?thesis
    proof (cases "answered (get i)")
      case yes: True
      with True show ?thesis by (subst waitLoop_unfold) (auto intro!: exI [of _ 0])
    next
      case no: False
      have "(\<exists>j < Suc n. answered (get (i + j)) \<and> t (Suc (i + j)) < until) \<longleftrightarrow> (\<exists>j < n. answered (get (Suc i + j)) \<and> t (Suc (Suc i + j)) < until)"
        using no by (auto simp: less_Suc_eq_0_disj)
      with Suc.IH [OF le] True no show ?thesis by (subst waitLoop_unfold) simp
    qed
  next
    case False
    have "\<not> t (Suc (i + j)) < until" for j using False mono [of "Suc i" j] by simp
    with False show ?thesis by (subst waitLoop_unfold) auto
  qed
qed

section \<open>Frames\<close>

lemma readFull_chunks:
  "concat cs = b @ rest \<Longrightarrow> \<exists>cs'. readFull (length b) (map Bytes cs) = (Inr b, map Bytes cs') \<and> concat cs' = rest"
proof (induction cs arbitrary: b)
  case (Cons c cs)
  show ?case
  proof (cases "b = []")
    case True
    then show ?thesis using Cons.prems by (intro exI [of _ "c # cs"]) simp
  next
    case b: False
    show ?thesis
    proof (cases "length b \<le> length c")
      case True
      moreover have "take (length b) (c @ concat cs) = b" "drop (length b) (c @ concat cs) = rest" using Cons.prems by simp_all
      ultimately have "take (length b) c = b" "drop (length b) c @ concat cs = rest" by simp_all
      with b True show ?thesis by (intro exI [of _ "drop (length b) c # cs"]) simp
    next
      case False
      moreover have "take (length c) (b @ rest) = c" "drop (length c) (b @ rest) = concat cs" using Cons.prems by (simp_all flip: Cons.prems)
      ultimately have "take (length c) b = c" "concat cs = drop (length c) b @ rest" by simp_all
      then obtain b' where b': "b = c @ b'" "concat cs = b' @ rest" by (metis append_take_drop_id)
      with Cons.IH [OF b'(2)] b False show ?thesis by auto
    qed
  qed
qed simp

text \<open>Reading messages one after the other.\<close>

fun readFrames :: "(bytes \<Rightarrow> message option) \<Rightarrow> int \<Rightarrow> nat \<Rightarrow> tcp_client \<Rightarrow> (go_error + message) list \<times> tcp_client" where
  "readFrames unm timeout 0 c = ([], c)"
| "readFrames unm timeout (Suc n) c = (let (r, c) = ReadFrame unm timeout c; (rs, c) = readFrames unm timeout n c in (r # rs, c))"

definition carried :: "(message \<Rightarrow> bytes option) \<Rightarrow> (bytes \<Rightarrow> message option) \<Rightarrow> message \<Rightarrow> bytes \<Rightarrow> bool" where
  "carried mar unm m v \<longleftrightarrow> mar m = Some v \<and> unm v = Some m \<and> fits 65536 v"

lemma ReadFrame_chunks:
  assumes "tc_in c = map Bytes cs" and "concat cs = gnetFrame v @ rest" and "carried mar unm m v"
  shows "\<exists>c' cs'. ReadFrame unm timeout c = (Inr m, c') \<and> tc_in c' = map Bytes cs' \<and> concat cs' = rest"
proof -
  have f: "fits 65536 v" "unm v = Some m" using assms(3) by (simp_all add: carried_def)
  let ?h = "PutUint32 (word_of_nat (length v))"
  obtain cs1 where 1: "readFull 4 (map Bytes cs) = (Inr ?h, map Bytes cs1)" "concat cs1 = v @ rest"
    using readFull_chunks [of cs ?h "v @ rest"] assms(2) by (auto simp: gnetFrame_def)
  obtain cs2 where 2: "readFull (length v) (map Bytes cs1) = (Inr v, map Bytes cs2)" "concat cs2 = rest"
    using readFull_chunks [OF 1(2)] by blast
  have "Uint32 ?h = word_of_nat (length v)" using Uint32_PutUint32 [of "word_of_nat (length v)" "[]"] by simp
  then have "ReadFrame unm timeout c = (Inr m, c\<lparr>tc_readTimeout := timeoutOr timeout, tc_in := map Bytes cs2\<rparr>)"
    using 1(1) 2(1) fits_length [OF f(1)] f(2) assms(1) by (simp add: ReadFrame_def Let_def)
  with 2(2) show ?thesis by auto
qed

lemma readFrames_chunks:
  assumes "list_all2 (carried mar unm) ms vs"
  shows "tc_in c = map Bytes cs \<Longrightarrow> concat cs = concat (map gnetFrame vs) \<Longrightarrow>
    \<exists>c' cs'. readFrames unm timeout (length ms) c = (map Inr ms, c') \<and> tc_in c' = map Bytes cs' \<and> concat cs' = []"
  using assms
proof (induction arbitrary: c cs rule: list_all2_induct)
  case (Cons m ms v vs)
  then obtain c1 cs1 where "ReadFrame unm timeout c = (Inr m, c1)" "tc_in c1 = map Bytes cs1" "concat cs1 = concat (map gnetFrame vs)"
    using ReadFrame_chunks [of c cs v "concat (map gnetFrame vs)" mar unm m timeout] by auto
  with Cons.IH show ?case by fastforce
qed auto

lemma writeFrames:
  assumes "list_all2 (carried mar unm) ms vs" and "\<And>i. tc_werr c i = None"
  shows "tc_out (fold (\<lambda>m c. snd (WriteFrame mar m c)) ms c) = tc_out c @ map gnetFrame vs"
  using assms
proof (induction arbitrary: c rule: list_all2_induct)
  case (Cons m ms v vs)
  have "WriteFrame mar m c = (None, c\<lparr>tc_out := tc_out c @ [gnetFrame v]\<rparr>)"
    using Cons(1,4) by (simp add: WriteFrame_def carried_def gnetFrame_def)
  then show ?case using Cons.IH [of "c\<lparr>tc_out := tc_out c @ [gnetFrame v]\<rparr>"] Cons.prems by simp
qed simp

section \<open>Logging in\<close>

text \<open>The gateway as the server a client posts its login form to.\<close>

definition atGateway :: "web_env \<Rightarrow> server \<Rightarrow> world \<Rightarrow> string \<Rightarrow> (string, string) gomap \<Rightarrow> http_answer" where
  "atGateway W s w url form =
    (let r = res (HandleLogin W s \<lparr>rq_Method = ''POST'', rq_formErr = None, rq_form = form, rq_query = [], rq_Origin = []\<rparr>) w
     in Inr (rs_Status r, Inr (rs_Body r)))"

lemma json_token_fields:
  assumes "valid_utf8 u" and "valid_utf8 n" and "valid_utf8 tok"
  shows "\<exists>kvs. struct_members (json_marshal (json_token u n tok)) = Some kvs \<and> fill_string ''uid'' kvs = (u, False) \<and>
    fill_string ''username'' kvs = (n, False) \<and> fill_string ''token'' kvs = (tok, False)"
proof -
  let ?kvs = "[(''token'', JStr tok), (''uid'', JStr u), (''username'', JStr n)]"
  have j: "json_token u n tok = JObj ?kvs" by (simp add: json_token_def json_map_def)
  have "json_ok maxNestingDepth (JObj ?kvs)" using assms by (simp add: maxNestingDepth_def)
  then have "struct_members (json_marshal (JObj ?kvs)) = Some ?kvs" by (simp add: struct_members_def json_roundtrip del: json_marshal.simps)
  then show ?thesis unfolding j by (intro exI [of _ ?kvs]) (simp add: fill_string_def field_values_def store_string_def)
qed

lemma dev_login:
  assumes "sv_DevMode s" and "uid \<noteq> []" and "n = (if name = [] then uid else name)"
  shows "atGateway W s w url ((''uid'', uid) # (if name \<noteq> [] then [(''username'', name)] else [])) =
    (case Generate (we_jwt W) (sv_jwtMgr s) (read_clock (e_clock (we_V W)) (w_tick w)) (read_clock (e_clock (we_V W)) (Suc (w_tick w)))
        uid n (if uid \<in> set (sv_adminUIDs s) then ''admin'' else ''user'') of
       Inl e \<Rightarrow> Inr (500, Inr (rs_Body (httpError (''generate token: '' @ e) 500)))
     | Inr tok \<Rightarrow> Inr (200, Inr (json_marshal (json_token uid n tok))))"
proof -
  let ?r = "\<lparr>rq_Method = ''POST'', rq_formErr = None, rq_form = (''uid'', uid) # (if name \<noteq> [] then [(''username'', name)] else []),
    rq_query = [], rq_Origin = []\<rparr>"
  have f: "FormValue ?r ''uid'' = uid" "FormValue ?r ''username'' = name" "FormValue ?r ''password'' = []" "FormValue ?r ''role'' = []"
    by (simp_all add: FormValue_def)
  have "HandleLogin W s ?r = issueToken W s uid n (if uid \<in> set (sv_adminUIDs s) then ''admin'' else ''user'')"
    using assms by (simp add: HandleLogin_def postOnly_def finishLogin_def f Let_def)
  then show ?thesis by (simp add: atGateway_def run_issueToken httpError_def writeJSON_def split: sum.split)
qed

text \<open>A client that is given a token was given one the gateway signed for its user.\<close>

lemma LoginDev_token:
  assumes "sv_DevMode s" and "uid \<noteq> []" and "valid_utf8 uid" and "valid_utf8 name"
    and "\<And>c k tok. j_sign (we_jwt W) c k = Inr tok \<Longrightarrow> valid_utf8 tok"
  shows "LoginDev (atGateway W s w) url uid name = Inr (tok, u) \<longleftrightarrow> u = uid \<and>
    Generate (we_jwt W) (sv_jwtMgr s) (read_clock (e_clock (we_V W)) (w_tick w)) (read_clock (e_clock (we_V W)) (Suc (w_tick w)))
      uid (if name = [] then uid else name) (if uid \<in> set (sv_adminUIDs s) then ''admin'' else ''user'') = Inr tok"
proof -
  let ?g = "Generate (we_jwt W) (sv_jwtMgr s) (read_clock (e_clock (we_V W)) (w_tick w)) (read_clock (e_clock (we_V W)) (Suc (w_tick w)))
    uid (if name = [] then uid else name) (if uid \<in> set (sv_adminUIDs s) then ''admin'' else ''user'')"
  note d = dev_login [OF assms(1,2) refl, where name = name and W = W and w = w and url = url]
  show ?thesis
  proof (cases ?g)
    case (Inl e)
    with d show ?thesis by (simp add: LoginDev_def Login_def)
  next
    case (Inr tok')
    then have "valid_utf8 tok'" using assms(5) by (auto simp: Generate_def)
    from json_token_fields [OF assms(3) _ this, of "if name = [] then uid else name"] assms(3,4) d Inr show ?thesis
      by (auto simp: LoginDev_def Login_def)
  qed
qed

lemma jwt_accepts:
  assumes "jwt_law J" and "j_sign J c k = Inr tok" and "kf (True, ''HS256'') = Inr k"
    and "wall nw div 1000000000 < wall (cl_ExpiresAt c) div 1000000000"
  obtains d where "j_parse J kf nw tok = Inr (d, True)" and "same_identity d c"
  using assms unfolding jwt_law_def by blast

text \<open>A valid token as the first frame connects the user, and the response is in the send queue.\<close>

definition login_reply :: "claims \<Rightarrow> int \<Rightarrow> message" where
  "login_reply c t = msg0\<lparr>m_cmd := CmdLoginResp, m_to := cl_UID c, m_content := cl_Username c, m_timestamp := t\<rparr>"

lemma Register_fresh:
  assumes "\<not> at_capacity h (c_UID (objs a))" and "map_of (h_clients h) (c_UID (objs a)) \<noteq> Some a"
  shows "HubGet (c_UID (objs a)) (fst (Register mar pick a (h, objs))) = Some a" and "snd (Register mar pick a (h, objs)) a = objs a"
  using assms by (auto simp: Register_def HubGet_def Let_def map_of_update split: option.split)

lemma login_connects:
  assumes "gc_ctx (f_conns f fd) = StrCtx ''pending''" and "e_unm V frame = Some m" and "m_cmd m = CmdLogin"
    and "TokenValidate J (gh_jwtMgr h) (read_clock (e_clock V) (w_tick (f_world f))) (m_content m) = Inr c"
    and "\<not> at_capacity (w_hub (f_world f)) (cl_UID c)" and "HubGet (cl_UID c) (w_hub (f_world f)) \<noteq> Some (f_next f)"
    and "0 < gh_sendBufSize h" and "e_mar V (login_reply c (now_ms (e_clock V) (w_tick (f_world f) + 3))) = Some v"
  shows "(let f' = post (processFrame J V h fd frame) f in gc_ctx (f_conns f' fd) = ClientCtx (f_next f) \<and>
      HubGet (cl_UID c) (w_hub (f_world f')) = Some (f_next f) \<and> c_send (w_objs (f_world f') (f_next f)) = [v] \<and>
      c_UID (w_objs (f_world f') (f_next f)) = cl_UID c)"
proof -
  let ?w = "f_world f" and ?a = "f_next f" and ?T = "\<lambda>k. read_clock (e_clock V) (w_tick (f_world f) + k)"
  let ?c0 = "SetHeartbeat (?T 2) (NewClient (cl_UID c) (cl_Username c) (gh_sendBufSize h) (?T 1))"
  let ?objs = "(w_objs ?w)(?a := ?c0)" and ?t = "now_ms (e_clock V) (w_tick ?w + 3)"
  have c0: "c_UID ?c0 = cl_UID c" "c_send ?c0 = []" "c_closed ?c0 = False" "c_sendCap ?c0 = gh_sendBufSize h"
    by (simp_all add: SetHeartbeat_def NewClient_def)
  obtain hb objs where r: "Register (e_mar V) (e_pick V (w_calls ?w)) ?a (w_hub ?w, ?objs) = (hb, objs)" by (metis surj_pair)
  have reg: "HubGet (cl_UID c) hb = Some ?a" "objs ?a = ?c0"
    using Register_fresh [of "w_hub ?w" ?objs ?a "e_mar V" "e_pick V (w_calls ?w)"] assms(5,6) r c0(1) by (simp_all add: HubGet_def)
  let ?c1 = "?c0\<lparr>c_send := [v]\<rparr>"
  have s: "Send (e_mar V) p (login_reply c ?t) ?c0 = (None, ?c1)" for p
    using assms(7,8) c0 by (simp add: Send_def has_room_def)
  let ?w' = "?w\<lparr>w_tick := w_tick ?w + 4, w_calls := w_calls ?w + 2, w_hub := hb, w_objs := objs(?a := ?c1)\<rparr>"
  have "handle": "run_state (handleLogin J V h fd frame) f =
      (Inr ?a, f\<lparr>f_world := ?w', f_next := Suc ?a, f_connMap := AList.update fd ?a (f_connMap f)\<rparr>)"
    using assms(2-4) r s [unfolded login_reply_def] reg(2)
    by (simp add: handleLogin_def allocClient_def setHeartbeat_def register_def loginResponse_def sendTo_def onWorld_def run_simps split_beta numeral_eq_Suc)
  have "run_state (processFrame J V h fd frame) f = ((), setConn fd (\<lambda>x. x\<lparr>gc_ctx := ClientCtx ?a\<rparr>)
      (f\<lparr>f_world := ?w', f_next := Suc ?a, f_connMap := AList.update fd ?a (f_connMap f)\<rparr>))"
    using assms(1) "handle" by (simp add: processFrame_def run_simps)
  with reg(1) c0 show ?thesis by (simp add: setConn_def Let_def)
qed

section \<open>Properties\<close>

text \<open>
  Client and gateway speak the same framing: what the client writes, cut into pieces by the
  network, the read loop of the gateway hands over message by message, and frames of the gateway's
  transport the client reads message by message, each side whole, once and in order, with nothing left.
  (Messages the codec carries, of at most 65536 bytes, the limit of the default configuration.)
\<close>

theorem client_frames:
  assumes "list_all2 (carried mar unm) ms vs" and "reader_ok R"
    and "\<And>i. tc_werr c i = None" and "tc_out c = []"
    and "concat up = concat (tc_out (fold (\<lambda>m c. snd (WriteFrame mar m c)) ms c))"
    and "tc_in d = map Bytes down" and "concat down = concat (map gnetFrame vs)"
  shows "feed R 65536 pf up [] s = Some (ActNone, [], fold pf vs s) \<and>
    (\<exists>d' cs. readFrames unm timeout (length ms) d = (map Inr ms, d') \<and> tc_in d' = map Bytes cs \<and> concat cs = [])"
proof
  have "\<forall>v \<in> set vs. fits 65536 v" using assms(1) by (auto simp: list_all2_conv_all_nth in_set_conv_nth carried_def)
  moreover have "concat up = concat (map gnetFrame vs)" using assms(4,5) writeFrames [OF assms(1,3)] by simp
  ultimately show "feed R 65536 pf up [] s = Some (ActNone, [], fold pf vs s)"
    using feed_frames [OF assms(2), of vs 65536 "[]" up] by (simp add: partial_def)
qed (use readFrames_chunks [OF assms(1,6,7)] in blast)



text \<open>
  C6. A client session from end to end, in development mode: the token the client's login gets from
  the gateway over HTTP names the user it asked for, and when the client sends it as its first frame
  over TCP before it expires, the gateway connects that user, and the client reads the login response
  with its name from what the gateway wrote, however the bytes are cut into pieces.
\<close>

theorem client_session:
  assumes "sv_DevMode s" and "uid \<noteq> []" and "valid_utf8 uid" and "valid_utf8 name" and "jwt_law (we_jwt W)"
    and "\<forall>c k tok. j_sign (we_jwt W) c k = Inr tok \<longrightarrow> valid_utf8 tok"
    and "LoginDev (atGateway W s w) url uid name = Inr (tok, u)"
    and "gh_jwtMgr h = sv_jwtMgr s" and "gh_maxFrameSize h = 65536" and "0 < gh_sendBufSize h" and "reader_ok R"
    and "\<not> f_stopped f" and "gc_ctx (f_conns f fd) = StrCtx ''pending''" and "gc_buf (f_conns f fd) = []"
    and "\<not> at_capacity (w_hub (f_world f)) uid" and "HubGet uid (w_hub (f_world f)) \<noteq> Some (f_next f)"
    and "wall (read_clock (e_clock (we_V W)) (w_tick (f_world f))) div 1000000000 <
      (wall (read_clock (e_clock (we_V W)) (w_tick w)) + mg_expiration (sv_jwtMgr s)) div 1000000000"
    and "carried (e_mar (we_V W)) (e_unm (we_V W)) (msg0\<lparr>m_cmd := CmdLogin, m_content := tok\<rparr>) v"
    and "answer = msg0\<lparr>m_cmd := CmdLoginResp, m_to := uid, m_content := (if name = [] then uid else name),
      m_timestamp := now_ms (e_clock (we_V W)) (w_tick (f_world f) + 3)\<rparr>"
    and "carried (e_mar (we_V W)) (e_unm (we_V W)) answer v'"
    and "\<forall>i. tc_werr c i = None" and "tc_out c = []"
    and "c' = snd (WriteFrame (e_mar (we_V W)) (msg0\<lparr>m_cmd := CmdLogin, m_content := tok\<rparr>) c)"
    and "f' = post (front_event R (we_jwt W) (we_V W) h (Data fd (concat (tc_out c')))) f"
    and "concat down = concat (map gnetFrame (c_send (w_objs (f_world f') (f_next f))))"
  shows "u = uid \<and> gc_ctx (f_conns f' fd) = ClientCtx (f_next f) \<and> HubGet uid (w_hub (f_world f')) = Some (f_next f) \<and>
    fst (TcpLogin (e_mar (we_V W)) (e_unm (we_V W)) tok timeout (c\<lparr>tc_in := map Bytes down\<rparr>)) = Inr answer"
proof -
  let ?V = "we_V W" and ?J = "we_jwt W" and ?m = "msg0\<lparr>m_cmd := CmdLogin, m_content := tok\<rparr>"
  let ?nw = "read_clock (e_clock (we_V W)) (w_tick (f_world f))" and ?n = "if name = [] then uid else name"
  let ?cl = "\<lparr>cl_UID = uid, cl_Username = ?n, cl_Role = if uid \<in> set (sv_adminUIDs s) then ''admin'' else ''user'',
    cl_ExpiresAt = time_add (read_clock (e_clock ?V) (w_tick w)) (mg_expiration (sv_jwtMgr s)),
    cl_IssuedAt = read_clock (e_clock ?V) (Suc (w_tick w)), cl_Issuer = ''im-server''\<rparr>"
  have tok: "u = uid" "j_sign ?J ?cl (mg_secret (sv_jwtMgr s)) = Inr tok"
    using LoginDev_token [OF assms(1-4), of W w url tok u] assms(6,7) by (simp_all add: Generate_def)
  have "tokenKey (sv_jwtMgr s) (True, ''HS256'') = Inr (mg_secret (sv_jwtMgr s))" by (simp add: tokenKey_def)
  moreover have "wall ?nw div 1000000000 < wall (cl_ExpiresAt ?cl) div 1000000000" using assms(17) by (simp add: time_add_def)
  ultimately obtain d where "j_parse ?J (tokenKey (sv_jwtMgr s)) ?nw tok = Inr (d, True)" and d: "same_identity d ?cl"
    using jwt_accepts [OF assms(5) tok(2)] by blast
  then have val: "TokenValidate ?J (gh_jwtMgr h) ?nw (m_content ?m) = Inr d" by (simp add: TokenValidate_def assms(8))
  have id: "cl_UID d = uid" "cl_Username d = ?n" using d by (simp_all add: same_identity_def)
  have rep: "login_reply d (now_ms (e_clock ?V) (w_tick (f_world f) + 3)) = answer" unfolding login_reply_def id assms(19) ..
  have m: "e_mar ?V ?m = Some v" "e_unm ?V v = Some ?m" "fits 65536 v" "e_mar ?V answer = Some v'" using assms(18,20) by (simp_all add: carried_def)
  let ?f1 = "post (processFrame ?J ?V h fd v) f"
  have p: "gc_ctx (f_conns ?f1 fd) = ClientCtx (f_next f)" "HubGet uid (w_hub (f_world ?f1)) = Some (f_next f)"
      "c_send (w_objs (f_world ?f1) (f_next f)) = [v']"
    using login_connects [OF assms(13) m(2) _ val _ _ assms(10), of v'] m(4) assms(15,16) rep unfolding id Let_def by simp_all
  have "c' = c\<lparr>tc_out := [gnetFrame v]\<rparr>" using assms(21-23) m(1) by (simp add: WriteFrame_def gnetFrame_def)
  then have "f' = post (onData R ?J ?V h fd (gnetFrame v)) f" using assms(12,24) by (simp add: served_def run_simps)
  moreover have "OnTraffic R 65536 (\<lambda>p. post (processFrame ?J ?V h fd p)) (gnetFrame v) f = Some (ActNone, [], ?f1)"
    using OnTraffic_prefix [OF assms(11), of "[v]" "[]" 65536 "[]" "\<lambda>p. post (processFrame ?J ?V h fd p)" f] m(3) by (simp add: partial_def)
  ultimately have f': "f' = setConn fd (\<lambda>x. x\<lparr>gc_buf := [], gc_closing := (gc_closing x \<or> ActNone = ActClose)\<rparr>) ?f1"
    using assms(9,14) by (simp add: onData_def)
  have down: "concat down = gnetFrame v'" using assms(25) p(3) unfolding f' by (simp add: setConn_def)
  have "WriteFrame (e_mar ?V) ?m (c\<lparr>tc_in := map Bytes down\<rparr>) = (None, c\<lparr>tc_in := map Bytes down, tc_out := [gnetFrame v]\<rparr>)"
    using m(1) assms(21,22) by (simp add: WriteFrame_def gnetFrame_def)
  moreover obtain c1 where "ReadFrame (e_unm ?V) timeout (c\<lparr>tc_in := map Bytes down, tc_out := [gnetFrame v]\<rparr>) = (Inr answer, c1)"
    using ReadFrame_chunks [OF _ _ assms(20), of "c\<lparr>tc_in := map Bytes down, tc_out := [gnetFrame v]\<rparr>" down "[]" timeout] down by auto
  ultimately have "fst (TcpLogin (e_mar ?V) (e_unm ?V) tok timeout (c\<lparr>tc_in := map Bytes down\<rparr>)) = Inr answer" by (simp add: TcpLogin_def)
  with tok(1) p(1,2) show ?thesis unfolding f' by (simp add: setConn_def)
qed

section \<open>Examples\<close>

definition one_codec :: "message \<Rightarrow> bytes option" where
  "one_codec m = Some [char_of (nat (m_cmd m))]"

definition one_decode :: "bytes \<Rightarrow> message option" where
  "one_decode v = (if length v = 1 then Some (msg0\<lparr>m_cmd := of_char (hd v)\<rparr>) else None)"

definition idle_client :: tcp_client where
  "idle_client = \<lparr>tc_in = [], tc_out = [], tc_werr = (\<lambda>_. None), tc_readTimeout = 0, tc_closed = False\<rparr>"

theorem client_frames_witness:
  "feed list_reader 65536 (\<lambda>p ps. ps @ [p]) [gnetFrame [CHR 0x06] @ [CHR 0x00], drop 1 (gnetFrame [CHR 0x05])] [] [] = Some (ActNone, [], [[CHR 0x06], [CHR 0x05]])"
proof -
  let ?ms = "[msg0\<lparr>m_cmd := CmdHeartbeat\<rparr>, msg0\<lparr>m_cmd := CmdOffline\<rparr>]" and ?vs = "[[CHR 0x06], [CHR 0x05]]"
  have l: "list_all2 (carried one_codec one_decode) ?ms ?vs"
    by (simp add: carried_def one_codec_def one_decode_def fits_def cmd_defs char_of_def bit_Suc_0_iff)
  have h: "gnetFrame [x] = [CHR 0x00, CHR 0x00, CHR 0x00, CHR 0x01, x]" for x
    by (simp add: gnetFrame_def PutUint32_def char_of_def bit_Suc_0_iff)
  have "feed list_reader 65536 (\<lambda>p ps. ps @ [p]) [gnetFrame [CHR 0x06] @ [CHR 0x00], drop 1 (gnetFrame [CHR 0x05])] [] [] =
      Some (ActNone, [], fold (\<lambda>p ps. ps @ [p]) ?vs [])"
    using client_frames [OF l list_reader_ok, of idle_client "[gnetFrame [CHR 0x06] @ [CHR 0x00], drop 1 (gnetFrame [CHR 0x05])]"
      "idle_client\<lparr>tc_in := map Bytes (map gnetFrame ?vs)\<rparr>" "map gnetFrame ?vs" "\<lambda>p ps. ps @ [p]" "[]" 0] writeFrames [OF l, of idle_client]
    by (simp add: idle_client_def h del: feed.simps)
  then show ?thesis by simp
qed

text \<open>A token library that only signs ASCII claims.\<close>

definition ascii_jwt :: jwtlib where
  "ascii_jwt = plain_jwt\<lparr>j_sign := (\<lambda>c k. if list_all (\<lambda>x. code x < 128) (enc_str k @ enc_claims c) then Inr (enc_str k @ enc_claims c) else Inl ''not ASCII'')\<rparr>"

lemma ascii_valid: "list_all (\<lambda>x. code x < 128) s \<Longrightarrow> valid_utf8 s"
  by (induction s) simp_all

lemma ascii_sign: "j_sign ascii_jwt c k = Inr tok \<longleftrightarrow> tok = enc_str k @ enc_claims c \<and> list_all (\<lambda>x. code x < 128) tok"
  by (auto simp: ascii_jwt_def)

lemma jwt_law_restrict:
  assumes "jwt_law J" and "\<And>c k tok. j_sign J' c k = Inr tok \<Longrightarrow> j_sign J c k = Inr tok" and "j_parse J' = j_parse J"
  shows "jwt_law J'"
  using assms(1) unfolding jwt_law_def assms(3) by (intro allI impI) (drule assms(2), blast)

lemma ascii_jwt_law: "jwt_law ascii_jwt" "\<forall>c k tok. j_sign ascii_jwt c k = Inr tok \<longrightarrow> valid_utf8 tok"
proof -
  have "j_sign plain_jwt c k = Inr tok" if "j_sign ascii_jwt c k = Inr tok" for c k tok using that by (simp add: ascii_sign) (simp add: plain_jwt_def)
  moreover have "j_parse ascii_jwt = j_parse plain_jwt" by (simp add: ascii_jwt_def)
  ultimately show "jwt_law ascii_jwt" by (rule jwt_law_restrict [OF plain_jwt_law])
qed (use ascii_sign ascii_valid in blast)

definition kit_token :: string where
  "kit_token = enc_str ''s'' @ enc_claims \<lparr>cl_UID = ''alice'', cl_Username = ''alice'', cl_Role = ''user'',
     cl_ExpiresAt = time_add (read_clock (e_clock gate_env) 0) 3600000000000, cl_IssuedAt = read_clock (e_clock gate_env) 1, cl_Issuer = ''im-server''\<rparr>"

definition kit_answer :: message where
  "kit_answer = msg0\<lparr>m_cmd := CmdLoginResp, m_to := ''alice'', m_content := ''alice'', m_timestamp := now_ms (e_clock gate_env) 3\<rparr>"

definition kit_web :: web_env where
  "kit_web = demo_web\<lparr>we_jwt := ascii_jwt, we_V := gate_env\<lparr>e_mar := (\<lambda>m. Some (if m_cmd m = CmdLogin then ''L'' else ''R'')),
     e_unm := (\<lambda>v. Some (if v = ''L'' then msg0\<lparr>m_cmd := CmdLogin, m_content := kit_token\<rparr> else kit_answer))\<rparr>\<rparr>"

definition kit_server :: server where
  "kit_server = demo_server\<lparr>sv_jwtMgr := NewManager ''s'' 3600000000000, sv_DevMode := True\<rparr>"

definition kit_handler :: gnet_handler where
  "kit_handler = NewGnetHandler (NewManager ''s'' 3600000000000) 4 65536 90000000000"

definition kit_front :: front where
  "kit_front = post (OnOpen 7) (new_front gate 5 0)"

theorem client_session_witness:
  "HubGet ''alice'' (w_hub (f_world (post (front_event list_reader ascii_jwt (we_V kit_web) kit_handler (Data 7 (gnetFrame ''L''))) kit_front))) = Some 5"
proof -
  let ?V = "we_V kit_web" and ?m = "msg0\<lparr>m_cmd := CmdLogin, m_content := kit_token\<rparr>"
  have V: "e_clock ?V = e_clock gate_env" "we_jwt kit_web = ascii_jwt" "e_mar ?V ?m = Some ''L''" "e_unm ?V ''L'' = Some ?m" "e_mar ?V kit_answer = Some ''R''"
      "e_unm ?V ''R'' = Some kit_answer"
    by (simp_all add: kit_web_def kit_answer_def cmd_defs)
  have mg: "sv_jwtMgr kit_server = NewManager ''s'' 3600000000000" "gh_jwtMgr kit_handler = NewManager ''s'' 3600000000000"
    "gh_maxFrameSize kit_handler = 65536" "gh_sendBufSize kit_handler = 4" "sv_DevMode kit_server" "sv_adminUIDs kit_server = [''root'']"
    by (simp_all add: kit_server_def kit_handler_def NewGnetHandler_def demo_server_def)
  have fr: "f_world kit_front = gate" "f_next kit_front = 5" "\<not> f_stopped kit_front" "gc_ctx (f_conns kit_front 7) = StrCtx ''pending''" "gc_buf (f_conns kit_front 7) = []"
    by (simp_all add: kit_front_def OnOpen_def new_front_def setConn_def run_simps)
  have g: "w_tick gate = 0" "\<not> at_capacity (w_hub gate) ''alice''" "HubGet ''alice'' (w_hub gate) = Some 2"
    by (simp_all add: gate_def NewRouter_def NewHub_def at_capacity_def HubGet_def)
  have asc: "list_all (\<lambda>x. code x < 128) kit_token" by (auto simp: kit_token_def enc_claims_def enc_str_def enc_int_def list_all_iff)
  then have "Generate ascii_jwt (sv_jwtMgr kit_server) (read_clock (e_clock gate_env) 0) (read_clock (e_clock gate_env) (Suc 0)) ''alice'' ''alice'' ''user'' = Inr kit_token"
    unfolding Generate_def ascii_sign mg kit_token_def by (simp add: NewManager_def)
  then have log: "LoginDev (atGateway kit_web kit_server gate) [] ''alice'' [] = Inr (kit_token, ''alice'')"
    using LoginDev_token [of kit_server "''alice''" "[]" kit_web gate "[]" kit_token "''alice''"] ascii_jwt_law(2) mg V g(1) by (simp add: ascii_valid)
  have car: "carried (e_mar ?V) (e_unm ?V) ?m ''L''" "carried (e_mar ?V) (e_unm ?V) kit_answer ''R''" using V by (simp_all add: carried_def fits_def)
  have out: "tc_out (snd (WriteFrame (e_mar ?V) ?m idle_client)) = [gnetFrame ''L'']" using V by (simp add: WriteFrame_def idle_client_def gnetFrame_def)
  note client_session [OF mg(5) _ _ _ _ _ log, unfolded V(2), OF _ _ _ ascii_jwt_law _ mg(3) _ list_reader_ok fr(3,4,5) _ _ _ car(1) _ car(2) _ _ refl refl refl,
      of idle_client]
  moreover have "wall (read_clock (e_clock gate_env) 0) div 1000000000 < (wall (read_clock (e_clock gate_env) 0) + mg_expiration (NewManager ''s'' 3600000000000)) div 1000000000"
    by (simp add: NewManager_def)
  ultimately show ?thesis
    using g unfolding out fr g(1) V mg by (simp add: kit_answer_def idle_client_def ascii_valid del: front_event.simps)
qed

end
