(* ===== verification/Loadtest.thy ===== *)
theory Loadtest
  imports Kit
begin

text \<open>
  The load generator \<open>bench/loadtest\<close>: its statistics (\<open>metrics.go\<close>), its connections (\<open>conn.go\<close>), and the
  options (\<open>main.go\<close>). Latencies are rational numbers in milliseconds; a floating-point operation ends
  in the rounding function \<open>rnd\<close>. Results that goroutines send over a channel are a list in the order
  they arrive.
\<close>

section \<open>Series and percentiles\<close>

record series =
  samples :: "rat list"

definition seriesAdd :: "rat \<Rightarrow> series \<Rightarrow> series" where
  "seriesAdd ms s = s\<lparr>samples := samples s @ [if ms < 0 then 0 else ms]\<rparr>"

definition percentileIndex :: "(rat \<Rightarrow> rat) \<Rightarrow> rat \<Rightarrow> nat \<Rightarrow> nat" where
  "percentileIndex rnd p n =
    (let idx = \<lceil>rnd (rnd (p / 100) * of_nat n)\<rceil> - 1;
         idx = (if idx < 0 then 0 else idx);
         idx = (if idx \<ge> int n then int n - 1 else idx)
     in nat idx)"

definition percentiles :: "(rat \<Rightarrow> rat) \<Rightarrow> rat list \<Rightarrow> series \<Rightarrow> (rat, rat) gomap option" where
  "percentiles rnd pcts s =
    (if samples s = [] then None
     else
       let sorted = sort (samples s) in
       Some (fold (\<lambda>p out. AList.update p (sorted ! percentileIndex rnd p (length sorted)) out) pcts []))"

definition seriesCount :: "series \<Rightarrow> nat" where
  "seriesCount s = length (samples s)"

section \<open>Samples of the server\<close>

record sample =
  sa_Connections :: int
  sa_AllocMB :: int
  sa_Goroutines :: int

text \<open>The sampler keeps pointers; \<open>sp_heap\<close> holds the samples they point to.\<close>

record service_sampler =
  sp_heap :: "nat \<Rightarrow> sample"
  sp_min :: "nat option"
  sp_max :: "nat option"
  sp_last :: "nat option"
  sp_count :: nat

record service_summary =
  ss_Min :: sample
  ss_Max :: sample
  ss_Last :: sample
  ss_Samples :: nat

definition lower :: "(sample \<Rightarrow> int) \<Rightarrow> ((int \<Rightarrow> int) \<Rightarrow> sample \<Rightarrow> sample) \<Rightarrow> nat \<Rightarrow> nat \<Rightarrow> (nat \<Rightarrow> sample) \<Rightarrow> nat \<Rightarrow> sample" where
  "lower fld upd p m h = (if fld (h p) < fld (h m) then h(m := upd (\<lambda>_. fld (h p)) (h m)) else h)"

definition raise :: "(sample \<Rightarrow> int) \<Rightarrow> ((int \<Rightarrow> int) \<Rightarrow> sample \<Rightarrow> sample) \<Rightarrow> nat \<Rightarrow> nat \<Rightarrow> (nat \<Rightarrow> sample) \<Rightarrow> nat \<Rightarrow> sample" where
  "raise fld upd p m h = (if fld (h p) > fld (h m) then h(m := upd (\<lambda>_. fld (h p)) (h m)) else h)"

text \<open>\<open>record\<close> for the sample at the fresh address \<open>p\<close>.\<close>

definition samplerRecord :: "nat \<Rightarrow> sample \<Rightarrow> service_sampler \<Rightarrow> service_sampler" where
  "samplerRecord p x s =
    (let s = s\<lparr>sp_heap := (sp_heap s)(p := x), sp_count := Suc (sp_count s), sp_last := Some p\<rparr> in
     case (sp_min s, sp_max s) of
       (Some mn, Some mx) \<Rightarrow>
         s\<lparr>sp_heap :=
           raise sa_Goroutines sa_Goroutines_update p mx (lower sa_Goroutines sa_Goroutines_update p mn
          (raise sa_AllocMB sa_AllocMB_update p mx (lower sa_AllocMB sa_AllocMB_update p mn
          (raise sa_Connections sa_Connections_update p mx (lower sa_Connections sa_Connections_update p mn (sp_heap s))))))\<rparr>
     | _ \<Rightarrow> s\<lparr>sp_min := Some p, sp_max := Some p\<rparr>)"

definition samplerSummary :: "service_sampler \<Rightarrow> service_summary option" where
  "samplerSummary s =
    (if sp_count s = 0 then None
     else case (sp_min s, sp_max s, sp_last s) of
       (Some mn, Some mx, Some la) \<Rightarrow>
         Some \<lparr>ss_Min = sp_heap s mn, ss_Max = sp_heap s mx, ss_Last = sp_heap s la, ss_Samples = sp_count s\<rparr>
     | _ \<Rightarrow> None)"

definition newSampler :: service_sampler where
  "newSampler = \<lparr>sp_heap = (\<lambda>_. \<lparr>sa_Connections = 0, sa_AllocMB = 0, sa_Goroutines = 0\<rparr>), sp_min = None, sp_max = None, sp_last = None, sp_count = 0\<rparr>"

text \<open>The goroutine of \<open>startServiceSampler\<close> over the answers of \<open>/health\<close>: only successful ones are recorded.\<close>

definition sampleTick :: "nat \<times> http_answer \<Rightarrow> service_sampler \<Rightarrow> service_sampler" where
  "sampleTick = (\<lambda>(p, answer) s.
    case GetHealth answer of
      Inl _ \<Rightarrow> s
    | Inr h \<Rightarrow> samplerRecord p \<lparr>sa_Connections = hs_Connections h, sa_AllocMB = hs_AllocMB h, sa_Goroutines = hs_Goroutines h\<rparr> s)"

section \<open>Results\<close>

record stats =
  lt_delivery :: series
  lt_ack :: series
  lt_fanout :: series
  lt_request :: series
  lt_hist :: series
  lt_sent :: int
  lt_delivered :: int
  lt_acked :: int
  lt_failed :: int
  lt_connects :: int
  lt_connectOK :: int
  lt_drops :: int
  lt_searchOK :: int
  lt_searchFail :: int
  lt_historyOK :: int
  lt_historyMsg :: int
  lt_hbOK :: int
  lt_hbFail :: int

definition stats0 :: stats where
  "stats0 = \<lparr>lt_delivery = \<lparr>samples = []\<rparr>, lt_ack = \<lparr>samples = []\<rparr>, lt_fanout = \<lparr>samples = []\<rparr>, lt_request = \<lparr>samples = []\<rparr>, lt_hist = \<lparr>samples = []\<rparr>,
     lt_sent = 0, lt_delivered = 0, lt_acked = 0, lt_failed = 0, lt_connects = 0, lt_connectOK = 0, lt_drops = 0, lt_searchOK = 0, lt_searchFail = 0,
     lt_historyOK = 0, lt_historyMsg = 0, lt_hbOK = 0, lt_hbFail = 0\<rparr>"

record result =
  re_Scenario :: string
  re_Duration :: int
  re_Stats :: stats
  re_Delivery :: "(rat, rat) gomap option"
  re_AckLat :: "(rat, rat) gomap option"
  re_Fanout :: "(rat, rat) gomap option"
  re_Request :: "(rat, rat) gomap option"
  re_Hist :: "(rat, rat) gomap option"
  re_Service :: "service_summary option"

text \<open>\<open>buildResult\<close>; the counters are copied field by field, here as one record.\<close>

definition buildResult :: "(rat \<Rightarrow> rat) \<Rightarrow> string \<Rightarrow> int \<Rightarrow> rat list \<Rightarrow> stats \<Rightarrow> service_summary option \<Rightarrow> result" where
  "buildResult rnd scenario duration pct st service =
    \<lparr>re_Scenario = scenario, re_Duration = duration, re_Stats = st, re_Delivery = percentiles rnd pct (lt_delivery st),
     re_AckLat = percentiles rnd pct (lt_ack st), re_Fanout = percentiles rnd pct (lt_fanout st), re_Request = percentiles rnd pct (lt_request st),
     re_Hist = percentiles rnd pct (lt_hist st), re_Service = service\<rparr>"

definition sortedPcts :: "(rat, rat) gomap \<Rightarrow> rat list" where
  "sortedPcts m = sort (map fst m)"

section \<open>Connections\<close>

datatype bench_conn = WsConn ws_client | TcpConn tcp_client

fun ReadMsg :: "(bytes \<Rightarrow> message option) \<Rightarrow> int \<Rightarrow> bench_conn \<Rightarrow> (go_error + message) \<times> bench_conn" where
  "ReadMsg unm d (WsConn c) = (case WsReadMessage unm d c of (r, c) \<Rightarrow> (r, WsConn c))"
| "ReadMsg unm d (TcpConn c) = (case ReadFrame unm d c of (r, c) \<Rightarrow> (r, TcpConn c))"

fun WriteMsg :: "(message \<Rightarrow> bytes option) \<Rightarrow> message \<Rightarrow> bench_conn \<Rightarrow> go_error option \<times> bench_conn" where
  "WriteMsg mar m (WsConn c) = (case WsWriteMessage mar m c of (e, c) \<Rightarrow> (e, WsConn c))"
| "WriteMsg mar m (TcpConn c) = (case WriteFrame mar m c of (e, c) \<Rightarrow> (e, TcpConn c))"

fun CloseConn :: "bench_conn \<Rightarrow> bench_conn" where
  "CloseConn (WsConn c) = WsConn (WsClose c)"
| "CloseConn (TcpConn c) = TcpConn (TcpClose c)"

text \<open>\<open>dial\<close>: the connections \<open>tcp\<close> and \<open>ws\<close> are what connecting gives. A failed handshake closes the connection.\<close>

definition dial :: "(message \<Rightarrow> bytes option) \<Rightarrow> (bytes \<Rightarrow> message option) \<Rightarrow> string \<Rightarrow> (go_error + tcp_client) \<Rightarrow> (go_error + ws_client) \<Rightarrow> string \<Rightarrow>
    go_error + bench_conn" where
  "dial mar unm transport tcp ws token =
    (if transport = ''tcp'' then
       (case tcp of
          Inl e \<Rightarrow> Inl (Wrapped ''tcp dial'' e)
        | Inr tc \<Rightarrow> (case TcpLogin mar unm token 10000000000 tc of (Inl e, _) \<Rightarrow> Inl (Wrapped ''tcp login'' e) | (Inr _, tc) \<Rightarrow> Inr (TcpConn tc)))
     else
       (case ws of
          Inl e \<Rightarrow> Inl (Wrapped ''ws connect'' e)
        | Inr wc \<Rightarrow> (case DrainLoginResp unm 10000000000 wc of (Inl e, _) \<Rightarrow> Inl (Wrapped ''ws login'' e) | (Inr _, wc) \<Rightarrow> Inr (WsConn wc))))"

text \<open>\<open>fmt.Sprintf("user-%06d", i)\<close>.\<close>

definition padded :: "nat \<Rightarrow> nat \<Rightarrow> string" where
  "padded k i = (let s = show_nat i in replicate (k - length s) (CHR ''0'') @ s)"

definition userID :: "nat \<Rightarrow> string" where
  "userID i = ''user-'' @ padded 6 i"

text \<open>\<open>loginAll\<close> over the results of its workers in the order they arrive; the first error ends it.\<close>

fun collectLogins :: "(nat \<times> (go_error + string)) list \<Rightarrow> (string, string) gomap \<Rightarrow> go_error + (string, string) gomap" where
  "collectLogins [] toks = Inr toks"
| "collectLogins ((i, Inl e) # js) toks = Inl (Wrapped (''login '' @ userID i) e)"
| "collectLogins ((i, Inr token) # js) toks = collectLogins js (AList.update (userID i) token toks)"

definition loginAll :: "(nat \<times> (go_error + string)) list \<Rightarrow> go_error + (string, string) gomap" where
  "loginAll results = collectLogins results []"

section \<open>Options\<close>

record options =
  op_users :: int
  op_conns :: int
  op_rate :: rat
  op_duration :: int
  op_workers :: nat
  op_connRate :: rat
  op_groupSize :: int
  op_groups :: int
  op_msgs :: int
  op_historyCon :: nat
  op_interval :: int
  op_seqBase :: int
  op_pct :: "rat list"

text \<open>How \<open>main\<close> ends: \<open>usageAndExit\<close> and \<open>log.Fatalf\<close> with their message, or the result written out.\<close>

datatype main_end = Usage string | Fatal string "go_error option" | Report result

text \<open>The base of a run's sequence numbers from the random number \<open>r\<close> below $2^{52}$.\<close>

definition newSeqBase :: "int \<Rightarrow> int" where
  "newSeqBase r = i64 (push_bit 8 r)"

text \<open>\<open>main\<close> after the flags are parsed; \<open>runs\<close> gives the outcome of each scenario.\<close>

definition loadtestMain :: "string \<Rightarrow> int \<Rightarrow> string \<Rightarrow> bool \<Rightarrow> (string \<Rightarrow> go_error + result) \<Rightarrow> main_end" where
  "loadtestMain scenario users address healthy runs =
    (if scenario = [] then Usage ''scenario is required''
     else if users mod 2 \<noteq> 0 then Usage ''users must be even (pairs)''
     else if \<not> healthy then Fatal (''gateway not reachable at http://'' @ address) None
     else if scenario \<in> {''churn'', ''chat'', ''group'', ''search'', ''heartbeat''} then
       (case runs scenario of
          Inl e \<Rightarrow> Fatal (''scenario '' @ scenario @ '' failed'') (Some e)
        | Inr r \<Rightarrow> Report r)
     else Usage (''unknown scenario: '' @ scenario))"

text \<open>\<open>pctFlag.Set\<close>: comma-separated; \<open>pf\<close> is \<open>strconv.ParseFloat\<close>.\<close>

fun splitComma :: "string \<Rightarrow> string list" where
  "splitComma [] = [[]]"
| "splitComma (c # s) = (if c = CHR '','' then [] # splitComma s else case splitComma s of x # xs \<Rightarrow> (c # x) # xs | [] \<Rightarrow> [[c]])"

fun parsePcts :: "(string \<Rightarrow> rat option) \<Rightarrow> string list \<Rightarrow> string + rat list" where
  "parsePcts pf [] = Inr []"
| "parsePcts pf (s # ss) =
    (case pf (TrimSpace s) of
       None \<Rightarrow> Inl s
     | Some f \<Rightarrow> (case parsePcts pf ss of Inl e \<Rightarrow> Inl e | Inr fs \<Rightarrow> Inr (f # fs)))"

definition pctSet :: "(string \<Rightarrow> rat option) \<Rightarrow> string \<Rightarrow> string + rat list" where
  "pctSet pf v = parsePcts pf (splitComma v)"

definition defaultPcts :: "rat list" where "defaultPcts = [50, 95, 99]"

section \<open>Percentiles\<close>

lemma percentileIndex_less: "0 < n \<Longrightarrow> percentileIndex rnd p n < n"
  by (auto simp: percentileIndex_def Let_def nat_less_iff)

lemma percentiles_lookup:
  assumes "percentiles rnd pcts s = Some m" and "p \<in> set pcts"
  shows "map_of m p = Some (sort (samples s) ! percentileIndex rnd p (length (samples s)))"
proof -
  let ?f = "\<lambda>p. sort (samples s) ! percentileIndex rnd p (length (samples s))"
  have keep: "map_of out q = Some (?f q) \<Longrightarrow> map_of (fold (\<lambda>p out. AList.update p (?f p) out) ps out) q = Some (?f q)" for ps out q
    by (induction ps arbitrary: out) (auto simp: map_of_update)
  have "q \<in> set ps \<Longrightarrow> map_of (fold (\<lambda>p out. AList.update p (?f p) out) ps out) q = Some (?f q)" for ps out q
  proof (induction ps arbitrary: out)
    case (Cons r ps)
    then show ?case using keep [of "AList.update r (?f r) out" q ps] by (cases "q = r") (auto simp: map_of_update)
  qed simp
  then show ?thesis using assms by (auto simp: percentiles_def Let_def split: if_splits)
qed

text \<open>How many elements of a sorted list lie below its \<open>i\<close>-th element, and how many not above it.\<close>

lemma sorted_below: "sorted xs \<Longrightarrow> i < length xs \<Longrightarrow> length (filter (\<lambda>x. x < xs ! i) xs) \<le> i"
proof (induction xs arbitrary: i)
  case (Cons x xs)
  show ?case
  proof (cases i)
    case 0
    with Cons.prems(1) have "filter (\<lambda>y. y < x) xs = []" by (auto simp: filter_empty_conv)
    with 0 show ?thesis by simp
  next
    case (Suc j)
    then show ?thesis using Cons.IH [of j] Cons.prems by (simp add: le_SucI)
  qed
qed simp

lemma sorted_upto: "sorted xs \<Longrightarrow> i < length xs \<Longrightarrow> Suc i \<le> length (filter (\<lambda>x. x \<le> xs ! i) xs)"
proof (induction xs arbitrary: i)
  case (Cons x xs)
  then show ?case by (cases i) (auto simp: Suc_le_eq)
qed simp

lemma length_filter_sort: "length (filter P (sort xs)) = length (filter P xs)"
  by (simp add: filter_sort)

lemma percentileIndex_exact:
  assumes "0 < n" and "0 < p" and "p \<le> 100"
  shows "of_nat (percentileIndex (\<lambda>x. x) p n) < p / 100 * of_nat n" and "p / 100 * of_nat n \<le> of_nat (Suc (percentileIndex (\<lambda>x. x) p n))"
proof -
  let ?x = "p / 100 * of_nat n"
  have "0 < ?x" using assms by simp
  moreover have "?x \<le> of_nat n" using assms mult_right_mono [of "p / 100" 1 "of_nat n"] by simp
  ultimately have c: "0 < \<lceil>?x\<rceil>" "\<lceil>?x\<rceil> \<le> int n" by (simp_all add: ceiling_le_iff)
  then have i: "int (percentileIndex (\<lambda>x. x) p n) = \<lceil>?x\<rceil> - 1" by (simp add: percentileIndex_def Let_def)
  have r: "rat_of_nat (percentileIndex (\<lambda>x. x) p n) = of_int \<lceil>?x\<rceil> - 1" using arg_cong [OF i, of rat_of_int] by simp
  show "of_nat (percentileIndex (\<lambda>x. x) p n) < ?x" unfolding r using ceiling_correct [of ?x] by linarith
  show "?x \<le> of_nat (Suc (percentileIndex (\<lambda>x. x) p n))" using ceiling_correct [of ?x] r by simp
qed

text \<open>
  The percentiles of the report are nearest-rank percentiles: each is a measured value (whatever
  the rounding, no index is out of range), at least \<open>p\<close> percent of the samples are not above it, and
  fewer than \<open>p\<close> percent lie below it, in exact arithmetic.
\<close>

theorem percentile_rank:
  assumes "percentiles rnd pcts s = Some m" and "p \<in> set pcts"
  shows "\<exists>x \<in> set (samples s). map_of m p = Some x \<and>
    (rnd = (\<lambda>x. x) \<and> 0 < p \<and> p \<le> 100 \<longrightarrow>
      p / 100 * of_nat (length (samples s)) \<le> of_nat (length (filter (\<lambda>y. y \<le> x) (samples s))) \<and>
      of_nat (length (filter (\<lambda>y. y < x) (samples s))) < p / 100 * of_nat (length (samples s)))"
proof -
  let ?n = "length (samples s)" let ?i = "percentileIndex rnd p ?n" let ?xs = "sort (samples s)"
  have n: "0 < ?n" using assms(1) by (auto simp: percentiles_def split: if_splits)
  then have i: "?i < length ?xs" by (simp add: percentileIndex_less)
  have c: "Suc ?i \<le> length (filter (\<lambda>y. y \<le> ?xs ! ?i) (samples s))" "length (filter (\<lambda>y. y < ?xs ! ?i) (samples s)) \<le> ?i"
    using sorted_upto [of ?xs ?i] sorted_below [of ?xs ?i] i by (simp_all add: length_filter_sort)
  have "p / 100 * of_nat ?n \<le> of_nat (length (filter (\<lambda>y. y \<le> ?xs ! ?i) (samples s))) \<and>
      of_nat (length (filter (\<lambda>y. y < ?xs ! ?i) (samples s))) < p / 100 * of_nat ?n" if "rnd = (\<lambda>x. x)" "0 < p" "p \<le> 100"
  proof
    have e: "of_nat ?i < p / 100 * of_nat ?n" "p / 100 * of_nat ?n \<le> of_nat (Suc ?i)"
      using percentileIndex_exact [OF n that(2,3)] that(1) by simp_all
    from e(2) show "p / 100 * of_nat ?n \<le> of_nat (length (filter (\<lambda>y. y \<le> ?xs ! ?i) (samples s)))"
      using c(1) by (metis of_nat_le_iff order_trans)
    from c(2) have "rat_of_nat (length (filter (\<lambda>y. y < ?xs ! ?i) (samples s))) \<le> of_nat ?i" by simp
    with e(1) show "of_nat (length (filter (\<lambda>y. y < ?xs ! ?i) (samples s))) < p / 100 * of_nat ?n" by (rule le_less_trans [rotated])
  qed
  moreover have "?xs ! ?i \<in> set (samples s)" using nth_mem [OF i] by simp
  ultimately show ?thesis using percentiles_lookup [OF assms] by (intro bexI [of _ "?xs ! ?i"]) auto
qed

theorem percentile_rank_witness:
  "\<exists>x \<in> set [30, 10, 20]. map_of [(50, 20 :: rat)] 50 = Some x \<and> 50 / 100 * of_nat 3 \<le> rat_of_nat (length (filter (\<lambda>y. y \<le> x) [30, 10, 20]))"
proof -
  have "\<lceil>3 / 2 :: rat\<rceil> = 2" by (simp add: ceiling_unique)
  then have "percentiles (\<lambda>x. x) [50] \<lparr>samples = [30, 10, 20]\<rparr> = Some [(50, 20)]"
    by (simp add: percentiles_def percentileIndex_def Let_def)
  from percentile_rank [OF this, of 50] show ?thesis by auto
qed

section \<open>The sampler\<close>

text \<open>
  The smallest, the largest and the last sample of the server are always the same: the first sample
  is stored as minimum and maximum through one pointer, so that lowering the one lowers the other,
  and after every sample both have its values.
\<close>

lemma raise_lower:
  assumes "p \<noteq> m" and "\<And>f x. fld (upd f x) = f (fld x)"
  shows "fld (raise fld upd p m (lower fld upd p m h) m) = fld (h p)"
  using assms by (auto simp: raise_def lower_def)

lemma raise_lower_other: "x \<noteq> m \<Longrightarrow> raise fld upd p m (lower fld upd p m h) x = h x"
  by (simp add: raise_def lower_def)

lemma raise_lower_fields:
  assumes "\<And>f x. g (upd f x) = g x"
  shows "g (raise fld upd p m (lower fld upd p m h) m) = g (h m)"
  using assms by (simp add: raise_def lower_def)

definition shows_last :: "service_sampler \<Rightarrow> sample \<Rightarrow> bool" where
  "shows_last s x \<longleftrightarrow> (\<exists>mn la. sp_min s = Some mn \<and> sp_max s = Some mn \<and> sp_last s = Some la \<and> sp_heap s mn = x \<and> sp_heap s la = x)"

lemma samplerRecord_last:
  assumes "sp_min s = sp_max s" and "sp_min s \<noteq> Some p"
  shows "shows_last (samplerRecord p x s) x \<and> sp_count (samplerRecord p x s) = Suc (sp_count s) \<and>
    (sp_min (samplerRecord p x s) = (if sp_min s = None then Some p else sp_min s))"
proof (cases "sp_min s")
  case (Some m)
  then have p: "p \<noteq> m" using assms(2) by simp
  let ?h = "(sp_heap s)(p := x)"
  let ?c = "raise sa_Connections sa_Connections_update p m (lower sa_Connections sa_Connections_update p m ?h)"
  let ?a = "raise sa_AllocMB sa_AllocMB_update p m (lower sa_AllocMB sa_AllocMB_update p m ?c)"
  let ?g = "raise sa_Goroutines sa_Goroutines_update p m (lower sa_Goroutines sa_Goroutines_update p m ?a)"
  have "?g m = x"
    by (rule sample.equality)
      (simp_all add: raise_lower raise_lower_fields raise_lower_other p)
  moreover have "?g p = x" by (simp add: raise_lower_other p)
  ultimately show ?thesis using Some assms(1) by (simp add: samplerRecord_def shows_last_def Let_def)
qed (use assms in \<open>simp add: samplerRecord_def shows_last_def Let_def\<close>)

theorem sampler_last_only:
  assumes "distinct (map fst (ps @ [(p, x)]))" and "s = fold (\<lambda>(p, x). samplerRecord p x) (ps @ [(p, x)]) newSampler"
  shows "samplerSummary s = Some \<lparr>ss_Min = x, ss_Max = x, ss_Last = x, ss_Samples = Suc (length ps)\<rparr>"
proof -
  have inv: "distinct (map fst qs) \<Longrightarrow> (let s = fold (\<lambda>(p, x). samplerRecord p x) qs newSampler in
      sp_min s = sp_max s \<and> sp_min s = (if qs = [] then None else Some (fst (hd qs))) \<and> sp_count s = length qs)" for qs
  proof (induction qs rule: rev_induct)
    case (snoc q qs)
    let ?s = "fold (\<lambda>(p, x). samplerRecord p x) qs newSampler"
    have i: "sp_min ?s = sp_max ?s" "sp_min ?s = (if qs = [] then None else Some (fst (hd qs)))" "sp_count ?s = length qs"
      using snoc.IH snoc.prems unfolding Let_def map_append distinct_append by blast+
    moreover have "sp_min ?s \<noteq> Some (fst q)" using i(2) snoc.prems by (cases qs) auto
    ultimately show ?case using samplerRecord_last [of ?s "fst q" "snd q"] by (cases q) (auto simp: shows_last_def hd_append split: if_splits)
  qed (simp add: newSampler_def)
  let ?s = "fold (\<lambda>(p, x). samplerRecord p x) ps newSampler"
  have i: "sp_min ?s = sp_max ?s" "sp_min ?s = (if ps = [] then None else Some (fst (hd ps)))" "sp_count ?s = length ps"
    using inv [of ps] assms(1) unfolding Let_def map_append distinct_append by blast+
  moreover have "sp_min ?s \<noteq> Some p" using i(2) assms(1) by (cases ps) auto
  ultimately show ?thesis using samplerRecord_last [of ?s p x] assms(2) by (auto simp: samplerSummary_def shows_last_def)
qed

theorem sampler_last_only_witness:
  "samplerSummary (fold (\<lambda>(p, x). samplerRecord p x) [(1, \<lparr>sa_Connections = 5, sa_AllocMB = 9, sa_Goroutines = 7\<rparr>), (2, \<lparr>sa_Connections = 3, sa_AllocMB = 12, sa_Goroutines = 7\<rparr>)] newSampler) =
    Some \<lparr>ss_Min = \<lparr>sa_Connections = 3, sa_AllocMB = 12, sa_Goroutines = 7\<rparr>, ss_Max = \<lparr>sa_Connections = 3, sa_AllocMB = 12, sa_Goroutines = 7\<rparr>,
      ss_Last = \<lparr>sa_Connections = 3, sa_AllocMB = 12, sa_Goroutines = 7\<rparr>, ss_Samples = 2\<rparr>"
  using sampler_last_only [where ps = "[(1, \<lparr>sa_Connections = 5, sa_AllocMB = 9, sa_Goroutines = 7\<rparr>)]" and p = 2 and
    x = "\<lparr>sa_Connections = 3, sa_AllocMB = 12, sa_Goroutines = 7\<rparr>", OF _ refl] by simp

end
