(* ===== verification/Scenarios.thy ===== *)
theory Scenarios
  imports Loadtest
begin

text \<open>
  The scenarios of the load generator (\<open>bench/loadtest/scenarios.go\<close>). The goroutines of a run share its
  counters and connections; a run is a list of events, each one round of a reader or one tick of a
  sender, in the order they happened. \<open>d\<close> in a reader's event is whether the context was done when its
  read failed. A run whose result is \<open>None\<close> never returns: it panics or waits forever.
\<close>

section \<open>Readers\<close>

fun isTimeout :: "go_error \<Rightarrow> bool" where
  "isTimeout (NetError timeout _) = timeout"
| "isTimeout _ = False"

datatype read_round = Stop bool | Idle | Got message

definition readRound :: "(bytes \<Rightarrow> message option) \<Rightarrow> int \<Rightarrow> bool \<Rightarrow> bench_conn \<Rightarrow> read_round \<times> bench_conn" where
  "readRound unm timeout d conn =
    (case ReadMsg unm timeout conn of
       (Inl e, conn) \<Rightarrow> (if d then Stop False else if isTimeout e then Idle else Stop True, conn)
     | (Inr msg, conn) \<Rightarrow> (Got msg, conn))"

text \<open>\<open>readLoop\<close> over its rounds: \<open>None\<close> while the loop runs, and then whether it ended abnormally.\<close>

fun readLoop :: "(bytes \<Rightarrow> message option) \<Rightarrow> int \<Rightarrow> bool list \<Rightarrow> (message \<Rightarrow> 's \<Rightarrow> 's) \<Rightarrow> bench_conn \<Rightarrow> 's \<Rightarrow> bool option \<times> 's" where
  "readLoop unm timeout [] fn conn s = (None, s)"
| "readLoop unm timeout (d # ds) fn conn s =
    (case readRound unm timeout d conn of
       (Stop abnormal, _) \<Rightarrow> (Some abnormal, s)
     | (Idle, conn) \<Rightarrow> readLoop unm timeout ds fn conn s
     | (Got msg, conn) \<Rightarrow> readLoop unm timeout ds fn conn (fn msg s))"

type_synonym seq_clock = "(int, gotime) gomap"

definition clockRecord :: "int \<Rightarrow> gotime \<Rightarrow> seq_clock \<Rightarrow> seq_clock" where
  "clockRecord sq t m = AList.update sq t m"

definition clockTake :: "int \<Rightarrow> seq_clock \<Rightarrow> gotime option \<times> seq_clock" where
  "clockTake sq m = (case map_of m sq of None \<Rightarrow> (None, m) | Some t \<Rightarrow> (Some t, AList.delete sq m))"

text \<open>Go's integer division by a positive number; \<open>millis\<close> is \<open>float64(d.Microseconds()) / 1000.0\<close>.\<close>

definition truncDiv :: "int \<Rightarrow> int \<Rightarrow> int" where
  "truncDiv a b = (if a < 0 then - (- a div b) else a div b)"

definition millis :: "(rat \<Rightarrow> rat) \<Rightarrow> int \<Rightarrow> rat" where
  "millis rnd ns = rnd (of_int (truncDiv ns 1000) / 1000)"

text \<open>The semaphore that bounds how many dials run at once: \<open>int(connRate)\<close> slots.\<close>

definition dialSlots :: "options \<Rightarrow> nat" where
  "dialSlots opts = (if op_connRate opts \<le> 0 then 50 else nat \<lfloor>op_connRate opts\<rfloor>)"

text \<open>
  All connections of a chat or group run, with \<open>dials\<close> the result of \<open>dial\<close> for a user and its token.
  Without a slot every dial waits forever.
\<close>

definition connectAll :: "options \<Rightarrow> (string \<Rightarrow> string \<Rightarrow> go_error + bench_conn) \<Rightarrow> (string, string) gomap \<Rightarrow> nat \<Rightarrow> (go_error + bench_conn list) option" where
  "connectAll opts dials toks users =
    (if dialSlots opts = 0 \<and> users > 0 then None
     else
       let dialled = map (\<lambda>i. dials (userID i) (case map_of toks (userID i) of None \<Rightarrow> [] | Some t \<Rightarrow> t)) [0..<users];
           failed = length (filter isl dialled)
       in if failed > 0 then Some (Inl (ErrorText (show_nat failed @ ''/'' @ show_nat users @ '' connections failed'')))
          else Some (Inr (map projr dialled)))"

section \<open>Churn\<close>

definition churnID :: "nat \<Rightarrow> nat \<Rightarrow> string" where
  "churnID worker sq = ''churn-'' @ padded 3 worker @ ''-'' @ padded 6 sq"

definition churnRate :: "options \<Rightarrow> rat" where
  "churnRate opts = (if op_connRate opts \<le> 0 then 50 else op_connRate opts)"

text \<open>\<open>time.Duration(float64(time.Second) / rate)\<close>, a conversion that cuts off the fraction.\<close>

definition everySecond :: "(rat \<Rightarrow> rat) \<Rightarrow> rat \<Rightarrow> int" where
  "everySecond rnd rate = (let x = rnd (1000000000 / rate) in if x < 0 then - \<lfloor>- x\<rfloor> else \<lfloor>x\<rfloor>)"

text \<open>One round of a worker, with the results of the login and of dialling.\<close>

definition churnRound :: "(message \<Rightarrow> bytes option) \<Rightarrow> (bytes \<Rightarrow> message option) \<Rightarrow> (go_error + string) \<Rightarrow> (string \<Rightarrow> go_error + bench_conn) \<Rightarrow> stats \<Rightarrow> stats" where
  "churnRound mar unm login dialled st =
    (let st = st\<lparr>lt_connects := lt_connects st + 1\<rparr> in
     case login of
       Inl _ \<Rightarrow> st\<lparr>lt_failed := lt_failed st + 1\<rparr>
     | Inr token \<Rightarrow>
         (case dialled token of
            Inl _ \<Rightarrow> st\<lparr>lt_failed := lt_failed st + 1\<rparr>
          | Inr conn \<Rightarrow>
              let st = st\<lparr>lt_connectOK := lt_connectOK st + 1\<rparr> in
              case WriteMsg mar (msg0\<lparr>m_cmd := CmdHeartbeat\<rparr>) conn of
                (None, conn) \<Rightarrow> (case ReadMsg unm 5000000000 conn of (Inr _, _) \<Rightarrow> st\<lparr>lt_hbOK := lt_hbOK st + 1\<rparr> | (Inl _, _) \<Rightarrow> st)
              | (Some _, _) \<Rightarrow> st))"

text \<open>
  A tick of the shared timer taken by a worker. The state is the next number of every worker and the
  counters. A timer with an interval that is not positive panics.
\<close>

definition churnTick :: "(message \<Rightarrow> bytes option) \<Rightarrow> (bytes \<Rightarrow> message option) \<Rightarrow> (string \<Rightarrow> go_error + string) \<Rightarrow> (string \<Rightarrow> go_error + bench_conn) \<Rightarrow>
    nat \<Rightarrow> (nat \<Rightarrow> nat) \<times> stats \<Rightarrow> (nat \<Rightarrow> nat) \<times> stats" where
  "churnTick mar unm login dialled worker = (\<lambda>(sq, st).
    (sq(worker := Suc (sq worker)), churnRound mar unm (login (churnID worker (sq worker))) dialled st))"

definition runChurn :: "(rat \<Rightarrow> rat) \<Rightarrow> (message \<Rightarrow> bytes option) \<Rightarrow> (bytes \<Rightarrow> message option) \<Rightarrow> options \<Rightarrow> (string \<Rightarrow> go_error + string) \<Rightarrow>
    (string \<Rightarrow> go_error + bench_conn) \<Rightarrow> nat list \<Rightarrow> service_summary option \<Rightarrow> result option" where
  "runChurn rnd mar unm opts login dialled ticks service =
    (if everySecond rnd (churnRate opts) \<le> 0 then None
     else Some (buildResult rnd ''churn'' (op_duration opts) (op_pct opts)
       (snd (fold (churnTick mar unm login dialled) (filter (\<lambda>w. w < op_workers opts) ticks) (\<lambda>_. 0, stats0))) service))"

section \<open>Single chat\<close>

text \<open>\<open>ch_seq\<close> is the local variable of the sender, \<open>ch_reading\<close> whether the reader still runs.\<close>

record chat_conn =
  ch_conn :: bench_conn
  ch_uid :: string
  ch_clock :: seq_clock
  ch_seq :: int
  ch_reading :: bool

definition partner :: "nat \<Rightarrow> nat" where
  "partner i = (if even i then Suc i else i - 1)"

definition chatStart :: "int \<Rightarrow> nat \<Rightarrow> int" where
  "chatStart seqBase i = i64 (seqBase + int i * 1000000)"

text \<open>The reader's function for one message; \<open>nw\<close> is the time it was read.\<close>

definition chatOnMsg :: "(rat \<Rightarrow> rat) \<Rightarrow> gotime \<Rightarrow> message \<Rightarrow> seq_clock \<times> stats \<Rightarrow> seq_clock \<times> stats" where
  "chatOnMsg rnd nw msg = (\<lambda>(clk, st).
     if m_cmd msg = CmdChat then
       (clk, st\<lparr>lt_delivered := lt_delivered st + 1, lt_delivery := seriesAdd (of_int (i64 (unixMilli nw - m_timestamp msg))) (lt_delivery st)\<rparr>)
     else if m_cmd msg = CmdAck then
       (let st = st\<lparr>lt_acked := lt_acked st + 1\<rparr> in
        case clockTake (m_seq msg) clk of
          (Some t, clk) \<Rightarrow> (clk, st\<lparr>lt_ack := seriesAdd (millis rnd (time_sub nw t)) (lt_ack st)\<rparr>)
        | (None, clk) \<Rightarrow> (clk, st))
     else (clk, st))"

definition chatMsg :: "string \<Rightarrow> int \<Rightarrow> message" where
  "chatMsg to sq = msg0\<lparr>m_cmd := CmdChat, m_to := to, m_chatType := ChatTypeSingle, m_msgType := MsgTypeText,
     m_content := ''bench-chat-0000000000'', m_needAck := True, m_seq := sq\<rparr>"

definition chatSend :: "(message \<Rightarrow> bytes option) \<Rightarrow> string \<Rightarrow> gotime \<Rightarrow> chat_conn \<times> stats \<Rightarrow> chat_conn \<times> stats" where
  "chatSend mar to nw = (\<lambda>(c, st).
    let c = c\<lparr>ch_clock := clockRecord (ch_seq c) nw (ch_clock c)\<rparr>;
        st = st\<lparr>lt_sent := lt_sent st + 1\<rparr>;
        msg = chatMsg to (ch_seq c);
        c = c\<lparr>ch_seq := i64 (ch_seq c + 1)\<rparr>
    in case WriteMsg mar msg (ch_conn c) of
         (None, conn) \<Rightarrow> (c\<lparr>ch_conn := conn\<rparr>, st)
       | (Some _, conn) \<Rightarrow> (c\<lparr>ch_conn := conn\<rparr>, st\<lparr>lt_failed := lt_failed st + 1\<rparr>))"

definition chatRead :: "(rat \<Rightarrow> rat) \<Rightarrow> (bytes \<Rightarrow> message option) \<Rightarrow> bool \<Rightarrow> gotime \<Rightarrow> chat_conn \<times> stats \<Rightarrow> chat_conn \<times> stats" where
  "chatRead rnd unm d nw = (\<lambda>(c, st).
    if \<not> ch_reading c then (c, st)
    else case readRound unm 1000000000 d (ch_conn c) of
      (Stop _, conn) \<Rightarrow> (c\<lparr>ch_conn := conn, ch_reading := False\<rparr>, st)
    | (Idle, conn) \<Rightarrow> (c\<lparr>ch_conn := conn\<rparr>, st)
    | (Got msg, conn) \<Rightarrow> (case chatOnMsg rnd nw msg (ch_clock c, st) of (clk, st) \<Rightarrow> (c\<lparr>ch_conn := conn, ch_clock := clk\<rparr>, st)))"

datatype chat_event = ChatTick nat gotime | ChatRead nat bool gotime

definition onConn :: "('c \<times> stats \<Rightarrow> 'c \<times> stats) \<Rightarrow> nat \<Rightarrow> 'c list \<times> stats \<Rightarrow> 'c list \<times> stats" where
  "onConn f i = (\<lambda>(cs, st). if i < length cs then (case f (cs ! i, st) of (c, st) \<Rightarrow> (cs[i := c], st)) else (cs, st))"

fun chatEvent :: "(rat \<Rightarrow> rat) \<Rightarrow> (message \<Rightarrow> bytes option) \<Rightarrow> (bytes \<Rightarrow> message option) \<Rightarrow> chat_event \<Rightarrow> chat_conn list \<times> stats \<Rightarrow> chat_conn list \<times> stats" where
  "chatEvent rnd mar unm (ChatTick i nw) s = onConn (chatSend mar (userID (partner i)) nw) i s"
| "chatEvent rnd mar unm (ChatRead i d nw) s = onConn (chatRead rnd unm d nw) i s"

definition chatConns :: "int \<Rightarrow> bench_conn list \<Rightarrow> chat_conn list" where
  "chatConns seqBase conns = map (\<lambda>i. \<lparr>ch_conn = conns ! i, ch_uid = userID i, ch_clock = [], ch_seq = chatStart seqBase i, ch_reading = True\<rparr>) [0..<length conns]"

definition runChat :: "(rat \<Rightarrow> rat) \<Rightarrow> (message \<Rightarrow> bytes option) \<Rightarrow> (bytes \<Rightarrow> message option) \<Rightarrow> options \<Rightarrow> (nat \<times> (go_error + string)) list \<Rightarrow>
    (string \<Rightarrow> string \<Rightarrow> go_error + bench_conn) \<Rightarrow> chat_event list \<Rightarrow> service_summary option \<Rightarrow> (go_error + result) option" where
  "runChat rnd mar unm opts logins dials events service =
    (case loginAll logins of
       Inl e \<Rightarrow> Some (Inl e)
     | Inr toks \<Rightarrow>
         (case connectAll opts dials toks (nat (op_users opts)) of
            None \<Rightarrow> None
          | Some (Inl e) \<Rightarrow> Some (Inl e)
          | Some (Inr conns) \<Rightarrow>
              if conns \<noteq> [] \<and> everySecond rnd (op_rate opts) \<le> 0 then None
              else Some (Inr (buildResult rnd ''chat'' (op_duration opts) (op_pct opts)
                (snd (fold (chatEvent rnd mar unm) events (chatConns (op_seqBase opts) conns, stats0))) service))))"

section \<open>Group chat\<close>

record bench_group =
  gi_id :: string
  gi_owner :: nat
  gi_members :: "nat list"

definition groupMembers :: "nat \<Rightarrow> nat \<Rightarrow> nat list" where
  "groupMembers groupSize g = [g * groupSize + 1..<g * groupSize + groupSize]"

definition groupRequest :: "nat \<Rightarrow> nat \<Rightarrow> message" where
  "groupRequest groupSize g = msg0\<lparr>m_cmd := CmdGroupCreate, m_content := json_marshal (json_map
     [(''name'', JStr (''bench-group-'' @ show_nat g)), (''members'', json_strings (Some (map userID (groupMembers groupSize g))))])\<rparr>"

text \<open>\<open>readGroupCreate\<close>, where \<open>n\<close> is how often the clock is still before the deadline.\<close>

fun readGroupCreate :: "(bytes \<Rightarrow> message option) \<Rightarrow> nat \<Rightarrow> bench_conn \<Rightarrow> (go_error + string) \<times> bench_conn" where
  "readGroupCreate unm 0 conn = (Inl (ErrorText ''timeout waiting group create response''), conn)"
| "readGroupCreate unm (Suc n) conn =
    (case ReadMsg unm 15000000000 conn of
       (Inl e, conn) \<Rightarrow> (Inl (Wrapped ''read group create resp'' e), conn)
     | (Inr msg, conn) \<Rightarrow>
         if m_cmd msg = CmdGroupCreate then
           (case struct_members (m_content msg) of
              None \<Rightarrow> (Inl (Wrapped ''parse group create resp'' (ErrorText ''json'')), conn)
            | Some kvs \<Rightarrow>
                (case fill_string ''id'' kvs of
                   (gid, bad) \<Rightarrow>
                     if bad then (Inl (Wrapped ''parse group create resp'' (ErrorText ''json'')), conn)
                     else if gid \<noteq> [] then (Inr gid, conn) else readGroupCreate unm n conn))
         else readGroupCreate unm n conn)"

fun createGroups :: "(message \<Rightarrow> bytes option) \<Rightarrow> (bytes \<Rightarrow> message option) \<Rightarrow> nat \<Rightarrow> (nat \<Rightarrow> nat) \<Rightarrow> nat list \<Rightarrow> bench_conn list \<Rightarrow>
    go_error + bench_group list \<times> bench_conn list" where
  "createGroups mar unm groupSize rounds [] conns = Inr ([], conns)"
| "createGroups mar unm groupSize rounds (g # gs) conns =
    (let owner = g * groupSize in
     case WriteMsg mar (groupRequest groupSize g) (conns ! owner) of
       (Some e, _) \<Rightarrow> Inl (Wrapped ''group create write'' e)
     | (None, conn) \<Rightarrow>
         (case readGroupCreate unm (rounds g) conn of
            (Inl e, _) \<Rightarrow> Inl (Wrapped (''group '' @ show_nat g @ '' create'') e)
          | (Inr gid, conn) \<Rightarrow>
              (case createGroups mar unm groupSize rounds gs (conns[owner := conn]) of
                 Inl e \<Rightarrow> Inl e
               | Inr (infos, conns) \<Rightarrow> Inr (\<lparr>gi_id = gid, gi_owner = owner, gi_members = groupMembers groupSize g\<rparr> # infos, conns))))"

definition groupStart :: "int \<Rightarrow> nat \<Rightarrow> int" where
  "groupStart seqBase g = i64 (seqBase + int (g * 100) + 50)"

definition groupMsg :: "string \<Rightarrow> int \<Rightarrow> message" where
  "groupMsg gid sq = msg0\<lparr>m_cmd := CmdChat, m_to := gid, m_chatType := ChatTypeGroup, m_msgType := MsgTypeText,
     m_content := ''bench-group-message'', m_needAck := True, m_seq := sq\<rparr>"

text \<open>\<open>gp_seqs\<close> holds the sequence number of every owner's loop, \<open>gp_left\<close> the rounds it has left.\<close>

record group_run =
  gp_conns :: "bench_conn list"
  gp_reading :: "bool list"
  gp_infos :: "bench_group list"
  gp_seqs :: "int list"
  gp_left :: "nat list"
  gp_fanBySeq :: "(int, rat) gomap"
  gp_stats :: stats

text \<open>A member's reader: the worst latency per sequence number.\<close>

definition groupOnMsg :: "gotime \<Rightarrow> message \<Rightarrow> (int, rat) gomap \<times> stats \<Rightarrow> (int, rat) gomap \<times> stats" where
  "groupOnMsg nw msg = (\<lambda>(fan, st).
    if m_cmd msg \<noteq> CmdChat \<or> m_seq msg \<le> 0 then (fan, st)
    else
      let st = st\<lparr>lt_delivered := lt_delivered st + 1\<rparr>;
          lat = of_int (i64 (unixMilli nw - m_timestamp msg)) in
      (case map_of fan (m_seq msg) of
         Some v \<Rightarrow> if lat > v then AList.update (m_seq msg) lat fan else fan
       | None \<Rightarrow> AList.update (m_seq msg) lat fan,
       st))"

definition groupRead :: "(bytes \<Rightarrow> message option) \<Rightarrow> nat \<Rightarrow> bool \<Rightarrow> gotime \<Rightarrow> group_run \<Rightarrow> group_run" where
  "groupRead unm i d nw s =
    (if i \<ge> length (gp_conns s) \<or> \<not> gp_reading s ! i then s
     else case readRound unm 1000000000 d (gp_conns s ! i) of
       (Stop _, conn) \<Rightarrow> s\<lparr>gp_conns := (gp_conns s)[i := conn], gp_reading := (gp_reading s)[i := False]\<rparr>
     | (Idle, conn) \<Rightarrow> s\<lparr>gp_conns := (gp_conns s)[i := conn]\<rparr>
     | (Got msg, conn) \<Rightarrow>
         (case groupOnMsg nw msg (gp_fanBySeq s, gp_stats s) of
            (fan, st) \<Rightarrow> s\<lparr>gp_conns := (gp_conns s)[i := conn], gp_fanBySeq := fan, gp_stats := st\<rparr>))"

definition groupSend :: "(message \<Rightarrow> bytes option) \<Rightarrow> nat \<Rightarrow> group_run \<Rightarrow> group_run" where
  "groupSend mar g s =
    (if g \<ge> length (gp_infos s) \<or> gp_left s ! g = 0 then s
     else
       let st = gp_stats s; st = st\<lparr>lt_sent := lt_sent st + 1\<rparr>;
           info = gp_infos s ! g;
           (e, conn) = WriteMsg mar (groupMsg (gi_id info) (gp_seqs s ! g)) (gp_conns s ! gi_owner info);
           st = (if e = None then st else st\<lparr>lt_failed := lt_failed st + 1\<rparr>)
       in s\<lparr>gp_conns := (gp_conns s)[gi_owner info := conn], gp_seqs := (gp_seqs s)[g := i64 (gp_seqs s ! g + 1)],
            gp_left := (gp_left s)[g := gp_left s ! g - 1], gp_stats := st\<rparr>)"

datatype group_event = GroupTick nat | GroupRead nat bool gotime

fun groupEvent :: "(message \<Rightarrow> bytes option) \<Rightarrow> (bytes \<Rightarrow> message option) \<Rightarrow> group_event \<Rightarrow> group_run \<Rightarrow> group_run" where
  "groupEvent mar unm (GroupTick g) s = groupSend mar g s"
| "groupEvent mar unm (GroupRead i d nw) s = groupRead unm i d nw s"

definition groupInit :: "int \<Rightarrow> nat \<Rightarrow> bench_group list \<Rightarrow> bench_conn list \<Rightarrow> group_run" where
  "groupInit seqBase msgs infos conns =
    \<lparr>gp_conns = conns, gp_reading = replicate (length conns) True, gp_infos = infos, gp_seqs = map (groupStart seqBase) [0..<length infos],
     gp_left = replicate (length infos) msgs, gp_fanBySeq = [], gp_stats = stats0\<rparr>"

definition groupResult :: "group_run \<Rightarrow> stats" where
  "groupResult s = (gp_stats s)\<lparr>lt_fanout := fold (\<lambda>(_, v). seriesAdd v) (gp_fanBySeq s) (lt_fanout (gp_stats s))\<rparr>"

definition groupEvery :: "(rat \<Rightarrow> rat) \<Rightarrow> options \<Rightarrow> int" where
  "groupEvery rnd opts = (let x = \<lfloor>rnd (of_int (op_duration opts) / of_int (op_msgs opts))\<rfloor> in if x \<le> 0 then 100000000 else x)"

text \<open>A group without its owner cannot be built: \<open>make\<close> panics on the negative capacity.\<close>

definition runGroup :: "(rat \<Rightarrow> rat) \<Rightarrow> (message \<Rightarrow> bytes option) \<Rightarrow> (bytes \<Rightarrow> message option) \<Rightarrow> options \<Rightarrow> (nat \<times> (go_error + string)) list \<Rightarrow>
    (string \<Rightarrow> string \<Rightarrow> go_error + bench_conn) \<Rightarrow> (nat \<Rightarrow> nat) \<Rightarrow> group_event list \<Rightarrow> service_summary option \<Rightarrow> (go_error + result) option" where
  "runGroup rnd mar unm opts logins dials rounds events service =
    (let size = nat (op_groupSize opts); groups = nat (op_groups opts) in
     case loginAll logins of
       Inl e \<Rightarrow> Some (Inl e)
     | Inr toks \<Rightarrow>
         (case connectAll opts dials toks (groups * size) of
            None \<Rightarrow> None
          | Some (Inl e) \<Rightarrow> Some (Inl e)
          | Some (Inr conns) \<Rightarrow>
              if size = 0 \<and> groups > 0 then None
              else case createGroups mar unm size rounds [0..<groups] conns of
                Inl e \<Rightarrow> Some (Inl e)
              | Inr (infos, conns) \<Rightarrow>
                  Some (Inr (buildResult rnd ''group'' (op_duration opts) (op_pct opts)
                    (groupResult (fold (groupEvent mar unm) events (groupInit (op_seqBase opts) (nat (op_msgs opts)) infos conns))) service))))"

section \<open>Search and history\<close>

definition searchRound :: "(rat \<Rightarrow> rat) \<Rightarrow> (go_error + bytes) \<Rightarrow> int \<Rightarrow> stats \<Rightarrow> stats" where
  "searchRound rnd answer ns st =
    (case answer of
      Inl _ \<Rightarrow> st\<lparr>lt_searchFail := lt_searchFail st + 1\<rparr>
    | Inr _ \<Rightarrow> st\<lparr>lt_searchOK := lt_searchOK st + 1, lt_request := seriesAdd (millis rnd ns) (lt_request st)\<rparr>)"

definition historyMsg :: "string \<Rightarrow> int \<Rightarrow> message" where
  "historyMsg to t = msg0\<lparr>m_cmd := CmdHistory, m_to := to, m_chatType := ChatTypeSingle, m_seq := 30, m_timestamp := t\<rparr>"

text \<open>Reading until the end of the page, at most \<open>n\<close> messages; \<open>None\<close> when it has not come by then.\<close>

fun historyRead :: "(bytes \<Rightarrow> message option) \<Rightarrow> nat \<Rightarrow> bench_conn \<Rightarrow> (go_error + int) option \<times> bench_conn" where
  "historyRead unm 0 conn = (None, conn)"
| "historyRead unm (Suc n) conn =
    (case ReadMsg unm 15000000000 conn of
       (Inl e, conn) \<Rightarrow> (Some (Inl e), conn)
     | (Inr msg, conn) \<Rightarrow> if m_cmd msg = CmdHistory then (Some (Inr (m_seq msg)), conn) else historyRead unm n conn)"

text \<open>How much a connection can still deliver: every message read takes some of it.\<close>

fun undelivered :: "bench_conn \<Rightarrow> nat" where
  "undelivered (WsConn c) = length (wc_in c)"
| "undelivered (TcpConn c) = sum_list (map (\<lambda>a. case a of Bytes b \<Rightarrow> length b | ReadFails _ \<Rightarrow> 0) (tc_in c))"

text \<open>
  One round of a history worker, which started at \<open>nw\<close> and took \<open>ns\<close>; without a connection the worker
  has returned. The bound on the reads is enough (\<open>history_read_ends\<close>).
\<close>

definition historyRound :: "(rat \<Rightarrow> rat) \<Rightarrow> (message \<Rightarrow> bytes option) \<Rightarrow> (bytes \<Rightarrow> message option) \<Rightarrow> string \<Rightarrow> gotime \<Rightarrow> int \<Rightarrow> bench_conn \<times> stats \<Rightarrow> bench_conn option \<times> stats" where
  "historyRound rnd mar unm to nw ns = (\<lambda>(conn, st).
    case WriteMsg mar (historyMsg to (unixMilli nw)) conn of
      (Some _, _) \<Rightarrow> (None, st\<lparr>lt_failed := lt_failed st + 1\<rparr>)
    | (None, conn) \<Rightarrow>
        (case historyRead unm (Suc (undelivered conn)) conn of
           (Some (Inr count), conn) \<Rightarrow>
             (Some conn, st\<lparr>lt_historyOK := lt_historyOK st + 1, lt_historyMsg := lt_historyMsg st + count, lt_hist := seriesAdd (millis rnd ns) (lt_hist st)\<rparr>)
         | _ \<Rightarrow> (None, st\<lparr>lt_failed := lt_failed st + 1\<rparr>)))"

text \<open>Which search workers are logged in, and the connections of the history workers that have not returned.\<close>

record search_run =
  sr_searching :: "bool list"
  sr_conns :: "bench_conn option list"
  sr_stats :: stats

definition historyStart :: "(go_error + string) \<Rightarrow> (string \<Rightarrow> go_error + bench_conn) \<Rightarrow> bench_conn option" where
  "historyStart login dialled =
    (case login of
       Inl _ \<Rightarrow> None
     | Inr token \<Rightarrow> (case dialled token of Inl _ \<Rightarrow> None | Inr conn \<Rightarrow> Some conn))"

text \<open>Every worker that cannot start is a failure; \<open>searchLogin w\<close> and \<open>historyLogin w\<close> are the results of the logins.\<close>

definition searchInit :: "options \<Rightarrow> (nat \<Rightarrow> go_error + string) \<Rightarrow> (nat \<Rightarrow> go_error + string) \<Rightarrow> (string \<Rightarrow> go_error + bench_conn) \<Rightarrow> search_run" where
  "searchInit opts searchLogin historyLogin dialled =
    (let ss = map (\<lambda>w. \<not> isl (searchLogin w)) [0..<op_workers opts];
         cs = map (\<lambda>w. historyStart (historyLogin w) dialled) [0..<op_historyCon opts]
     in \<lparr>sr_searching = ss, sr_conns = cs,
         sr_stats = stats0\<lparr>lt_failed := int (length (filter Not ss)) + int (length (filter (\<lambda>c. c = None) cs))\<rparr>\<rparr>)"

datatype search_event = SearchRound nat "go_error + bytes" int | HistoryRound nat gotime int

fun searchEvent :: "(rat \<Rightarrow> rat) \<Rightarrow> (message \<Rightarrow> bytes option) \<Rightarrow> (bytes \<Rightarrow> message option) \<Rightarrow> search_event \<Rightarrow> search_run \<Rightarrow> search_run" where
  "searchEvent rnd mar unm (SearchRound w answer ns) s =
    (if w < length (sr_searching s) \<and> sr_searching s ! w then s\<lparr>sr_stats := searchRound rnd answer ns (sr_stats s)\<rparr> else s)"
| "searchEvent rnd mar unm (HistoryRound w nw ns) s =
    (if w < length (sr_conns s) then
       (case sr_conns s ! w of
          None \<Rightarrow> s
        | Some conn \<Rightarrow>
            (case historyRound rnd mar unm (userID (w * 2 + 1)) nw ns (conn, sr_stats s) of
               (c, st) \<Rightarrow> s\<lparr>sr_conns := (sr_conns s)[w := c], sr_stats := st\<rparr>))
     else s)"

definition runSearchScenario :: "(rat \<Rightarrow> rat) \<Rightarrow> (message \<Rightarrow> bytes option) \<Rightarrow> (bytes \<Rightarrow> message option) \<Rightarrow> options \<Rightarrow> (nat \<Rightarrow> go_error + string) \<Rightarrow>
    (nat \<Rightarrow> go_error + string) \<Rightarrow> (string \<Rightarrow> go_error + bench_conn) \<Rightarrow> search_event list \<Rightarrow> service_summary option \<Rightarrow> result" where
  "runSearchScenario rnd mar unm opts searchLogin historyLogin dialled events service =
    buildResult rnd ''search'' (op_duration opts) (op_pct opts)
      (sr_stats (fold (searchEvent rnd mar unm) events (searchInit opts searchLogin historyLogin dialled))) service"

section \<open>Heartbeats\<close>

record hb_conn =
  hb_conn :: bench_conn
  hb_lastSent :: "gotime option"
  hb_reading :: bool

definition hbReadTimeout :: "int \<Rightarrow> int" where
  "hbReadTimeout interval =
    (let t = 30000000000;
         t = (if interval > 0 \<and> interval < t then truncDiv interval 2 else t)
     in if t < 1000000000 then 1000000000 else t)"

text \<open>The connections of a run, the number of the next user and the counters.\<close>

record hb_run =
  hr_conns :: "hb_conn list"
  hr_next :: nat
  hr_stats :: stats

definition hbConnect :: "options \<Rightarrow> (string \<Rightarrow> go_error + string) \<Rightarrow> (string \<Rightarrow> go_error + bench_conn) \<Rightarrow> hb_run \<Rightarrow> hb_run" where
  "hbConnect opts login dialled s =
    (if int (hr_next s) \<ge> op_conns opts then s
     else
       let st = hr_stats s;
           bad = s\<lparr>hr_next := Suc (hr_next s), hr_stats := st\<lparr>lt_failed := lt_failed st + 1\<rparr>\<rparr>
       in case login (''hb-'' @ padded 5 (hr_next s)) of
            Inl _ \<Rightarrow> bad
          | Inr token \<Rightarrow>
              (case dialled token of
                 Inl _ \<Rightarrow> bad
               | Inr conn \<Rightarrow> s\<lparr>hr_next := Suc (hr_next s), hr_conns := hr_conns s @ [\<lparr>hb_conn = conn, hb_lastSent = None, hb_reading = True\<rparr>],
                   hr_stats := st\<lparr>lt_connects := lt_connects st + 1, lt_connectOK := lt_connectOK st + 1\<rparr>\<rparr>))"

definition hbOnMsg :: "(rat \<Rightarrow> rat) \<Rightarrow> gotime \<Rightarrow> message \<Rightarrow> gotime option \<Rightarrow> stats \<Rightarrow> stats" where
  "hbOnMsg rnd nw msg lastSent st =
    (if m_cmd msg = CmdHeartbeat then
       let st = st\<lparr>lt_hbOK := lt_hbOK st + 1\<rparr> in
       case lastSent of
         None \<Rightarrow> st
       | Some t \<Rightarrow> st\<lparr>lt_ack := seriesAdd (millis rnd (time_sub nw t)) (lt_ack st)\<rparr>
     else st)"

definition hbRead :: "(rat \<Rightarrow> rat) \<Rightarrow> (bytes \<Rightarrow> message option) \<Rightarrow> int \<Rightarrow> bool \<Rightarrow> gotime \<Rightarrow> hb_conn \<times> stats \<Rightarrow> hb_conn \<times> stats" where
  "hbRead rnd unm interval d nw = (\<lambda>(h, st).
    if \<not> hb_reading h then (h, st)
    else case readRound unm (hbReadTimeout interval) d (hb_conn h) of
      (Stop abnormal, conn) \<Rightarrow> (h\<lparr>hb_conn := conn, hb_reading := False\<rparr>, if abnormal then st\<lparr>lt_hbFail := lt_hbFail st + 1\<rparr> else st)
    | (Idle, conn) \<Rightarrow> (h\<lparr>hb_conn := conn\<rparr>, st)
    | (Got msg, conn) \<Rightarrow> (h\<lparr>hb_conn := conn\<rparr>, hbOnMsg rnd nw msg (hb_lastSent h) st))"

definition hbSend :: "(message \<Rightarrow> bytes option) \<Rightarrow> gotime \<Rightarrow> hb_conn \<times> stats \<Rightarrow> hb_conn \<times> stats" where
  "hbSend mar nw = (\<lambda>(h, st).
    let h = h\<lparr>hb_lastSent := Some nw\<rparr> in
    case WriteMsg mar (msg0\<lparr>m_cmd := CmdHeartbeat\<rparr>) (hb_conn h) of
      (None, conn) \<Rightarrow> (h\<lparr>hb_conn := conn\<rparr>, st)
    | (Some _, conn) \<Rightarrow> (h\<lparr>hb_conn := conn\<rparr>, st\<lparr>lt_hbFail := lt_hbFail st + 1\<rparr>))"

datatype hb_event = HbDial | HbTick nat gotime | HbRead nat bool gotime

definition hbOn :: "(hb_conn \<times> stats \<Rightarrow> hb_conn \<times> stats) \<Rightarrow> nat \<Rightarrow> hb_run \<Rightarrow> hb_run" where
  "hbOn f i s = (case onConn f i (hr_conns s, hr_stats s) of (cs, st) \<Rightarrow> s\<lparr>hr_conns := cs, hr_stats := st\<rparr>)"

fun hbEvent :: "(rat \<Rightarrow> rat) \<Rightarrow> (message \<Rightarrow> bytes option) \<Rightarrow> (bytes \<Rightarrow> message option) \<Rightarrow> options \<Rightarrow> (string \<Rightarrow> go_error + string) \<Rightarrow>
    (string \<Rightarrow> go_error + bench_conn) \<Rightarrow> hb_event \<Rightarrow> hb_run \<Rightarrow> hb_run" where
  "hbEvent rnd mar unm opts login dialled HbDial s = hbConnect opts login dialled s"
| "hbEvent rnd mar unm opts login dialled (HbTick i nw) s = hbOn (hbSend mar nw) i s"
| "hbEvent rnd mar unm opts login dialled (HbRead i d nw) s = hbOn (hbRead rnd unm (op_interval opts) d nw) i s"

text \<open>The timer of a sender panics when the interval is not positive.\<close>

definition runHeartbeat :: "(rat \<Rightarrow> rat) \<Rightarrow> (message \<Rightarrow> bytes option) \<Rightarrow> (bytes \<Rightarrow> message option) \<Rightarrow> options \<Rightarrow> (string \<Rightarrow> go_error + string) \<Rightarrow>
    (string \<Rightarrow> go_error + bench_conn) \<Rightarrow> hb_event list \<Rightarrow> service_summary option \<Rightarrow> result option" where
  "runHeartbeat rnd mar unm opts login dialled events service =
    (let s = fold (hbEvent rnd mar unm opts login dialled) events \<lparr>hr_conns = [], hr_next = 0, hr_stats = stats0\<rparr> in
     if hr_conns s \<noteq> [] \<and> op_interval opts \<le> 0 then None
     else Some (buildResult rnd ''heartbeat'' (op_duration opts) (op_pct opts) (hr_stats s) service))"

section \<open>What the counters mean\<close>

lemma fold_invariant:
  assumes "P s" and "\<And>e s. P s \<Longrightarrow> P (f e s)"
  shows "P (fold f es s)"
  using assms(1) by (induction es arbitrary: s) (simp_all add: assms(2))

lemma samples_seriesAdd [simp]: "length (samples (seriesAdd x s)) = Suc (length (samples s))"
  by (simp add: seriesAdd_def)

definition churnOk :: "nat \<Rightarrow> stats \<Rightarrow> bool" where
  "churnOk n st \<longleftrightarrow> lt_connects st = lt_connectOK st + lt_failed st \<and> lt_hbOK st \<le> lt_connectOK st \<and> lt_connects st = int n"

lemma churnRound_ok: "churnOk n st \<Longrightarrow> churnOk (Suc n) (churnRound mar unm login dialled st)"
  unfolding churnRound_def Let_def by (auto simp: churnOk_def split: sum.split prod.split option.split)

lemma churnTicks_ok: "churnOk n (snd s) \<Longrightarrow> churnOk (n + length ws) (snd (fold (churnTick mar unm login dialled) ws s))"
proof (induction ws arbitrary: n s)
  case (Cons w ws)
  have "churnOk (Suc n) (snd (churnTick mar unm login dialled w s))"
    using Cons.prems by (cases s) (simp add: churnTick_def churnRound_ok)
  from Cons.IH [OF this] show ?case by simp
qed simp

lemma length_clockRecord: "length (clockRecord q t m) \<le> Suc (length m)"
  by (induction m) (auto simp: clockRecord_def)

lemma length_clockTake: "clockTake q m = (Some t, m') \<Longrightarrow> Suc (length m') \<le> length m"
proof -
  assume a: "clockTake q m = (Some t, m')"
  then have "(q, t) \<in> set m" and m': "m' = AList.delete q m"
    by (auto simp: clockTake_def dest: map_of_SomeD split: option.splits)
  then have "filter (\<lambda>(k, v). k = q) m \<noteq> []" by (force simp: filter_empty_conv)
  moreover have "length m = length (filter (\<lambda>(k, v). k = q) m) + length (filter (\<lambda>p. \<not> (case p of (k, v) \<Rightarrow> k = q)) m)"
    by (rule sum_length_filter_compl [symmetric])
  moreover have "m' = filter (\<lambda>p. \<not> (case p of (k, v) \<Rightarrow> k = q)) m" by (auto simp: m' AList.delete_eq intro: filter_cong)
  ultimately show ?thesis by (cases "filter (\<lambda>(k, v). k = q) m") auto
qed

lemma clockTake_None: "clockTake q m = (None, m') \<Longrightarrow> m' = m"
  by (auto simp: clockTake_def split: option.splits)

text \<open>What holds of a chat run at every moment; a sample of an acknowledgement consumes an entry of a clock.\<close>

definition chatOk :: "chat_conn list \<times> stats \<Rightarrow> bool" where
  "chatOk = (\<lambda>(cs, st). length (samples (lt_ack st)) + sum_list (map (length \<circ> ch_clock) cs) \<le> lt_sent st \<and>
    int (length (samples (lt_ack st))) \<le> lt_acked st \<and> lt_delivered st = int (length (samples (lt_delivery st))) \<and>
    0 \<le> lt_failed st \<and> lt_failed st \<le> lt_sent st \<and> lt_drops st = 0)"

definition pairOk :: "nat \<Rightarrow> chat_conn \<times> stats \<Rightarrow> bool" where
  "pairOk n = (\<lambda>(c, st). int (length (samples (lt_ack st)) + n + length (ch_clock c)) \<le> lt_sent st \<and>
    int (length (samples (lt_ack st))) \<le> lt_acked st \<and> lt_delivered st = int (length (samples (lt_delivery st))) \<and>
    0 \<le> lt_failed st \<and> lt_failed st \<le> lt_sent st \<and> lt_drops st = 0)"

lemma sum_list_update_nat:
  "i < length cs \<Longrightarrow> sum_list (map f (cs[i := c])) + f (cs ! i) = sum_list (map f cs) + (f c :: nat)"
proof (induction cs arbitrary: i)
  case (Cons x cs)
  then show ?case by (cases i) (auto simp: add.commute add.left_commute)
qed simp

lemma onConn_chatOk:
  assumes "chatOk s" and "\<And>n c st. pairOk n (c, st) \<Longrightarrow> pairOk n (f (c, st))"
  shows "chatOk (onConn f i s)"
proof (cases s)
  case (Pair cs st)
  show ?thesis
  proof (cases "i < length cs")
    case True
    obtain c' st' where f: "f (cs ! i, st) = (c', st')" by force
    let ?n = "sum_list (map (length \<circ> ch_clock) cs) - length (ch_clock (cs ! i))"
    have le: "length (ch_clock (cs ! i)) \<le> sum_list (map (length \<circ> ch_clock) cs)"
      using True member_le_sum_list [of "(length \<circ> ch_clock) (cs ! i)" "map (length \<circ> ch_clock) cs"] by simp
    then have "pairOk ?n (cs ! i, st)" using assms(1) Pair by (auto simp: chatOk_def pairOk_def)
    then have "pairOk ?n (c', st')" using assms(2) f by metis
    moreover have "sum_list (map (length \<circ> ch_clock) (cs[i := c'])) = ?n + length (ch_clock c')"
      using sum_list_update_nat [OF True, of "length \<circ> ch_clock" c'] le by simp
    ultimately show ?thesis using True Pair f by (auto simp: onConn_def chatOk_def pairOk_def add.assoc)
  qed (use assms(1) Pair in \<open>simp add: onConn_def\<close>)
qed

lemma chatSend_pairOk: "pairOk n s \<Longrightarrow> pairOk n (chatSend mar to nw s)"
  using length_clockRecord [of "ch_seq (fst s)" nw "ch_clock (fst s)"]
  by (auto simp: chatSend_def pairOk_def Let_def split: prod.splits option.splits)

lemma chatRead_pairOk: "pairOk n s \<Longrightarrow> pairOk n (chatRead rnd unm d nw s)"
  by (auto simp: chatRead_def chatOnMsg_def pairOk_def Let_def split: prod.splits read_round.splits option.splits if_splits
      dest!: length_clockTake clockTake_None)

lemma chatEvent_chatOk: "chatOk s \<Longrightarrow> chatOk (chatEvent rnd mar unm e s)"
  by (cases e) (simp_all add: onConn_chatOk chatSend_pairOk chatRead_pairOk)

text \<open>
  The report of a chat run is consistent whatever the network does: there are never more samples
  of an acknowledgement's latency than messages sent or acknowledgements received (a message is
  measured once), every delivery counted has its sample, and only messages sent are counted as
  failed. No drop is ever counted, however many readers end.
\<close>

theorem chat_accounting:
  assumes "runChat rnd mar unm opts logins dials events service = Some (Inr r)"
  shows "int (length (samples (lt_ack (re_Stats r)))) \<le> min (lt_sent (re_Stats r)) (lt_acked (re_Stats r)) \<and>
    lt_delivered (re_Stats r) = int (length (samples (lt_delivery (re_Stats r)))) \<and>
    0 \<le> lt_failed (re_Stats r) \<and> lt_failed (re_Stats r) \<le> lt_sent (re_Stats r) \<and> lt_drops (re_Stats r) = 0"
proof -
  obtain conns where r: "re_Stats r = snd (fold (chatEvent rnd mar unm) events (chatConns (op_seqBase opts) conns, stats0))"
    using assms by (auto simp: runChat_def buildResult_def split: sum.splits option.splits if_splits)
  have "chatOk (chatConns (op_seqBase opts) conns, stats0)"
    by (simp add: chatOk_def chatConns_def stats0_def comp_def)
  then have "chatOk (fold (chatEvent rnd mar unm) events (chatConns (op_seqBase opts) conns, stats0))"
    by (rule fold_invariant) (rule chatEvent_chatOk)
  then show ?thesis unfolding r by (auto simp: chatOk_def split: prod.splits)
qed

text \<open>
  In a churn run every attempt is counted as a connection or as a failure, one attempt for every
  tick a worker takes, and a heartbeat is counted at most once for every connection.
\<close>

theorem churn_accounting:
  assumes "runChurn rnd mar unm opts login dialled ticks service = Some r"
  shows "lt_connects (re_Stats r) = lt_connectOK (re_Stats r) + lt_failed (re_Stats r) \<and> lt_hbOK (re_Stats r) \<le> lt_connectOK (re_Stats r) \<and>
    lt_connects (re_Stats r) = int (length (filter (\<lambda>w. w < op_workers opts) ticks))"
proof -
  let ?ws = "filter (\<lambda>w. w < op_workers opts) ticks"
  have "re_Stats r = snd (fold (churnTick mar unm login dialled) ?ws (\<lambda>_. 0, stats0))"
    using assms by (auto simp: runChurn_def buildResult_def split: if_splits)
  moreover have "churnOk 0 (snd (\<lambda>_ :: nat. 0 :: nat, stats0))" by (simp add: churnOk_def stats0_def)
  ultimately have "churnOk (length ?ws) (re_Stats r)" using churnTicks_ok [of 0 "(\<lambda>_. 0, stats0)" ?ws] by simp
  then show ?thesis by (simp add: churnOk_def)
qed

text \<open>
  A connection rate below one per second makes the chat and group runs wait forever: the semaphore
  of the dialling goroutines has \<open>int(connRate)\<close>, that is no, slots.
\<close>

theorem slow_rate_stalls:
  assumes "0 < op_connRate opts" and "op_connRate opts < 1" and "0 < op_users opts" and "loginAll logins = Inr toks"
  shows "runChat rnd mar unm opts logins dials events service = None"
proof -
  have "\<lfloor>op_connRate opts\<rfloor> = 0" using assms(1,2) by (simp add: floor_unique)
  then show ?thesis using assms by (simp add: runChat_def connectAll_def dialSlots_def)
qed

section \<open>Fan-out\<close>

text \<open>The messages the readers of a group run got, with the time of each.\<close>

fun receipts :: "(message \<Rightarrow> bytes option) \<Rightarrow> (bytes \<Rightarrow> message option) \<Rightarrow> group_event list \<Rightarrow> group_run \<Rightarrow> (gotime \<times> message) list" where
  "receipts mar unm [] s = []"
| "receipts mar unm (GroupTick g # es) s = receipts mar unm es (groupSend mar g s)"
| "receipts mar unm (GroupRead i d nw # es) s =
    (if i < length (gp_conns s) \<and> gp_reading s ! i then
       (case fst (readRound unm 1000000000 d (gp_conns s ! i)) of Got msg \<Rightarrow> [(nw, msg)] | _ \<Rightarrow> [])
     else []) @ receipts mar unm es (groupRead unm i d nw s)"

definition counted :: "gotime \<times> message \<Rightarrow> bool" where
  "counted = (\<lambda>(nw, msg). m_cmd msg = CmdChat \<and> m_seq msg > 0)"

definition latencies :: "int \<Rightarrow> (gotime \<times> message) list \<Rightarrow> rat list" where
  "latencies q rs = map (\<lambda>(nw, msg). of_int (i64 (unixMilli nw - m_timestamp msg))) (filter (\<lambda>r. counted r \<and> m_seq (snd r) = q) rs)"

definition worst :: "rat list \<Rightarrow> rat option" where
  "worst xs = (if xs = [] then None else Some (Max (set xs)))"

lemma groupSend_fan [simp]:
  "gp_fanBySeq (groupSend mar g s) = gp_fanBySeq s" "lt_delivered (gp_stats (groupSend mar g s)) = lt_delivered (gp_stats s)"
  "lt_fanout (gp_stats (groupSend mar g s)) = lt_fanout (gp_stats s)"
  by (auto simp: groupSend_def Let_def split: prod.split)

lemma groupRead_fan:
  "(gp_fanBySeq (groupRead unm i d nw s), gp_stats (groupRead unm i d nw s)) =
    fold (\<lambda>(nw, msg). groupOnMsg nw msg) (if i < length (gp_conns s) \<and> gp_reading s ! i then
       (case fst (readRound unm 1000000000 d (gp_conns s ! i)) of Got msg \<Rightarrow> [(nw, msg)] | _ \<Rightarrow> [])
     else []) (gp_fanBySeq s, gp_stats s)"
  by (auto simp: groupRead_def split: prod.splits read_round.splits)

text \<open>What the receipts \<open>rs\<close> have made of the map, the count of deliveries and the fan-out samples.\<close>

definition fanOk :: "(gotime \<times> message) list \<Rightarrow> (int, rat) gomap \<times> stats \<Rightarrow> bool" where
  "fanOk rs = (\<lambda>(fan, st). (\<forall>q. map_of fan q = worst (latencies q rs)) \<and> distinct (map fst fan) \<and>
    lt_delivered st = int (length (filter counted rs)) \<and> lt_fanout st = \<lparr>samples = []\<rparr>)"

lemma worst_snoc: "worst (xs @ [x]) = Some (case worst xs of None \<Rightarrow> x | Some v \<Rightarrow> max v x)"
  by (auto simp: worst_def max.commute)

lemma groupOnMsg_fanOk:
  assumes "fanOk rs (fan, st)"
  shows "fanOk (rs @ [(nw, msg)]) (groupOnMsg nw msg (fan, st))"
proof (cases "counted (nw, msg)")
  case True
  let ?x = "of_int (i64 (unixMilli nw - m_timestamp msg))"
  have l: "latencies q (rs @ [(nw, msg)]) = (if q = m_seq msg then latencies q rs @ [?x] else latencies q rs)" for q
    using True by (simp add: latencies_def)
  have m: "map_of fan q = worst (latencies q rs)" for q using assms by (simp add: fanOk_def)
  show ?thesis using True assms
    by (auto simp: fanOk_def groupOnMsg_def counted_def Let_def l worst_snoc m map_of_update distinct_update max_def split: option.splits)
next
  case False
  then have "latencies q (rs @ [(nw, msg)]) = latencies q rs" for q by (simp add: latencies_def)
  then show ?thesis using assms False by (auto simp: fanOk_def groupOnMsg_def counted_def)
qed

lemma receipts_fanOk:
  "fanOk rs (gp_fanBySeq s, gp_stats s) \<Longrightarrow>
    fanOk (rs @ receipts mar unm es s) (gp_fanBySeq (fold (groupEvent mar unm) es s), gp_stats (fold (groupEvent mar unm) es s))"
proof (induction es arbitrary: rs s)
  case (Cons e es)
  show ?case
  proof (cases e)
    case (GroupTick g)
    then show ?thesis using Cons.IH [of rs "groupSend mar g s"] Cons.prems by (simp add: fanOk_def)
  next
    case (GroupRead i d nw)
    let ?got = "if i < length (gp_conns s) \<and> gp_reading s ! i then
       (case fst (readRound unm 1000000000 d (gp_conns s ! i)) of Got msg \<Rightarrow> [(nw, msg)] | _ \<Rightarrow> []) else []"
    have "?got = [] \<or> (\<exists>msg. ?got = [(nw, msg)])" by (simp split: read_round.split)
    then have "fanOk (rs @ ?got) (gp_fanBySeq (groupRead unm i d nw s), gp_stats (groupRead unm i d nw s))"
      unfolding groupRead_fan using Cons.prems groupOnMsg_fanOk by (elim disjE exE) (simp_all only: fold_simps append_Nil2 prod.case id_apply)
    from Cons.IH [OF this] GroupRead show ?thesis by simp
  qed
qed simp

text \<open>
  C38. The fan-out report of a group run is the worst latency of every message: after any interleaving of
  owners and readers, the map holds for a sequence number the maximum over all receipts with it, every
  receipt is counted as delivered, and the samples of the report are these maxima, one for every
  sequence number received.
\<close>

theorem fanout_report:
  assumes "s = fold (groupEvent mar unm) es (groupInit seqBase msgs infos conns)" and "rs = receipts mar unm es (groupInit seqBase msgs infos conns)"
  shows "map_of (gp_fanBySeq s) q = (if latencies q rs = [] then None else Some (Max (set (latencies q rs)))) \<and>
    lt_delivered (groupResult s) = int (length (filter (\<lambda>(nw, msg). m_cmd msg = CmdChat \<and> m_seq msg > 0) rs)) \<and>
    length (samples (lt_fanout (groupResult s))) = card {q. latencies q rs \<noteq> []}"
proof -
  have "fanOk [] (gp_fanBySeq (groupInit seqBase msgs infos conns), gp_stats (groupInit seqBase msgs infos conns))"
    by (simp add: fanOk_def groupInit_def stats0_def worst_def latencies_def)
  from receipts_fanOk [OF this, of mar unm es] have ok: "fanOk rs (gp_fanBySeq s, gp_stats s)" using assms by simp
  have add: "length (samples (fold (\<lambda>(_, v). seriesAdd v) fan x)) = length (samples x) + length fan" for fan :: "(int \<times> rat) list" and x
    by (induction fan arbitrary: x) auto
  have m: "map_of (gp_fanBySeq s) q = worst (latencies q rs)" for q using ok by (simp add: fanOk_def)
  have "length (gp_fanBySeq s) = card (dom (map_of (gp_fanBySeq s)))"
    using distinct_card [of "map fst (gp_fanBySeq s)"] ok by (simp add: fanOk_def dom_map_of_conv_image_fst)
  moreover have "dom (map_of (gp_fanBySeq s)) = {q. latencies q rs \<noteq> []}" by (auto simp: m worst_def)
  ultimately show ?thesis using ok m by (simp add: groupResult_def add fanOk_def worst_def counted_def)
qed

section \<open>Reading\<close>

text \<open>
  The interface \<open>benchConn\<close> as its users see it: a message read takes something from what is still to
  come, and no error of a read is a timeout for \<open>isTimeout\<close>.
\<close>

locale bench_reader =
  fixes receive :: "int \<Rightarrow> 'c \<Rightarrow> (go_error + message) \<times> 'c" and left :: "'c \<Rightarrow> nat"
  assumes takes: "receive d c = (Inr msg, c') \<Longrightarrow> left c' < left c"
    and wrapped: "receive d c = (Inl e, c') \<Longrightarrow> \<not> isTimeout e"
begin

text \<open>The \<open>n\<close>-th read from now, or the first that fails.\<close>

fun nth_read :: "int \<Rightarrow> nat \<Rightarrow> 'c \<Rightarrow> (go_error + message) \<times> 'c" where
  "nth_read d 0 c = receive d c"
| "nth_read d (Suc n) c = (case receive d c of (Inl e, c') \<Rightarrow> (Inl e, c') | (Inr _, c') \<Rightarrow> nth_read d n c')"

lemma reads_end: "left c \<le> n \<Longrightarrow> \<exists>e c'. nth_read d n c = (Inl e, c') \<and> \<not> isTimeout e"
proof (induction n arbitrary: c)
  case 0
  obtain r c' where "receive d c = (r, c')" by force
  with 0 show ?case using takes [of d c _ c'] wrapped [of d c _ c'] by (cases r) auto
next
  case (Suc n)
  obtain r c' where r: "receive d c = (r, c')" by force
  show ?case
  proof (cases r)
    case (Inr msg)
    then have "left c' \<le> n" using takes [of d c msg c'] r Suc.prems by simp
    then show ?thesis using Suc.IH [of c'] r Inr by simp
  qed (use r wrapped in auto)
qed

end

lemma readFull_undelivered:
  "readFull n s = (Inr r, s') \<Longrightarrow>
    sum_list (map (\<lambda>a. case a of Bytes b \<Rightarrow> length b | ReadFails _ \<Rightarrow> 0) s) = n + sum_list (map (\<lambda>a. case a of Bytes b \<Rightarrow> length b | ReadFails _ \<Rightarrow> 0) s')"
  by (induction n s arbitrary: r s' rule: readFull.induct) (auto split: if_splits prod.splits sum.splits)

interpretation ws_reader: bench_reader "WsReadMessage unm" "\<lambda>c. length (wc_in c)" for unm
proof
  show "WsReadMessage unm d c = (Inr msg, c') \<Longrightarrow> length (wc_in c') < length (wc_in c)" for d c msg c'
    by (auto simp: WsReadMessage_def ReadRaw_def Let_def split: prod.splits sum.splits option.splits list.splits)
  show "WsReadMessage unm d c = (Inl e, c') \<Longrightarrow> \<not> isTimeout e" for d c e c'
    by (auto simp: WsReadMessage_def split: prod.splits sum.splits option.splits)
qed

interpretation tcp_reader: bench_reader "ReadFrame unm" "\<lambda>c. sum_list (map (\<lambda>a. case a of Bytes b \<Rightarrow> length b | ReadFails _ \<Rightarrow> 0) (tc_in c))" for unm
proof
  show "ReadFrame unm d c = (Inr msg, c') \<Longrightarrow> sum_list (map (\<lambda>a. case a of Bytes b \<Rightarrow> length b | ReadFails _ \<Rightarrow> 0) (tc_in c')) <
      sum_list (map (\<lambda>a. case a of Bytes b \<Rightarrow> length b | ReadFails _ \<Rightarrow> 0) (tc_in c))" for d c msg c'
    by (auto simp: ReadFrame_def Let_def split: prod.splits sum.splits option.splits if_splits dest!: readFull_undelivered)
  show "ReadFrame unm d c = (Inl e, c') \<Longrightarrow> \<not> isTimeout e" for d c e c'
    by (auto simp: ReadFrame_def Let_def split: prod.splits sum.splits option.splits if_splits)
qed

interpretation conn_reader: bench_reader "ReadMsg unm" undelivered for unm
proof
  show "ReadMsg unm d c = (Inr msg, c') \<Longrightarrow> undelivered c' < undelivered c" for d c msg c'
    by (cases c) (auto split: prod.splits dest: ws_reader.takes tcp_reader.takes)
  show "ReadMsg unm d c = (Inl e, c') \<Longrightarrow> \<not> isTimeout e" for d c e c'
    by (cases c) (auto split: prod.splits dest: ws_reader.wrapped tcp_reader.wrapped)
qed

text \<open>
  A reader does not survive an idle second: a timeout arrives wrapped by \<open>fmt.Errorf\<close>, which is no
  \<open>net.Error\<close>, so that the loop takes it for a broken connection and ends at the first read that
  fails while the test runs. What was handled until then is all that is ever counted.
\<close>

theorem reader_gives_up:
  assumes "ReadMsg unm timeout conn = (Inl e, conn')"
  shows "readLoop unm timeout (False # ds) fn conn s = (Some True, s)"
  using assms conn_reader.wrapped [OF assms] by (simp add: readRound_def)

theorem reader_gives_up_witness: "readLoop one_decode 1000000000 [False, False, True] (\<lambda>m n. n + 1) (TcpConn idle_client) (0 :: nat) = (Some True, 0)"
  by (rule reader_gives_up [where e = "Wrapped ''read tcp header'' deadline" and conn' = "TcpConn (idle_client\<lparr>tc_readTimeout := 1000000000\<rparr>)"])
    (simp add: ReadFrame_def idle_client_def timeoutOr_def)

text \<open>
  Waiting for a page of history ends: on any connection the loop reads at most one message more
  than the connection can deliver, and stops with the count of the page or with the error of the
  first read that fails (at the latest the deadline of a read).
\<close>

theorem history_read_ends: "\<exists>x conn'. historyRead unm (Suc (undelivered conn)) conn = (Some x, conn')"
proof -
  have "conn_reader.nth_read unm 15000000000 n conn = (Inl e, c') \<Longrightarrow> \<exists>x conn'. historyRead unm (Suc n) conn = (Some x, conn')" for n conn e c'
  proof (induction n arbitrary: conn)
    case (Suc n)
    obtain r conn1 where r: "ReadMsg unm 15000000000 conn = (r, conn1)" by force
    show ?case
    proof (cases r)
      case (Inr msg)
      with r Suc.prems have "conn_reader.nth_read unm 15000000000 n conn1 = (Inl e, c')" by simp
      from Suc.IH [OF this] show ?thesis unfolding historyRead.simps(2) [of unm "Suc n"] r Inr by simp
    qed (simp add: r)
  qed simp
  then show ?thesis using conn_reader.reads_end [OF order_refl] by blast
qed

text \<open>Every reader ends: with more rounds than messages still to come, the loop has returned.\<close>

theorem readers_end:
  assumes "undelivered conn < length ds"
  shows "\<exists>abnormal s'. readLoop unm timeout ds fn conn s = (Some abnormal, s')"
  using assms
proof (induction ds arbitrary: conn s)
  case (Cons d ds)
  obtain r c' where r: "ReadMsg unm timeout conn = (r, c')" by force
  show ?case
  proof (cases r)
    case (Inl e)
    then show ?thesis using conn_reader.wrapped r by (auto simp: readRound_def)
  next
    case (Inr msg)
    then have "undelivered c' < length ds" using conn_reader.takes [of unm timeout conn msg c'] r Cons.prems by simp
    from Cons.IH [OF this] r Inr show ?thesis by (simp add: readRound_def)
  qed
qed simp

section \<open>Users, sequence numbers and intervals\<close>

text \<open>The senders of a chat run form pairs, and no message is sent to a user that does not take part.\<close>

lemma chat_pairs: "i < users \<Longrightarrow> even users \<Longrightarrow> partner i < users \<and> partner i \<noteq> i \<and> partner (partner i) = i"
  by (cases "even i") (auto simp: partner_def, presburger+)

lemma padded_inject: "padded k i = padded k j \<Longrightarrow> i = j"
proof -
  have zero: "read_nat (replicate n (CHR ''0'') @ s) = read_nat s" for n s
    by (induction n) (simp_all add: read_nat_def undigit_def)
  assume "padded k i = padded k j"
  then have "read_nat (padded k i) = read_nat (padded k j)" by simp
  then show ?thesis by (simp add: padded_def Let_def zero read_show_nat)
qed

lemma userID_inject: "userID i = userID j \<Longrightarrow> i = j"
  by (auto simp: userID_def dest: padded_inject)

text \<open>
  The sequence numbers of two groups overlap as soon as a group gets more than a hundred messages,
  which the option allows: group \<open>g\<close>'s message number 101 has the number of the first one of group \<open>g + 1\<close>.
\<close>

lemma group_seqs_overlap: "i64 (groupStart seqBase g + 100) = groupStart seqBase (Suc g)"
proof -
  have "i64 (i64 x + y) = i64 (x + y)" for x y
    unfolding i64_def by (metis signed_take_bit_add signed_take_bit_signed_take_bit min.idem)
  then show ?thesis by (simp add: groupStart_def algebra_simps)
qed

text \<open>The reader's timeout of the heartbeat run is not below the interval at the default of thirty seconds, nor below two seconds.\<close>

lemma hb_timeout: "interval = 30000000000 \<or> 0 < interval \<and> interval \<le> 1000000000 \<Longrightarrow> interval \<le> hbReadTimeout interval"
  by (auto simp: hbReadTimeout_def truncDiv_def Let_def)

section \<open>Heartbeat runs\<close>

text \<open>What holds of a heartbeat run at every moment.\<close>

definition hbOk :: "hb_run \<Rightarrow> bool" where
  "hbOk s \<longleftrightarrow> lt_connects (hr_stats s) = int (length (hr_conns s)) \<and> lt_connectOK (hr_stats s) = int (length (hr_conns s)) \<and>
    int (hr_next s) = lt_connectOK (hr_stats s) + lt_failed (hr_stats s) \<and> int (length (samples (lt_ack (hr_stats s)))) \<le> lt_hbOK (hr_stats s)"

lemma hbConnect_ok: "hbOk s \<Longrightarrow> hbOk (hbConnect opts login dialled s)"
  by (auto simp: hbConnect_def hbOk_def Let_def split: sum.split)

lemma hbOn_ok:
  assumes "hbOk s" and "\<And>h st. let st' = snd (f (h, st)) in lt_connects st' = lt_connects st \<and> lt_connectOK st' = lt_connectOK st \<and> lt_failed st' = lt_failed st \<and>
    lt_hbOK st' - int (length (samples (lt_ack st'))) \<ge> lt_hbOK st - int (length (samples (lt_ack st)))"
  shows "hbOk (hbOn f i s)"
  using assms(1) assms(2) [of "hr_conns s ! i" "hr_stats s"]
  by (auto simp: hbOn_def onConn_def hbOk_def Let_def split: prod.split)

lemma hbEvent_ok: "hbOk s \<Longrightarrow> hbOk (hbEvent rnd mar unm opts login dialled e s)"
proof (cases e)
  case (HbTick i nw)
  assume "hbOk s"
  then have "hbOk (hbOn (hbSend mar nw) i s)" by (rule hbOn_ok) (simp add: hbSend_def Let_def split: prod.split option.split)
  with HbTick show ?thesis by simp
next
  case (HbRead i d nw)
  assume "hbOk s"
  then have "hbOk (hbOn (hbRead rnd unm (op_interval opts) d nw) i s)"
    by (rule hbOn_ok) (simp add: hbRead_def hbOnMsg_def Let_def split: prod.split read_round.split option.split)
  with HbRead show ?thesis by simp
qed (simp add: hbConnect_ok)

text \<open>
  In a heartbeat run every user that was tried is counted as connected or as failed, the connections
  counted are the ones kept, and there is no latency without an answer.
\<close>

lemma heartbeat_accounting: "hbOk (fold (hbEvent rnd mar unm opts login dialled) es \<lparr>hr_conns = [], hr_next = 0, hr_stats = stats0\<rparr>)"
proof (rule fold_invariant)
  show "hbOk \<lparr>hr_conns = [], hr_next = 0, hr_stats = stats0\<rparr>" by (simp add: hbOk_def stats0_def)
qed (rule hbEvent_ok)

section \<open>Search runs\<close>

text \<open>What holds of a search run at every moment: every round counted has its sample, every worker that returned is a failure.\<close>

definition searchOk :: "search_run \<Rightarrow> bool" where
  "searchOk s \<longleftrightarrow> lt_searchOK (sr_stats s) = int (length (samples (lt_request (sr_stats s)))) \<and>
    lt_historyOK (sr_stats s) = int (length (samples (lt_hist (sr_stats s)))) \<and>
    lt_failed (sr_stats s) = int (length (filter Not (sr_searching s))) + int (length (filter (\<lambda>c. c = None) (sr_conns s)))"

lemma filter_update_None:
  "w < length cs \<Longrightarrow> cs ! w = Some c \<Longrightarrow>
    length (filter (\<lambda>c. c = None) (cs[w := x])) = (if x = None then Suc (length (filter (\<lambda>c. c = None) cs)) else length (filter (\<lambda>c. c = None) cs))"
proof (induction cs arbitrary: w)
  case (Cons y cs)
  then show ?case by (cases w) auto
qed simp

lemma searchEvent_ok: "searchOk s \<Longrightarrow> searchOk (searchEvent rnd mar unm e s)"
proof (cases e)
  case (HistoryRound w nw ns)
  assume s: "searchOk s"
  show ?thesis
  proof (cases "w < length (sr_conns s) \<and> sr_conns s ! w \<noteq> None")
    case True
    then obtain conn where c: "w < length (sr_conns s)" "sr_conns s ! w = Some conn" by auto
    show ?thesis using s c unfolding HistoryRound
      by (auto simp: searchOk_def historyRound_def filter_update_None [OF c] split: prod.splits option.splits sum.splits)
  qed (use s HistoryRound in auto)
qed (auto simp: searchOk_def searchRound_def split: sum.split)

text \<open>
  The report of a search run is consistent: every successful request and every page has its latency
  sample, and the failures are the workers that could not start or have given up, each counted once.
\<close>

theorem search_accounting:
  "searchOk (fold (searchEvent rnd mar unm) es (searchInit opts searchLogin historyLogin dialled))"
proof (rule fold_invariant)
  show "searchOk (searchInit opts searchLogin historyLogin dialled)"
    by (simp add: searchOk_def searchInit_def stats0_def Let_def)
qed (rule searchEvent_ok)

section \<open>Examples\<close>

definition two_users :: options where
  "two_users = \<lparr>op_users = 2, op_conns = 1, op_rate = 1, op_duration = 60000000000, op_workers = 1, op_connRate = 50, op_groupSize = 2,
     op_groups = 1, op_msgs = 1, op_historyCon = 10, op_interval = 30000000000, op_seqBase = 0, op_pct = defaultPcts\<rparr>"

definition acking :: "string \<Rightarrow> string \<Rightarrow> go_error + bench_conn" where
  "acking _ _ = Inr (WsConn \<lparr>wc_in = [Inr ''a''], wc_out = [], wc_werr = (\<lambda>_. None), wc_readTimeout = 0, wc_closed = False\<rparr>)"

definition ack_zero :: "bytes \<Rightarrow> message option" where
  "ack_zero _ = Some (msg0\<lparr>m_cmd := CmdAck\<rparr>)"

definition atTime :: "int \<Rightarrow> gotime" where
  "atTime t = \<lparr>wall = t, mono = t\<rparr>"

theorem chat_accounting_witness:
  "\<exists>r. runChat (\<lambda>x. x) (\<lambda>_. Some []) ack_zero two_users [(1, Inr ''t1''), (0, Inr ''t0'')] acking [ChatTick 0 (atTime 5), ChatRead 0 False (atTime 2000005)] None = Some (Inr r) \<and>
    lt_delivered (re_Stats r) = int (length (samples (lt_delivery (re_Stats r)))) \<and> lt_drops (re_Stats r) = 0"
proof -
  have "[0..<nat 2] = [0, 1]" by (simp add: upt_rec numeral_2_eq_2)
  then obtain r where "runChat (\<lambda>x. x) (\<lambda>_. Some []) ack_zero two_users [(1, Inr ''t1''), (0, Inr ''t0'')] acking [ChatTick 0 (atTime 5), ChatRead 0 False (atTime 2000005)] None = Some (Inr r)"
    by (simp add: runChat_def loginAll_def connectAll_def two_users_def dialSlots_def acking_def everySecond_def)
  with chat_accounting [OF this] show ?thesis by blast
qed

theorem churn_accounting_witness:
  "\<exists>r. runChurn (\<lambda>x. x) (\<lambda>_. Some []) ack_zero two_users (\<lambda>_. Inr ''t'') (acking []) [0, 1, 0] None = Some r \<and> lt_connects (re_Stats r) = 2"
proof -
  obtain r where "runChurn (\<lambda>x. x) (\<lambda>_. Some []) ack_zero two_users (\<lambda>_. Inr ''t'') (acking []) [0, 1, 0] None = Some r"
    by (simp add: runChurn_def two_users_def churnRate_def everySecond_def)
  moreover from churn_accounting [OF this] have "lt_connects (re_Stats r) = 2" by (simp add: two_users_def)
  ultimately show ?thesis by blast
qed

theorem fanout_report_witness:
  "map_of (gp_fanBySeq (fold (groupEvent (\<lambda>_. Some []) (\<lambda>_. Some (groupMsg ''g'' 50))) [GroupTick 0, GroupRead 1 False (atTime 3000000), GroupRead 0 False (atTime 7000000)]
    (groupInit 0 1 [\<lparr>gi_id = ''g'', gi_owner = 0, gi_members = [1]\<rparr>] (map projr [acking [] [], acking [] []])))) 50 = Some 7"
proof -
  let ?s = "groupInit 0 1 [\<lparr>gi_id = ''g'', gi_owner = 0, gi_members = [1]\<rparr>] (map projr [acking [] [], acking [] []])"
  let ?es = "[GroupTick 0, GroupRead 1 False (atTime 3000000), GroupRead 0 False (atTime 7000000)]"
  have l: "latencies 50 (receipts (\<lambda>_. Some []) (\<lambda>_. Some (groupMsg ''g'' 50)) ?es ?s) = [3, 7]"
    by code_simp
  have "Max (set [3, 7 :: rat]) = 7" and "[3, 7 :: rat] \<noteq> []" by simp_all
  with conjunct1 [OF fanout_report [where q = 50, OF refl refl], of "\<lambda>_. Some []" "\<lambda>_. Some (groupMsg ''g'' 50)" ?es 0 1 "[\<lparr>gi_id = ''g'', gi_owner = 0, gi_members = [1]\<rparr>]"
    "map projr [acking [] [], acking [] []]"]
  show ?thesis unfolding l by (simp only: if_False)
qed

theorem slow_rate_stalls_witness: "runChat (\<lambda>x. x) (\<lambda>_. Some []) ack_zero (two_users\<lparr>op_connRate := 1 / 2\<rparr>) [(0, Inr ''t0''), (1, Inr ''t1'')] acking [] None = None"
  by (rule slow_rate_stalls [where toks = "[(userID 0, ''t0''), (userID 1, ''t1'')]"])
    (simp_all add: two_users_def loginAll_def userID_def padded_def show_nat.simps digit_def Let_def)

end
