(* ===== verification/Durations.thy ===== *)
theory Durations
  imports JSON_Codec
begin

text \<open>
  Durations in the configuration file (\<open>configs/config.go\<close>): a number of nanoseconds written and read as
  text, with \<open>time.Duration.String\<close> and \<open>time.ParseDuration\<close> of the standard library as they are. An
  unsigned 64-bit number is a natural number; \<open>rnd\<close> rounds the floating-point operations on fractions.
\<close>

section \<open>Writing\<close>

text \<open>\<open>fmtFrac\<close> prepends the last \<open>prec\<close> digits of \<open>v\<close> as a fraction without trailing zeros.\<close>

fun fmtFrac :: "nat \<Rightarrow> bool \<Rightarrow> string \<Rightarrow> nat \<Rightarrow> string \<times> nat" where
  "fmtFrac 0 printing buf v = (if printing then CHR ''.'' # buf else buf, v)"
| "fmtFrac (Suc prec) printing buf v =
    (let d = v mod 10; printing = (printing \<or> d \<noteq> 0)
     in fmtFrac prec printing (if printing then digit d # buf else buf) (v div 10))"

definition micro :: string where "micro = [CHR 0xC2, CHR 0xB5, CHR ''s'']"

definition smallUnit :: "nat \<Rightarrow> nat \<times> string" where
  "smallUnit u = (if u < 1000 then (0, ''ns'') else if u < 1000000 then (3, micro) else (6, ''ms''))"

definition DurationString :: "int \<Rightarrow> string" where
  "DurationString d =
    (let u = nat \<bar>d\<bar>;
         body =
          (if u = 0 then ''0s''
           else if u < 1000000000 then
             (case smallUnit u of (prec, name) \<Rightarrow> (case fmtFrac prec False name u of (buf, u) \<Rightarrow> show_nat u @ buf))
           else
             (case fmtFrac 9 False ''s'' u of
                (buf, u) \<Rightarrow>
                  let buf = show_nat (u mod 60) @ buf; u = u div 60 in
                  if u > 0 then
                    let buf = show_nat (u mod 60) @ CHR ''m'' # buf; u = u div 60 in
                    if u > 0 then show_nat u @ CHR ''h'' # buf else buf
                  else buf))
     in if d < 0 then CHR ''-'' # body else body)"

section \<open>Reading\<close>

fun leadingInt :: "nat \<Rightarrow> string \<Rightarrow> (nat \<times> string) option" where
  "leadingInt x [] = Some (x, [])"
| "leadingInt x (c # s) =
    (if \<not> is_digit c then Some (x, c # s)
     else if x > 2 ^ 63 div 10 then None
     else let x = x * 10 + undigit c in if x > 2 ^ 63 then None else leadingInt x s)"

text \<open>The digits after the point and the power of ten they are scaled by; digits too many are skipped.\<close>

fun leadingFraction :: "bool \<Rightarrow> nat \<Rightarrow> nat \<Rightarrow> string \<Rightarrow> nat \<times> nat \<times> string" where
  "leadingFraction overflow x scale [] = (x, scale, [])"
| "leadingFraction overflow x scale (c # s) =
    (if \<not> is_digit c then (x, scale, c # s)
     else if overflow then leadingFraction True x scale s
     else if x > (2 ^ 63 - 1) div 10 then leadingFraction True x scale s
     else let y = x * 10 + undigit c in
       if y > 2 ^ 63 then leadingFraction True x scale s else leadingFraction False y (scale * 10) s)"

definition unitMap :: "(string \<times> nat) list" where
  "unitMap = [(''ns'', 1), (''us'', 1000), (micro, 1000), ([CHR 0xCE, CHR 0xBC, CHR ''s''], 1000), (''ms'', 1000000), (''s'', 1000000000),
     (''m'', 60000000000), (''h'', 3600000000000)]"

definition isUnit :: "char \<Rightarrow> bool" where
  "isUnit c \<longleftrightarrow> c \<noteq> CHR ''.'' \<and> \<not> is_digit c"

definition fraction :: "string \<Rightarrow> nat \<times> nat \<times> bool \<times> string" where
  "fraction s =
    (case s of
       c # t \<Rightarrow>
         if c = CHR ''.'' then (case leadingFraction False 0 1 t of (f, scale, t') \<Rightarrow> (f, scale, length t \<noteq> length t', t'))
         else (0, 1, False, s)
     | [] \<Rightarrow> (0, 1, False, s))"

text \<open>One round of the loop of \<open>ParseDuration\<close>: a number with its unit, in nanoseconds, and the rest.\<close>

definition parseOne :: "(rat \<Rightarrow> rat) \<Rightarrow> string \<Rightarrow> (nat \<times> string) option" where
  "parseOne rnd s =
    (if s = [] \<or> isUnit (hd s) then None
     else case leadingInt 0 s of
       None \<Rightarrow> None
     | Some (v, s1) \<Rightarrow>
         (case fraction s1 of
            (f, scale, after, s2) \<Rightarrow>
              if length s = length s1 \<and> \<not> after then None
              else case map_of unitMap (takeWhile isUnit s2) of
                None \<Rightarrow> None
              | Some unit \<Rightarrow>
                  if v > 2 ^ 63 div unit then None
                  else
                    let v = v * unit + (if f > 0 then nat \<lfloor>rnd (rnd (of_nat f) * rnd (of_nat unit / of_nat scale))\<rfloor> else 0)
                    in if v > 2 ^ 63 then None else Some (v, dropWhile isUnit s2)))"

lemma leadingInt_length: "leadingInt x s = Some (v, s') \<Longrightarrow> length s' \<le> length s"
  by (induction x s rule: leadingInt.induct) (auto simp: Let_def split: if_splits)

lemma leadingFraction_length: "leadingFraction ov x sc s = (f, sc', s') \<Longrightarrow> length s' \<le> length s"
  by (induction ov x sc s rule: leadingFraction.induct) (auto simp: Let_def split: if_splits)

lemma fraction_length: "fraction s = (f, scale, after, s') \<Longrightarrow> length s' \<le> length s"
  by (auto simp: fraction_def split: list.splits prod.splits if_splits dest: leadingFraction_length)

lemma unitMap_nonempty: "map_of unitMap u = Some k \<Longrightarrow> u \<noteq> []"
  by (auto simp: unitMap_def micro_def)

lemma parseOne_length: "parseOne rnd s = Some (v, s') \<Longrightarrow> length s' < length s"
proof -
  assume "parseOne rnd s = Some (v, s')"
  then obtain w s1 f sc after s2 k where 1: "leadingInt 0 s = Some (w, s1)" "fraction s1 = (f, sc, after, s2)"
    "map_of unitMap (takeWhile isUnit s2) = Some k" and s': "s' = dropWhile isUnit s2"
    by (auto simp: parseOne_def Let_def split: if_splits option.splits prod.splits)
  have "length s2 \<le> length s" using leadingInt_length [OF 1(1)] fraction_length [OF 1(2)] by simp
  moreover have "length s2 = length (takeWhile isUnit s2) + length s'"
    unfolding s' by (metis length_append takeWhile_dropWhile_id)
  ultimately show ?thesis using unitMap_nonempty [OF 1(3)] by (cases "takeWhile isUnit s2") auto
qed

function parseUnits :: "(rat \<Rightarrow> rat) \<Rightarrow> nat \<Rightarrow> string \<Rightarrow> nat option" where
  "parseUnits rnd d s =
    (if s = [] then Some d
     else case parseOne rnd s of
       None \<Rightarrow> None
     | Some (v, s') \<Rightarrow> let d = (d + v) mod 2 ^ 64 in if d > 2 ^ 63 then None else parseUnits rnd d s')"
  by pat_completeness auto
termination by (relation "measure (\<lambda>(rnd, d, s). length s)") (auto dest: parseOne_length)

declare parseUnits.simps [simp del]

definition ParseDuration :: "(rat \<Rightarrow> rat) \<Rightarrow> string \<Rightarrow> int option" where
  "ParseDuration rnd s =
    (let (neg, s) = (case s of c # t \<Rightarrow> if c = CHR ''-'' \<or> c = CHR ''+'' then (c = CHR ''-'', t) else (False, s) | [] \<Rightarrow> (False, s)) in
     if s = ''0'' then Some 0
     else if s = [] then None
     else case parseUnits rnd 0 s of
       None \<Rightarrow> None
     | Some d \<Rightarrow> if neg then Some (i64 (- i64 (int d))) else if d > 2 ^ 63 - 1 then None else Some (int d))"

section \<open>JSON\<close>

definition DurationMarshalJSON :: "int \<Rightarrow> bytes" where
  "DurationMarshalJSON d = json_marshal (JStr (DurationString d))"

text \<open>The value of a JSON text for \<open>UnmarshalJSON\<close>: \<open>null\<close> is read as the empty string.\<close>

definition durationOf :: "(rat \<Rightarrow> rat) \<Rightarrow> json \<Rightarrow> int option" where
  "durationOf rnd v = (case v of JStr s \<Rightarrow> ParseDuration rnd s | JNull \<Rightarrow> ParseDuration rnd [] | _ \<Rightarrow> None)"

definition DurationUnmarshalJSON :: "(rat \<Rightarrow> rat) \<Rightarrow> bytes \<Rightarrow> int option" where
  "DurationUnmarshalJSON rnd b = (case json_parse b of None \<Rightarrow> None | Some v \<Rightarrow> durationOf rnd v)"

section \<open>Digits\<close>

abbreviation value_from :: "nat \<Rightarrow> string \<Rightarrow> nat" where
  "value_from x ds \<equiv> foldl (\<lambda>acc c. acc * 10 + undigit c) x ds"

lemma value_from_split: "value_from x ds = x * 10 ^ length ds + read_nat ds"
proof (induction ds arbitrary: x)
  case (Cons c ds)
  have "value_from x (c # ds) = (x * 10 + undigit c) * 10 ^ length ds + read_nat ds" using Cons [of "x * 10 + undigit c"] by simp
  moreover have "read_nat (c # ds) = undigit c * 10 ^ length ds + read_nat ds" using Cons [of "undigit c"] by (simp add: read_nat_def)
  ultimately show ?case by (simp add: algebra_simps)
qed (simp add: read_nat_def)

lemma value_from_ge: "x \<le> value_from x ds"
  by (simp add: value_from_split trans_le_add1)

lemma read_nat_Cons: "read_nat (c # ds) = undigit c * 10 ^ length ds + read_nat ds"
  using value_from_split [of "undigit c" ds] by (simp add: read_nat_def)

lemma leadingInt_digits:
  "list_all is_digit ds \<Longrightarrow> value_from x ds \<le> 2 ^ 63 \<Longrightarrow> r = [] \<or> \<not> is_digit (hd r) \<Longrightarrow> leadingInt x (ds @ r) = Some (value_from x ds, r)"
proof (induction ds arbitrary: x)
  case Nil
  then show ?case by (cases r) auto
next
  case (Cons c ds)
  have "x * 10 + undigit c \<le> 2 ^ 63" using value_from_ge [of "x * 10 + undigit c" ds] Cons.prems(2) by simp
  then show ?case using Cons by (simp add: Let_def)
qed

lemma leadingFraction_digits:
  "list_all is_digit ds \<Longrightarrow> value_from x ds < 2 ^ 63 \<Longrightarrow> r = [] \<or> \<not> is_digit (hd r) \<Longrightarrow>
    leadingFraction False x sc (ds @ r) = (value_from x ds, sc * 10 ^ length ds, r)"
proof (induction ds arbitrary: x sc)
  case Nil
  then show ?case by (cases r) auto
next
  case (Cons c ds)
  have "x * 10 + undigit c < 2 ^ 63" using value_from_ge [of "x * 10 + undigit c" ds] Cons.prems(2) by simp
  then show ?case using Cons by (simp add: Let_def mult.assoc)
qed

lemma is_digit_digit: "d < 10 \<Longrightarrow> is_digit (digit d)"
  by (simp add: is_digit_def digit_code)

lemma digits_show_nat: "list_all is_digit (show_nat n)"
  using set_show_nat [of _ n] by (auto simp: list_all_iff is_digit_def)

lemma fmtFrac_printing:
  "\<exists>ds. fmtFrac p True buf v = (CHR ''.'' # ds @ buf, v div 10 ^ p) \<and> list_all is_digit ds \<and> length ds = p \<and> read_nat ds = v mod 10 ^ p"
proof (induction p arbitrary: buf v)
  case (Suc p)
  obtain ds where ds: "fmtFrac p True (digit (v mod 10) # buf) (v div 10) = (CHR ''.'' # ds @ digit (v mod 10) # buf, v div 10 div 10 ^ p)"
    "list_all is_digit ds" "length ds = p" "read_nat ds = v div 10 mod 10 ^ p" using Suc by blast
  have "v mod 10 ^ Suc p = v div 10 mod 10 ^ p * 10 + v mod 10" using mod_mult2_eq [of v 10 "10 ^ p"] by simp
  then show ?case using ds
    by (intro exI [of _ "ds @ [digit (v mod 10)]"]) (simp add: Let_def read_nat_snoc undigit_digit is_digit_digit div_mult2_eq)
qed (simp add: read_nat_def)

text \<open>The fraction \<open>fmtFrac\<close> writes: nothing, or digits whose value, scaled, is what is cut off.\<close>

lemma fmtFrac_digits:
  "(v mod 10 ^ p = 0 \<and> fmtFrac p False buf v = (buf, v div 10 ^ p)) \<or>
   (\<exists>ds. fmtFrac p False buf v = (CHR ''.'' # ds @ buf, v div 10 ^ p) \<and> list_all is_digit ds \<and> length ds \<le> p \<and> 0 < read_nat ds \<and>
     read_nat ds * 10 ^ (p - length ds) = v mod 10 ^ p)"
proof (induction p arbitrary: v)
  case (Suc p)
  have m: "v mod (10 * 10 ^ p) = v div 10 mod 10 ^ p * 10 + v mod 10" using mod_mult2_eq [of v 10 "10 ^ p"] by simp
  show ?case
  proof (cases "v mod 10 = 0")
    case True
    then have step: "fmtFrac (Suc p) False buf v = fmtFrac p False buf (v div 10)" by (simp add: Let_def)
    show ?thesis using Suc [of "v div 10"]
    proof (elim disjE exE conjE)
      fix ds
      assume "fmtFrac p False buf (v div 10) = (CHR ''.'' # ds @ buf, v div 10 div 10 ^ p)" "list_all is_digit ds" "length ds \<le> p" "0 < read_nat ds"
        "read_nat ds * 10 ^ (p - length ds) = v div 10 mod 10 ^ p"
      then show ?thesis unfolding step
        by (intro disjI2 exI [of _ ds]) (simp add: m True Suc_diff_le div_mult2_eq)
    qed (simp add: step m True div_mult2_eq)
  next
    case False
    then have "fmtFrac (Suc p) False buf v = fmtFrac p True (digit (v mod 10) # buf) (v div 10)" by (simp add: Let_def)
    moreover obtain ds where "fmtFrac p True (digit (v mod 10) # buf) (v div 10) = (CHR ''.'' # ds @ digit (v mod 10) # buf, v div 10 div 10 ^ p)"
      "list_all is_digit ds" "length ds = p" "read_nat ds = v div 10 mod 10 ^ p" using fmtFrac_printing by blast
    ultimately show ?thesis using False
      by (intro disjI2 exI [of _ "ds @ [digit (v mod 10)]"]) (simp add: m read_nat_snoc undigit_digit is_digit_digit div_mult2_eq)
  qed
qed simp

section \<open>Reading back\<close>

text \<open>Floating-point arithmetic is exact on integers of at most 53 bits.\<close>

definition exact_ints :: "(rat \<Rightarrow> rat) \<Rightarrow> bool" where
  "exact_ints rnd \<longleftrightarrow> (\<forall>n :: nat. n \<le> 2 ^ 53 \<longrightarrow> rnd (of_nat n) = of_nat n)"

definition unit_name :: "string \<Rightarrow> nat \<Rightarrow> bool" where
  "unit_name u k \<longleftrightarrow> map_of unitMap u = Some k \<and> list_all isUnit u \<and> u \<noteq> []"

lemma unit_names:
  "unit_name ''ns'' 1" "unit_name micro 1000" "unit_name ''ms'' 1000000" "unit_name ''s'' 1000000000"
  "unit_name ''m'' 60000000000" "unit_name ''h'' 3600000000000"
  by (simp_all add: unit_name_def unitMap_def micro_def isUnit_def is_digit_def)

lemma show_nat_head: "\<exists>c t. show_nat n = c # t \<and> is_digit c"
  using digits_show_nat [of n] show_nat_not_Nil [of n] by (cases "show_nat n") auto

lemma unit_split:
  assumes "unit_name u k" and "r = [] \<or> is_digit (hd r)"
  shows "takeWhile isUnit (u @ r) = u" and "dropWhile isUnit (u @ r) = r"
proof -
  have u: "\<And>c. c \<in> set u \<Longrightarrow> isUnit c" using assms(1) by (simp add: unit_name_def list_all_iff)
  have r: "takeWhile isUnit r = []" "dropWhile isUnit r = r" using assms(2) by (cases r; simp add: isUnit_def)+
  from takeWhile_append2 [of u isUnit r] dropWhile_append2 [of u isUnit r] u r
  show "takeWhile isUnit (u @ r) = u" and "dropWhile isUnit (u @ r) = r" by simp_all
qed

lemma unit_head: "unit_name u k \<Longrightarrow> \<exists>c t. u = c # t \<and> \<not> is_digit c \<and> c \<noteq> CHR ''.''"
  by (cases u) (auto simp: unit_name_def isUnit_def)

lemma unit_pos: "unit_name u k \<Longrightarrow> 0 < k"
  by (auto simp: unit_name_def unitMap_def split: if_splits)

lemma parseOne_number:
  assumes "unit_name u k" and "v \<le> 2 ^ 63" and "v * k \<le> 2 ^ 63" and "r = [] \<or> is_digit (hd r)"
  shows "parseOne rnd (show_nat v @ u @ r) = Some (v * k, r)"
proof -
  obtain c t where h: "show_nat v = c # t" "is_digit c" using show_nat_head by blast
  have u: "\<not> is_digit (hd (u @ r))" "hd (u @ r) \<noteq> CHR ''.''" and k: "0 < k"
    using unit_head [OF assms(1)] unit_pos [OF assms(1)] by auto
  have "leadingInt 0 (show_nat v @ u @ r) = Some (v, u @ r)"
    using leadingInt_digits [OF digits_show_nat [of v], of 0 "u @ r"] u assms(2) read_show_nat [of v] by (simp add: read_nat_def)
  moreover have "fraction (u @ r) = (0, 1, False, u @ r)" using unit_head [OF assms(1)] by (auto simp: fraction_def)
  moreover have "v \<le> 2 ^ 63 div k" using assms(3) k by (simp add: less_eq_div_iff_mult_less_eq)
  ultimately show ?thesis using h assms(3) unit_split [OF assms(1,4)] assms(1)
    by (simp add: parseOne_def isUnit_def unit_name_def)
qed

lemma parseOne_fraction:
  assumes "exact_ints rnd" and "unit_name u (10 ^ p)" and "p \<le> 9" and "w \<le> 2 ^ 63"
  shows "parseOne rnd (show_nat (w div 10 ^ p) @ fst (fmtFrac p False u w)) = Some (w, [])"
  using fmtFrac_digits [of w p u]
proof (elim disjE exE conjE)
  assume "w mod 10 ^ p = 0" and f: "fmtFrac p False u w = (u, w div 10 ^ p)"
  then have "w div 10 ^ p * 10 ^ p = w" by (metis add.right_neutral div_mult_mod_eq)
  moreover have "w div 10 ^ p \<le> 2 ^ 63" using assms(4) div_le_dividend le_trans by blast
  ultimately show ?thesis using parseOne_number [OF assms(2), of "w div 10 ^ p" "[]" rnd] assms(4) f by simp
next
  fix ds
  assume f: "fmtFrac p False u w = (CHR ''.'' # ds @ u, w div 10 ^ p)" "list_all is_digit ds" "length ds \<le> p" "0 < read_nat ds"
    and v: "read_nat ds * 10 ^ (p - length ds) = w mod 10 ^ p"
  let ?v = "w div 10 ^ p" let ?f = "read_nat ds"
  obtain c t where h: "show_nat ?v = c # t" "is_digit c" using show_nat_head by blast
  have u: "\<not> is_digit (hd u)" "u \<noteq> []" using unit_head [OF assms(2)] by auto
  have small: "(10 :: nat) ^ p \<le> 10 ^ 9" using assms(3) by (rule power_increasing) simp
  have "?f * 10 ^ (p - length ds) < 10 ^ p" using v by simp
  then have fp: "?f * 10 ^ (p - length ds) < 10 ^ 9" using small by (rule less_le_trans)
  have "?f \<le> ?f * 10 ^ (p - length ds)" by simp
  with fp have f9: "?f < 10 ^ 9" using le_less_trans by blast
  have "?v \<le> 2 ^ 63" using assms(4) div_le_dividend le_trans by blast
  then have "leadingInt 0 (show_nat ?v @ CHR ''.'' # ds @ u) = Some (?v, CHR ''.'' # ds @ u)"
    using leadingInt_digits [OF digits_show_nat [of ?v], of 0 "CHR ''.'' # ds @ u"] read_show_nat [of ?v] by (simp add: read_nat_def is_digit_def)
  moreover have "fraction (CHR ''.'' # ds @ u) = (?f, 10 ^ length ds, True, u)"
    using leadingFraction_digits [OF f(2), of 0 u 1] u f9 f(4) by (auto simp: fraction_def read_nat_def)
  moreover have "?v \<le> 2 ^ 63 div 10 ^ p" using assms(4) by (simp add: div_le_mono)
  moreover have "nat \<lfloor>rnd (rnd (of_nat ?f) * rnd (of_nat (10 ^ p) / of_nat (10 ^ length ds)))\<rfloor> = ?f * 10 ^ (p - length ds)"
  proof -
    have "(of_nat (10 ^ p) / of_nat (10 ^ length ds) :: rat) = of_nat (10 ^ (p - length ds))" using f(3) power_diff [of "10 :: rat" "length ds" p] by simp
    moreover have "(10 :: nat) ^ (p - length ds) \<le> 10 ^ p" by (rule power_increasing) simp_all
    then have "(10 :: nat) ^ (p - length ds) \<le> 10 ^ 9" using small le_trans by blast
    moreover have R: "rnd (of_nat n) = of_nat n" if "n \<le> 10 ^ 9" for n using assms(1) that by (simp add: exact_ints_def)
    ultimately show ?thesis using R [of ?f] R [of "10 ^ (p - length ds)"] R [of "?f * 10 ^ (p - length ds)"] f9 fp
      by (simp only: of_nat_mult [symmetric] less_imp_le floor_of_nat nat_int)
  qed
  moreover have "?v * 10 ^ p + ?f * 10 ^ (p - length ds) = w" using v div_mult_mod_eq [of w "10 ^ p"] by simp
  moreover have "takeWhile isUnit u = u" "dropWhile isUnit u = []" using unit_split [OF assms(2), of "[]"] by simp_all
  ultimately show ?thesis using h assms(2,4) f(1,4)
    by (simp add: parseOne_def isUnit_def unit_name_def del: leadingInt.simps takeWhile_eq_all_conv dropWhile_eq_Nil_conv)
qed

lemma parseUnits_Nil: "parseUnits rnd d [] = Some d"
  by (simp add: parseUnits.simps)

lemma parseUnits_step: "parseOne rnd s = Some (v, s') \<Longrightarrow> d + v \<le> 2 ^ 63 \<Longrightarrow> parseUnits rnd d s = parseUnits rnd (d + v) s'"
  by (subst parseUnits.simps) (auto simp: parseOne_def Let_def)

lemma fmtFrac_mod: "fst (fmtFrac p pr buf (v mod 10 ^ p)) = fst (fmtFrac p pr buf v)"
proof (induction p arbitrary: pr buf v)
  case (Suc p)
  have "v mod (10 * 10 ^ p) div 10 = v div 10 mod 10 ^ p" using mod_mult2_eq [of v 10 "10 ^ p"] by simp
  moreover have "v mod (10 * 10 ^ p) mod 10 = v mod 10" by (simp add: mod_mod_cancel)
  ultimately show ?case using Suc [of _ _ "v div 10"] by (simp add: Let_def)
qed simp

text \<open>The text of a duration of at least a second, from the hours to the fraction.\<close>

lemma parse_long:
  assumes "exact_ints rnd" and "w \<le> 2 ^ 63" and "buf = show_nat (w div 10 ^ 9 mod 60) @ fst (fmtFrac 9 False ''s'' w)" and "u = w div 10 ^ 9 div 60"
  shows "parseUnits rnd 0 (if u > 0 then if u div 60 > 0 then show_nat (u div 60) @ CHR ''h'' # show_nat (u mod 60) @ CHR ''m'' # buf
      else show_nat (u mod 60) @ CHR ''m'' # buf else buf) = Some w"
proof -
  let ?w = "w div 10 ^ 9 mod 60 * 10 ^ 9 + w mod 10 ^ 9" let ?h = "u div 60" let ?m = "u mod 60"
  have sum: "?h * 3600000000000 + ?m * 60000000000 + ?w = w"
  proof -
    have e: "(10 :: nat) ^ 9 = 1000000000" by simp
    have "u = ?h * 60 + ?m" "w div 10 ^ 9 = u * 60 + w div 10 ^ 9 mod 60" "w = w div 10 ^ 9 * 10 ^ 9 + w mod 10 ^ 9"
      using assms(4) by (simp_all only: div_mult_mod_eq)
    then show ?thesis unfolding e by linarith
  qed
  have buf: "buf = show_nat (?w div 10 ^ 9) @ fst (fmtFrac 9 False ''s'' ?w)"
    using fmtFrac_mod [of 9 False "''s''" ?w] fmtFrac_mod [of 9 False "''s''" w] assms(3) by simp
  have "parseOne rnd buf = Some (?w, [])"
    unfolding buf using sum assms(2) unit_names(4) by (intro parseOne_fraction [OF assms(1)]) simp_all
  then have s: "parseUnits rnd d buf = Some (d + ?w)" if "d + ?w \<le> 2 ^ 63" for d using parseUnits_step [OF _ that] by (simp add: parseUnits_Nil)
  have d: "is_digit (hd (show_nat n @ x))" for n x using show_nat_head [of n] by auto
  have "parseOne rnd (show_nat ?m @ ''m'' @ buf) = Some (?m * 60000000000, buf)"
    using assms(3) d by (intro parseOne_number unit_names) (simp_all add: order_trans [OF mod_le_divisor])
  then have m: "parseUnits rnd d (show_nat ?m @ CHR ''m'' # buf) = Some (d + ?m * 60000000000 + ?w)" if "d + ?m * 60000000000 + ?w \<le> 2 ^ 63" for d
    using parseUnits_step [of rnd _ "?m * 60000000000" buf d] s [OF that] that by simp
  have "parseOne rnd (show_nat ?h @ ''h'' @ show_nat ?m @ CHR ''m'' # buf) = Some (?h * 3600000000000, show_nat ?m @ CHR ''m'' # buf)"
    using sum assms(2) d by (intro parseOne_number unit_names) simp_all
  then have h: "parseUnits rnd 0 (show_nat ?h @ CHR ''h'' # show_nat ?m @ CHR ''m'' # buf) = Some w"
    using parseUnits_step [of rnd _ "?h * 3600000000000" "show_nat ?m @ CHR ''m'' # buf" 0] m [of "?h * 3600000000000"] sum assms(2) by simp
  consider "0 < ?h" | "?h = 0" "0 < u" | "u = 0" by auto
  then show ?thesis using h m [of 0] s [of 0] sum assms(2) by cases auto
qed

text \<open>The text without a sign, as \<open>String\<close> builds it from the right.\<close>

definition durationBody :: "nat \<Rightarrow> string" where
  "durationBody w =
    (if w = 0 then ''0s''
     else if w < 1000000000 then show_nat (w div 10 ^ fst (smallUnit w)) @ fst (fmtFrac (fst (smallUnit w)) False (snd (smallUnit w)) w)
     else
       let buf = show_nat (w div 10 ^ 9 mod 60) @ fst (fmtFrac 9 False ''s'' w); u = w div 10 ^ 9 div 60
       in if u > 0 then if u div 60 > 0 then show_nat (u div 60) @ CHR ''h'' # show_nat (u mod 60) @ CHR ''m'' # buf
          else show_nat (u mod 60) @ CHR ''m'' # buf else buf)"

lemma snd_fmtFrac: "snd (fmtFrac p False buf v) = v div 10 ^ p"
  using fmtFrac_digits [of v p buf] by auto

lemma DurationString_body: "DurationString d = (if d < 0 then CHR ''-'' # durationBody (nat \<bar>d\<bar>) else durationBody (nat \<bar>d\<bar>))"
  by (simp add: DurationString_def durationBody_def Let_def split_beta snd_fmtFrac)

lemma smallUnit_name: "unit_name (snd (smallUnit w)) (10 ^ fst (smallUnit w)) \<and> fst (smallUnit w) \<le> 9"
  using unit_names(1-3) by (simp add: smallUnit_def)

lemma parse_body:
  assumes "exact_ints rnd" and "w \<le> 2 ^ 63"
  shows "parseUnits rnd 0 (durationBody w) = Some w"
proof -
  consider "w = 0" | "0 < w" "w < 1000000000" | "1000000000 \<le> w" by linarith
  then show ?thesis
  proof cases
    case 1
    have "parseOne rnd (show_nat 0 @ ''s'' @ []) = Some (0 * 1000000000, [])" by (intro parseOne_number unit_names) simp_all
    then have "parseOne rnd ''0s'' = Some (0, [])" by (simp add: show_nat.simps digit_def char_of_def bit_Suc_0_iff)
    from parseUnits_step [OF this, of 0] 1 show ?thesis by (simp add: durationBody_def parseUnits_Nil)
  next
    case 2
    have "parseOne rnd (show_nat (w div 10 ^ fst (smallUnit w)) @ fst (fmtFrac (fst (smallUnit w)) False (snd (smallUnit w)) w)) = Some (w, [])"
      using smallUnit_name [of w] assms by (intro parseOne_fraction) simp_all
    from parseUnits_step [OF this, of 0] 2 assms(2) show ?thesis by (simp add: durationBody_def parseUnits_Nil)
  next
    case 3
    then have n: "w \<noteq> 0" "\<not> w < 1000000000" by simp_all
    show ?thesis unfolding durationBody_def Let_def if_not_P [OF n(1)] if_not_P [OF n(2)] by (rule parse_long [OF assms refl refl])
  qed
qed

lemma parse_zero: "parseUnits rnd 0 ''0'' = None"
  by (subst parseUnits.simps) (simp add: parseOne_def isUnit_def is_digit_def fraction_def unitMap_def undigit_def micro_def Let_def)

lemma body_head: "\<exists>c t. durationBody w = c # t \<and> is_digit c"
proof -
  have "\<exists>c t. show_nat n @ x = c # t \<and> is_digit c" for n x using show_nat_head [of n] by auto
  moreover have "is_digit (CHR ''0'')" by (simp add: is_digit_def)
  ultimately show ?thesis by (auto simp: durationBody_def Let_def)
qed

lemma ParseDuration_String:
  assumes "exact_ints rnd" and "in_i64 d"
  shows "ParseDuration rnd (DurationString d) = Some d"
proof -
  let ?w = "nat \<bar>d\<bar>"
  have w: "?w \<le> 2 ^ 63" using assms(2) by (auto simp: in_i64_def nat_le_iff abs_if)
  have p: "parseUnits rnd 0 (durationBody ?w) = Some ?w" using parse_body [OF assms(1) w] .
  then have z: "durationBody ?w \<noteq> ''0''" using parse_zero by auto
  obtain c t where b: "durationBody ?w = c # t" "is_digit c" using body_head by blast
  then have c: "c \<noteq> CHR ''-''" "c \<noteq> CHR ''+''" by (auto simp: is_digit_def)
  show ?thesis
  proof (cases "d < 0")
    case True
    have "i64 (- i64 (int ?w)) = i64 (- int ?w)" by (simp add: i64_def signed_take_bit_minus)
    also have "\<dots> = d" using True assms(2) by (simp add: i64_id)
    finally show ?thesis using True p z b(1) by (simp add: ParseDuration_def DurationString_body)
  next
    case False
    moreover have "\<not> 2 ^ 63 - 1 < ?w" using False assms(2) by (simp add: in_i64_def nat_less_iff)
    ultimately show ?thesis using p z b(1) c by (auto simp: ParseDuration_def DurationString_body)
  qed
qed

section \<open>Valid text\<close>

lemma valid_ascii_append: "(\<And>c. c \<in> set a \<Longrightarrow> code c < 128) \<Longrightarrow> valid_utf8 (a @ s) = valid_utf8 s"
  by (induction a) auto

lemma digit_ascii: "is_digit c \<Longrightarrow> code c < 128"
  by (simp add: is_digit_def)

lemma valid_show_nat [simp]: "valid_utf8 (show_nat n @ s) = valid_utf8 s"
  using set_show_nat [of _ n] by (intro valid_ascii_append) force

lemma valid_fmtFrac [simp]: "valid_utf8 (fst (fmtFrac p False u v)) = valid_utf8 u"
  using fmtFrac_digits [of v p u] digit_ascii
  by (elim disjE exE conjE) (auto simp: list_all_iff valid_ascii_append)

lemma valid_DurationString: "valid_utf8 (DurationString d)"
  by (simp add: DurationString_body durationBody_def Let_def smallUnit_def micro_def rune_size_def cont_def)

text \<open>
  C21. A duration survives the configuration file: what \<open>MarshalJSON\<close> writes for any duration (negative ones
  and the least one included, with hours, minutes and a fraction, or in milli-, micro- or nanoseconds)
  \<open>UnmarshalJSON\<close> reads as the same number of nanoseconds, although the fraction goes through
  floating-point arithmetic.
\<close>

theorem duration_roundtrip:
  assumes "exact_ints rnd" and "in_i64 d"
  shows "DurationUnmarshalJSON rnd (DurationMarshalJSON d) = Some d"
  using json_roundtrip [of "JStr (DurationString d)"] ParseDuration_String [OF assms]
  by (simp add: DurationUnmarshalJSON_def DurationMarshalJSON_def durationOf_def valid_DurationString)

theorem duration_roundtrip_witness: "DurationUnmarshalJSON (\<lambda>x. x) (DurationMarshalJSON (- 5400250000000)) = Some (- 5400250000000)"
  by (rule duration_roundtrip) (simp_all add: exact_ints_def in_i64_def)

end
