(* ===== verification/Config_File.thy ===== *)
theory Config_File
  imports Config Durations
begin

text \<open>
  The configuration file (\<open>configs/config.go\<close>, \<open>Load\<close>): its JSON text is decoded into the defaults, field by
  field, by the tags of the structures. A decoder works on the members of a JSON object and on a
  structure with a flag for errors; any error makes \<open>Load\<close> fail. The backing array of a slice is kept
  within one object.
\<close>

section \<open>Decoding\<close>

type_synonym members = "(string \<times> json) list"
type_synonym 'r decoder = "members \<Rightarrow> 'r \<times> bool \<Rightarrow> 'r \<times> bool"
type_synonym ('a, 'r) tagged = "string \<Rightarrow> ('r \<Rightarrow> 'a) \<Rightarrow> (('a \<Rightarrow> 'a) \<Rightarrow> 'r \<Rightarrow> 'r) \<Rightarrow> 'r decoder"

definition store_bool :: "json \<Rightarrow> bool \<times> bool \<Rightarrow> bool \<times> bool" where
  "store_bool v = (\<lambda>(x, bad). case v of JBool b \<Rightarrow> (b, bad) | JNull \<Rightarrow> (x, bad) | _ \<Rightarrow> (x, True))"

definition store_duration :: "(rat \<Rightarrow> rat) \<Rightarrow> json \<Rightarrow> int \<times> bool \<Rightarrow> int \<times> bool" where
  "store_duration rnd v = (\<lambda>(x, bad). case durationOf rnd v of Some d \<Rightarrow> (d, bad) | None \<Rightarrow> (x, True))"

definition store_mapping :: "json \<Rightarrow> (string, string) gomap \<times> bool \<Rightarrow> (string, string) gomap \<times> bool" where
  "store_mapping v = (\<lambda>(m, bad).
    case v of
      JObj ms \<Rightarrow> fold (\<lambda>(k, v) (m, bad). case v of JStr s \<Rightarrow> (AList.update k s m, bad) | JNull \<Rightarrow> (AList.update k [] m, bad) | _ \<Rightarrow> (m, True)) ms (m, bad)
    | JNull \<Rightarrow> ([], bad)
    | _ \<Rightarrow> (m, True))"

definition store_struct :: "'r decoder \<Rightarrow> json \<Rightarrow> 'r \<times> bool \<Rightarrow> 'r \<times> bool" where
  "store_struct decode v = (\<lambda>(x, bad). case v of JObj ms \<Rightarrow> decode ms (x, bad) | JNull \<Rightarrow> (x, bad) | _ \<Rightarrow> (x, True))"

definition fill_slice :: "json list \<Rightarrow> string list \<times> bool \<Rightarrow> string list \<times> bool" where
  "fill_slice vs = (\<lambda>(xs, bad).
    let (sl, bad) = fold store_strings vs (Some (xs, length xs), bad)
    in (case sl of None \<Rightarrow> [] | Some (ys, n) \<Rightarrow> take n ys, bad))"

text \<open>The field with the tag \<open>name\<close>, by its selector and its update.\<close>

definition field :: "(json list \<Rightarrow> 'a \<times> bool \<Rightarrow> 'a \<times> bool) \<Rightarrow> ('a, 'r) tagged" where
  "field fill name get upd ms = (\<lambda>(r, bad). case fill (field_values name ms) (get r, bad) of (x, bad) \<Rightarrow> (upd (\<lambda>_. x) r, bad))"

definition struct_of :: "'r decoder list \<Rightarrow> 'r decoder" where
  "struct_of fs ms = fold (\<lambda>f. f ms) fs"

abbreviation str_field :: "(string, 'r) tagged" where "str_field \<equiv> field (fold store_string)"

abbreviation num_field :: "(int, 'r) tagged" where "num_field \<equiv> field (fold (store_int 64))"

abbreviation flag_field :: "(bool, 'r) tagged" where "flag_field \<equiv> field (fold store_bool)"

abbreviation dur_field :: "(rat \<Rightarrow> rat) \<Rightarrow> (int, 'r) tagged" where "dur_field rnd \<equiv> field (fold (store_duration rnd))"

abbreviation slice_field :: "(string list, 'r) tagged" where "slice_field \<equiv> field fill_slice"

abbreviation map_field :: "((string, string) gomap, 'r) tagged" where "map_field \<equiv> field (fold store_mapping)"

abbreviation struct_field :: "'a decoder \<Rightarrow> ('a, 'r) tagged" where "struct_field decode \<equiv> field (fold (store_struct decode))"

section \<open>The structures\<close>

definition decodeStability :: "(rat \<Rightarrow> rat) \<Rightarrow> stability_config decoder" where
  "decodeStability rnd = struct_of
    [num_field ''max_connections'' st_MaxConnections st_MaxConnections_update,
     dur_field rnd ''http_read_timeout'' st_HTTPReadTimeout st_HTTPReadTimeout_update,
     dur_field rnd ''http_write_timeout'' st_HTTPWriteTimeout st_HTTPWriteTimeout_update,
     dur_field rnd ''http_idle_timeout'' st_HTTPIdleTimeout st_HTTPIdleTimeout_update,
     dur_field rnd ''shutdown_timeout'' st_ShutdownTimeout st_ShutdownTimeout_update,
     flag_field ''pprof_enabled'' st_PprofEnabled st_PprofEnabled_update,
     str_field ''pprof_addr'' st_PprofAddr st_PprofAddr_update,
     flag_field ''metrics_enabled'' st_MetricsEnabled st_MetricsEnabled_update]"

definition decodeGNet :: "gnet_config decoder" where
  "decodeGNet = struct_of
    [num_field ''num_event_loops'' gn_NumEventLoops gn_NumEventLoops_update,
     num_field ''worker_pool_size'' gn_WorkerPoolSize gn_WorkerPoolSize_update]"

definition decodeMySQL :: "mysql_config decoder" where
  "decodeMySQL = struct_of [flag_field ''enabled'' my_Enabled my_Enabled_update, str_field ''dsn'' my_DSN my_DSN_update]"

definition decodeKafka :: "kafka_config decoder" where
  "decodeKafka = struct_of
    [flag_field ''enabled'' kc_Enabled kc_Enabled_update, slice_field ''brokers'' kc_Brokers kc_Brokers_update, str_field ''topic'' kc_Topic kc_Topic_update]"

definition decodeLogic :: "logic_config decoder" where
  "decodeLogic = struct_of
    [str_field ''addr'' lo_Addr lo_Addr_update, str_field ''listen_addr'' lo_ListenAddr lo_ListenAddr_update,
     struct_field decodeMySQL ''mysql'' lo_MySQL lo_MySQL_update, struct_field decodeKafka ''kafka'' lo_Kafka lo_Kafka_update,
     num_field ''worker_id'' lo_WorkerID lo_WorkerID_update]"

definition decodeObjectStorage :: "object_storage_config decoder" where
  "decodeObjectStorage = struct_of
    [flag_field ''enabled'' oc_Enabled oc_Enabled_update, str_field ''endpoint'' oc_Endpoint oc_Endpoint_update,
     str_field ''access_key'' oc_AccessKey oc_AccessKey_update, str_field ''secret_key'' oc_SecretKey oc_SecretKey_update,
     str_field ''bucket'' oc_Bucket oc_Bucket_update, flag_field ''use_ssl'' oc_UseSSL oc_UseSSL_update,
     num_field ''max_upload'' oc_MaxUpload oc_MaxUpload_update]"

definition decodeDiscovery :: "(rat \<Rightarrow> rat) \<Rightarrow> discovery_config decoder" where
  "decodeDiscovery rnd = struct_of
    [str_field ''mode'' dc_Mode dc_Mode_update, str_field ''redis_key'' dc_RedisKey dc_RedisKey_update,
     dur_field rnd ''ttl'' dc_TTL dc_TTL_update, dur_field rnd ''health_interval'' dc_HealthInterval dc_HealthInterval_update]"

definition decodeGrpc :: "(rat \<Rightarrow> rat) \<Rightarrow> grpc_config decoder" where
  "decodeGrpc rnd = struct_of
    [str_field ''addr'' gc_Addr gc_Addr_update, str_field ''node_id'' gc_NodeID gc_NodeID_update,
     map_field ''peer_addrs'' gc_PeerAddrs gc_PeerAddrs_update,
     dur_field rnd ''forward_dial_timeout'' gc_ForwardDialTimeout gc_ForwardDialTimeout_update,
     dur_field rnd ''forward_rpc_timeout'' gc_ForwardRPCTimeout gc_ForwardRPCTimeout_update,
     struct_field (decodeDiscovery rnd) ''discovery'' gc_Discovery gc_Discovery_update]"

definition decodeConn :: "(rat \<Rightarrow> rat) \<Rightarrow> conn_config decoder" where
  "decodeConn rnd = struct_of
    [dur_field rnd ''pong_wait'' cn_PongWait cn_PongWait_update, dur_field rnd ''ping_period'' cn_PingPeriod cn_PingPeriod_update,
     num_field ''max_msg_size'' cn_MaxMsgSize cn_MaxMsgSize_update, num_field ''send_buf_size'' cn_SendBufSize cn_SendBufSize_update,
     num_field ''offline_max_size'' cn_OfflineMaxSize cn_OfflineMaxSize_update]"

definition decodeRateLimit :: "(rat \<Rightarrow> rat) \<Rightarrow> rate_limit_config decoder" where
  "decodeRateLimit rnd = struct_of
    [flag_field ''enabled'' rt_Enabled rt_Enabled_update, num_field ''rate'' rt_Rate rt_Rate_update,
     num_field ''burst'' rt_Burst rt_Burst_update, dur_field rnd ''cleanup_interval'' rt_CleanupInterval rt_CleanupInterval_update]"

definition decodeJWT :: "(rat \<Rightarrow> rat) \<Rightarrow> jwt_config decoder" where
  "decodeJWT rnd = struct_of [str_field ''secret'' jc_Secret jc_Secret_update, dur_field rnd ''expiration'' jc_Expiration jc_Expiration_update]"

definition decodeRedis :: "redis_config decoder" where
  "decodeRedis = struct_of
    [str_field ''addr'' rd_Addr rd_Addr_update, str_field ''password'' rd_Password rd_Password_update, num_field ''db'' rd_DB rd_DB_update]"

text \<open>The section \<open>auth\<close> holds the one field \<open>dev_mode\<close>.\<close>

definition decodeAuth :: "bool decoder" where
  "decodeAuth ms = fold store_bool (field_values ''dev_mode'' ms)"

definition decodeGateway :: "(rat \<Rightarrow> rat) \<Rightarrow> gateway_config decoder" where
  "decodeGateway rnd = struct_of
    [str_field ''http_addr'' gw_HTTPAddr gw_HTTPAddr_update, str_field ''tcp_addr'' gw_TCPAddr gw_TCPAddr_update,
     str_field ''transport'' gw_Transport gw_Transport_update, dur_field rnd ''heartbeat'' gw_Heartbeat gw_Heartbeat_update,
     num_field ''heartbeat_fail'' gw_HeartbeatFail gw_HeartbeatFail_update, slice_field ''check_origin'' gw_CheckOrigin gw_CheckOrigin_update,
     struct_field (decodeConn rnd) ''conn'' gw_Conn gw_Conn_update, struct_field (decodeRateLimit rnd) ''rate_limit'' gw_RateLimit gw_RateLimit_update,
     struct_field decodeRedis ''redis'' gw_Redis gw_Redis_update, struct_field decodeGNet ''gnet'' gw_GNet gw_GNet_update,
     struct_field decodeMySQL ''mysql'' gw_MySQL gw_MySQL_update, struct_field decodeAuth ''auth'' gw_DevMode gw_DevMode_update,
     struct_field decodeKafka ''kafka'' gw_Kafka gw_Kafka_update, struct_field decodeLogic ''logic'' gw_Logic gw_Logic_update,
     struct_field (decodeGrpc rnd) ''grpc'' gw_Grpc gw_Grpc_update, struct_field decodeObjectStorage ''object_storage'' gw_ObjectStorage gw_ObjectStorage_update,
     num_field ''recall_window_ms'' gw_RecallWindowMs gw_RecallWindowMs_update,
     num_field ''history_default_limit'' gw_HistoryDefaultLimit gw_HistoryDefaultLimit_update,
     num_field ''search_default_limit'' gw_SearchDefaultLimit gw_SearchDefaultLimit_update,
     dur_field rnd ''dedup_ttl'' gw_DedupTTL gw_DedupTTL_update,
     num_field ''persist_concurrency'' gw_PersistConcurrency gw_PersistConcurrency_update]"

text \<open>The section \<open>snowflake\<close> holds the one field \<open>worker_id\<close>.\<close>

definition decodeSnow :: "int decoder" where
  "decodeSnow ms = fold (store_int 64) (field_values ''worker_id'' ms)"

definition decodeConfig :: "(rat \<Rightarrow> rat) \<Rightarrow> config decoder" where
  "decodeConfig rnd = struct_of
    [struct_field (decodeGateway rnd) ''gateway'' cf_Gateway cf_Gateway_update, struct_field decodeLogic ''logic'' cf_Logic cf_Logic_update,
     struct_field (decodeJWT rnd) ''jwt'' cf_JWT cf_JWT_update, struct_field decodeSnow ''snowflake'' cf_SnowWorkerID cf_SnowWorkerID_update,
     struct_field (decodeStability rnd) ''stability'' cf_Stability cf_Stability_update, slice_field ''admin_uids'' cf_AdminUIDs cf_AdminUIDs_update]"

section \<open>Loading\<close>

datatype file_read = NotExist | ReadError string | FileData bytes

text \<open>The text of a decoding error is not modelled.\<close>

definition Load :: "(rat \<Rightarrow> rat) \<Rightarrow> file_read \<Rightarrow> string + config" where
  "Load rnd f =
    (case f of
       NotExist \<Rightarrow> Inr Default
     | ReadError e \<Rightarrow> Inl e
     | FileData data \<Rightarrow>
         (case json_parse data of
            None \<Rightarrow> Inl ''json''
          | Some v \<Rightarrow> (case store_struct (decodeConfig rnd) v (Default, False) of (cfg, bad) \<Rightarrow> if bad then Inl ''json'' else Inr cfg)))"

section \<open>The file format\<close>

text \<open>A configuration as a file: every structure as an object with its tags in order, as \<open>json.Marshal\<close> writes it.\<close>

abbreviation JDur :: "int \<Rightarrow> json" where "JDur d \<equiv> JStr (DurationString d)"

abbreviation JStrs :: "string list \<Rightarrow> json" where "JStrs xs \<equiv> JArr (map JStr xs)"

definition encodeStability :: "stability_config \<Rightarrow> members" where
  "encodeStability c = [(''max_connections'', JInt (st_MaxConnections c)), (''http_read_timeout'', JDur (st_HTTPReadTimeout c)),
     (''http_write_timeout'', JDur (st_HTTPWriteTimeout c)), (''http_idle_timeout'', JDur (st_HTTPIdleTimeout c)),
     (''shutdown_timeout'', JDur (st_ShutdownTimeout c)), (''pprof_enabled'', JBool (st_PprofEnabled c)),
     (''pprof_addr'', JStr (st_PprofAddr c)), (''metrics_enabled'', JBool (st_MetricsEnabled c))]"

definition encodeGNet :: "gnet_config \<Rightarrow> members" where
  "encodeGNet c = [(''num_event_loops'', JInt (gn_NumEventLoops c)), (''worker_pool_size'', JInt (gn_WorkerPoolSize c))]"

definition encodeMySQL :: "mysql_config \<Rightarrow> members" where
  "encodeMySQL c = [(''enabled'', JBool (my_Enabled c)), (''dsn'', JStr (my_DSN c))]"

definition encodeKafka :: "kafka_config \<Rightarrow> members" where
  "encodeKafka c = [(''enabled'', JBool (kc_Enabled c)), (''brokers'', JStrs (kc_Brokers c)), (''topic'', JStr (kc_Topic c))]"

definition encodeLogic :: "logic_config \<Rightarrow> members" where
  "encodeLogic c = [(''addr'', JStr (lo_Addr c)), (''listen_addr'', JStr (lo_ListenAddr c)), (''mysql'', JObj (encodeMySQL (lo_MySQL c))),
     (''kafka'', JObj (encodeKafka (lo_Kafka c))), (''worker_id'', JInt (lo_WorkerID c))]"

definition encodeObjectStorage :: "object_storage_config \<Rightarrow> members" where
  "encodeObjectStorage c = [(''enabled'', JBool (oc_Enabled c)), (''endpoint'', JStr (oc_Endpoint c)), (''access_key'', JStr (oc_AccessKey c)),
     (''secret_key'', JStr (oc_SecretKey c)), (''bucket'', JStr (oc_Bucket c)), (''use_ssl'', JBool (oc_UseSSL c)), (''max_upload'', JInt (oc_MaxUpload c))]"

definition encodeDiscovery :: "discovery_config \<Rightarrow> members" where
  "encodeDiscovery c = [(''mode'', JStr (dc_Mode c)), (''redis_key'', JStr (dc_RedisKey c)), (''ttl'', JDur (dc_TTL c)),
     (''health_interval'', JDur (dc_HealthInterval c))]"

definition encodeGrpc :: "grpc_config \<Rightarrow> members" where
  "encodeGrpc c = [(''addr'', JStr (gc_Addr c)), (''node_id'', JStr (gc_NodeID c)), (''peer_addrs'', json_map (map (apsnd JStr) (gc_PeerAddrs c))),
     (''forward_dial_timeout'', JDur (gc_ForwardDialTimeout c)), (''forward_rpc_timeout'', JDur (gc_ForwardRPCTimeout c)),
     (''discovery'', JObj (encodeDiscovery (gc_Discovery c)))]"

definition encodeConn :: "conn_config \<Rightarrow> members" where
  "encodeConn c = [(''pong_wait'', JDur (cn_PongWait c)), (''ping_period'', JDur (cn_PingPeriod c)), (''max_msg_size'', JInt (cn_MaxMsgSize c)),
     (''send_buf_size'', JInt (cn_SendBufSize c)), (''offline_max_size'', JInt (cn_OfflineMaxSize c))]"

definition encodeRateLimit :: "rate_limit_config \<Rightarrow> members" where
  "encodeRateLimit c = [(''enabled'', JBool (rt_Enabled c)), (''rate'', JInt (rt_Rate c)), (''burst'', JInt (rt_Burst c)),
     (''cleanup_interval'', JDur (rt_CleanupInterval c))]"

definition encodeJWT :: "jwt_config \<Rightarrow> members" where
  "encodeJWT c = [(''secret'', JStr (jc_Secret c)), (''expiration'', JDur (jc_Expiration c))]"

definition encodeRedis :: "redis_config \<Rightarrow> members" where
  "encodeRedis c = [(''addr'', JStr (rd_Addr c)), (''password'', JStr (rd_Password c)), (''db'', JInt (rd_DB c))]"

definition encodeGateway :: "gateway_config \<Rightarrow> members" where
  "encodeGateway c = [(''http_addr'', JStr (gw_HTTPAddr c)), (''tcp_addr'', JStr (gw_TCPAddr c)), (''transport'', JStr (gw_Transport c)),
     (''heartbeat'', JDur (gw_Heartbeat c)), (''heartbeat_fail'', JInt (gw_HeartbeatFail c)), (''check_origin'', JStrs (gw_CheckOrigin c)),
     (''conn'', JObj (encodeConn (gw_Conn c))), (''rate_limit'', JObj (encodeRateLimit (gw_RateLimit c))), (''redis'', JObj (encodeRedis (gw_Redis c))),
     (''gnet'', JObj (encodeGNet (gw_GNet c))), (''mysql'', JObj (encodeMySQL (gw_MySQL c))), (''auth'', JObj [(''dev_mode'', JBool (gw_DevMode c))]),
     (''kafka'', JObj (encodeKafka (gw_Kafka c))), (''logic'', JObj (encodeLogic (gw_Logic c))), (''grpc'', JObj (encodeGrpc (gw_Grpc c))),
     (''object_storage'', JObj (encodeObjectStorage (gw_ObjectStorage c))), (''recall_window_ms'', JInt (gw_RecallWindowMs c)),
     (''history_default_limit'', JInt (gw_HistoryDefaultLimit c)), (''search_default_limit'', JInt (gw_SearchDefaultLimit c)),
     (''dedup_ttl'', JDur (gw_DedupTTL c)), (''persist_concurrency'', JInt (gw_PersistConcurrency c))]"

definition encodeConfig :: "config \<Rightarrow> members" where
  "encodeConfig c = [(''gateway'', JObj (encodeGateway (cf_Gateway c))), (''logic'', JObj (encodeLogic (cf_Logic c))), (''jwt'', JObj (encodeJWT (cf_JWT c))),
     (''snowflake'', JObj [(''worker_id'', JInt (cf_SnowWorkerID c))]), (''stability'', JObj (encodeStability (cf_Stability c))),
     (''admin_uids'', JStrs (cf_AdminUIDs c))]"

section \<open>Single fields\<close>

lemma field_hit: "distinct (map (fold_name \<circ> fst) ms) \<Longrightarrow> map_of ms n = Some v \<Longrightarrow> field_values n ms = [v]"
proof (induction ms)
  case (Cons m ms)
  show ?case
  proof (cases "fst m = n")
    case True
    have "filter (\<lambda>(k, _). fold_name k = fold_name n) ms = []"
      using Cons.prems(1) True by (auto simp: filter_empty_conv image_iff)
    then show ?thesis using Cons.prems(2) True by (cases m) (simp add: field_values_def)
  next
    case False
    then have "map_of ms n = Some v" using Cons.prems(2) by (cases m) (auto split: if_splits)
    moreover from this have "fold_name n \<in> (fold_name \<circ> fst) ` set ms" by (force dest: map_of_SomeD)
    ultimately show ?thesis using Cons False by (cases m) (auto simp: field_values_def image_iff)
  qed
qed simp

lemma parse_show_int: "parse_int (show_int x) = Some x"
proof -
  have d: "list_all is_digit (show_nat n)" "show_nat n \<noteq> []" for n by (simp_all add: digits_show_nat show_nat_not_Nil)
  have m: "\<not> is_digit (CHR ''-'')" by (simp add: is_digit_def)
  show ?thesis
  proof (cases "x < 0")
    case True
    then show ?thesis using d [of "nat (- x)"] m by (simp add: parse_int_def show_int_def read_show_nat)
  next
    case False
    then show ?thesis using d [of "nat x"] by (cases "show_nat (nat x)") (auto simp: parse_int_def show_int_def read_show_nat dest: sym)
  qed
qed

lemma store_JInt: "in_i64 x \<Longrightarrow> store_int 64 (JInt x) (y, b) = (x, b)"
  by (simp add: store_int_def JInt_def parse_show_int in_i64_def)

lemma store_JStr: "store_string (JStr s) (y, b) = (s, b)"
  by (simp add: store_string_def)

lemma store_JBool: "store_bool (JBool x) (y, b) = (x, b)"
  by (simp add: store_bool_def)

lemma store_JDur: "exact_ints rnd \<Longrightarrow> in_i64 d \<Longrightarrow> store_duration rnd (JDur d) (y, b) = (d, b)"
  by (simp add: store_duration_def durationOf_def ParseDuration_String)

lemma store_JObj: "store_struct decode (JObj ms) (y, b) = decode ms (y, b)"
  by (simp add: store_struct_def)

lemma store_elems_strings:
  "i \<le> length xs \<Longrightarrow> \<exists>ys. store_elems i (map JStr l) (xs, b) = (ys, b) \<and> take (i + length l) ys = take i xs @ l"
proof (induction l arbitrary: i xs)
  case (Cons s l)
  let ?xs = "if i < length xs then xs[i := s] else xs @ [s]"
  have "Suc i \<le> length ?xs" and t: "take (Suc i) ?xs = take i xs @ [s]" using Cons.prems by (auto simp: take_Suc_conv_app_nth)
  from Cons.IH [OF this(1)] t show ?case by (simp add: store_string_def Let_def)
qed simp

lemma fill_JStrs: "fill_slice [JStrs l] (xs, b) = (l, b)"
proof (cases l)
  case (Cons s l')
  obtain ys where "store_elems 0 (map JStr l) (xs, b) = (ys, b)" "take (length l) ys = l"
    using store_elems_strings [of 0 xs l b] by auto
  then show ?thesis using Cons by (simp add: fill_slice_def store_strings_def split_beta Let_def del: store_elems.simps)
qed (simp add: fill_slice_def store_strings_def)

lemma store_peers:
  assumes "sorted_wrt (<) (map fst m)"
  shows "store_mapping (json_map (map (apsnd JStr) m)) ([], b) = (m, b)"
proof -
  have "sort_key fst (map (apsnd JStr) m) = map (apsnd JStr) m"
    using assms by (intro sort_key_id_if_sorted) (simp add: strict_sorted_iff comp_def)
  moreover have "distinct (map fst (acc @ m)) \<Longrightarrow>
      fold (\<lambda>(k, v) (m, bad). case v of JStr s \<Rightarrow> (AList.update k s m, bad) | JNull \<Rightarrow> (AList.update k [] m, bad) | _ \<Rightarrow> (m, True)) (map (apsnd JStr) m) (acc, b) = (acc @ m, b)" for acc m
  proof (induction m arbitrary: acc)
    case (Cons p m)
    obtain k v where p: "p = (k, v)" by force
    have "k \<notin> fst ` set acc" using Cons.prems p by auto
    then have "AList.update k v acc = acc @ [(k, v)]" by (induction acc) auto
    then show ?case using Cons.IH [of "acc @ [(k, v)]"] Cons.prems p by simp
  qed simp
  from this [of "[]" m] have "fold (\<lambda>(k, v) (m, bad). case v of JStr s \<Rightarrow> (AList.update k s m, bad) | JNull \<Rightarrow> (AList.update k [] m, bad) | _ \<Rightarrow> (m, True))
      (map (apsnd JStr) m) ([], b) = (m, b)" using assms by (simp add: strict_sorted_iff)
  ultimately show ?thesis by (simp add: store_mapping_def json_map_def)
qed

section \<open>Structures read back\<close>

text \<open>What can be written: text in UTF-8, 64-bit numbers, the peers sorted by name.\<close>

definition okStability :: "stability_config \<Rightarrow> bool" where
  "okStability c \<longleftrightarrow> in_i64 (st_MaxConnections c) \<and> in_i64 (st_HTTPReadTimeout c) \<and> in_i64 (st_HTTPWriteTimeout c) \<and> in_i64 (st_HTTPIdleTimeout c) \<and>
    in_i64 (st_ShutdownTimeout c) \<and> valid_utf8 (st_PprofAddr c)"

definition okMySQL :: "mysql_config \<Rightarrow> bool" where
  "okMySQL c \<longleftrightarrow> valid_utf8 (my_DSN c)"

definition okKafka :: "kafka_config \<Rightarrow> bool" where
  "okKafka c \<longleftrightarrow> list_all valid_utf8 (kc_Brokers c) \<and> valid_utf8 (kc_Topic c)"

definition okLogic :: "logic_config \<Rightarrow> bool" where
  "okLogic c \<longleftrightarrow> valid_utf8 (lo_Addr c) \<and> valid_utf8 (lo_ListenAddr c) \<and> okMySQL (lo_MySQL c) \<and> okKafka (lo_Kafka c) \<and> in_i64 (lo_WorkerID c)"

definition okObjectStorage :: "object_storage_config \<Rightarrow> bool" where
  "okObjectStorage c \<longleftrightarrow> valid_utf8 (oc_Endpoint c) \<and> valid_utf8 (oc_AccessKey c) \<and> valid_utf8 (oc_SecretKey c) \<and> valid_utf8 (oc_Bucket c) \<and> in_i64 (oc_MaxUpload c)"

definition okGrpc :: "grpc_config \<Rightarrow> bool" where
  "okGrpc c \<longleftrightarrow> valid_utf8 (gc_Addr c) \<and> valid_utf8 (gc_NodeID c) \<and> sorted_wrt (<) (map fst (gc_PeerAddrs c)) \<and>
    list_all (\<lambda>(k, v). valid_utf8 k \<and> valid_utf8 v) (gc_PeerAddrs c) \<and> in_i64 (gc_ForwardDialTimeout c) \<and> in_i64 (gc_ForwardRPCTimeout c) \<and>
    valid_utf8 (dc_Mode (gc_Discovery c)) \<and> valid_utf8 (dc_RedisKey (gc_Discovery c)) \<and> in_i64 (dc_TTL (gc_Discovery c)) \<and> in_i64 (dc_HealthInterval (gc_Discovery c))"

definition okConn :: "conn_config \<Rightarrow> bool" where
  "okConn c \<longleftrightarrow> in_i64 (cn_PongWait c) \<and> in_i64 (cn_PingPeriod c) \<and> in_i64 (cn_MaxMsgSize c) \<and> in_i64 (cn_SendBufSize c) \<and> in_i64 (cn_OfflineMaxSize c)"

definition okGateway :: "gateway_config \<Rightarrow> bool" where
  "okGateway c \<longleftrightarrow> valid_utf8 (gw_HTTPAddr c) \<and> valid_utf8 (gw_TCPAddr c) \<and> valid_utf8 (gw_Transport c) \<and> in_i64 (gw_Heartbeat c) \<and> in_i64 (gw_HeartbeatFail c) \<and>
    list_all valid_utf8 (gw_CheckOrigin c) \<and> okConn (gw_Conn c) \<and>
    in_i64 (rt_Rate (gw_RateLimit c)) \<and> in_i64 (rt_Burst (gw_RateLimit c)) \<and> in_i64 (rt_CleanupInterval (gw_RateLimit c)) \<and>
    valid_utf8 (rd_Addr (gw_Redis c)) \<and> valid_utf8 (rd_Password (gw_Redis c)) \<and> in_i64 (rd_DB (gw_Redis c)) \<and>
    in_i64 (gn_NumEventLoops (gw_GNet c)) \<and> in_i64 (gn_WorkerPoolSize (gw_GNet c)) \<and> okMySQL (gw_MySQL c) \<and> okKafka (gw_Kafka c) \<and>
    okLogic (gw_Logic c) \<and> okGrpc (gw_Grpc c) \<and> okObjectStorage (gw_ObjectStorage c) \<and> in_i64 (gw_RecallWindowMs c) \<and>
    in_i64 (gw_HistoryDefaultLimit c) \<and> in_i64 (gw_SearchDefaultLimit c) \<and> in_i64 (gw_DedupTTL c) \<and> in_i64 (gw_PersistConcurrency c)"

definition okConfig :: "config \<Rightarrow> bool" where
  "okConfig c \<longleftrightarrow> okGateway (cf_Gateway c) \<and> okLogic (cf_Logic c) \<and> valid_utf8 (jc_Secret (cf_JWT c)) \<and> in_i64 (jc_Expiration (cf_JWT c)) \<and>
    in_i64 (cf_SnowWorkerID c) \<and> okStability (cf_Stability c) \<and> list_all valid_utf8 (cf_AdminUIDs c)"

lemma field_single:
  assumes "distinct (map (fold_name \<circ> fst) ms)" and "map_of ms n \<noteq> None"
  shows "field fill n get upd ms (r, b) = (case fill [the (map_of ms n)] (get r, b) of (x, b) \<Rightarrow> (upd (\<lambda>_. x) r, b))"
  using assms field_hit [OF assms(1)] by (auto simp: field_def)

text \<open>Tags are lower case, so that folding them keeps them apart.\<close>

definition tag_char :: "char \<Rightarrow> bool" where
  "tag_char c \<longleftrightarrow> 97 \<le> code c \<and> code c \<le> 122 \<or> c = CHR ''_''"

lemma fold_tag: "list_all tag_char s \<Longrightarrow> fold_name s = map (\<lambda>c. if c = CHR ''_'' then c else char_of (code c - 32)) s"
  by (induction s rule: fold_name.induct) (auto simp: tag_char_def)

lemma fold_tag_inject: "list_all tag_char s \<Longrightarrow> list_all tag_char t \<Longrightarrow> fold_name s = fold_name t \<Longrightarrow> s = t"
proof -
  assume s: "list_all tag_char s" and t: "list_all tag_char t" and eq: "fold_name s = fold_name t"
  let ?f = "\<lambda>c. if c = CHR ''_'' then c else char_of (code c - 32)"
  have "c = d" if c: "tag_char c" and d: "tag_char d" and f: "?f c = ?f d" for c d
  proof -
    have g: "code (?f x) = (if x = CHR ''_'' then 95 else code x - 32)" if "tag_char x" for x using that by (auto simp: tag_char_def)
    have e: "(if c = CHR ''_'' then 95 else code c - 32) = (if d = CHR ''_'' then 95 else code d - 32)" 
      using arg_cong [OF f, of code] unfolding g [OF c] g [OF d] .
    consider "c = CHR ''_''" "d = CHR ''_''" | "c = CHR ''_''" "97 \<le> code d" "code d \<le> 122" "d \<noteq> CHR ''_''"
      | "97 \<le> code c" "code c \<le> 122" "c \<noteq> CHR ''_''" "d = CHR ''_''"
      | "97 \<le> code c" "code c \<le> 122" "c \<noteq> CHR ''_''" "97 \<le> code d" "code d \<le> 122" "d \<noteq> CHR ''_''"
      using c d unfolding tag_char_def by blast
    then show "c = d"
    proof cases
      case 4
      then have "code c - 32 = code d - 32" using e by simp
      with 4 have "code c = code d" by linarith
      then show ?thesis by simp
    qed (use e in auto)
  qed
  then have "inj_on ?f (set s \<union> set t)" using s t by (intro inj_onI) (auto simp: list_all_iff)
  moreover have "map ?f s = map ?f t" using eq s t by (simp add: fold_tag)
  ultimately show "s = t" by (rule map_inj_on [rotated])
qed

lemma distinct_tags: "distinct (map fst ms) \<Longrightarrow> list_all (\<lambda>m. list_all tag_char (fst m)) ms \<Longrightarrow> distinct (map (fold_name \<circ> fst) ms)"
proof (induction ms)
  case (Cons m ms)
  have "fold_name (fst m) \<noteq> fold_name (fst x)" if "x \<in> set ms" for x
    using that Cons.prems fold_tag_inject [of "fst m" "fst x"] by (force simp: list_all_iff)
  then show ?case using Cons by (auto simp: image_iff)
qed simp

lemma distinct_names:
  "distinct (map (fold_name \<circ> fst) (encodeMySQL my))" "distinct (map (fold_name \<circ> fst) (encodeKafka ka))"
  "distinct (map (fold_name \<circ> fst) (encodeGNet gn))" "distinct (map (fold_name \<circ> fst) (encodeLogic lo))"
  "distinct (map (fold_name \<circ> fst) (encodeStability st))" "distinct (map (fold_name \<circ> fst) (encodeObjectStorage oc))"
  "distinct (map (fold_name \<circ> fst) (encodeDiscovery dc))" "distinct (map (fold_name \<circ> fst) (encodeGrpc gc))"
  "distinct (map (fold_name \<circ> fst) (encodeConn cn))" "distinct (map (fold_name \<circ> fst) (encodeRateLimit rt))"
  "distinct (map (fold_name \<circ> fst) (encodeJWT jc))" "distinct (map (fold_name \<circ> fst) (encodeRedis rd))"
  "distinct (map (fold_name \<circ> fst) (encodeGateway gw))" "distinct (map (fold_name \<circ> fst) (encodeConfig cf))"
  unfolding encodeMySQL_def encodeKafka_def encodeGNet_def encodeLogic_def encodeStability_def encodeObjectStorage_def encodeDiscovery_def
    encodeGrpc_def encodeConn_def encodeRateLimit_def encodeJWT_def encodeRedis_def encodeGateway_def encodeConfig_def
  by (rule distinct_tags; simp add: tag_char_def)+

lemmas map_of_encode =
  arg_cong [where f = map_of, OF encodeMySQL_def] arg_cong [where f = map_of, OF encodeKafka_def] arg_cong [where f = map_of, OF encodeGNet_def]
  arg_cong [where f = map_of, OF encodeLogic_def] arg_cong [where f = map_of, OF encodeStability_def] arg_cong [where f = map_of, OF encodeObjectStorage_def]
  arg_cong [where f = map_of, OF encodeDiscovery_def] arg_cong [where f = map_of, OF encodeGrpc_def] arg_cong [where f = map_of, OF encodeConn_def]
  arg_cong [where f = map_of, OF encodeRateLimit_def] arg_cong [where f = map_of, OF encodeJWT_def] arg_cong [where f = map_of, OF encodeRedis_def]
  arg_cong [where f = map_of, OF encodeGateway_def] arg_cong [where f = map_of, OF encodeConfig_def]

lemmas read_back = struct_of_def map_of_encode fill_JStrs store_JInt store_JStr store_JBool store_JDur store_JObj

lemma decodeMySQL_encode: "decodeMySQL (encodeMySQL c) (d, b) = (c, b)"
  by (simp add: decodeMySQL_def field_single [OF distinct_names(1)] read_back)

lemma decodeKafka_encode: "decodeKafka (encodeKafka c) (d, b) = (c, b)"
  by (simp add: decodeKafka_def field_single [OF distinct_names(2)] read_back)

lemma decodeGNet_encode: "in_i64 (gn_NumEventLoops c) \<Longrightarrow> in_i64 (gn_WorkerPoolSize c) \<Longrightarrow> decodeGNet (encodeGNet c) (d, b) = (c, b)"
  by (simp add: decodeGNet_def field_single [OF distinct_names(3)] read_back)

lemma decodeLogic_encode: "in_i64 (lo_WorkerID c) \<Longrightarrow> decodeLogic (encodeLogic c) (d, b) = (c, b)"
  by (simp add: decodeLogic_def field_single [OF distinct_names(4)] read_back decodeMySQL_encode decodeKafka_encode)

lemma decodeStability_encode: "exact_ints rnd \<Longrightarrow> okStability c \<Longrightarrow> decodeStability rnd (encodeStability c) (d, b) = (c, b)"
  by (simp add: decodeStability_def okStability_def field_single [OF distinct_names(5)] read_back)

lemma decodeObjectStorage_encode: "in_i64 (oc_MaxUpload c) \<Longrightarrow> decodeObjectStorage (encodeObjectStorage c) (d, b) = (c, b)"
  by (simp add: decodeObjectStorage_def field_single [OF distinct_names(6)] read_back)

lemma decodeDiscovery_encode:
  "exact_ints rnd \<Longrightarrow> in_i64 (dc_TTL c) \<Longrightarrow> in_i64 (dc_HealthInterval c) \<Longrightarrow> decodeDiscovery rnd (encodeDiscovery c) (d, b) = (c, b)"
  by (simp add: decodeDiscovery_def field_single [OF distinct_names(7)] read_back)

lemma decodeGrpc_encode: "exact_ints rnd \<Longrightarrow> okGrpc c \<Longrightarrow> gc_PeerAddrs d = [] \<Longrightarrow> decodeGrpc rnd (encodeGrpc c) (d, b) = (c, b)"
  by (simp add: decodeGrpc_def okGrpc_def field_single [OF distinct_names(8)] read_back decodeDiscovery_encode store_peers)

lemma decodeConn_encode: "exact_ints rnd \<Longrightarrow> okConn c \<Longrightarrow> decodeConn rnd (encodeConn c) (d, b) = (c, b)"
  by (simp add: decodeConn_def okConn_def field_single [OF distinct_names(9)] read_back)

lemma decodeRateLimit_encode:
  "exact_ints rnd \<Longrightarrow> in_i64 (rt_Rate c) \<Longrightarrow> in_i64 (rt_Burst c) \<Longrightarrow> in_i64 (rt_CleanupInterval c) \<Longrightarrow> decodeRateLimit rnd (encodeRateLimit c) (d, b) = (c, b)"
  by (simp add: decodeRateLimit_def field_single [OF distinct_names(10)] read_back)

lemma decodeJWT_encode: "exact_ints rnd \<Longrightarrow> in_i64 (jc_Expiration c) \<Longrightarrow> decodeJWT rnd (encodeJWT c) (d, b) = (c, b)"
  by (simp add: decodeJWT_def field_single [OF distinct_names(11)] read_back)

lemma decodeRedis_encode: "in_i64 (rd_DB c) \<Longrightarrow> decodeRedis (encodeRedis c) (d, b) = (c, b)"
  by (simp add: decodeRedis_def field_single [OF distinct_names(12)] read_back)

lemma decodeAuth_single: "decodeAuth [(''dev_mode'', JBool x)] (y, b) = (x, b)"
  by (simp add: decodeAuth_def field_values_def store_JBool)

lemma decodeSnow_single: "in_i64 x \<Longrightarrow> decodeSnow [(''worker_id'', JInt x)] (y, b) = (x, b)"
  by (simp add: decodeSnow_def field_values_def store_JInt)

lemma decodeGateway_encode:
  "exact_ints rnd \<Longrightarrow> okGateway c \<Longrightarrow> gc_PeerAddrs (gw_Grpc d) = [] \<Longrightarrow> decodeGateway rnd (encodeGateway c) (d, b) = (c, b)"
  by (simp add: decodeGateway_def okGateway_def okLogic_def okObjectStorage_def field_single [OF distinct_names(13)] read_back decodeConn_encode decodeRateLimit_encode
      decodeRedis_encode decodeGNet_encode decodeMySQL_encode decodeAuth_single decodeKafka_encode decodeLogic_encode decodeGrpc_encode decodeObjectStorage_encode)

lemma decodeConfig_encode:
  "exact_ints rnd \<Longrightarrow> okConfig c \<Longrightarrow> gc_PeerAddrs (gw_Grpc (cf_Gateway d)) = [] \<Longrightarrow> decodeConfig rnd (encodeConfig c) (d, b) = (c, b)"
  by (simp add: decodeConfig_def okConfig_def okLogic_def field_single [OF distinct_names(14)] read_back decodeGateway_encode decodeLogic_encode
      decodeJWT_encode decodeSnow_single decodeStability_encode)

section \<open>Loading what was written\<close>

lemma json_ok_scalars: "json_ok n (JInt x)" "json_ok n (JDur d)" "json_ok n (JBool b)" "json_ok n (JStr s) = valid_utf8 s"
  "0 < n \<Longrightarrow> json_ok n (JStrs xs) = list_all valid_utf8 xs"
  by (simp_all add: number_ok_int valid_DurationString list_all_iff)

lemma valid_tag: "list_all (\<lambda>c. code c < 128) s \<Longrightarrow> valid_utf8 s"
  using valid_ascii_append [of s "[]"] by (simp add: list_all_iff)

definition members_ok :: "nat \<Rightarrow> members \<Rightarrow> bool" where
  "members_ok n ms \<longleftrightarrow> list_all (\<lambda>(k, v). list_all (\<lambda>c. code c < 128) k \<and> json_ok n v) ms"

lemma json_ok_members: "0 < n \<Longrightarrow> members_ok (n - 1) ms \<Longrightarrow> json_ok n (JObj ms)"
  by (auto simp: members_ok_def list_all_iff intro!: valid_tag)

lemma members_ok_simps:
  "members_ok n []" "members_ok n ((k, v) # ms) = (list_all (\<lambda>c. code c < 128) k \<and> json_ok n v \<and> members_ok n ms)"
  by (simp_all add: members_ok_def)

lemmas written = members_ok_simps json_ok_scalars json_ok_members valid_DurationString

lemma written_parts:
  "okMySQL my \<Longrightarrow> members_ok n (encodeMySQL my)" "0 < n \<Longrightarrow> okKafka ka \<Longrightarrow> members_ok n (encodeKafka ka)"
  "members_ok n (encodeGNet gn)" "okStability st \<Longrightarrow> members_ok n (encodeStability st)"
  "okObjectStorage oc \<Longrightarrow> members_ok n (encodeObjectStorage oc)" "okConn cn \<Longrightarrow> members_ok n (encodeConn cn)"
  "members_ok n (encodeRateLimit rt)" "valid_utf8 (jc_Secret jc) \<Longrightarrow> members_ok n (encodeJWT jc)"
  "valid_utf8 (rd_Addr rd) \<Longrightarrow> valid_utf8 (rd_Password rd) \<Longrightarrow> members_ok n (encodeRedis rd)"
  "valid_utf8 (dc_Mode dc) \<Longrightarrow> valid_utf8 (dc_RedisKey dc) \<Longrightarrow> members_ok n (encodeDiscovery dc)"
  by (simp_all add: encodeMySQL_def encodeKafka_def encodeGNet_def encodeStability_def encodeObjectStorage_def encodeConn_def encodeRateLimit_def encodeJWT_def
      encodeRedis_def encodeDiscovery_def okMySQL_def okKafka_def okStability_def okObjectStorage_def written del: json_ok.simps(5,6))

lemma written_logic: "1 < n \<Longrightarrow> okLogic c \<Longrightarrow> members_ok n (encodeLogic c)"
  by (simp add: encodeLogic_def okLogic_def written written_parts del: json_ok.simps(5,6))

lemma written_peers: "0 < n \<Longrightarrow> list_all (\<lambda>(k, v). valid_utf8 k \<and> valid_utf8 v) m \<Longrightarrow> json_ok n (json_map (map (apsnd JStr) m))"
  by (fastforce simp: json_map_def list_all_iff)

lemma written_grpc: "1 < n \<Longrightarrow> okGrpc c \<Longrightarrow> members_ok n (encodeGrpc c)"
  by (simp add: encodeGrpc_def okGrpc_def written written_parts written_peers del: json_ok.simps(5,6))

lemma written_gateway: "2 < n \<Longrightarrow> okGateway c \<Longrightarrow> members_ok n (encodeGateway c)"
  by (simp add: encodeGateway_def okGateway_def written written_parts written_logic written_grpc del: json_ok.simps(5,6))

lemma written_config: "3 < n \<Longrightarrow> okConfig c \<Longrightarrow> members_ok n (encodeConfig c)"
  by (simp add: encodeConfig_def okConfig_def written written_parts written_logic written_gateway del: json_ok.simps(5,6))

text \<open>
  C20. The configuration file says everything: a configuration written as JSON with the tags of the
  structures, durations as text, is loaded unchanged, whatever the defaults were. Every field has
  its own tag and none is lost, mixed up with another or left at its default.
\<close>

theorem config_roundtrip:
  assumes "exact_ints rnd" and "okConfig cfg"
  shows "Load rnd (FileData (json_marshal (JObj (encodeConfig cfg)))) = Inr cfg"
proof -
  have "json_ok maxNestingDepth (JObj (encodeConfig cfg))"
    by (rule json_ok_members) (simp_all add: maxNestingDepth_def written_config assms(2))
  then have "json_parse (json_marshal (JObj (encodeConfig cfg))) = Some (JObj (encodeConfig cfg))" by (rule json_roundtrip)
  moreover have "gc_PeerAddrs (gw_Grpc (cf_Gateway Default)) = []" by (simp add: Default_def)
  ultimately show ?thesis using decodeConfig_encode [OF assms] by (simp add: Load_def store_JObj)
qed

theorem config_roundtrip_witness:
  "Load (\<lambda>x. x) (FileData (json_marshal (JObj (encodeConfig (Default\<lparr>cf_AdminUIDs := [''root'']\<rparr>))))) = Inr (Default\<lparr>cf_AdminUIDs := [''root'']\<rparr>)"
  by (rule config_roundtrip)
    (simp_all add: exact_ints_def okConfig_def okGateway_def okLogic_def okStability_def okMySQL_def okKafka_def okObjectStorage_def okGrpc_def okConn_def
      Default_def no_mysql_def no_kafka_def in_i64_def valid_tag del: valid_utf8.simps)

text \<open>A section the file does not name keeps its defaults; without a file all of them hold.\<close>

lemma field_absent: "field_values n ms = [] \<Longrightarrow> (\<And>r. upd (\<lambda>_. get r) r = r) \<Longrightarrow> field (fold st) n get upd ms (r, b) = (r, b)"
  by (simp add: field_def)

lemma load_missing: "Load rnd NotExist = Inr Default"
  by (simp add: Load_def)

end
